(* ===== verification/Prelude.thy ===== *)
theory Prelude
  imports Main "HOL-Library.Word"
begin

text \<open>
  Shared vocabulary of the development: the byte and error types, the sum type that
  carries Go's \<open>(value, error)\<close> results, and the generic facts on lists, maps and bytes
  that the component theories share.

  \<^item> A Go \<open>byte\<close> is an \<open>8 word\<close>; a Go \<open>string\<close> is a HOL \<open>string\<close>, one \<open>char\<close> per byte.
  \<^item> A Go result \<open>(v, err)\<close> is \<open>Inr v\<close> when \<open>err\<close> is nil and \<open>Inl e\<close> otherwise.
  \<^item> An \<open>error\<close> whose text is all the program looks at is its text (\<open>gerr\<close>); where the code
    distinguishes errors (\<open>errors.Is\<close>, \<open>errors.As\<close>) the component declares a datatype.
\<close>

section \<open>Types\<close>

type_synonym byte = "8 word"

type_synonym gerr = string

type_synonym 'a result = "gerr + 'a"

section \<open>Collections of rewrite rules\<close>

text \<open>
  \<open>frame_simps\<close> collects the facts that say which fields an operation leaves alone;
  \<open>branch_simps\<close> the equations that evaluate an operation on one of its branches.
\<close>

named_theorems frame_simps
named_theorems branch_simps

section \<open>Bytes and characters\<close>

definition byte_of_char :: "char \<Rightarrow> byte" where
  "byte_of_char c = word_of_nat (of_char c)"

definition char_of_byte :: "byte \<Rightarrow> char" where
  "char_of_byte b = char_of (unat b)"

definition bytes_of :: "string \<Rightarrow> byte list" where
  "bytes_of s = map byte_of_char s"

definition string_of :: "byte list \<Rightarrow> string" where
  "string_of bs = map char_of_byte bs"

lemma of_char_nat_less_256 [simp]: "(of_char c :: nat) < 256"
  using of_char_mod_256 [of c, where ?'a = nat] by (metis mod_less_divisor zero_less_numeral)

lemma unat_byte_of_char [simp]: "unat (byte_of_char c) = of_char c"
  by (simp add: byte_of_char_def unat_of_nat take_bit_eq_mod)

lemma char_of_byte_of_char [simp]: "char_of_byte (byte_of_char c) = c"
  by (simp add: char_of_byte_def)

lemma byte_of_char_of_byte [simp]: "byte_of_char (char_of_byte b) = b"
proof -
  have "unat b < 256" using unsigned_less [of b, where ?'a = nat] by simp
  then show ?thesis by (simp add: byte_of_char_def char_of_byte_def)
qed

lemma string_of_bytes_of [simp]: "string_of (bytes_of s) = s"
  by (simp add: string_of_def bytes_of_def comp_def)

lemma bytes_of_string_of [simp]: "bytes_of (string_of bs) = bs"
  by (simp add: string_of_def bytes_of_def comp_def)

lemma length_bytes_of [simp]: "length (bytes_of s) = length s"
  by (simp add: bytes_of_def)

lemma length_string_of [simp]: "length (string_of bs) = length bs"
  by (simp add: string_of_def)

lemma bytes_of_append [simp]: "bytes_of (s @ t) = bytes_of s @ bytes_of t"
  by (simp add: bytes_of_def)

lemma bytes_of_Nil [simp]: "bytes_of [] = []"
  by (simp add: bytes_of_def)

lemma bytes_of_eq_iff [simp]: "bytes_of s = bytes_of t \<longleftrightarrow> s = t"
  by (metis string_of_bytes_of)

text \<open>The Go conversion \<open>byte(n)\<close> of a length that fits one byte, read back with \<open>int(b)\<close>.\<close>

lemma unat_byte_of_nat [simp]: "n < 256 \<Longrightarrow> unat (word_of_nat n :: byte) = n"
  by (simp add: unat_of_nat take_bit_eq_mod)

lemma unat_byte_less [simp]: "unat (b :: byte) < 256"
  using unsigned_less [of b, where ?'a = nat] by simp

section \<open>Bounded logs\<close>

text \<open>
  The gate's and the monitor's event lists keep the most recent entries: after an append the
  slice is cut to its last \<open>n\<close> elements (\<open>xs = xs[len(xs)-n:]\<close>).
\<close>

definition keep_last :: "nat \<Rightarrow> 'a list \<Rightarrow> 'a list" where
  "keep_last n xs = (if length xs > n then drop (length xs - n) xs else xs)"

lemma keep_last_small [simp]: "length xs \<le> n \<Longrightarrow> keep_last n xs = xs"
  by (simp add: keep_last_def)

lemma length_keep_last: "length (keep_last n xs) = min n (length xs)"
  by (simp add: keep_last_def)

lemma length_keep_last_le [simp]: "length (keep_last n xs) \<le> n"
  by (simp add: length_keep_last)

lemma set_keep_last: "set (keep_last n xs) \<subseteq> set xs"
  by (auto simp: keep_last_def dest: in_set_dropD)

lemma keep_last_snoc_full:
  assumes "length xs = n" and "n > 0"
  shows "keep_last n (xs @ [x]) = tl xs @ [x]"
  using assms by (cases xs) (auto simp: keep_last_def)

lemma keep_last_snoc_mem [simp]: "n > 0 \<Longrightarrow> x \<in> set (keep_last n (xs @ [x]))"
  by (cases "length xs < n") (auto simp: keep_last_def)

lemma keep_last_Suc: "length xs = n \<Longrightarrow> n > 0 \<Longrightarrow> length (keep_last n (xs @ [x])) = n"
  by (simp add: length_keep_last)

section \<open>First match in a list\<close>

text \<open>Go's search loops return the first index whose element satisfies a test.\<close>

fun find_index :: "('a \<Rightarrow> bool) \<Rightarrow> 'a list \<Rightarrow> nat option" where
  "find_index P [] = None"
| "find_index P (x # xs) = (if P x then Some 0 else map_option Suc (find_index P xs))"

lemma find_index_Some:
  "find_index P xs = Some i \<Longrightarrow> i < length xs \<and> P (xs ! i) \<and> (\<forall>j < i. \<not> P (xs ! j))"
proof (induction xs arbitrary: i)
  case (Cons x xs)
  then show ?case
    by (auto split: if_splits simp: less_Suc_eq_0_disj)
qed simp

lemma find_index_None: "find_index P xs = None \<longleftrightarrow> (\<forall>x \<in> set xs. \<not> P x)"
  by (induction xs) auto

lemma find_index_cong_map:
  "(\<And>x. Q (f x) = P x) \<Longrightarrow> find_index Q (map f xs) = find_index P xs"
  by (induction xs) auto

lemma nth_list_update_map: "i < length xs \<Longrightarrow> map f (xs[i := x]) = (map f xs)[i := f x]"
  by (simp add: map_update)

text \<open>Go's chains of early error returns.\<close>

lemma if_Some_None: "((if P then Some x else r) = None) \<longleftrightarrow> \<not> P \<and> r = None"
  by simp

section \<open>First error of a list of results\<close>

fun first_error :: "'e option list \<Rightarrow> 'e option" where
  "first_error [] = None"
| "first_error (None # es) = first_error es"
| "first_error (Some e # es) = Some e"

lemma first_error_None [simp]: "first_error es = None \<longleftrightarrow> (\<forall>e \<in> set es. e = None)"
  by (induction es rule: first_error.induct) auto

lemma first_error_Some: "first_error es = Some e \<Longrightarrow> Some e \<in> set es"
  by (induction es rule: first_error.induct) auto

end
