(* ===== verification/Go_Net.thy ===== *)
theory Go_Net
  imports Go_Strings
begin

text \<open>
  What the program uses of Go's \<open>net\<close> package: \<open>net.IP\<close> (\<open>ParseIP\<close>, \<open>To4\<close>, \<open>Equal\<close>,
  \<open>String\<close>), \<open>net.SplitHostPort\<close> and \<open>net.JoinHostPort\<close>.

  A \<open>net.IP\<close> is the byte slice Go has; the nil slice is \<open>None\<close> of an \<open>ip option\<close>.
\<close>

section \<open>IP addresses\<close>

type_synonym ip = "byte list"

definition v4InV6Prefix :: "byte list" where
  "v4InV6Prefix = replicate 10 0 @ [0xFF, 0xFF]"

definition To4 :: "ip \<Rightarrow> ip option" where
  "To4 a = (if length a = 4 then Some a
            else if length a = 16 \<and> take 12 a = v4InV6Prefix then Some (drop 12 a) else None)"

definition To16 :: "ip \<Rightarrow> ip option" where
  "To16 a = (if length a = 4 then Some (v4InV6Prefix @ a)
             else if length a = 16 then Some a else None)"

definition ip_Equal :: "ip \<Rightarrow> ip \<Rightarrow> bool" where
  "ip_Equal a b =
    (if length a = length b then a = b
     else if length a = 4 \<and> length b = 16 then take 12 b = v4InV6Prefix \<and> a = drop 12 b
     else if length a = 16 \<and> length b = 4 then take 12 a = v4InV6Prefix \<and> drop 12 a = b
     else False)"

lemma length_v4InV6Prefix [simp]: "length v4InV6Prefix = 12"
  by (simp add: v4InV6Prefix_def)

lemma ip_Equal_refl [simp]: "ip_Equal a a"
  by (simp add: ip_Equal_def)

lemma ip_Equal_sym: "ip_Equal a b = ip_Equal b a"
  by (auto simp: ip_Equal_def)

lemma ip_Equal_same_length: "length a = length b \<Longrightarrow> ip_Equal a b \<longleftrightarrow> a = b"
  by (simp add: ip_Equal_def)

section \<open>Parsing dotted decimal\<close>

text \<open>
  \<open>netip\<close>'s \<open>parseIPv4Fields\<close>: \<open>st\<close> is true at the start and just after a dot, \<open>v\<close> and
  \<open>dl\<close> are the value and the number of digits of the current octet, \<open>fs\<close> the octets read.
\<close>

fun parse_v4 :: "string \<Rightarrow> bool \<Rightarrow> nat \<Rightarrow> nat \<Rightarrow> byte list \<Rightarrow> byte list option" where
  "parse_v4 [] st v dl fs = (if length fs < 3 then None else Some (fs @ [word_of_nat v]))"
| "parse_v4 (c # cs) st v dl fs =
    (if is_digit c then
       (if dl = 1 \<and> v = 0 then None
        else let v' = v * 10 + digit_val c in
             if v' > 255 then None else parse_v4 cs False v' (Suc dl) fs)
     else if c = CHR ''.'' then
       (if st \<or> cs = [] then None
        else if length fs = 3 then None
        else parse_v4 cs True 0 0 (fs @ [word_of_nat v]))
     else None)"

definition parseIPv4 :: "string \<Rightarrow> byte list option" where
  "parseIPv4 s = parse_v4 s True 0 0 []"

section \<open>Parsing colon-separated hexadecimal\<close>

definition is_hex :: "char \<Rightarrow> bool" where
  "is_hex c = (let n = of_char c :: nat in
     (48 \<le> n \<and> n \<le> 57) \<or> (97 \<le> n \<and> n \<le> 102) \<or> (65 \<le> n \<and> n \<le> 70))"

definition hex_val :: "char \<Rightarrow> nat" where
  "hex_val c = (let n = of_char c :: nat in
     if 48 \<le> n \<and> n \<le> 57 then n - 48 else if 97 \<le> n \<and> n \<le> 102 then n - 87 else n - 55)"

definition hex_group :: "string \<Rightarrow> nat" where
  "hex_group ds = foldl (\<lambda>acc c. acc * 16 + hex_val c) 0 ds"

text \<open>
  The loop of \<open>netip\<close>'s \<open>parseIPv6\<close>: \<open>acc\<close> holds the bytes read so far and \<open>ell\<close> the
  position of the ellipsis. \<open>step_v6\<close> reads one group: it stops with the rest of the text and
  the final \<open>acc\<close> and \<open>ell\<close> (\<open>Inr\<close>), or goes on with them (\<open>Inl\<close>); \<open>None\<close> is a syntax error.
\<close>

type_synonym v6_state = "string \<times> byte list \<times> nat option"

definition step_v6 :: "string \<Rightarrow> byte list \<Rightarrow> nat option \<Rightarrow> (v6_state + v6_state) option" where
  "step_v6 s acc ell =
    (let ds = takeWhile is_hex s; r = dropWhile is_hex s in
     if length ds > 4 \<or> ds = [] then None
     else if r \<noteq> [] \<and> hd r = CHR ''.'' then
       (if ell = None \<and> length acc \<noteq> 12 then None
        else if length acc + 4 > 16 then None
        else map_option (\<lambda>f. Inr ([], acc @ f, ell)) (parseIPv4 s))
     else let n = hex_group ds;
              acc' = acc @ [word_of_nat (n div 256), word_of_nat (n mod 256)] in
       if r = [] then Some (Inr ([], acc', ell))
       else if hd r \<noteq> CHR '':'' \<or> length r = 1 then None
       else if hd (tl r) = CHR '':'' then
         (if ell \<noteq> None then None
          else if tl (tl r) = [] then Some (Inr ([], acc', Some (length acc')))
          else Some (Inl (tl (tl r), acc', Some (length acc'))))
       else Some (Inl (tl r, acc', ell)))"

lemma step_v6_shorter: "step_v6 s acc ell = Some (Inl (t, a, e)) \<Longrightarrow> length t < length s"
proof -
  assume st: "step_v6 s acc ell = Some (Inl (t, a, e))"
  define ds r where "ds = takeWhile is_hex s" and "r = dropWhile is_hex s"
  have "length s = length ds + length r"
    unfolding ds_def r_def by (metis length_append takeWhile_dropWhile_id)
  moreover from st have "ds \<noteq> []" and "t = tl r \<or> t = tl (tl r)"
    by (auto simp: step_v6_def Let_def ds_def [symmetric] r_def [symmetric] split: if_splits)
  ultimately show ?thesis by (cases ds) auto
qed

function parse_v6 :: "string \<Rightarrow> byte list \<Rightarrow> nat option \<Rightarrow> v6_state option"
where
  "parse_v6 s acc ell =
    (if length acc \<ge> 16 then Some (s, acc, ell)
     else case step_v6 s acc ell of
        None \<Rightarrow> None
      | Some (Inr res) \<Rightarrow> Some res
      | Some (Inl (s', acc', ell')) \<Rightarrow> parse_v6 s' acc' ell')"
  by pat_completeness auto
termination
  by (relation "measure (\<lambda>(s, acc, ell). length s)") (auto dest: step_v6_shorter)

declare parse_v6.simps [simp del]

text \<open>\<open>parseIPv6\<close> without a zone: the leading ellipsis, the loop, and its expansion.\<close>

definition parseIPv6 :: "string \<Rightarrow> byte list option" where
  "parseIPv6 s =
    (let lead = HasPrefix s ''::''; s1 = (if lead then drop 2 s else s) in
     if lead \<and> s1 = [] then Some (replicate 16 0)
     else case parse_v6 s1 [] (if lead then Some 0 else None) of
        None \<Rightarrow> None
      | Some (r, acc, ell) \<Rightarrow>
          if r \<noteq> [] then None
          else if length acc < 16 then
            (case ell of None \<Rightarrow> None
             | Some e \<Rightarrow> Some (take e acc @ replicate (16 - length acc) 0 @ drop e acc))
          else (case ell of None \<Rightarrow> Some acc | Some _ \<Rightarrow> None))"

text \<open>
  \<open>net.ParseIP\<close>: the first of dot, colon and percent decides the syntax; an address with a
  zone is not accepted. The result is always in 16-byte form.
\<close>

definition addr_sep :: "char \<Rightarrow> bool" where
  "addr_sep c = (c \<in> set ''.:%'')"

definition ParseIP :: "string \<Rightarrow> ip option" where
  "ParseIP s = (case dropWhile (\<lambda>c. \<not> addr_sep c) s of
      [] \<Rightarrow> None
    | c # _ \<Rightarrow>
        if c = CHR ''.'' then map_option (\<lambda>f. v4InV6Prefix @ f) (parseIPv4 s)
        else if c = CHR '':'' then (if CHR ''%'' \<in> set s then None else parseIPv6 s)
        else None)"

lemma parse_v4_length: "parse_v4 s st v dl fs = Some r \<Longrightarrow> length fs \<le> 3 \<Longrightarrow> length r = 4"
  by (induction s st v dl fs rule: parse_v4.induct) (auto split: if_splits simp: Let_def)

lemma parseIPv4_length: "parseIPv4 s = Some r \<Longrightarrow> length r = 4"
  unfolding parseIPv4_def by (erule parse_v4_length) simp

definition v6_ok :: "byte list \<Rightarrow> nat option \<Rightarrow> bool" where
  "v6_ok acc ell = (even (length acc) \<and> length acc \<le> 16 \<and> (\<forall>k. ell = Some k \<longrightarrow> k \<le> length acc))"

lemma step_v6_ok:
  assumes ok: "v6_ok acc ell" and lt: "length acc < 16"
    and st: "step_v6 s acc ell = Some x"
  shows "case x of Inl (t, a, e) \<Rightarrow> v6_ok a e | Inr (t, a, e) \<Rightarrow> v6_ok a e"
proof -
  define ds r where "ds = takeWhile is_hex s" and "r = dropWhile is_hex s"
  have "even (length acc)" using ok by (simp add: v6_ok_def)
  with lt have len: "Suc (Suc (length acc)) \<le> 16" by presburger
  show ?thesis
    using ok len st
    by (auto simp: step_v6_def Let_def ds_def [symmetric] r_def [symmetric] v6_ok_def le_Suc_eq
        split: if_splits dest!: parseIPv4_length)
qed

lemma parse_v6_ok: "parse_v6 s acc ell = Some (r, a, e) \<Longrightarrow> v6_ok acc ell \<Longrightarrow> v6_ok a e"
proof (induction s acc ell rule: parse_v6.induct)
  case (1 s acc ell)
  show ?case
  proof (cases "length acc \<ge> 16")
    case True
    with 1 show ?thesis by (simp add: parse_v6.simps)
  next
    case False
    with 1(2) obtain x where x: "step_v6 s acc ell = Some x"
      by (cases "step_v6 s acc ell") (auto simp: parse_v6.simps [of s])
    note ok = step_v6_ok [OF 1(3) _ x]
    show ?thesis
    proof (cases x)
      case (Inl y)
      obtain s' acc' ell' where y: "y = (s', acc', ell')" by (cases y)
      with Inl x False 1(2) have "parse_v6 s' acc' ell' = Some (r, a, e)"
        by (simp add: parse_v6.simps [of s])
      moreover have "v6_ok acc' ell'" using ok False by (simp add: Inl y)
      ultimately show ?thesis using 1(1) [OF False x Inl] y by blast
    next
      case (Inr y)
      with x False 1(2) ok show ?thesis by (simp add: parse_v6.simps [of s])
    qed
  qed
qed

lemma parseIPv6_length: "parseIPv6 s = Some a \<Longrightarrow> length a = 16"
  unfolding parseIPv6_def
  by (auto simp: Let_def v6_ok_def split: if_splits option.splits prod.splits dest!: parse_v6_ok)

lemma ParseIP_length: "ParseIP s = Some a \<Longrightarrow> length a = 16"
  by (auto simp: ParseIP_def split: list.splits if_splits dest: parseIPv4_length parseIPv6_length)

section \<open>Printing\<close>

definition dotted :: "byte list \<Rightarrow> string" where
  "dotted bs = Join (map (\<lambda>b. itoa_nat (unat b)) bs) ''.''"

fun hex_nat :: "nat \<Rightarrow> string" where
  "hex_nat n = (if n < 16 then [hex_char n] else hex_nat (n div 16) @ [hex_char (n mod 16)])"

declare hex_nat.simps [simp del]

fun groups16 :: "byte list \<Rightarrow> nat list" where
  "groups16 (a # b # r) = (unat a * 256 + unat b) # groups16 r"
| "groups16 _ = []"

text \<open>The first longest run of two or more zero groups, as \<open>netip\<close>'s \<open>appendTo6\<close> finds it.\<close>

definition zero_run :: "nat list \<Rightarrow> nat \<Rightarrow> nat" where
  "zero_run gs i = length (takeWhile (\<lambda>g. g = 0) (drop i gs))"

definition longest_run :: "nat list \<Rightarrow> nat \<times> nat" where
  "longest_run gs = foldl (\<lambda>(zs, ze) i.
      if zero_run gs i \<ge> 2 \<and> zero_run gs i > ze - zs then (i, i + zero_run gs i) else (zs, ze))
    (255, 255) [0..<8]"

definition string6 :: "byte list \<Rightarrow> string" where
  "string6 bs =
    (let gs = groups16 bs; (zs, ze) = longest_run gs; hs = map hex_nat gs in
     if zs = 255 then Join hs '':'' else Join (take zs hs) '':'' @ ''::'' @ Join (drop ze hs) '':'')"

definition ip_String :: "ip \<Rightarrow> string" where
  "ip_String a =
    (if a = [] then ''<nil>''
     else if length a \<noteq> 4 \<and> length a \<noteq> 16 then ''?'' @ EncodeToString a
     else case To4 a of Some p4 \<Rightarrow> dotted p4 | None \<Rightarrow> string6 a)"

definition ip_opt_String :: "ip option \<Rightarrow> string" where
  "ip_opt_String a = (case a of None \<Rightarrow> ''<nil>'' | Some b \<Rightarrow> ip_String b)"

text \<open>Dotted decimal reads back: no octet is printed with a leading zero.\<close>

lemma itoa_nat_octet:
  assumes "n < 256"
  shows "parse_v4 (itoa_nat n @ r) True 0 0 fs =
    parse_v4 r False n (length (itoa_nat n)) fs"
proof -
  consider "n < 10" | "10 \<le> n" "n < 100" | "100 \<le> n" by linarith
  then show ?thesis
  proof cases
    case 1
    then show ?thesis by (simp add: itoa_nat.simps)
  next
    case 2
    then have s: "itoa_nat n = [digit_char (n div 10), digit_char (n mod 10)]"
      by (simp add: itoa_nat.simps [of n] itoa_nat.simps [of "n div 10"])
    have d: "n div 10 < 10" "n div 10 > 0" "n div 10 \<le> 255" using 2 by linarith+
    have m: "n div 10 * 10 + n mod 10 = n" by simp
    have z: "\<not> n < 10" using 2 by simp
    from d assms z show ?thesis by (simp add: s m)
  next
    case 3
    have e: "n div 10 div 10 < 10" "n div 10 div 10 > 0" "n div 10 \<ge> 10" "n \<ge> 10"
      using 3 assms by linarith+
    then have s: "itoa_nat n =
        [digit_char (n div 10 div 10), digit_char (n div 10 mod 10), digit_char (n mod 10)]"
      by (simp add: itoa_nat.simps [of n] itoa_nat.simps [of "n div 10"]
          itoa_nat.simps [of "n div 10 div 10"])
    have m: "n div 10 * 10 + n mod 10 = n" "n div 10 div 10 * 10 + n div 10 mod 10 = n div 10"
      by simp_all
    have b: "n div 10 div 10 \<le> 255" "n div 10 \<le> 255" using assms by linarith+
    have nz: "n div 10 \<noteq> 0" using e by linarith
    from e(1,2) assms b nz show ?thesis by (simp add: s m del: div_mult2_eq)
  qed
qed

lemma parse_v4_dot:
  "r \<noteq> [] \<Longrightarrow> length fs < 3 \<Longrightarrow>
   parse_v4 (CHR ''.'' # r) False v dl fs = parse_v4 r True 0 0 (fs @ [word_of_nat v])"
  by (simp add: is_digit_def)

lemma parseIPv4_dotted: "parseIPv4 (dotted [a, b, c, d]) = Some [a, b, c, d]"
  by (simp add: parseIPv4_def dotted_def itoa_nat_octet itoa_nat_octet [where r = "[]", simplified]
      is_digit_def)

lemma ParseIP_dotted: "ParseIP (dotted [a, b, c, d]) = Some (v4InV6Prefix @ [a, b, c, d])"
proof -
  let ?n = "itoa_nat (unat a)"
  have "\<And>x. x \<in> set ?n \<Longrightarrow> \<not> addr_sep x"
    by (auto simp: addr_sep_def is_digit_def dest!: itoa_nat_digit_set)
  then have "dropWhile (\<lambda>c. \<not> addr_sep c) (?n @ CHR ''.'' # r) = CHR ''.'' # r" for r
    by (simp add: addr_sep_def dropWhile_append2)
  then show ?thesis
    using parseIPv4_dotted [of a b c d] by (simp add: ParseIP_def dotted_def)
qed

lemma To4_v4: "length f = 4 \<Longrightarrow> To4 (v4InV6Prefix @ f) = Some f"
  by (simp add: To4_def)

lemma parse_v4_octets:
  "parse_v4 s st v dl fs = Some r \<Longrightarrow> \<exists>t. r = fs @ t"
  by (induction s st v dl fs rule: parse_v4.induct) (auto split: if_splits simp: Let_def)

section \<open>Host and port\<close>

definition AddrError :: "string \<Rightarrow> string \<Rightarrow> gerr" where
  "AddrError addr why = (if addr = [] then why else ''address '' @ addr @ '': '' @ why)"

definition quoted_char :: "char \<Rightarrow> string" where
  "quoted_char c = [CHR 0x27, c, CHR 0x27]"

definition SplitHostPort :: "string \<Rightarrow> gerr + (string \<times> string)" where
  "SplitHostPort hp =
    (case LastIndexByte hp (CHR '':'') of
       None \<Rightarrow> Inl (AddrError hp ''missing port in address'')
     | Some i \<Rightarrow>
       (let body = (if hd hp = CHR ''['' then
           (case IndexByte hp (CHR '']'') of
              None \<Rightarrow> Inl (AddrError hp (''missing '' @ quoted_char (CHR '']'') @ '' in address''))
            | Some e \<Rightarrow>
                if e + 1 = length hp then Inl (AddrError hp ''missing port in address'')
                else if e + 1 = i then Inr (drop 1 (take e hp), 1, e + 1)
                else if hp ! (e + 1) = CHR '':'' then Inl (AddrError hp ''too many colons in address'')
                else Inl (AddrError hp ''missing port in address''))
         else if CHR '':'' \<in> set (take i hp) then Inl (AddrError hp ''too many colons in address'')
         else Inr (take i hp, 0, 0))
        in case body of
             Inl er \<Rightarrow> Inl er
           | Inr (host, j, k) \<Rightarrow>
               if CHR ''['' \<in> set (drop j hp) then Inl (AddrError hp (''unexpected '' @ quoted_char (CHR ''['') @ '' in address''))
               else if CHR '']'' \<in> set (drop k hp) then Inl (AddrError hp (''unexpected '' @ quoted_char (CHR '']'') @ '' in address''))
               else Inr (host, drop (i + 1) hp)))"

definition JoinHostPort :: "string \<Rightarrow> string \<Rightarrow> string" where
  "JoinHostPort host port =
    (if CHR '':'' \<in> set host then ''['' @ host @ '']:'' @ port else host @ '':'' @ port)"

lemma find_index_append:
  "(\<forall>x \<in> set xs. \<not> P x) \<Longrightarrow> find_index P (xs @ ys) = map_option (\<lambda>i. length xs + i) (find_index P ys)"
  by (induction xs; cases "find_index P ys") auto

lemma LastIndexByte_append:
  "c \<notin> set t \<Longrightarrow> LastIndexByte (s @ c # t) c = Some (length s)"
proof -
  assume "c \<notin> set t"
  then have "find_index (\<lambda>x. x = c) (rev t @ c # rev s) = Some (length t)"
    by (subst find_index_append) auto
  then show ?thesis by (simp add: LastIndexByte_def)
qed

text \<open>Joining and splitting: a host without brackets and a port without separators survive.\<close>

lemma SplitHostPort_JoinHostPort:
  assumes "CHR ''['' \<notin> set host" "CHR '']'' \<notin> set host"
    and "CHR '':'' \<notin> set port" "CHR ''['' \<notin> set port" "CHR '']'' \<notin> set port"
  shows "SplitHostPort (JoinHostPort host port) = Inr (host, port)"
proof (cases "CHR '':'' \<in> set host")
  case True
  have i: "LastIndexByte (''['' @ host @ '']:'' @ port) (CHR '':'') = Some (length host + 2)"
    using LastIndexByte_append [OF assms(3), of "''['' @ host @ '']''"] by simp
  have e: "IndexByte (''['' @ host @ '']:'' @ port) (CHR '']'') = Some (length host + 1)"
    using assms(2) by (simp add: IndexByte_def) (subst find_index_append, auto)
  show ?thesis
    using True assms i e by (simp add: JoinHostPort_def SplitHostPort_def Let_def)
next
  case False
  have i: "LastIndexByte (host @ '':'' @ port) (CHR '':'') = Some (length host)"
    using LastIndexByte_append [OF assms(3), of host] by simp
  have h: "hd (host @ '':'' @ port) \<noteq> CHR ''[''"
    using assms(1) by (cases host) auto
  show ?thesis
    using False assms i h by (simp add: JoinHostPort_def SplitHostPort_def Let_def)
qed

end
