(* ===== verification/Socks5.thy ===== *)
theory Socks5
  imports Go_Net
begin

text \<open>
  The SOCKS5 subset of \<open>src/routing/socks5\<close>: the wire format (\<open>socks5.go\<close>), the CONNECT-only
  client dialer (\<open>client.go\<close>) and the CONNECT-only server (\<open>server.go\<close>).

  A connection is the bytes its peer sends (\<open>c_in\<close>), the bytes written to it (\<open>c_out\<close>) and how
  many more writes succeed before the peer is gone (\<open>c_wleft\<close>). A read past the end of \<open>c_in\<close>
  fails, which covers an end of file, a reset and an expired deadline alike.
\<close>

unbundle bit_operations_syntax

section \<open>Protocol constants\<close>

definition Version5 :: byte where "Version5 = 0x05"

definition MethodNoAuth :: byte where "MethodNoAuth = 0x00"
definition MethodUserPass :: byte where "MethodUserPass = 0x02"
definition MethodNoAcceptable :: byte where "MethodNoAcceptable = 0xFF"

definition CmdConnect :: byte where "CmdConnect = 0x01"
definition CmdBind :: byte where "CmdBind = 0x02"
definition CmdUDPAssociate :: byte where "CmdUDPAssociate = 0x03"

definition ATypIPv4 :: byte where "ATypIPv4 = 0x01"
definition ATypDomain :: byte where "ATypDomain = 0x03"
definition ATypIPv6 :: byte where "ATypIPv6 = 0x04"

definition RepSuccess :: byte where "RepSuccess = 0x00"
definition RepGeneralFailure :: byte where "RepGeneralFailure = 0x01"
definition RepNotAllowed :: byte where "RepNotAllowed = 0x02"
definition RepNetworkUnreachable :: byte where "RepNetworkUnreachable = 0x03"
definition RepHostUnreachable :: byte where "RepHostUnreachable = 0x04"
definition RepConnectionRefused :: byte where "RepConnectionRefused = 0x05"
definition RepTTLExpired :: byte where "RepTTLExpired = 0x06"
definition RepCommandNotSupported :: byte where "RepCommandNotSupported = 0x07"
definition RepAddrTypeNotSupported :: byte where "RepAddrTypeNotSupported = 0x08"

lemmas socks_consts = Version5_def MethodNoAuth_def MethodUserPass_def MethodNoAcceptable_def
  CmdConnect_def CmdBind_def CmdUDPAssociate_def ATypIPv4_def ATypDomain_def ATypIPv6_def
  RepSuccess_def RepGeneralFailure_def RepNotAllowed_def RepNetworkUnreachable_def
  RepHostUnreachable_def RepConnectionRefused_def RepTTLExpired_def RepCommandNotSupported_def
  RepAddrTypeNotSupported_def

definition AddrType_String :: "byte \<Rightarrow> string" where
  "AddrType_String a =
    (if a = ATypIPv4 then ''IPV4''
     else if a = ATypDomain then ''DOMAINNAME''
     else if a = ATypIPv6 then ''IPV6''
     else ''ATYP('' @ itoa_nat (unat a) @ '')'')"

section \<open>Errors\<close>

text \<open>
  What the server can learn of a failed dial: the error in its chain that \<open>errors.As\<close> and
  \<open>errors.Is\<close> find first in the order \<open>replyCodeFor\<close> asks, and its text.
\<close>

datatype dial_class = DReply byte | DConnRefused | DNetUnreach | DHostUnreach | DNoSuchHost | DOther

record dial_err =
  de_class :: dial_class
  de_text :: gerr

datatype sock_err =
    EOF
  | UnexpectedEOF
  | WriteFailed
  | UnsupportedAddrType byte
  | InvalidHostLength nat
  | InvalidPort int
  | BadPort string
  | BadAddress gerr
  | ClientVersion byte
  | NoAcceptableMethod
  | AuthFailed
  | NetworkNotSupported string
  | ProxyConnect dial_err
  | ProxyVersion byte
  | NoAuthMethod byte
  | CredentialsTooLong
  | AuthRejected
  | BadReplyVersion byte
  | ReplyError byte
  | Wrapped gerr sock_err

text \<open>The text of a \<open>*ReplyError\<close>.\<close>

definition ReplyError_Error :: "byte \<Rightarrow> string" where
  "ReplyError_Error c = ''socks5: '' @
    (if c = RepGeneralFailure then ''general failure''
     else if c = RepNotAllowed then ''connection not allowed by ruleset''
     else if c = RepNetworkUnreachable then ''network unreachable''
     else if c = RepHostUnreachable then ''host unreachable''
     else if c = RepConnectionRefused then ''connection refused''
     else if c = RepTTLExpired then ''TTL expired''
     else if c = RepCommandNotSupported then ''command not supported''
     else if c = RepAddrTypeNotSupported then ''address type not supported''
     else ''reply code 0x'' @ hex_byte c)"

section \<open>Connections\<close>

record conn =
  c_in :: "byte list"
  c_out :: "byte list"
  c_wleft :: nat

text \<open>
  \<open>io.ReadFull\<close> of \<open>n\<close> bytes: the stream's end is \<open>io.EOF\<close> before the first byte and
  \<open>io.ErrUnexpectedEOF\<close> after it.
\<close>

definition readFull :: "nat \<Rightarrow> byte list \<Rightarrow> sock_err + (byte list \<times> byte list)" where
  "readFull n bs = (if length bs < n then Inl (if bs = [] then EOF else UnexpectedEOF)
     else Inr (take n bs, drop n bs))"

definition conn_read :: "nat \<Rightarrow> conn \<Rightarrow> sock_err + (byte list \<times> conn)" where
  "conn_read n c = (case readFull n (c_in c) of
      Inl e \<Rightarrow> Inl e
    | Inr (bs, r) \<Rightarrow> Inr (bs, c\<lparr>c_in := r\<rparr>))"

definition conn_write :: "byte list \<Rightarrow> conn \<Rightarrow> sock_err option \<times> conn" where
  "conn_write bs c = (if c_wleft c = 0 then (Some WriteFailed, c)
     else (None, c\<lparr>c_out := c_out c @ bs, c_wleft := c_wleft c - 1\<rparr>))"

lemma readFull_append [simp]: "length xs = n \<Longrightarrow> readFull n (xs @ r) = Inr (xs, r)"
  by (simp add: readFull_def)

lemma readFull_0 [simp]: "readFull 0 bs = Inr ([], bs)"
  by (simp add: readFull_def)

lemma readFull_Suc_Cons [simp]:
  "readFull (Suc n) (b # bs) =
    (case readFull n bs of Inl e \<Rightarrow> Inl UnexpectedEOF | Inr (xs, r) \<Rightarrow> Inr (b # xs, r))"
  by (simp add: readFull_def)

lemma readFull_Inr: "readFull n bs = Inr (xs, r) \<longleftrightarrow> bs = xs @ r \<and> length xs = n"
  by (auto simp: readFull_def)

section \<open>Targets\<close>

record target =
  t_Type :: byte
  t_Host :: string
  t_Port :: int

definition HostPort :: "target \<Rightarrow> string" where
  "HostPort t = JoinHostPort (t_Host t) (Itoa (t_Port t))"

text \<open>The two port bytes, \<open>int(p[0])<<8 | int(p[1])\<close>.\<close>

definition port_of :: "byte \<Rightarrow> byte \<Rightarrow> int" where
  "port_of hi lo = (push_bit 8 (uint hi)) OR uint lo"

definition readPort :: "byte \<Rightarrow> string \<Rightarrow> byte list \<Rightarrow> sock_err + (target \<times> byte list)" where
  "readPort ty host bs = (case readFull 2 bs of
      Inl e \<Rightarrow> Inl e
    | Inr (p, r) \<Rightarrow> Inr (\<lparr>t_Type = ty, t_Host = host, t_Port = port_of (p ! 0) (p ! 1)\<rparr>, r))"

definition readTarget :: "byte list \<Rightarrow> sock_err + (target \<times> byte list)" where
  "readTarget bs = (case readFull 1 bs of
      Inl e \<Rightarrow> Inl e
    | Inr (at, r0) \<Rightarrow>
      (let atyp = at ! 0 in
       if atyp = ATypIPv4 then
         (case readFull 4 r0 of Inl e \<Rightarrow> Inl e | Inr (b, r1) \<Rightarrow> readPort atyp (ip_String b) r1)
       else if atyp = ATypIPv6 then
         (case readFull 16 r0 of Inl e \<Rightarrow> Inl e | Inr (b, r1) \<Rightarrow> readPort atyp (ip_String b) r1)
       else if atyp = ATypDomain then
         (case readFull 1 r0 of
            Inl e \<Rightarrow> Inl e
          | Inr (l, r1) \<Rightarrow>
             (case readFull (unat (l ! 0)) r1 of
                Inl e \<Rightarrow> Inl e
              | Inr (b, r2) \<Rightarrow> readPort atyp (string_of b) r2))
       else Inl (UnsupportedAddrType atyp)))"

definition appendTarget :: "byte list \<Rightarrow> string \<Rightarrow> int \<Rightarrow> sock_err + byte list" where
  "appendTarget buf host port =
    (case (case ParseIP host of
        Some a \<Rightarrow> (case To4 a of
            Some v4 \<Rightarrow> Inr (buf @ [ATypIPv4] @ v4)
          | None \<Rightarrow> Inr (buf @ [ATypIPv6] @ (case To16 a of Some b \<Rightarrow> b | None \<Rightarrow> [])))
      | None \<Rightarrow>
          if length host = 0 \<or> length host > 255 then Inl (InvalidHostLength (length host))
          else Inr (buf @ [ATypDomain, word_of_nat (length host)] @ bytes_of host)) of
       Inl e \<Rightarrow> Inl e
     | Inr buf' \<Rightarrow>
         if port < 0 \<or> port > 65535 then Inl (InvalidPort port)
         else Inr (buf' @ [word_of_int (drop_bit 8 port), word_of_int port]))"

definition splitHostPort :: "string \<Rightarrow> sock_err + (string \<times> int)" where
  "splitHostPort hp = (case SplitHostPort hp of
      Inl e \<Rightarrow> Inl (BadAddress e)
    | Inr (host, portStr) \<Rightarrow>
        (case Atoi portStr of None \<Rightarrow> Inl (BadPort portStr) | Some port \<Rightarrow> Inr (host, port)))"

text \<open>What the far end reads for a host: the type and the text of the host.\<close>

definition wire_type :: "string \<Rightarrow> byte" where
  "wire_type host = (case ParseIP host of
      None \<Rightarrow> ATypDomain
    | Some a \<Rightarrow> (case To4 a of Some _ \<Rightarrow> ATypIPv4 | None \<Rightarrow> ATypIPv6))"

definition wire_host :: "string \<Rightarrow> string" where
  "wire_host host = (case ParseIP host of None \<Rightarrow> host | Some a \<Rightarrow> ip_String a)"

lemma port_of_bytes:
  assumes "0 \<le> p" and "p \<le> 65535"
  shows "port_of (word_of_int (drop_bit 8 p)) (word_of_int p) = p"
proof -
  have hi: "drop_bit 8 p = p div 256" and lo: "take_bit 8 p = p mod 256"
    by (simp_all add: drop_bit_eq_div take_bit_eq_mod)
  have "take_bit 8 (drop_bit 8 p) = drop_bit 8 p"
    using assms by (simp add: hi take_bit_eq_mod)
  then have "port_of (word_of_int (drop_bit 8 p)) (word_of_int p)
      = push_bit 8 (drop_bit 8 p) OR take_bit 8 p"
    by (simp add: port_of_def uint_word_of_int_eq)
  also have "\<dots> = p"
    by (rule bit_eqI) (auto simp: bit_or_iff bit_push_bit_iff bit_drop_bit_eq bit_take_bit_iff)
  finally show ?thesis .
qed

lemma port_of_bounds: "0 \<le> port_of hi lo" "port_of hi lo \<le> 65535"
proof -
  have u: "uint hi < 256" "uint lo < 256" "0 \<le> uint hi" "0 \<le> uint lo"
    using uint_lt2p [of hi] uint_lt2p [of lo] by simp_all
  have "port_of hi lo = push_bit 8 (uint hi) + uint lo"
    unfolding port_of_def
    by (rule disjunctive_add [symmetric])
      (auto simp: bit_push_bit_iff bit_uint_iff dest: bit_imp_le_length)
  also have "\<dots> = uint hi * 256 + uint lo" by (simp add: push_bit_eq_mult)
  finally have e: "port_of hi lo = uint hi * 256 + uint lo" .
  show "0 \<le> port_of hi lo" "port_of hi lo \<le> 65535" using u e by linarith+
qed

section \<open>The server's handshake\<close>

fun replyCodeFor :: "dial_err \<Rightarrow> byte" where
  "replyCodeFor e = (case de_class e of
      DReply c \<Rightarrow> c
    | DConnRefused \<Rightarrow> RepConnectionRefused
    | DNetUnreach \<Rightarrow> RepNetworkUnreachable
    | DHostUnreach \<Rightarrow> RepHostUnreachable
    | DNoSuchHost \<Rightarrow> RepHostUnreachable
    | DOther \<Rightarrow> RepGeneralFailure)"

type_synonym authenticator = "string \<Rightarrow> string \<Rightarrow> bool"

definition readUserPass :: "authenticator \<Rightarrow> conn \<Rightarrow> sock_err option \<times> conn" where
  "readUserPass auth c = (case conn_read 2 c of
      Inl e \<Rightarrow> (Some e, c)
    | Inr (ver, c1) \<Rightarrow> (case conn_read (unat (ver ! 1)) c1 of
        Inl e \<Rightarrow> (Some e, c1)
      | Inr (user, c2) \<Rightarrow> (case conn_read 1 c2 of
          Inl e \<Rightarrow> (Some e, c2)
        | Inr (pl, c3) \<Rightarrow> (case conn_read (unat (pl ! 0)) c3 of
            Inl e \<Rightarrow> (Some e, c3)
          | Inr (pass, c4) \<Rightarrow>
              if \<not> auth (string_of user) (string_of pass)
              then (Some AuthFailed, snd (conn_write [0x01, 0x01] c4))
              else conn_write [0x01, 0x00] c4))))"

definition negotiate :: "authenticator option \<Rightarrow> conn \<Rightarrow> sock_err option \<times> conn" where
  "negotiate auth c = (case conn_read 2 c of
      Inl e \<Rightarrow> (Some e, c)
    | Inr (head, c1) \<Rightarrow>
        if head ! 0 \<noteq> Version5 then (Some (ClientVersion (head ! 0)), c1)
        else (case conn_read (unat (head ! 1)) c1 of
            Inl e \<Rightarrow> (Some e, c1)
          | Inr (methods, c2) \<Rightarrow>
             (let want = (case auth of None \<Rightarrow> MethodNoAuth | Some _ \<Rightarrow> MethodUserPass) in
              if want \<notin> set methods
              then (Some NoAcceptableMethod, snd (conn_write [Version5, MethodNoAcceptable] c2))
              else (case conn_write [Version5, want] c2 of
                  (Some e, c3) \<Rightarrow> (Some e, c3)
                | (None, c3) \<Rightarrow>
                   (case auth of None \<Rightarrow> (None, c3) | Some f \<Rightarrow> readUserPass f c3)))))"

definition reply :: "byte \<Rightarrow> conn \<Rightarrow> sock_err option \<times> conn" where
  "reply code c = conn_write [Version5, code, 0x00, ATypIPv4, 0, 0, 0, 0, 0, 0] c"

text \<open>
  The server's callbacks. \<open>sv_Refuse\<close> is the value the \<open>Refuse\<close> callback returns when it is asked
  (\<open>None\<close>: no callback is set); \<open>sv_Dial\<close> is the error of the outbound dial, if any.
\<close>

record server =
  sv_Authenticate :: "authenticator option"
  sv_Refuse :: "bool option"
  sv_Dial :: "string \<Rightarrow> dial_err option"

datatype result_err = CommandRefused byte | ErrRefused | DialFailed dial_err

text \<open>What one connection makes the server do, in order, after the handshake is parsed.\<close>

datatype hev =
    OnRequest target
  | Dialed string
  | OnResult target byte "result_err option"
  | Replied byte bool
  | Piped

definition replied :: "byte \<Rightarrow> conn \<Rightarrow> hev list \<times> conn" where
  "replied code c = (case reply code c of (e, c') \<Rightarrow> ([Replied code (e = None)], c'))"

definition serve_request :: "server \<Rightarrow> byte \<Rightarrow> target \<Rightarrow> conn \<Rightarrow> hev list \<times> conn" where
  "serve_request s cmd t c =
    (if cmd \<noteq> CmdConnect then
       apfst ((@) [OnResult t RepCommandNotSupported (Some (CommandRefused cmd))])
         (replied RepCommandNotSupported c)
     else if sv_Refuse s = Some True then
       apfst ((@) [OnResult t RepGeneralFailure (Some ErrRefused)]) (replied RepGeneralFailure c)
     else (case sv_Dial s (HostPort t) of
         Some e \<Rightarrow>
           apfst ((@) [Dialed (HostPort t), OnResult t (replyCodeFor e) (Some (DialFailed e))])
             (replied (replyCodeFor e) c)
       | None \<Rightarrow>
          (case reply RepSuccess c of
             (Some _, c') \<Rightarrow>
               ([Dialed (HostPort t), OnResult t RepSuccess None, Replied RepSuccess False], c')
           | (None, c') \<Rightarrow>
               ([Dialed (HostPort t), OnResult t RepSuccess None, Replied RepSuccess True, Piped], c'))))"

definition handle :: "server \<Rightarrow> conn \<Rightarrow> hev list \<times> conn" where
  "handle s c = (case negotiate (sv_Authenticate s) c of
      (Some _, c1) \<Rightarrow> ([], c1)
    | (None, c1) \<Rightarrow> (case conn_read 3 c1 of
        Inl _ \<Rightarrow> ([], c1)
      | Inr (head, c2) \<Rightarrow>
          if head ! 0 \<noteq> Version5 then ([], c2)
          else (case readTarget (c_in c2) of
              Inl _ \<Rightarrow> replied RepAddrTypeNotSupported c2
            | Inr (t, r) \<Rightarrow>
                apfst ((@) [OnRequest t]) (serve_request s (head ! 1) t (c2\<lparr>c_in := r\<rparr>)))))"

section \<open>The client dialer\<close>

record dialer =
  d_ProxyAddr :: string
  d_Username :: string
  d_Password :: string

definition dialer_method :: "dialer \<Rightarrow> byte" where
  "dialer_method d = (if d_Username d \<noteq> [] \<or> d_Password d \<noteq> [] then MethodUserPass else MethodNoAuth)"

definition userPass_msg :: "dialer \<Rightarrow> byte list" where
  "userPass_msg d = [0x01, word_of_nat (length (d_Username d))] @ bytes_of (d_Username d)
     @ [word_of_nat (length (d_Password d))] @ bytes_of (d_Password d)"

definition userPass :: "dialer \<Rightarrow> conn \<Rightarrow> sock_err option \<times> conn" where
  "userPass d c =
    (if length (d_Username d) > 255 \<or> length (d_Password d) > 255 then (Some CredentialsTooLong, c)
     else (case conn_write (userPass_msg d) c of
         (Some e, c1) \<Rightarrow> (Some (Wrapped ''socks5: auth: '' e), c1)
       | (None, c1) \<Rightarrow> (case conn_read 2 c1 of
           Inl e \<Rightarrow> (Some (Wrapped ''socks5: auth reply: '' e), c1)
         | Inr (resp, c2) \<Rightarrow> if resp ! 1 \<noteq> 0x00 then (Some AuthRejected, c2) else (None, c2))))"

definition connect_request :: "string \<Rightarrow> int \<Rightarrow> conn \<Rightarrow> sock_err option \<times> conn" where
  "connect_request host port c = (case appendTarget [Version5, CmdConnect, 0x00] host port of
      Inl e \<Rightarrow> (Some e, c)
    | Inr req \<Rightarrow> (case conn_write req c of
        (Some e, c1) \<Rightarrow> (Some (Wrapped ''socks5: connect request: '' e), c1)
      | (None, c1) \<Rightarrow> (case conn_read 3 c1 of
          Inl e \<Rightarrow> (Some (Wrapped ''socks5: connect reply: '' e), c1)
        | Inr (head, c2) \<Rightarrow>
            if head ! 0 \<noteq> Version5 then (Some (BadReplyVersion (head ! 0)), c2)
            else if head ! 1 \<noteq> RepSuccess then (Some (ReplyError (head ! 1)), c2)
            else (case readTarget (c_in c2) of
                Inl e \<Rightarrow> (Some (Wrapped ''socks5: bound address: '' e), c2)
              | Inr (_, r) \<Rightarrow> (None, c2\<lparr>c_in := r\<rparr>)))))"

definition handshake :: "dialer \<Rightarrow> string \<Rightarrow> int \<Rightarrow> conn \<Rightarrow> sock_err option \<times> conn" where
  "handshake d host port c =
    (case conn_write [Version5, 1, dialer_method d] c of
       (Some e, c1) \<Rightarrow> (Some (Wrapped ''socks5: greeting: '' e), c1)
     | (None, c1) \<Rightarrow> (case conn_read 2 c1 of
         Inl e \<Rightarrow> (Some (Wrapped ''socks5: greeting reply: '' e), c1)
       | Inr (resp, c2) \<Rightarrow>
           if resp ! 0 \<noteq> Version5 then (Some (ProxyVersion (resp ! 0)), c2)
           else if resp ! 1 = MethodNoAuth then connect_request host port c2
           else if resp ! 1 = MethodUserPass then
             (case userPass d c2 of
                (Some e, c3) \<Rightarrow> (Some e, c3)
              | (None, c3) \<Rightarrow> connect_request host port c3)
           else (Some (NoAuthMethod (resp ! 1)), c2)))"

text \<open>
  \<open>DialContext\<close>: \<open>dial\<close> is the dial of the proxy itself; the result carries the connection on
  success, and \<open>dx_closed\<close> the connection that was opened and closed again on a failed handshake.
\<close>

record dial_out =
  dx_result :: "sock_err + conn"
  dx_closed :: "conn option"

definition DialContext ::
  "dialer \<Rightarrow> (string \<Rightarrow> dial_err + conn) \<Rightarrow> string \<Rightarrow> string \<Rightarrow> dial_out" where
  "DialContext d dial network hostport =
    (if network \<noteq> ''tcp'' \<and> network \<noteq> ''tcp4'' \<and> network \<noteq> ''tcp6''
     then \<lparr>dx_result = Inl (NetworkNotSupported network), dx_closed = None\<rparr>
     else (case splitHostPort hostport of
         Inl e \<Rightarrow> \<lparr>dx_result = Inl e, dx_closed = None\<rparr>
       | Inr (host, port) \<Rightarrow> (case dial (d_ProxyAddr d) of
           Inl e \<Rightarrow> \<lparr>dx_result = Inl (ProxyConnect e), dx_closed = None\<rparr>
         | Inr c \<Rightarrow> (case handshake d host port c of
             (Some e, c') \<Rightarrow> \<lparr>dx_result = Inl e, dx_closed = Some c'\<rparr>
           | (None, c') \<Rightarrow> \<lparr>dx_result = Inr c', dx_closed = None\<rparr>))))"

text \<open>How a server whose outbound leg is this dialer classifies the dialer's error.\<close>

fun sock_err_class :: "sock_err \<Rightarrow> dial_class" where
  "sock_err_class (ReplyError c) = DReply c"
| "sock_err_class (ProxyConnect e) = de_class e"
| "sock_err_class (Wrapped p e) = sock_err_class e"
| "sock_err_class _ = DOther"

fun sock_err_Error :: "sock_err \<Rightarrow> string" where
  "sock_err_Error EOF = ''EOF''"
| "sock_err_Error UnexpectedEOF = ''unexpected EOF''"
| "sock_err_Error WriteFailed = ''broken pipe''"
| "sock_err_Error (UnsupportedAddrType a) = ''socks5: unsupported address type '' @ itoa_nat (unat a)"
| "sock_err_Error (InvalidHostLength n) = ''socks5: invalid hostname length '' @ itoa_nat n"
| "sock_err_Error (InvalidPort p) = ''socks5: invalid port '' @ Itoa p"
| "sock_err_Error (BadPort p) = ''socks5: bad port '' @ Quote p"
| "sock_err_Error (BadAddress e) = e"
| "sock_err_Error (ClientVersion b) = ''socks5: client version '' @ itoa_nat (unat b)"
| "sock_err_Error NoAcceptableMethod = ''socks5: no acceptable method''"
| "sock_err_Error AuthFailed = ''socks5: auth failed''"
| "sock_err_Error (NetworkNotSupported n) =
    ''socks5: network '' @ Quote n @ '' not supported (TCP only)''"
| "sock_err_Error (ProxyConnect e) = ''socks5: connect to proxy: '' @ de_text e"
| "sock_err_Error (ProxyVersion b) = ''socks5: proxy spoke version '' @ itoa_nat (unat b)"
| "sock_err_Error (NoAuthMethod b) =
    ''socks5: proxy offered no acceptable auth method (0x'' @ hex_byte b @ '')''"
| "sock_err_Error CredentialsTooLong = ''socks5: credentials too long''"
| "sock_err_Error AuthRejected = ''socks5: authentication rejected by upstream''"
| "sock_err_Error (BadReplyVersion b) = ''socks5: bad reply version '' @ itoa_nat (unat b)"
| "sock_err_Error (ReplyError c) = ReplyError_Error c"
| "sock_err_Error (Wrapped p e) = p @ sock_err_Error e"

text \<open>A SOCKS5 error as the server in front of the dialer sees it.\<close>

definition dial_err_of :: "sock_err \<Rightarrow> dial_err" where
  "dial_err_of e = \<lparr>de_class = sock_err_class e, de_text = sock_err_Error e\<rparr>"

section \<open>The target codec\<close>


lemma length_To4: "To4 a = Some v4 \<Longrightarrow> length v4 = 4"
  by (auto simp: To4_def split: if_splits)

lemma ip_String_To4:
  assumes "To4 a = Some v4" shows "ip_String v4 = ip_String a"
proof -
  have "length v4 = 4" by (rule length_To4 [OF assms])
  moreover have "a \<noteq> []" "length a = 4 \<or> length a = 16"
    using assms by (auto simp: To4_def split: if_splits)
  moreover have "v4 \<noteq> []" "To4 v4 = Some v4" using \<open>length v4 = 4\<close> by (auto simp: To4_def)
  ultimately show ?thesis using assms by (auto simp: ip_String_def)
qed

lemma readPort_bytes:
  "0 \<le> p \<Longrightarrow> p \<le> 65535 \<Longrightarrow>
   readPort ty h (word_of_int (drop_bit 8 p) # word_of_int p # r)
     = Inr (\<lparr>t_Type = ty, t_Host = h, t_Port = p\<rparr>, r)"
  by (simp add: readPort_def numeral_2_eq_2 port_of_bytes)

text \<open>The encoding of a target, without the bytes it is appended to.\<close>

definition target_bytes :: "string \<Rightarrow> int \<Rightarrow> byte list" where
  "target_bytes host port =
    (case ParseIP host of
        Some a \<Rightarrow> (case To4 a of Some v4 \<Rightarrow> ATypIPv4 # v4 | None \<Rightarrow> ATypIPv6 # a)
      | None \<Rightarrow> [ATypDomain, word_of_nat (length host)] @ bytes_of host)
    @ [word_of_int (drop_bit 8 port), word_of_int port]"

definition target_ok :: "string \<Rightarrow> int \<Rightarrow> bool" where
  "target_ok host port \<longleftrightarrow> 0 \<le> port \<and> port \<le> 65535 \<and>
     (ParseIP host = None \<longrightarrow> 0 < length host \<and> length host \<le> 255)"

lemma appendTarget_iff:
  "appendTarget buf host port = Inr out \<longleftrightarrow> target_ok host port \<and> out = buf @ target_bytes host port"
  by (auto simp: appendTarget_def target_ok_def target_bytes_def To16_def
      dest: ParseIP_length split: option.splits sum.splits if_splits)

lemma readTarget_target_bytes:
  assumes "target_ok host port"
  shows "readTarget (target_bytes host port @ r)
    = Inr (\<lparr>t_Type = wire_type host, t_Host = wire_host host, t_Port = port\<rparr>, r)"
proof (cases "ParseIP host")
  case None
  with assms have "0 < length host" "length host \<le> 255" "0 \<le> port" "port \<le> 65535"
    by (auto simp: target_ok_def)
  then show ?thesis
    using None
    by (simp add: target_bytes_def readTarget_def socks_consts Let_def readPort_bytes
        wire_type_def wire_host_def)
next
  case (Some a)
  have p: "0 \<le> port" "port \<le> 65535" using assms by (auto simp: target_ok_def)
  show ?thesis
  proof (cases "To4 a")
    case (Some v4)
    then show ?thesis
      using p \<open>ParseIP host = Some a\<close> length_To4 [OF Some] ip_String_To4 [OF Some]
      by (simp add: target_bytes_def readTarget_def socks_consts Let_def readPort_bytes
          wire_type_def wire_host_def)
  next
    case None
    then show ?thesis
      using p \<open>ParseIP host = Some a\<close> ParseIP_length [OF \<open>ParseIP host = Some a\<close>]
      by (simp add: target_bytes_def readTarget_def socks_consts Let_def readPort_bytes
          wire_type_def wire_host_def)
  qed
qed

lemma readTarget_port:
  "readTarget bs = Inr (t, r) \<Longrightarrow> 0 \<le> t_Port t \<and> t_Port t \<le> 65535"
  by (auto simp: readTarget_def readPort_def port_of_bounds Let_def
      split: sum.splits prod.splits if_splits)



section \<open>Client against server\<close>

text \<open>The bytes each side writes when the handshake goes through.\<close>

definition client_bytes :: "dialer \<Rightarrow> string \<Rightarrow> int \<Rightarrow> byte list" where
  "client_bytes d host port = [Version5, 1, dialer_method d]
     @ (if dialer_method d = MethodUserPass then userPass_msg d else [])
     @ [Version5, CmdConnect, 0x00] @ target_bytes host port"

definition server_bytes :: "dialer \<Rightarrow> byte \<Rightarrow> byte list" where
  "server_bytes d code = [Version5, dialer_method d]
     @ (if dialer_method d = MethodUserPass then [0x01, 0x00] else [])
     @ [Version5, code, 0x00, ATypIPv4, 0, 0, 0, 0, 0, 0]"

definition creds_ok :: "dialer \<Rightarrow> bool" where
  "creds_ok d \<longleftrightarrow> length (d_Username d) \<le> 255 \<and> length (d_Password d) \<le> 255"

text \<open>The server asks for what the client has, and takes it.\<close>

definition admits :: "server \<Rightarrow> dialer \<Rightarrow> bool" where
  "admits s d = (case sv_Authenticate s of
      None \<Rightarrow> dialer_method d = MethodNoAuth
    | Some f \<Rightarrow> dialer_method d = MethodUserPass \<and> f (d_Username d) (d_Password d))"

definition wire_target :: "string \<Rightarrow> int \<Rightarrow> target" where
  "wire_target host port = \<lparr>t_Type = wire_type host, t_Host = wire_host host, t_Port = port\<rparr>"

text \<open>The code the server answers a CONNECT with.\<close>

definition connect_code :: "server \<Rightarrow> string \<Rightarrow> byte" where
  "connect_code s hp = (if sv_Refuse s = Some True then RepGeneralFailure
     else case sv_Dial s hp of None \<Rightarrow> RepSuccess | Some e \<Rightarrow> replyCodeFor e)"

lemma conn_read_append [branch_simps]:
  "length xs = n \<Longrightarrow> conn_read n (c\<lparr>c_in := xs @ r\<rparr>) = Inr (xs, c\<lparr>c_in := r\<rparr>)"
  by (simp add: conn_read_def)

lemma conn_read_conn [branch_simps]:
  "length xs = n \<Longrightarrow> conn_read n \<lparr>c_in = xs @ r, c_out = out, c_wleft = w\<rparr>
     = Inr (xs, \<lparr>c_in = r, c_out = out, c_wleft = w\<rparr>)"
  by (simp add: conn_read_def)

lemma conn_write_Suc [branch_simps]:
  "conn_write bs \<lparr>c_in = i, c_out = out, c_wleft = Suc w\<rparr>
     = (None, \<lparr>c_in = i, c_out = out @ bs, c_wleft = w\<rparr>)"
  by (simp add: conn_write_def)

lemma readUserPass_msg:
  assumes "creds_ok d" and "f (d_Username d) (d_Password d)"
  shows "readUserPass f \<lparr>c_in = userPass_msg d @ r, c_out = out, c_wleft = Suc w\<rparr>
    = (None, \<lparr>c_in = r, c_out = out @ [0x01, 0x00], c_wleft = w\<rparr>)"
  using assms
  by (simp add: readUserPass_def userPass_msg_def creds_ok_def conn_read_def conn_write_Suc
      numeral_2_eq_2)

lemma negotiate_admits:
  assumes "creds_ok d" and "admits s d"
  shows "negotiate (sv_Authenticate s)
      \<lparr>c_in = [Version5, 1, dialer_method d]
         @ (if dialer_method d = MethodUserPass then userPass_msg d else []) @ r,
       c_out = out, c_wleft = Suc (Suc w)\<rparr>
    = (None, \<lparr>c_in = r,
       c_out = out @ [Version5, dialer_method d]
         @ (if dialer_method d = MethodUserPass then [0x01, 0x00] else []),
       c_wleft = (if dialer_method d = MethodUserPass then w else Suc w)\<rparr>)"
  using assms
  by (auto simp: negotiate_def admits_def conn_read_def conn_write_Suc numeral_2_eq_2 Let_def
      readUserPass_msg socks_consts split: option.splits)

lemma connect_request_reply:
  assumes "target_ok host port"
  shows "connect_request host port
      \<lparr>c_in = [Version5, code, 0x00, ATypIPv4, 0, 0, 0, 0, 0, 0] @ r, c_out = out, c_wleft = Suc w\<rparr>
    = (if code = RepSuccess then None else Some (ReplyError code),
       \<lparr>c_in = (if code = RepSuccess then r else [ATypIPv4, 0, 0, 0, 0, 0, 0] @ r),
        c_out = out @ [Version5, CmdConnect, 0x00] @ target_bytes host port, c_wleft = w\<rparr>)"
proof -
  have a: "appendTarget [Version5, CmdConnect, 0x00] host port
      = Inr ([Version5, CmdConnect, 0x00] @ target_bytes host port)"
    using assms by (simp add: appendTarget_iff)
  have t: "\<exists>t. readTarget (ATypIPv4 # 0 # 0 # 0 # 0 # 0 # 0 # r) = Inr (t, r)"
    by (simp add: readTarget_def socks_consts Let_def readPort_def readFull_def
        eval_nat_numeral)
  show ?thesis
    using t by (auto simp: connect_request_def a conn_write_Suc conn_read_def readFull_def
        eval_nat_numeral)
qed

lemma dialer_method_cases: "dialer_method d = MethodUserPass \<or> dialer_method d = MethodNoAuth"
  by (simp add: dialer_method_def)

lemma userPass_accepted:
  "creds_ok d \<Longrightarrow> userPass d \<lparr>c_in = [0x01, 0x00] @ r, c_out = out, c_wleft = Suc w\<rparr>
    = (None, \<lparr>c_in = r, c_out = out @ userPass_msg d, c_wleft = w\<rparr>)"
  by (auto simp: userPass_def creds_ok_def conn_write_Suc conn_read_def numeral_2_eq_2)

lemma handshake_server_bytes:
  assumes "creds_ok d" and "target_ok host port"
  shows "\<exists>w'. handshake d host port
      \<lparr>c_in = server_bytes d code @ r, c_out = out, c_wleft = Suc (Suc (Suc w))\<rparr>
    = (if code = RepSuccess then None else Some (ReplyError code),
       \<lparr>c_in = (if code = RepSuccess then r else [ATypIPv4, 0, 0, 0, 0, 0, 0] @ r),
        c_out = out @ client_bytes d host port, c_wleft = w'\<rparr>)"
  using dialer_method_cases [of d] userPass_accepted [OF assms(1)]
    connect_request_reply [OF assms(2)]
  by (auto simp: handshake_def server_bytes_def client_bytes_def conn_write_Suc conn_read_def
      numeral_2_eq_2 socks_consts)

text \<open>The events of a request, by the server's answer.\<close>

lemma serve_connect:
  "serve_request s CmdConnect t \<lparr>c_in = r, c_out = out, c_wleft = Suc w\<rparr>
    = ((if sv_Refuse s = Some True then [OnResult t RepGeneralFailure (Some ErrRefused), Replied RepGeneralFailure True]
        else case sv_Dial s (HostPort t) of
            None \<Rightarrow> [Dialed (HostPort t), OnResult t RepSuccess None, Replied RepSuccess True, Piped]
          | Some e \<Rightarrow> [Dialed (HostPort t), OnResult t (replyCodeFor e) (Some (DialFailed e)),
                       Replied (replyCodeFor e) True]),
       \<lparr>c_in = r,
        c_out = out @ [Version5, connect_code s (HostPort t), 0x00, ATypIPv4, 0, 0, 0, 0, 0, 0],
        c_wleft = w\<rparr>)"
  by (simp add: serve_request_def connect_code_def reply_def replied_def conn_write_Suc
      split: option.splits)

lemma handle_client_bytes:
  assumes "creds_ok d" and "target_ok host port" and "admits s d"
  shows "\<exists>w' tr. handle s \<lparr>c_in = client_bytes d host port @ r, c_out = out, c_wleft = Suc (Suc (Suc w))\<rparr>
    = (OnRequest (wire_target host port) # tr,
       \<lparr>c_in = r,
        c_out = out @ server_bytes d (connect_code s (HostPort (wire_target host port))),
        c_wleft = w'\<rparr>)
    \<and> (Piped \<in> set tr \<longleftrightarrow>
        sv_Refuse s \<noteq> Some True \<and> sv_Dial s (HostPort (wire_target host port)) = None)"
proof -
  have rt: "readTarget (target_bytes host port @ r) = Inr (wire_target host port, r)"
    using readTarget_target_bytes [OF assms(2)] by (simp add: wire_target_def)
  have ng: "negotiate (sv_Authenticate s)
      \<lparr>c_in = client_bytes d host port @ r, c_out = out, c_wleft = Suc (Suc (Suc w))\<rparr>
    = (None, \<lparr>c_in = Version5 # CmdConnect # 0 # target_bytes host port @ r,
       c_out = out @ [Version5, dialer_method d]
         @ (if dialer_method d = MethodUserPass then [0x01, 0x00] else []),
       c_wleft = Suc (if dialer_method d = MethodUserPass then w else Suc w)\<rparr>)"
    using negotiate_admits [OF assms(1,3), of "[Version5, CmdConnect, 0x00] @ target_bytes host port @ r"
        out "Suc w"]
    by (simp add: client_bytes_def)
  show ?thesis
    by (auto simp: handle_def ng conn_read_def rt serve_connect server_bytes_def readFull_def
        eval_nat_numeral split: option.splits)
qed

text \<open>The traces one request can leave.\<close>

definition request_trace :: "server \<Rightarrow> byte \<Rightarrow> target \<Rightarrow> bool \<Rightarrow> hev list" where
  "request_trace s cmd t ok = OnRequest t #
    (if cmd \<noteq> CmdConnect then
       [OnResult t RepCommandNotSupported (Some (CommandRefused cmd)), Replied RepCommandNotSupported ok]
     else if sv_Refuse s = Some True then
       [OnResult t RepGeneralFailure (Some ErrRefused), Replied RepGeneralFailure ok]
     else case sv_Dial s (HostPort t) of
         Some e \<Rightarrow> [Dialed (HostPort t), OnResult t (replyCodeFor e) (Some (DialFailed e)),
                   Replied (replyCodeFor e) ok]
       | None \<Rightarrow> [Dialed (HostPort t), OnResult t RepSuccess None, Replied RepSuccess ok]
                 @ (if ok then [Piped] else []))"

lemma serve_request_trace:
  "\<exists>ok. OnRequest t # fst (serve_request s cmd t c) = request_trace s cmd t ok"
  by (auto simp: serve_request_def request_trace_def replied_def
      split: option.splits prod.splits)

lemma handle_trace:
  "fst (handle s c) = [] \<or> (\<exists>ok. fst (handle s c) = [Replied RepAddrTypeNotSupported ok])
    \<or> (\<exists>cmd t ok. fst (handle s c) = request_trace s cmd t ok \<and> 0 \<le> t_Port t \<and> t_Port t \<le> 65535)"
proof (cases "\<exists>c1 head c2 t r. negotiate (sv_Authenticate s) c = (None, c1)
    \<and> conn_read 3 c1 = Inr (head, c2) \<and> head ! 0 = Version5 \<and> readTarget (c_in c2) = Inr (t, r)")
  case True
  then obtain c1 head c2 t r where h: "negotiate (sv_Authenticate s) c = (None, c1)"
    "conn_read 3 c1 = Inr (head, c2)" "head ! 0 = Version5" "readTarget (c_in c2) = Inr (t, r)"
    by blast
  then have "fst (handle s c) = OnRequest t # fst (serve_request s (head ! 1) t (c2\<lparr>c_in := r\<rparr>))"
    by (simp add: handle_def)
  then show ?thesis
    using serve_request_trace [of t s "head ! 1" "c2\<lparr>c_in := r\<rparr>"] readTarget_port [OF h(4)] by metis
next
  case False
  then show ?thesis
    by (auto simp: handle_def replied_def split: prod.splits option.splits sum.splits)
qed

text \<open>No request is looked at before the authenticator has accepted the client.\<close>

lemma conn_read_Inr:
  "conn_read n c = Inr (bs, c') \<Longrightarrow> c_in c = bs @ c_in c' \<and> length bs = n"
  by (auto simp: conn_read_def readFull_Inr split: sum.splits)

lemma word_of_nat_unat_length: "length bs = unat (b :: byte) \<Longrightarrow> b = word_of_nat (length bs)"
  by simp

lemma list_length_1: "length xs = 1 \<Longrightarrow> xs = [xs ! 0]"
  by (cases xs) auto

lemma list_length_2: "length xs = 2 \<Longrightarrow> xs = [xs ! 0, xs ! 1]"
  by (cases xs; cases "tl xs") auto

lemma readUserPass_None:
  assumes "readUserPass f c = (None, c')"
  shows "\<exists>v user pass r. f user pass \<and>
    c_in c = [v, word_of_nat (length user)] @ bytes_of user @ [word_of_nat (length pass)] @ bytes_of pass @ r"
proof -
  obtain ver c1 user c2 pl c3 pass c4 where r: "conn_read 2 c = Inr (ver, c1)"
      "conn_read (unat (ver ! 1)) c1 = Inr (user, c2)" "conn_read 1 c2 = Inr (pl, c3)"
      "conn_read (unat (pl ! 0)) c3 = Inr (pass, c4)" "f (string_of user) (string_of pass)"
    using assms by (auto simp: readUserPass_def split: sum.splits if_splits)
  have "c_in c = [ver ! 0, ver ! 1] @ user @ [pl ! 0] @ pass @ c_in c4"
    using r(1-4)[THEN conn_read_Inr] list_length_2 [of ver] list_length_1 [of pl] by simp
  moreover have "ver ! 1 = word_of_nat (length user)" "pl ! 0 = word_of_nat (length pass)"
    using r(2,4)[THEN conn_read_Inr] by simp_all
  ultimately show ?thesis
    using r(5) by (intro exI [of _ "ver ! 0"] exI [of _ "string_of user"]
        exI [of _ "string_of pass"] exI [of _ "c_in c4"]) simp
qed

lemma negotiate_authenticated:
  assumes "negotiate (Some f) c = (None, c')"
  shows "\<exists>methods v user pass r. f user pass \<and> MethodUserPass \<in> set methods \<and>
    c_in c = [Version5, word_of_nat (length methods)] @ methods @ [v, word_of_nat (length user)]
      @ bytes_of user @ [word_of_nat (length pass)] @ bytes_of pass @ r"
proof -
  obtain head c1 methods c2 c3 where r: "conn_read 2 c = Inr (head, c1)" "head ! 0 = Version5"
      "conn_read (unat (head ! 1)) c1 = Inr (methods, c2)" "MethodUserPass \<in> set methods"
      "conn_write [Version5, MethodUserPass] c2 = (None, c3)" "readUserPass f c3 = (None, c')"
    using assms by (auto simp: negotiate_def Let_def split: sum.splits if_splits prod.splits option.splits)
  have "c_in c3 = c_in c2" using r(5) by (auto simp: conn_write_def split: if_splits)
  moreover have "c_in c = [Version5, head ! 1] @ methods @ c_in c2" "head ! 1 = word_of_nat (length methods)"
    using r(1,3)[THEN conn_read_Inr] list_length_2 [of head] r(2) by auto
  ultimately show ?thesis
    using readUserPass_None [OF r(6)] r(4) by (intro exI [of _ methods]) auto
qed

lemma handle_authenticated:
  assumes "sv_Authenticate s = Some f" and "fst (handle s c) \<noteq> []"
  shows "\<exists>methods v user pass r. f user pass \<and> MethodUserPass \<in> set methods \<and>
    c_in c = [Version5, word_of_nat (length methods)] @ methods @ [v, word_of_nat (length user)]
      @ bytes_of user @ [word_of_nat (length pass)] @ bytes_of pass @ r"
  using assms negotiate_authenticated [of f c]
  by (auto simp: handle_def split: prod.splits option.splits)
section \<open>Properties\<close>

text \<open>
  A target encoded by the client is read back by the server: for every host and port that
  \<open>appendTarget\<close> accepts, \<open>readTarget\<close> on the appended bytes returns the host's wire type and
  text and the same port, and leaves the rest of the stream untouched.
\<close>

theorem socks_target_roundtrip:
  assumes "appendTarget buf host port = Inr out"
  shows "\<exists>enc. out = buf @ enc \<and> (\<forall>r. readTarget (enc @ r)
    = Inr (\<lparr>t_Type = wire_type host, t_Host = wire_host host, t_Port = port\<rparr>, r))"
  using assms readTarget_target_bytes [of host port] by (auto simp: appendTarget_iff)

theorem socks_target_roundtrip_witness:
  "\<exists>enc. [5, 1, 0, 3, 4, 97, 46, 105, 111, 1, 187] = [5, 1, 0] @ enc \<and> (\<forall>r. readTarget (enc @ r)
    = Inr (\<lparr>t_Type = wire_type ''a.io'', t_Host = wire_host ''a.io'', t_Port = 443\<rparr>, r))"
proof (rule socks_target_roundtrip)
  show "appendTarget [5, 1, 0] ''a.io'' 443 = Inr [5, 1, 0, 3, 4, 97, 46, 105, 111, 1, 187]"
    by code_simp
qed

text \<open>
  C12: Client and server meet. When the server admits the client's credentials and the target can
  be encoded, the bytes each side writes are the bytes the other reads: the server sees the
  target, answers with the code its gate and its dial decide, pipes exactly when it is not
  refusing and the dial succeeded, and the client succeeds on code 0 and reports the code as a
  \<open>ReplyError\<close> otherwise.
\<close>

theorem socks_handshake_meets:
  fixes s d host port code
  assumes "creds_ok d" and "target_ok host port" and "admits s d"
    and "code = connect_code s (HostPort (wire_target host port))"
  shows "\<exists>w1 w2 tr rest.
    handle s \<lparr>c_in = client_bytes d host port, c_out = [], c_wleft = 3\<rparr>
      = (OnRequest (wire_target host port) # tr,
         \<lparr>c_in = [], c_out = server_bytes d code, c_wleft = w1\<rparr>)
    \<and> (Piped \<in> set tr \<longleftrightarrow>
        sv_Refuse s \<noteq> Some True \<and> sv_Dial s (HostPort (wire_target host port)) = None)
    \<and> handshake d host port \<lparr>c_in = server_bytes d code, c_out = [], c_wleft = 3\<rparr>
      = (if code = RepSuccess then None else Some (ReplyError code),
         \<lparr>c_in = rest, c_out = client_bytes d host port, c_wleft = w2\<rparr>)
    \<and> (code = RepSuccess \<longrightarrow> rest = [])"
  using handle_client_bytes [OF assms(1-3), of "[]" "[]" 0]
    handshake_server_bytes [OF assms(1,2), of code "[]" "[]" 0]
  by (auto simp: assms(4) numeral_3_eq_3)

theorem socks_handshake_meets_witness:
  "\<exists>w1 w2 tr rest.
    handle \<lparr>sv_Authenticate = Some (\<lambda>u p. u = ''u'' \<and> p = ''pw''), sv_Refuse = Some False, sv_Dial = (\<lambda>_. None)\<rparr>
      \<lparr>c_in = client_bytes \<lparr>d_ProxyAddr = ''p:1'', d_Username = ''u'', d_Password = ''pw''\<rparr> ''a.io'' 443,
       c_out = [], c_wleft = 3\<rparr>
      = (OnRequest (wire_target ''a.io'' 443) # tr,
         \<lparr>c_in = [], c_out = server_bytes \<lparr>d_ProxyAddr = ''p:1'', d_Username = ''u'', d_Password = ''pw''\<rparr> RepSuccess,
          c_wleft = w1\<rparr>)
    \<and> Piped \<in> set tr
    \<and> handshake \<lparr>d_ProxyAddr = ''p:1'', d_Username = ''u'', d_Password = ''pw''\<rparr> ''a.io'' 443
       \<lparr>c_in = server_bytes \<lparr>d_ProxyAddr = ''p:1'', d_Username = ''u'', d_Password = ''pw''\<rparr> RepSuccess,
        c_out = [], c_wleft = 3\<rparr>
      = (None,
         \<lparr>c_in = rest, c_out = client_bytes \<lparr>d_ProxyAddr = ''p:1'', d_Username = ''u'', d_Password = ''pw''\<rparr> ''a.io'' 443,
          c_wleft = w2\<rparr>) \<and> rest = []"
proof -
  let ?d = "\<lparr>d_ProxyAddr = ''p:1'', d_Username = ''u'', d_Password = ''pw''\<rparr>"
  let ?s = "\<lparr>sv_Authenticate = Some (\<lambda>u p. u = ''u'' \<and> p = ''pw''), sv_Refuse = Some False,
    sv_Dial = (\<lambda>_. None)\<rparr>"
  have "creds_ok ?d" by (simp add: creds_ok_def)
  moreover have "target_ok ''a.io'' 443" by code_simp
  moreover have "admits ?s ?d" by (simp add: admits_def dialer_method_def)
  moreover have "RepSuccess = connect_code ?s (HostPort (wire_target ''a.io'' 443))"
    by (simp add: connect_code_def)
  ultimately show ?thesis using socks_handshake_meets [of ?d "''a.io''" 443 ?s RepSuccess] by auto
qed


text \<open>
  With an authenticator set, the server answers, dials or records nothing before the client
  has offered user/password authentication and sent a pair the authenticator accepts.
\<close>

theorem socks_authenticated_first:
  assumes "sv_Authenticate s = Some f" and "fst (handle s c) \<noteq> []"
  shows "\<exists>methods v user pass r. f user pass \<and> MethodUserPass \<in> set methods \<and>
    c_in c = [Version5, word_of_nat (length methods)] @ methods @ [v, word_of_nat (length user)]
      @ bytes_of user @ [word_of_nat (length pass)] @ bytes_of pass @ r"
  using assms by (rule handle_authenticated)

theorem socks_authenticated_first_witness:
  "\<exists>methods v user pass r. user = ''u'' \<and> pass = ''pw'' \<and> MethodUserPass \<in> set methods \<and>
    [5, 1, 2, 1, 1, 117, 2, 112, 119, 5, 1, 0, 3, 1, 97, 0, 80] =
      [Version5, word_of_nat (length methods)] @ methods @ [v, word_of_nat (length user)]
      @ bytes_of user @ [word_of_nat (length pass)] @ bytes_of pass @ r"
proof -
  let ?f = "\<lambda>u p. u = ''u'' \<and> p = ''pw''"
  let ?s = "\<lparr>sv_Authenticate = Some ?f, sv_Refuse = None, sv_Dial = (\<lambda>_. None)\<rparr>"
  let ?c = "\<lparr>c_in = [5, 1, 2, 1, 1, 117, 2, 112, 119, 5, 1, 0, 3, 1, 97, 0, 80], c_out = [],
    c_wleft = 3\<rparr>"
  have "fst (handle ?s ?c) \<noteq> []" by code_simp
  with socks_authenticated_first [of ?s ?f ?c] show ?thesis by auto
qed

text \<open>
  The dialer follows a proxy that picks a method it did not offer: configured with
  credentials it offers only user/password, but when the proxy answers \<open>no authentication\<close> the
  handshake completes and the credentials are never sent.
\<close>

theorem socks_unoffered_method:
  assumes "d_Username d \<noteq> []" and "target_ok host port"
  shows "\<exists>w. handshake d host port
      \<lparr>c_in = [Version5, MethodNoAuth, Version5, RepSuccess, 0, ATypIPv4, 0, 0, 0, 0, 0, 0],
       c_out = [], c_wleft = 3\<rparr>
    = (None, \<lparr>c_in = [], c_out = [Version5, 1, MethodUserPass, Version5, CmdConnect, 0]
        @ target_bytes host port, c_wleft = w\<rparr>)"
  using assms(1) connect_request_reply [OF assms(2), of RepSuccess "[]" "[Version5, 1, MethodUserPass]" 1]
  by (simp add: handshake_def dialer_method_def conn_write_def conn_read_def readFull_def
      numeral_3_eq_3 numeral_2_eq_2)

theorem socks_unoffered_method_witness:
  "\<exists>w. handshake \<lparr>d_ProxyAddr = ''p:1'', d_Username = ''u'', d_Password = ''pw''\<rparr> ''a.io'' 443
      \<lparr>c_in = [Version5, MethodNoAuth, Version5, RepSuccess, 0, ATypIPv4, 0, 0, 0, 0, 0, 0],
       c_out = [], c_wleft = 3\<rparr>
    = (None, \<lparr>c_in = [], c_out = [Version5, 1, MethodUserPass, Version5, CmdConnect, 0]
        @ target_bytes ''a.io'' 443, c_wleft = w\<rparr>)"
proof (rule socks_unoffered_method)
  show "target_ok ''a.io'' 443" by code_simp
qed simp

end
