(* ===== verification/WireGuard.thy ===== *)
theory WireGuard
  imports Go_Encoding Socks5
begin

text \<open>
  The userspace WireGuard tunnel of \<open>src/routing/wireguard\<close>: keys (\<open>keys.go\<close>), and the
  configuration, handshake wait and life cycle of a tunnel (\<open>tunnel.go\<close>).

  The WireGuard device and its network stack are third-party code: what they answer (the outcome
  of \<open>CreateNetTUN\<close>, \<open>IpcSet\<close>, \<open>Up\<close> and the dial, and the text of \<open>IpcGet\<close>) are parameters.
\<close>

section \<open>Keys\<close>

type_synonym key = "byte list"

text \<open>\<open>GeneratePrivateKey\<close> on the 32 random bytes: the clamping of Curve25519.\<close>

unbundle bit_operations_syntax

definition GeneratePrivateKey :: "key \<Rightarrow> key" where
  "GeneratePrivateKey k =
    (let k1 = k[0 := (k ! 0) AND 248];
         k2 = k1[31 := (k1 ! 31) AND 127]
     in k2[31 := (k2 ! 31) OR 64])"

definition Key_Hex :: "key \<Rightarrow> string" where
  "Key_Hex k = EncodeToString k"

definition Key_Base64 :: "key \<Rightarrow> string" where
  "Key_Base64 k = b64_encode k"

definition ParseKey :: "string \<Rightarrow> key result" where
  "ParseKey s =
    (if s = [] then Inl ''wireguard: empty key''
     else case hex_DecodeString s of
        Some b \<Rightarrow> if length b = 32 then Inr b
          else (case b64_decode s of
              Some b' \<Rightarrow> if length b' = 32 then Inr b'
                else Inl ''wireguard: key must be 32-byte hex or base64''
            | None \<Rightarrow> Inl ''wireguard: key must be 32-byte hex or base64'')
      | None \<Rightarrow> (case b64_decode s of
              Some b' \<Rightarrow> if length b' = 32 then Inr b'
                else Inl ''wireguard: key must be 32-byte hex or base64''
            | None \<Rightarrow> Inl ''wireguard: key must be 32-byte hex or base64''))"

lemma ParseKey_length: "ParseKey s = Inr k \<Longrightarrow> length k = 32"
  by (auto simp: ParseKey_def split: if_splits option.splits)

lemma ParseKey_Hex:
  assumes "length k = 32" shows "ParseKey (Key_Hex k) = Inr k"
proof -
  have "EncodeToString k \<noteq> []" using assms length_EncodeToString [of k] by (metis length_0_conv
        mult_is_0 zero_neq_numeral)
  then show ?thesis using assms by (simp add: ParseKey_def Key_Hex_def)
qed

lemma ParseKey_Base64:
  assumes "length k = 32" shows "ParseKey (Key_Base64 k) = Inr k"
proof -
  have len: "length (b64_encode k) = 44" using assms by (simp add: length_b64_encode)
  then have "\<And>b. hex_DecodeString (b64_encode k) = Some b \<Longrightarrow> length b \<noteq> 32"
    using length_hex_DecodeString by fastforce
  moreover have "b64_encode k \<noteq> []" using len by auto
  ultimately show ?thesis
    using assms by (auto simp: ParseKey_def Key_Base64_def split: option.splits)
qed

section \<open>Addresses\<close>

text \<open>A \<open>netip.Addr\<close>: 4 or 16 bytes and the zone of an IPv6 address.\<close>

record addr =
  a_bytes :: ip
  a_zone :: string

definition ParseAddr :: "string \<Rightarrow> addr option" where
  "ParseAddr s = (case dropWhile (\<lambda>c. \<not> addr_sep c) s of
      [] \<Rightarrow> None
    | c # _ \<Rightarrow>
        if c = CHR ''.'' then map_option (\<lambda>b. \<lparr>a_bytes = b, a_zone = []\<rparr>) (parseIPv4 s)
        else if c = CHR '':'' then
          (case Cut s (CHR ''%'') of
             (body, zone, found) \<Rightarrow>
               if found \<and> zone = [] then None
               else map_option (\<lambda>b. \<lparr>a_bytes = b, a_zone = zone\<rparr>) (parseIPv6 body))
        else None)"

definition ParsePrefix :: "string \<Rightarrow> (addr \<times> int) option" where
  "ParsePrefix s = (case LastIndexByte s (CHR ''/'') of
      None \<Rightarrow> None
    | Some i \<Rightarrow> (case ParseAddr (take i s) of
        None \<Rightarrow> None
      | Some a \<Rightarrow>
          if a_zone a \<noteq> [] then None
          else let bits = drop (Suc i) s in
            if length bits > 1 \<and> (of_char (hd bits) < (49 :: nat) \<or> of_char (hd bits) > (57 :: nat)) then None
            else (case Atoi bits of
                None \<Rightarrow> None
              | Some n \<Rightarrow>
                  if n < 0 \<or> n > (if length (a_bytes a) = 4 then 32 else 128) then None
                  else Some (a, n))))"

definition parseAddr :: "string \<Rightarrow> addr option" where
  "parseAddr s = (let t = TrimSpace s in
     case ParsePrefix t of Some (a, _) \<Rightarrow> Some a | None \<Rightarrow> ParseAddr t)"

definition addr_String :: "addr \<Rightarrow> string" where
  "addr_String a =
    (if length (a_bytes a) = 4 then dotted (a_bytes a)
     else (case To4 (a_bytes a) of
         Some v4 \<Rightarrow> ''::ffff:'' @ dotted v4
       | None \<Rightarrow> string6 (a_bytes a))
      @ (if a_zone a = [] then [] else CHR ''%'' # a_zone a))"

section \<open>Configuration\<close>

record wg_config =
  wc_PrivateKey :: string
  wc_PeerPublicKey :: string
  wc_Endpoint :: string
  wc_LocalAddress :: string
  wc_LocalAddress6 :: string
  wc_DNS :: string
  wc_MTU :: int
  wc_ListenPort :: int

datatype wg_err =
    PrivateKeyErr gerr
  | PeerKeyErr gerr
  | EndpointErr gerr
  | LocalAddressErr
  | DNSErr
  | LocalAddress6Err
  | NetstackErr gerr
  | ConfigureErr gerr
  | UpErr gerr
  | HandshakeTimeout

text \<open>The prefix of each error; the parser's own text of a bad address is left out.\<close>

fun wg_err_Error :: "wg_err \<Rightarrow> string" where
  "wg_err_Error (PrivateKeyErr e) = ''private key: '' @ e"
| "wg_err_Error (PeerKeyErr e) = ''peer key: '' @ e"
| "wg_err_Error (EndpointErr e) = ''endpoint: '' @ e"
| "wg_err_Error LocalAddressErr = ''local address: ''"
| "wg_err_Error DNSErr = ''dns: ''"
| "wg_err_Error LocalAddress6Err = ''local address6: ''"
| "wg_err_Error (NetstackErr e) = ''netstack: '' @ e"
| "wg_err_Error (ConfigureErr e) = ''wireguard configure: '' @ e"
| "wg_err_Error (UpErr e) = ''wireguard up: '' @ e"
| "wg_err_Error HandshakeTimeout = ''wireguard: handshake timed out''"

text \<open>The loop over the comma-separated resolvers: blanks are skipped, the first bad one fails.\<close>

fun parse_dns :: "string list \<Rightarrow> addr list option" where
  "parse_dns [] = Some []"
| "parse_dns (p # ps) = (let q = TrimSpace p in
    if q = [] then parse_dns ps
    else case ParseAddr q of
        None \<Rightarrow> None
      | Some a \<Rightarrow> map_option ((#) a) (parse_dns ps))"

definition default_dns :: addr where
  "default_dns = \<lparr>a_bytes = [10, 64, 0, 1], a_zone = []\<rparr>"

definition nl :: string where "nl = [CHR 0x0A]"

definition uapi_text :: "wg_config \<Rightarrow> key \<Rightarrow> key \<Rightarrow> string" where
  "uapi_text c priv pub =
     ''private_key='' @ Key_Hex priv @ nl
     @ (if wc_ListenPort c > 0 then ''listen_port='' @ Itoa (wc_ListenPort c) @ nl else [])
     @ ''public_key='' @ Key_Hex pub @ nl
     @ ''endpoint='' @ wc_Endpoint c @ nl
     @ ''allowed_ip=0.0.0.0/0'' @ nl
     @ ''allowed_ip=::/0'' @ nl
     @ ''persistent_keepalive_interval=25'' @ nl"

definition uapi :: "wg_config \<Rightarrow> wg_err + (string \<times> addr \<times> addr list \<times> int)" where
  "uapi c = (case ParseKey (wc_PrivateKey c) of
      Inl e \<Rightarrow> Inl (PrivateKeyErr e)
    | Inr priv \<Rightarrow> (case ParseKey (wc_PeerPublicKey c) of
        Inl e \<Rightarrow> Inl (PeerKeyErr e)
      | Inr pub \<Rightarrow> (case SplitHostPort (wc_Endpoint c) of
          Inl e \<Rightarrow> Inl (EndpointErr e)
        | Inr _ \<Rightarrow>
           (let l0 = TrimSpace (wc_LocalAddress c);
                local = (case ParsePrefix l0 of Some (a, _) \<Rightarrow> addr_String a | None \<Rightarrow> l0)
            in case parseAddr local of
                 None \<Rightarrow> Inl LocalAddressErr
               | Some laddr \<Rightarrow> (case parse_dns (Split (wc_DNS c) (CHR '','')) of
                   None \<Rightarrow> Inl DNSErr
                 | Some ds \<Rightarrow>
                     Inr (uapi_text c priv pub, laddr, (if ds = [] then [default_dns] else ds),
                          (if wc_MTU c \<le> 0 then 1420 else wc_MTU c)))))))"

section \<open>Tunnels\<close>

record tunnel =
  tn_cfg :: wg_config
  tn_closed :: bool

text \<open>What the device answers while it is configured.\<close>

record wg_device =
  dv_CreateNetTUN :: "addr list \<Rightarrow> addr list \<Rightarrow> int \<Rightarrow> gerr option"
  dv_IpcSet :: "string \<Rightarrow> gerr option"
  dv_Up :: "gerr option"

text \<open>\<open>Open\<close>: the tunnel, or the error and whether a device that was created has been closed.\<close>

definition wg_Open :: "wg_device \<Rightarrow> wg_config \<Rightarrow> (wg_err \<times> bool) + tunnel" where
  "wg_Open dv cfg = (case uapi cfg of
      Inl e \<Rightarrow> Inl (e, False)
    | Inr (ua, laddr, dns, mtu) \<Rightarrow>
       (case (if wc_LocalAddress6 cfg = [] then Some [laddr]
              else map_option (\<lambda>a6. [laddr, a6]) (parseAddr (wc_LocalAddress6 cfg))) of
          None \<Rightarrow> Inl (LocalAddress6Err, False)
        | Some locals \<Rightarrow>
           (case dv_CreateNetTUN dv locals dns mtu of
              Some e \<Rightarrow> Inl (NetstackErr e, False)
            | None \<Rightarrow> (case dv_IpcSet dv ua of
                Some e \<Rightarrow> Inl (ConfigureErr e, True)
              | None \<Rightarrow> (case dv_Up dv of
                  Some e \<Rightarrow> Inl (UpErr e, True)
                | None \<Rightarrow> Inr \<lparr>tn_cfg = cfg, tn_closed = False\<rparr>)))))"

text \<open>
  \<open>lastHandshake\<close> on the text of \<open>IpcGet\<close>. \<open>ParseInt\<close>'s error is dropped, and its value is
  then 0 for a syntax error and the nearest bound of the 64-bit range for an overflow.
\<close>

definition ParseInt_value :: "string \<Rightarrow> int" where
  "ParseInt_value s = (case Atoi s of
      Some v \<Rightarrow> v
    | None \<Rightarrow>
       (let (neg, ds) = (case s of
            [] \<Rightarrow> (False, [])
          | c # cs \<Rightarrow> if c = CHR ''-'' then (True, cs) else if c = CHR ''+'' then (False, cs)
                     else (False, c # cs))
        in if ds = [] \<or> \<not> list_all is_digit ds then 0
           else if neg then - (2 ^ 63) else 2 ^ 63 - 1))"

fun handshake_sec :: "string list \<Rightarrow> int" where
  "handshake_sec [] = 0"
| "handshake_sec (line # ls) =
    (case Cut line (CHR ''='') of
       (k, v, ok) \<Rightarrow>
         if ok \<and> k = ''last_handshake_time_sec'' then ParseInt_value v else handshake_sec ls)"

definition lastHandshake :: "gerr + string \<Rightarrow> gerr + int" where
  "lastHandshake ipc = (case ipc of
      Inl e \<Rightarrow> Inl e
    | Inr s \<Rightarrow> Inr (handshake_sec (Split s (CHR 0x0A))))"

text \<open>
  \<open>WaitHandshake\<close> polls the device until a handshake is seen or the context is done: \<open>polls\<close>
  are the texts of the polls made before the deadline.
\<close>

definition handshake_seen :: "gerr + string \<Rightarrow> bool" where
  "handshake_seen ipc = (case lastHandshake ipc of Inl _ \<Rightarrow> False | Inr sec \<Rightarrow> sec > 0)"

fun WaitHandshake :: "(gerr + string) list \<Rightarrow> wg_err option" where
  "WaitHandshake [] = Some HandshakeTimeout"
| "WaitHandshake (p # ps) = (if handshake_seen p then None else WaitHandshake ps)"

definition Alive :: "gerr + string \<Rightarrow> int \<Rightarrow> bool" where
  "Alive ipc now = (case lastHandshake ipc of
      Inl _ \<Rightarrow> False
    | Inr sec \<Rightarrow> if sec = 0 then False else now - sec < 180)"

definition plain_err :: "gerr \<Rightarrow> dial_err" where
  "plain_err t = \<lparr>de_class = DOther, de_text = t\<rparr>"

definition tunnel_DialContext ::
  "(string \<Rightarrow> string \<Rightarrow> dial_err option) \<Rightarrow> tunnel \<Rightarrow> string \<Rightarrow> string \<Rightarrow> dial_err option" where
  "tunnel_DialContext netdial t network address =
    (if network \<noteq> ''tcp'' \<and> network \<noteq> ''tcp4'' \<and> network \<noteq> ''tcp6''
     then Some (plain_err (''wireguard: '' @ network @ '' not supported (CONNECT-only)''))
     else if tn_closed t then Some (plain_err ''wireguard: tunnel closed'')
     else netdial network address)"

definition tunnel_Close :: "tunnel \<Rightarrow> tunnel" where
  "tunnel_Close t = (if tn_closed t then t else t\<lparr>tn_closed := True\<rparr>)"

lemma WaitHandshake_iff: "WaitHandshake ps = None \<longleftrightarrow> (\<exists>p \<in> set ps. handshake_seen p)"
  by (induction ps) auto

lemma tunnel_closed_refuses: "tunnel_DialContext nd (tunnel_Close t) network address \<noteq> None"
  by (simp add: tunnel_DialContext_def tunnel_Close_def)

lemma parse_dns_nonempty:
  "uapi c = Inr (u, l, dns, mtu) \<Longrightarrow> dns \<noteq> [] \<and> mtu > 0"
  by (auto simp: uapi_def Let_def split: sum.splits option.splits if_splits)

text \<open>A device is never left running behind a failed \<open>Open\<close>, and keys are always 32 bytes.\<close>

lemma wg_Open_open: "wg_Open dv cfg = Inr t \<Longrightarrow> tn_cfg t = cfg \<and> \<not> tn_closed t"
  by (auto simp: wg_Open_def split: sum.splits option.splits prod.splits if_splits)

section \<open>Properties\<close>

text \<open>
  WireGuard keys survive both of their encodings: a 32-byte key printed in hexadecimal (the
  form the device is configured with) or in base64 (the form providers hand out) is parsed back
  to itself, and whatever \<open>ParseKey\<close> accepts is 32 bytes long.
\<close>

theorem wg_key_roundtrip:
  "(length k = 32 \<longrightarrow> ParseKey (Key_Hex k) = Inr k \<and> ParseKey (Key_Base64 k) = Inr k)
   \<and> (ParseKey s = Inr k' \<longrightarrow> length k' = 32)"
  by (simp add: ParseKey_Hex ParseKey_Base64 ParseKey_length)

theorem wg_key_roundtrip_witness:
  "ParseKey (Key_Hex (replicate 32 7)) = Inr (replicate 32 7)
   \<and> ParseKey (Key_Base64 (replicate 32 7)) = Inr (replicate 32 7)"
  using wg_key_roundtrip [of "replicate 32 7" "[]" "[]"] by simp

end
