(* ===== verification/Http_Proxy.thy ===== *)
theory Http_Proxy
  imports Socks5 Go_Encoding
begin

text \<open>
  The HTTP CONNECT dialer and the CONNECT-only server (\<open>src/routing/httpproxy/httpproxy.go\<close>). The HTTP message
  parsers of the standard library are parameters: \<open>http.ReadResponse\<close> (with the \<open>Body.Close\<close> that follows it) gives
  the status and the bytes left in the reader, \<open>http.ReadRequest\<close> the method, the host, the value of
  \<open>Proxy-Authorization\<close> and the bytes left.
\<close>

section \<open>The dialer\<close>

definition crlf :: string where
  "crlf = [CHR 0x0D, CHR 0x0A]"

definition basic_credentials :: "dialer \<Rightarrow> string" where
  "basic_credentials d = ''Basic '' @ b64_encode (bytes_of (d_Username d @ '':'' @ d_Password d))"

definition auth_header :: "dialer \<Rightarrow> string" where
  "auth_header d = (if d_Username d \<noteq> [] \<or> d_Password d \<noteq> []
     then ''Proxy-Authorization: '' @ basic_credentials d @ crlf else [])"

definition writeConnect :: "dialer \<Rightarrow> string \<Rightarrow> byte list" where
  "writeConnect d hostport = bytes_of (''CONNECT '' @ hostport @ '' HTTP/1.1'' @ crlf @ ''Host: '' @ hostport @ crlf
     @ auth_header d @ crlf)"

definition StatusError_Error :: "int \<Rightarrow> string" where
  "StatusError_Error code = ''httpproxy: CONNECT rejected with status '' @ Itoa code"

definition text_err :: "gerr \<Rightarrow> dial_err" where
  "text_err t = \<lparr>de_class = DOther, de_text = t\<rparr>"

text \<open>
  The result: an error and the connection that was closed because of it, or the connection, which still gives every
  byte the proxy sent after its response.
\<close>

type_synonym response_reader = "byte list \<Rightarrow> (int \<times> byte list) result"

record http_out =
  ho_result :: "dial_err + conn"
  ho_closed :: "conn option"

definition http_DialContext ::
  "response_reader \<Rightarrow> dialer \<Rightarrow> (string \<Rightarrow> dial_err + conn) \<Rightarrow> string \<Rightarrow> string \<Rightarrow> http_out" where
  "http_DialContext readResponse d dial network hostport =
    (if network \<noteq> ''tcp'' \<and> network \<noteq> ''tcp4'' \<and> network \<noteq> ''tcp6'' then
       \<lparr>ho_result = Inl (text_err (''httpproxy: network '' @ Quote network @ '' not supported (TCP only)'')), ho_closed = None\<rparr>
     else case SplitHostPort hostport of
        Inl e \<Rightarrow> \<lparr>ho_result = Inl (text_err e), ho_closed = None\<rparr>
      | Inr _ \<Rightarrow>
         (case dial (d_ProxyAddr d) of
            Inl e \<Rightarrow> \<lparr>ho_result = Inl (e\<lparr>de_text := ''httpproxy: connect to proxy: '' @ de_text e\<rparr>), ho_closed = None\<rparr>
          | Inr c \<Rightarrow>
             (case conn_write (writeConnect d hostport) c of
                (Some e, c1) \<Rightarrow>
                  \<lparr>ho_result = Inl (text_err (''httpproxy: send CONNECT: '' @ sock_err_Error e)), ho_closed = Some c1\<rparr>
              | (None, c1) \<Rightarrow>
                 (case readResponse (c_in c1) of
                    Inl e \<Rightarrow> \<lparr>ho_result = Inl (text_err (''httpproxy: read CONNECT response: '' @ e)), ho_closed = Some c1\<rparr>
                  | Inr (code, rest) \<Rightarrow>
                     if code \<noteq> 200 then
                       \<lparr>ho_result = Inl (text_err (StatusError_Error code)), ho_closed = Some (c1\<lparr>c_in := rest\<rparr>)\<rparr>
                     else \<lparr>ho_result = Inr (c1\<lparr>c_in := rest\<rparr>), ho_closed = None\<rparr>))))"

section \<open>The server\<close>

record http_request =
  hq_Method :: string
  hq_Host :: string
  hq_ProxyAuthorization :: string

fun split_colon :: "string \<Rightarrow> (string \<times> string) option" where
  "split_colon [] = None"
| "split_colon (c # s) = (if c = CHR '':'' then Some ([], s) else map_option (apfst (\<lambda>u. c # u)) (split_colon s))"

definition parseBasic :: "string \<Rightarrow> (string \<times> string) option" where
  "parseBasic h =
    (if length h < 6 \<or> take 6 h \<noteq> ''Basic '' then None
     else case b64_decode (drop 6 h) of
        None \<Rightarrow> None
      | Some raw \<Rightarrow> split_colon (string_of raw))"

definition StatusText :: "int \<Rightarrow> string" where
  "StatusText code = (if code = 400 then ''Bad Request'' else if code = 405 then ''Method Not Allowed''
     else if code = 502 then ''Bad Gateway'' else [])"

definition writeStatus :: "int \<Rightarrow> byte list" where
  "writeStatus code = bytes_of (''HTTP/1.1 '' @ Itoa code @ '' '' @ StatusText code @ crlf @ ''Content-Length: 0'' @ crlf @ crlf)"

definition auth_required :: "byte list" where
  "auth_required = bytes_of (''HTTP/1.1 407 Proxy Authentication Required'' @ crlf
     @ ''Proxy-Authenticate: Basic realm='' @ [CHR 0x22] @ ''proxy'' @ [CHR 0x22] @ crlf @ ''Content-Length: 0'' @ crlf @ crlf)"

definition established :: "byte list" where
  "established = bytes_of (''HTTP/1.1 200 Connection Established'' @ crlf @ crlf)"

datatype http_event = OnRequest string | DialUp string | Answered "byte list" | Tunnel "byte list"

text \<open>What one connection makes the server do, in order. \<open>Tunnel\<close> carries the bytes already read from the client.\<close>

definition http_handle ::
  "(byte list \<Rightarrow> (http_request \<times> byte list) option) \<Rightarrow> (string \<Rightarrow> string \<Rightarrow> bool) option \<Rightarrow> (string \<Rightarrow> gerr option) \<Rightarrow> conn
    \<Rightarrow> http_event list" where
  "http_handle readRequest authenticate dial c =
    (case readRequest (c_in c) of
       None \<Rightarrow> []
     | Some (req, rest) \<Rightarrow>
        if hq_Method req \<noteq> ''CONNECT'' then [Answered (writeStatus 405)]
        else if (case authenticate of None \<Rightarrow> False
             | Some ok \<Rightarrow> (case parseBasic (hq_ProxyAuthorization req) of None \<Rightarrow> True | Some (u, p) \<Rightarrow> \<not> ok u p))
        then [Answered auth_required]
        else (case SplitHostPort (hq_Host req) of
            Inl _ \<Rightarrow> [Answered (writeStatus 400)]
          | Inr _ \<Rightarrow>
             OnRequest (hq_Host req) # DialUp (hq_Host req) #
             (case dial (hq_Host req) of
                Some _ \<Rightarrow> [Answered (writeStatus 502)]
              | None \<Rightarrow> (case conn_write established c of
                  (Some _, _) \<Rightarrow> []
                | (None, _) \<Rightarrow> [Answered established, Tunnel rest]))))"

section \<open>Properties\<close>

lemma split_colon_append: "CHR '':'' \<notin> set u \<Longrightarrow> split_colon (u @ CHR '':'' # p) = Some (u, p)"
  by (induction u) auto

text \<open>
  The tunnel through an HTTP proxy. Once the proxy is reached with a well-formed address, the dialer writes exactly one
  CONNECT request and succeeds exactly if the status of the response is 200; then every byte after the response is still
  to be read from the connection. Otherwise it fails, with the status if there is one, and closes the connection. The
  credentials it sends are read back by the server's \<open>parseBasic\<close> unless the user name holds a colon.
\<close>

theorem http_connect:
  assumes "SplitHostPort hostport = Inr hp" "network \<in> {''tcp'', ''tcp4'', ''tcp6''}" "dial (d_ProxyAddr d) = Inr c" "c_wleft c > 0"
    and "o' = http_DialContext rr d dial network hostport"
  shows "(case rr (c_in c) of
        Inr (code, rest) \<Rightarrow> if code = 200
          then ho_result o' = Inr \<lparr>c_in = rest, c_out = c_out c @ writeConnect d hostport, c_wleft = c_wleft c - 1\<rparr>
          else ho_result o' = Inl (text_err (StatusError_Error code)) \<and> ho_closed o' \<noteq> None
      | Inl _ \<Rightarrow> (\<exists>e. ho_result o' = Inl e) \<and> ho_closed o' \<noteq> None)
    \<and> (CHR '':'' \<notin> set (d_Username d) \<longrightarrow> parseBasic (basic_credentials d) = Some (d_Username d, d_Password d))"
proof -
  have w: "conn_write (writeConnect d hostport) c
      = (None, c\<lparr>c_out := c_out c @ writeConnect d hostport, c_wleft := c_wleft c - 1\<rparr>)"
    using assms(4) by (simp add: conn_write_def)
  have "parseBasic (basic_credentials d) = split_colon (d_Username d @ CHR '':'' # d_Password d)"
    by (simp add: parseBasic_def basic_credentials_def del: bytes_of_append)
  then have "CHR '':'' \<notin> set (d_Username d) \<longrightarrow> parseBasic (basic_credentials d) = Some (d_Username d, d_Password d)"
    by (simp add: split_colon_append)
  moreover let ?c = "c\<lparr>c_out := c_out c @ writeConnect d hostport, c_wleft := c_wleft c - 1\<rparr>"
  have "o' = (case rr (c_in c) of
      Inl e \<Rightarrow> \<lparr>ho_result = Inl (text_err (''httpproxy: read CONNECT response: '' @ e)), ho_closed = Some ?c\<rparr>
    | Inr (code, rest) \<Rightarrow> if code \<noteq> 200
        then \<lparr>ho_result = Inl (text_err (StatusError_Error code)), ho_closed = Some (?c\<lparr>c_in := rest\<rparr>)\<rparr>
        else \<lparr>ho_result = Inr (?c\<lparr>c_in := rest\<rparr>), ho_closed = None\<rparr>)"
    using assms(1-3) unfolding assms(5) http_DialContext_def by (auto simp: w split: sum.splits)
  ultimately show ?thesis by (auto split: sum.splits intro: conn.equality)
qed

theorem http_connect_witness:
  "\<exists>c'. ho_result (http_DialContext (\<lambda>bs. Inr (200, bs)) \<lparr>d_ProxyAddr = ''p:1'', d_Username = ''u'', d_Password = ''p''\<rparr>
      (\<lambda>_. Inr \<lparr>c_in = [7], c_out = [], c_wleft = 1\<rparr>) ''tcp'' ''a:80'') = Inr c' \<and> c_in c' = [7]"
proof -
  have s: "SplitHostPort ''a:80'' = Inr (''a'', ''80'')" by code_simp
  from http_connect [OF s, of "''tcp''" "\<lambda>_. Inr \<lparr>c_in = [7], c_out = [], c_wleft = 1\<rparr>"
    "\<lparr>d_ProxyAddr = ''p:1'', d_Username = ''u'', d_Password = ''p''\<rparr>" "\<lparr>c_in = [7], c_out = [], c_wleft = 1\<rparr>" _ "\<lambda>bs. Inr (200, bs)"]
  show ?thesis by auto
qed

text \<open>
  The address is not checked for line breaks: a host name that holds them, which \<open>net.SplitHostPort\<close> accepts, puts lines of
  its own into the request head.
\<close>

theorem http_connect_injection:
  "\<exists>hp h. SplitHostPort hp = Inr h \<and>
     writeConnect \<lparr>d_ProxyAddr = ''p:1'', d_Username = [], d_Password = []\<rparr> hp =
     bytes_of (''CONNECT a HTTP/1.1'' @ crlf @ crlf @ ''GET b:80 HTTP/1.1'' @ crlf @ ''Host: a HTTP/1.1'' @ crlf @ crlf @ ''GET b:80'' @ crlf @ crlf)"
proof -
  have "SplitHostPort (''a HTTP/1.1'' @ crlf @ crlf @ ''GET b:80'') = Inr (''a HTTP/1.1'' @ crlf @ crlf @ ''GET b'', ''80'')"
    by code_simp
  then show ?thesis
    by (intro exI [of _ "''a HTTP/1.1'' @ crlf @ crlf @ ''GET b:80''"] exI) (auto simp: writeConnect_def auth_header_def)
qed

end
