(* ===== verification/Route.thy ===== *)
theory Route
  imports WireGuard Http_Proxy "HOL-Library.Char_ord" "HOL-Library.List_Lexorder" "HOL-Library.AList"
begin

text \<open>
  Routes (\<open>src/routing/provider\<close>: \<open>provider.go\<close>, \<open>upstream.go\<close>, \<open>wireguard.go\<close>,
  \<open>secrets.go\<close>, \<open>publicip.go\<close>): route definitions, the provider registry, the two route
  implementations, and the public-IP probe.

  The Go interface \<open>Route\<close> is the locale \<open>route_ops\<close>: the laws a client of a route relies on.
  It is interpreted on the proxy-backed route, on the WireGuard route, and on the type \<open>route\<close>
  the rest of the program handles.
\<close>

section \<open>Status and definitions\<close>

datatype RouteStatus =
    StatusCreated
  | StatusStarting
  | StatusVerifying
  | StatusReady
  | StatusDown
  | StatusStopped

fun RouteStatus_String :: "RouteStatus \<Rightarrow> string" where
  "RouteStatus_String StatusCreated = ''CREATED''"
| "RouteStatus_String StatusStarting = ''STARTING''"
| "RouteStatus_String StatusVerifying = ''VERIFYING''"
| "RouteStatus_String StatusReady = ''READY''"
| "RouteStatus_String StatusDown = ''DOWN''"
| "RouteStatus_String StatusStopped = ''STOPPED''"

record RouteDef =
  rd_ID :: string
  rd_Type :: string
  rd_Address :: string
  rd_Username :: string
  rd_Password :: string
  rd_PasswordEnv :: string
  rd_PrivateKey :: string
  rd_PeerPublicKey :: string
  rd_LocalAddress :: string
  rd_LocalAddress6 :: string
  rd_DNS :: string
  rd_MTU :: int

definition Redacted :: "RouteDef \<Rightarrow> string" where
  "Redacted d =
    (if rd_Type d = ''wireguard'' then ''wireguard://'' @ rd_Address d @ '' (userspace)''
     else if rd_Username d \<noteq> [] \<or> rd_Password d \<noteq> [] \<or> rd_PasswordEnv d \<noteq> [] then
       rd_Type d @ ''://'' @ rd_Username d @ '':***@'' @ rd_Address d
     else rd_Type d @ ''://'' @ rd_Address d)"

definition RouteDef_Validate :: "RouteDef \<Rightarrow> gerr option" where
  "RouteDef_Validate d =
    (if TrimSpace (rd_ID d) = [] then Some ''route: id is required''
     else if rd_Type d = [] then Some (''route '' @ rd_ID d @ '': type is required'')
     else case SplitHostPort (rd_Address d) of
        Inl e \<Rightarrow> Some (''route '' @ rd_ID d @ '': address must be host:port: '' @ e)
      | Inr _ \<Rightarrow>
          if rd_Type d = ''wireguard'' then
            (if rd_PrivateKey d = [] \<or> rd_PeerPublicKey d = [] \<or> rd_LocalAddress d = [] then
               Some (''route '' @ rd_ID d
                 @ '': wireguard requires private_key, peer_public_key and local_address'')
             else None)
          else if rd_Password d \<noteq> [] \<and> rd_PasswordEnv d \<noteq> [] then
            Some (''route '' @ rd_ID d @ '': set either password or password_env, not both'')
          else None)"

text \<open>\<open>resolvePassword\<close>; \<open>getenv\<close> is \<open>os.LookupEnv\<close>.\<close>

definition resolvePassword :: "(string \<Rightarrow> string option) \<Rightarrow> RouteDef \<Rightarrow> string result" where
  "resolvePassword getenv d =
    (if rd_PasswordEnv d \<noteq> [] then
       (case getenv (rd_PasswordEnv d) of
          None \<Rightarrow> Inl (''route '' @ rd_ID d @ '': environment variable '' @ rd_PasswordEnv d
                      @ '' is not set'')
        | Some v \<Rightarrow> Inr v)
     else Inr (rd_Password d))"

section \<open>The network\<close>

text \<open>
  What the network and the WireGuard device answer when they are asked: a TCP connect to an
  address, the parsed response of an HTTP proxy, and the device behind a tunnel with the texts its
  status polls return.
\<close>

record netw =
  n_tcp :: "string \<Rightarrow> dial_err + conn"
  n_response :: response_reader
  n_dev :: "wg_config \<Rightarrow> wg_device"
  n_polls :: "wg_config \<Rightarrow> (gerr + string) list"
  n_ipc :: "wg_config \<Rightarrow> gerr + string"
  n_netstack :: "wg_config \<Rightarrow> string \<Rightarrow> string \<Rightarrow> dial_err option"
  n_now :: int

section \<open>Routes through a proxy\<close>

text \<open>The upstream's \<open>DialContext\<close>, as the providers bind it.\<close>

datatype DialFunc = Socks5Dial dialer | HttpDial dialer

fun run_DialFunc :: "netw \<Rightarrow> DialFunc \<Rightarrow> string \<Rightarrow> string \<Rightarrow> dial_err option" where
  "run_DialFunc n (Socks5Dial d) network hostport =
    (case dx_result (DialContext d (n_tcp n) network hostport) of
       Inl e \<Rightarrow> Some (dial_err_of e)
     | Inr _ \<Rightarrow> None)"
| "run_DialFunc n (HttpDial d) network hostport =
    (case ho_result (http_DialContext (n_response n) d (n_tcp n) network hostport) of
       Inl e \<Rightarrow> Some e
     | Inr _ \<Rightarrow> None)"

record upstreamRoute =
  u_def :: RouteDef
  u_dial :: DialFunc
  u_status :: RouteStatus
  u_lastErr :: "gerr option"

definition newUpstreamRoute :: "RouteDef \<Rightarrow> DialFunc \<Rightarrow> upstreamRoute" where
  "newUpstreamRoute d f =
    \<lparr>u_def = d, u_dial = f, u_status = StatusCreated, u_lastErr = None\<rparr>"

definition upstream_SetStatus :: "RouteStatus \<Rightarrow> upstreamRoute \<Rightarrow> upstreamRoute" where
  "upstream_SetStatus s r = r\<lparr>u_status := s\<rparr>"

definition upstream_Start :: "netw \<Rightarrow> upstreamRoute \<Rightarrow> gerr option \<times> upstreamRoute" where
  "upstream_Start n r0 =
    (let r = upstream_SetStatus StatusStarting r0 in
     case n_tcp n (rd_Address (u_def r)) of
       Inl e \<Rightarrow>
         (Some (''route '' @ rd_ID (u_def r) @ '': upstream unreachable: '' @ de_text e),
          upstream_SetStatus StatusDown (r\<lparr>u_lastErr := Some (de_text e)\<rparr>))
     | Inr _ \<Rightarrow> (None, upstream_SetStatus StatusVerifying (r\<lparr>u_lastErr := None\<rparr>)))"

definition upstream_Stop :: "upstreamRoute \<Rightarrow> upstreamRoute" where
  "upstream_Stop r = upstream_SetStatus StatusStopped r"

definition upstream_Reachable :: "netw \<Rightarrow> upstreamRoute \<Rightarrow> gerr option" where
  "upstream_Reachable n r =
    (case n_tcp n (rd_Address (u_def r)) of Inl e \<Rightarrow> Some (de_text e) | Inr _ \<Rightarrow> None)"

definition route_is :: "string \<Rightarrow> RouteStatus \<Rightarrow> dial_err" where
  "route_is ident s = plain_err (''route '' @ ident @ '' is '' @ RouteStatus_String s)"

definition upstream_Dial ::
  "netw \<Rightarrow> upstreamRoute \<Rightarrow> string \<Rightarrow> string \<Rightarrow> dial_err option" where
  "upstream_Dial n r network hostport =
    (if u_status r = StatusReady \<or> u_status r = StatusVerifying
     then run_DialFunc n (u_dial r) network hostport
     else Some (route_is (rd_ID (u_def r)) (u_status r)))"

section \<open>Routes through a WireGuard tunnel\<close>

record wgRoute =
  w_def :: RouteDef
  w_tun :: "tunnel option"
  w_status :: RouteStatus
  w_lastErr :: "gerr option"

definition wg_cfg :: "RouteDef \<Rightarrow> wg_config" where
  "wg_cfg d = \<lparr>wc_PrivateKey = rd_PrivateKey d, wc_PeerPublicKey = rd_PeerPublicKey d,
     wc_Endpoint = rd_Address d, wc_LocalAddress = rd_LocalAddress d,
     wc_LocalAddress6 = rd_LocalAddress6 d, wc_DNS = rd_DNS d, wc_MTU = rd_MTU d,
     wc_ListenPort = 0\<rparr>"

definition wg_SetStatus :: "RouteStatus \<Rightarrow> wgRoute \<Rightarrow> wgRoute" where
  "wg_SetStatus s r = r\<lparr>w_status := s\<rparr>"

text \<open>The third component lists the tunnels \<open>Start\<close> has closed: the fresh one or the old one.\<close>

definition wg_Start :: "netw \<Rightarrow> wgRoute \<Rightarrow> gerr option \<times> wgRoute \<times> tunnel list" where
  "wg_Start n r0 =
    (let r = wg_SetStatus StatusStarting r0; cfg = wg_cfg (w_def r) in
     case wg_Open (n_dev n cfg) cfg of
       Inl (e, _) \<Rightarrow>
         (Some (''route '' @ rd_ID (w_def r) @ '': '' @ wg_err_Error e),
          wg_SetStatus StatusDown (r\<lparr>w_lastErr := Some (wg_err_Error e)\<rparr>), [])
     | Inr tun \<Rightarrow> (case WaitHandshake (n_polls n cfg) of
         Some e \<Rightarrow>
           (Some (''route '' @ rd_ID (w_def r) @ '': '' @ wg_err_Error e),
            wg_SetStatus StatusDown (r\<lparr>w_lastErr := Some (wg_err_Error e)\<rparr>), [tunnel_Close tun])
       | None \<Rightarrow>
           (None, r\<lparr>w_tun := Some tun, w_lastErr := None, w_status := StatusVerifying\<rparr>,
            (case w_tun r of None \<Rightarrow> [] | Some t \<Rightarrow> [tunnel_Close t]))))"

definition wg_Stop :: "wgRoute \<Rightarrow> wgRoute \<times> tunnel list" where
  "wg_Stop r0 = (let r = r0\<lparr>w_status := StatusStopped\<rparr> in
     case w_tun r of
       Some t \<Rightarrow> (r\<lparr>w_tun := None\<rparr>, [tunnel_Close t])
     | None \<Rightarrow> (r, []))"

definition wg_Dial :: "netw \<Rightarrow> wgRoute \<Rightarrow> string \<Rightarrow> string \<Rightarrow> dial_err option" where
  "wg_Dial n r network hostport =
    (if w_status r = StatusReady \<or> w_status r = StatusVerifying then
       (case w_tun r of
          None \<Rightarrow> Some (plain_err (''route '' @ rd_ID (w_def r) @ '': tunnel not started''))
        | Some t \<Rightarrow> tunnel_DialContext (n_netstack n (tn_cfg t)) t network hostport)
     else Some (route_is (rd_ID (w_def r)) (w_status r)))"

definition wg_Reachable :: "netw \<Rightarrow> wgRoute \<Rightarrow> gerr option" where
  "wg_Reachable n r = (case w_tun r of
      None \<Rightarrow> Some ''tunnel not started''
    | Some t \<Rightarrow> if Alive (n_ipc n (tn_cfg t)) (n_now n) then None else Some ''no recent handshake'')"

section \<open>The interface\<close>

datatype route = UpstreamRoute upstreamRoute | WgRoute wgRoute

fun route_Def :: "route \<Rightarrow> RouteDef" where
  "route_Def (UpstreamRoute r) = u_def r"
| "route_Def (WgRoute r) = w_def r"

definition route_ID :: "route \<Rightarrow> string" where
  "route_ID r = rd_ID (route_Def r)"

fun route_Status :: "route \<Rightarrow> RouteStatus" where
  "route_Status (UpstreamRoute r) = u_status r"
| "route_Status (WgRoute r) = w_status r"

fun route_SetStatus :: "RouteStatus \<Rightarrow> route \<Rightarrow> route" where
  "route_SetStatus s (UpstreamRoute r) = UpstreamRoute (upstream_SetStatus s r)"
| "route_SetStatus s (WgRoute r) = WgRoute (wg_SetStatus s r)"

fun route_LastError :: "route \<Rightarrow> gerr option" where
  "route_LastError (UpstreamRoute r) = u_lastErr r"
| "route_LastError (WgRoute r) = w_lastErr r"

fun route_Start :: "netw \<Rightarrow> route \<Rightarrow> gerr option \<times> route" where
  "route_Start n (UpstreamRoute r) = apsnd UpstreamRoute (upstream_Start n r)"
| "route_Start n (WgRoute r) = apsnd (WgRoute \<circ> fst) (wg_Start n r)"

fun route_Stop :: "route \<Rightarrow> route" where
  "route_Stop (UpstreamRoute r) = UpstreamRoute (upstream_Stop r)"
| "route_Stop (WgRoute r) = WgRoute (fst (wg_Stop r))"

fun route_Dial :: "netw \<Rightarrow> route \<Rightarrow> string \<Rightarrow> string \<Rightarrow> dial_err option" where
  "route_Dial n (UpstreamRoute r) network hostport = upstream_Dial n r network hostport"
| "route_Dial n (WgRoute r) network hostport = wg_Dial n r network hostport"

fun route_Reachable :: "netw \<Rightarrow> route \<Rightarrow> gerr option" where
  "route_Reachable n (UpstreamRoute r) = upstream_Reachable n r"
| "route_Reachable n (WgRoute r) = wg_Reachable n r"

locale route_ops =
  fixes rdef :: "'r \<Rightarrow> RouteDef"
    and status :: "'r \<Rightarrow> RouteStatus"
    and setStatus :: "RouteStatus \<Rightarrow> 'r \<Rightarrow> 'r"
    and lastError :: "'r \<Rightarrow> gerr option"
    and start :: "netw \<Rightarrow> 'r \<Rightarrow> gerr option \<times> 'r"
    and stop :: "'r \<Rightarrow> 'r"
    and dial :: "netw \<Rightarrow> 'r \<Rightarrow> string \<Rightarrow> string \<Rightarrow> dial_err option"
  assumes status_setStatus: "status (setStatus s r) = s"
    and rdef_setStatus: "rdef (setStatus s r) = rdef r"
    and rdef_start: "rdef (snd (start n r)) = rdef r"
    and rdef_stop: "rdef (stop r) = rdef r"
    and start_ok: "fst (start n r) = None \<Longrightarrow>
      status (snd (start n r)) = StatusVerifying \<and> lastError (snd (start n r)) = None"
    and start_err: "fst (start n r) \<noteq> None \<Longrightarrow>
      status (snd (start n r)) = StatusDown \<and> lastError (snd (start n r)) \<noteq> None"
    and status_stop: "status (stop r) = StatusStopped"
    and dial_gated: "status r \<noteq> StatusReady \<Longrightarrow> status r \<noteq> StatusVerifying \<Longrightarrow>
      dial n r network hostport = Some (route_is (rd_ID (rdef r)) (status r))"
begin

text \<open>\<open>Start\<close> never makes a route READY: that is the controller's decision.\<close>

lemma start_not_ready: "status (snd (start n r)) \<noteq> StatusReady"
  using start_ok [of n r] start_err [of n r] by (cases "fst (start n r)") auto

lemma failed_start_refuses:
  "fst (start n r) \<noteq> None \<Longrightarrow> dial n' (snd (start n r)) network hostport
     = Some (route_is (rd_ID (rdef r)) StatusDown)"
  using start_err [of n r] dial_gated [of "snd (start n r)"] by (simp add: rdef_start)

lemma stopped_refuses:
  "dial n (stop r) network hostport = Some (route_is (rd_ID (rdef r)) StatusStopped)"
  using dial_gated [of "stop r"] by (simp add: status_stop rdef_stop)

lemma down_refuses:
  "dial n (setStatus StatusDown r) network hostport = Some (route_is (rd_ID (rdef r)) StatusDown)"
  using dial_gated [of "setStatus StatusDown r"] by (simp add: status_setStatus rdef_setStatus)

lemma dial_None_status:
  "dial n r network hostport = None \<Longrightarrow> status r = StatusReady \<or> status r = StatusVerifying"
  using dial_gated [of r n network hostport] by auto

end

interpretation up: route_ops u_def u_status upstream_SetStatus u_lastErr upstream_Start
  upstream_Stop upstream_Dial
  by unfold_locales
    (auto simp: upstream_SetStatus_def upstream_Start_def upstream_Stop_def upstream_Dial_def Let_def
      split: sum.splits)

interpretation wg: route_ops w_def w_status wg_SetStatus w_lastErr
  "\<lambda>n r. apsnd fst (wg_Start n r)" "\<lambda>r. fst (wg_Stop r)" wg_Dial
  by unfold_locales
    (auto simp: wg_SetStatus_def wg_Start_def wg_Stop_def wg_Dial_def Let_def
      split: sum.splits option.splits)

interpretation rt: route_ops route_Def route_Status route_SetStatus route_LastError route_Start
  route_Stop route_Dial
proof unfold_locales
  fix n r
  show "fst (route_Start n r) = None \<Longrightarrow>
      route_Status (snd (route_Start n r)) = StatusVerifying \<and>
      route_LastError (snd (route_Start n r)) = None"
    using up.start_ok wg.start_ok by (cases r) auto
  show "fst (route_Start n r) \<noteq> None \<Longrightarrow>
      route_Status (snd (route_Start n r)) = StatusDown \<and>
      route_LastError (snd (route_Start n r)) \<noteq> None"
    using up.start_err wg.start_err by (cases r) auto
  fix network hostport
  show "route_Status r \<noteq> StatusReady \<Longrightarrow> route_Status r \<noteq> StatusVerifying \<Longrightarrow>
      route_Dial n r network hostport = Some (route_is (rd_ID (route_Def r)) (route_Status r))"
    using up.dial_gated wg.dial_gated by (cases r) auto
  show "route_Def (snd (route_Start n r)) = route_Def r"
    using up.rdef_start wg.rdef_start by (cases r) auto
next
  fix s r
  show "route_Status (route_SetStatus s r) = s"
    using up.status_setStatus wg.status_setStatus by (cases r) auto
  show "route_Def (route_SetStatus s r) = route_Def r"
    using up.rdef_setStatus wg.rdef_setStatus by (cases r) auto
  show "route_Def (route_Stop r) = route_Def r"
    using up.rdef_stop wg.rdef_stop by (cases r) auto
  show "route_Status (route_Stop r) = StatusStopped"
    using up.status_stop wg.status_stop by (cases r) auto
qed

declare rt.status_setStatus [simp] rt.rdef_setStatus [simp] rt.rdef_start [simp] rt.rdef_stop [simp]
  rt.status_stop [simp]

section \<open>The registry\<close>

datatype RoutingProvider = SOCKS5Provider | HTTPProvider | WireGuardProvider

fun provider_Type :: "RoutingProvider \<Rightarrow> string" where
  "provider_Type SOCKS5Provider = ''socks5''"
| "provider_Type HTTPProvider = ''http''"
| "provider_Type WireGuardProvider = ''wireguard''"

definition upstream_dialer :: "RouteDef \<Rightarrow> string \<Rightarrow> dialer" where
  "upstream_dialer d pass =
    \<lparr>d_ProxyAddr = rd_Address d, d_Username = rd_Username d, d_Password = pass\<rparr>"

fun provider_Create ::
  "(string \<Rightarrow> string option) \<Rightarrow> RoutingProvider \<Rightarrow> RouteDef \<Rightarrow> route result" where
  "provider_Create getenv SOCKS5Provider d = (case resolvePassword getenv d of
      Inl e \<Rightarrow> Inl e
    | Inr pass \<Rightarrow> Inr (UpstreamRoute (newUpstreamRoute d (Socks5Dial (upstream_dialer d pass)))))"
| "provider_Create getenv HTTPProvider d = (case resolvePassword getenv d of
      Inl e \<Rightarrow> Inl e
    | Inr pass \<Rightarrow> Inr (UpstreamRoute (newUpstreamRoute d (HttpDial (upstream_dialer d pass)))))"
| "provider_Create getenv WireGuardProvider d =
    Inr (WgRoute \<lparr>w_def = d, w_tun = None, w_status = StatusCreated, w_lastErr = None\<rparr>)"

type_synonym registry = "(string \<times> RoutingProvider) list"

definition Register :: "RoutingProvider \<Rightarrow> registry \<Rightarrow> registry" where
  "Register p reg = AList.update (provider_Type p) p reg"

definition Lookup :: "registry \<Rightarrow> string \<Rightarrow> RoutingProvider option" where
  "Lookup reg typ = map_of reg typ"

definition Types :: "registry \<Rightarrow> string list" where
  "Types reg = sort (map fst reg)"

definition registered :: registry where
  "registered = Register WireGuardProvider (Register HTTPProvider (Register SOCKS5Provider []))"

definition New ::
  "(string \<Rightarrow> string option) \<Rightarrow> registry \<Rightarrow> RouteDef \<Rightarrow> route result" where
  "New getenv reg d = (case RouteDef_Validate d of
      Some e \<Rightarrow> Inl e
    | None \<Rightarrow> (case Lookup reg (rd_Type d) of
        None \<Rightarrow> Inl (''route '' @ rd_ID d @ '': unknown type '' @ Quote (rd_Type d)
                  @ '' (available: '' @ Join (Types reg) '', '' @ '')'')
      | Some p \<Rightarrow> provider_Create getenv p d))"

lemma Lookup_Register: "Lookup (Register p reg) t = (if t = provider_Type p then Some p else Lookup reg t)"
  by (simp add: Lookup_def Register_def update_conv')

lemma Types_sorted: "sorted (Types reg)" and set_Types: "set (Types reg) = fst ` set reg"
  by (simp_all add: Types_def)

lemma provider_Create_fresh:
  "provider_Create getenv p d = Inr r \<Longrightarrow> route_Def r = d \<and> route_Status r = StatusCreated"
  by (cases p) (auto simp: newUpstreamRoute_def split: sum.splits)

lemma New_fresh:
  "New getenv reg d = Inr r \<Longrightarrow>
     route_Def r = d \<and> route_Status r = StatusCreated \<and> RouteDef_Validate d = None"
  by (auto simp: New_def dest: provider_Create_fresh split: option.splits)

section \<open>The public-IP probe\<close>

text \<open>
  \<open>ParseEchoBody\<close>. \<open>unmarshal\<close> is \<open>json.Unmarshal\<close> into a \<open>map[string]any\<close>, read back as the
  string fields of the object (\<open>None\<close>: the text is not a JSON object).
\<close>

definition ErrNoIP :: gerr where "ErrNoIP = ''echo response contained no IP address''"

fun first_ip :: "(string \<Rightarrow> string option) \<Rightarrow> string list \<Rightarrow> ip option" where
  "first_ip m [] = None"
| "first_ip m (k # ks) = (case m k of
      None \<Rightarrow> first_ip m ks
    | Some v \<Rightarrow> (case ParseIP (TrimSpace (hd (Split v (CHR '','')))) of
        Some a \<Rightarrow> Some a
      | None \<Rightarrow> first_ip m ks))"

definition ParseEchoBody ::
  "(string \<Rightarrow> (string \<Rightarrow> string option) option) \<Rightarrow> string \<Rightarrow> ip result" where
  "ParseEchoBody unmarshal body = (case ParseIP (TrimSpace body) of
      Some a \<Rightarrow> Inr a
    | None \<Rightarrow> (case unmarshal body of
        None \<Rightarrow> Inl ErrNoIP
      | Some m \<Rightarrow> (case first_ip m [''ip'', ''origin'', ''address'', ''query''] of
          Some a \<Rightarrow> Inr a
        | None \<Rightarrow> Inl ErrNoIP)))"

text \<open>
  \<open>PublicIP\<close>: \<open>get\<close> is the GET of the echo URL through the dialer, its status and its body; at
  most 64 KiB of the body are read.
\<close>

text \<open>\<open>io.LimitReader\<close>: at most \<open>n\<close> bytes of what is to be read.\<close>

primrec LimitReader :: "int \<Rightarrow> string \<Rightarrow> string" where
  "LimitReader n [] = []"
| "LimitReader n (c # s) = (if n \<le> 0 then [] else c # LimitReader (n - 1) s)"

definition PublicIP ::
  "(string \<Rightarrow> (string \<Rightarrow> string option) option) \<Rightarrow> (string \<Rightarrow> gerr + (int \<times> string)) \<Rightarrow> string \<Rightarrow> ip result"
where
  "PublicIP unmarshal get echoURL = (case get echoURL of
      Inl e \<Rightarrow> Inl e
    | Inr (code, body) \<Rightarrow>
        if code \<noteq> 200 then Inl (''echo returned HTTP '' @ Itoa code)
        else ParseEchoBody unmarshal (LimitReader 65536 body))"

lemma first_ip_length: "first_ip m ks = Some a \<Longrightarrow> length a = 16"
  by (induction ks) (auto split: option.splits dest: ParseIP_length)

text \<open>Every address a probe reports is in 16-byte form, so addresses compare as byte lists.\<close>

lemma ParseEchoBody_length: "ParseEchoBody u body = Inr a \<Longrightarrow> length a = 16"
  by (auto simp: ParseEchoBody_def split: option.splits dest: ParseIP_length first_ip_length)

lemma PublicIP_length: "PublicIP u get url = Inr a \<Longrightarrow> length a = 16"
  by (auto simp: PublicIP_def split: sum.splits if_splits dest: ParseEchoBody_length)

lemma PublicIP_Equal: "PublicIP u g url = Inr a \<Longrightarrow> PublicIP u' g' url' = Inr b \<Longrightarrow>
    ip_Equal a b \<longleftrightarrow> a = b"
  using PublicIP_length by (metis ip_Equal_same_length)

section \<open>Properties\<close>

text \<open>
  What \<open>New\<close> builds: the definition passed \<open>Validate\<close>, its type is registered, the route
  carries that definition unchanged, starts CREATED, and refuses every dial until it is started.
\<close>

theorem route_new_refuses:
  assumes "New getenv reg d = Inr r"
  shows "RouteDef_Validate d = None \<and> Lookup reg (rd_Type d) \<noteq> None \<and> route_Def r = d
    \<and> route_Status r = StatusCreated
    \<and> route_Dial n r network hostport = Some (route_is (rd_ID d) StatusCreated)"
proof -
  have f: "route_Def r = d" "route_Status r = StatusCreated" "RouteDef_Validate d = None"
    using New_fresh [OF assms] by auto
  moreover have "Lookup reg (rd_Type d) \<noteq> None"
    using assms by (auto simp: New_def split: option.splits)
  ultimately show ?thesis using rt.dial_gated [of r n network hostport] by simp
qed

theorem route_new_refuses_witness:
  "\<exists>r. New (\<lambda>_. None) registered
      \<lparr>rd_ID = ''r1'', rd_Type = ''socks5'', rd_Address = ''h:1080'', rd_Username = [], rd_Password = [],
       rd_PasswordEnv = [], rd_PrivateKey = [], rd_PeerPublicKey = [], rd_LocalAddress = [],
       rd_LocalAddress6 = [], rd_DNS = [], rd_MTU = 0\<rparr> = Inr r
    \<and> (\<forall>n. route_Dial n r ''tcp'' ''a.io:443'' = Some (route_is ''r1'' StatusCreated))"
proof -
  let ?d = "\<lparr>rd_ID = ''r1'', rd_Type = ''socks5'', rd_Address = ''h:1080'', rd_Username = [],
       rd_Password = [], rd_PasswordEnv = [], rd_PrivateKey = [], rd_PeerPublicKey = [],
       rd_LocalAddress = [], rd_LocalAddress6 = [], rd_DNS = [], rd_MTU = 0\<rparr>"
  let ?r = "UpstreamRoute (newUpstreamRoute ?d (Socks5Dial (upstream_dialer ?d [])))"
  have "RouteDef_Validate ?d = None" by code_simp
  then have "New (\<lambda>_. None) registered ?d = Inr ?r"
    by (simp add: New_def Lookup_Register registered_def resolvePassword_def)
  then show ?thesis using route_new_refuses [of "\<lambda>_. None" registered ?d ?r] by auto
qed

text \<open>
  The life cycle of a route, whichever implementation is behind it: a successful \<open>Start\<close> leaves
  it VERIFYING with no recorded error, a failed one DOWN with the error recorded, \<open>Start\<close> never
  makes a route READY, \<open>Stop\<close> leaves it STOPPED, none of them changes its definition, and a route
  that is not READY or VERIFYING refuses every dial naming its status.
\<close>

theorem route_lifecycle:
  "(case route_Start n r of
      (None, r') \<Rightarrow> route_Status r' = StatusVerifying \<and> route_LastError r' = None
    | (Some e, r') \<Rightarrow> route_Status r' = StatusDown \<and> route_LastError r' \<noteq> None
        \<and> route_Dial n' r' network hostport = Some (route_is (route_ID r) StatusDown))
   \<and> route_Status (snd (route_Start n r)) \<noteq> StatusReady
   \<and> route_Dial n' (route_Stop r) network hostport = Some (route_is (route_ID r) StatusStopped)
   \<and> route_Def (snd (route_Start n r)) = route_Def r \<and> route_Def (route_Stop r) = route_Def r
   \<and> (route_Dial n' r network hostport = None
       \<longrightarrow> route_Status r = StatusReady \<or> route_Status r = StatusVerifying)"
  using rt.start_ok [of n r] rt.start_err [of n r] rt.failed_start_refuses [of n r n' network hostport]
    rt.start_not_ready [of n r] rt.stopped_refuses [of n' r network hostport]
    rt.dial_None_status [of n' r network hostport]
  by (auto simp: route_ID_def split: prod.splits option.splits)

definition sample_wg :: route where
  "sample_wg = WgRoute \<lparr>w_def = \<lparr>rd_ID = ''w1'', rd_Type = ''wireguard'', rd_Address = ''h:51820'',
     rd_Username = [], rd_Password = [], rd_PasswordEnv = [], rd_PrivateKey = [], rd_PeerPublicKey = [],
     rd_LocalAddress = [], rd_LocalAddress6 = [], rd_DNS = [], rd_MTU = 0\<rparr>,
     w_tun = Some \<lparr>tn_cfg = \<lparr>wc_PrivateKey = [], wc_PeerPublicKey = [], wc_Endpoint = ''h:51820'',
       wc_LocalAddress = [], wc_LocalAddress6 = [], wc_DNS = [], wc_MTU = 0, wc_ListenPort = 0\<rparr>,
       tn_closed = False\<rparr>, w_status = StatusReady, w_lastErr = None\<rparr>"

definition sample_net :: netw where
  "sample_net = \<lparr>n_tcp = (\<lambda>_. Inl (plain_err ''unreachable'')), n_response = (\<lambda>bs. Inr (200, bs)),
     n_dev = (\<lambda>_. \<lparr>dv_CreateNetTUN = (\<lambda>_ _ _. None), dv_IpcSet = (\<lambda>_. None), dv_Up = None\<rparr>),
     n_polls = (\<lambda>_. []), n_ipc = (\<lambda>_. Inr []), n_netstack = (\<lambda>_ _ _. None), n_now = 0\<rparr>"

theorem route_lifecycle_witness:
  "route_Dial sample_net sample_wg ''tcp'' ''a.io:443'' = None
   \<and> (route_Status sample_wg = StatusReady \<or> route_Status sample_wg = StatusVerifying)
   \<and> (\<exists>e. fst (route_Start sample_net sample_wg) = Some e)"
proof -
  have d: "route_Dial sample_net sample_wg ''tcp'' ''a.io:443'' = None" by code_simp
  have s: "\<exists>e. fst (route_Start sample_net sample_wg) = Some e"
    by (simp add: sample_wg_def wg_Start_def wg_SetStatus_def wg_cfg_def wg_Open_def uapi_def ParseKey_def)
  show ?thesis
    using d s route_lifecycle [where n = sample_net and r = sample_wg and n' = sample_net
      and network = "''tcp''" and hostport = "''a.io:443''"] by blast
qed

end
