(* ===== verification/Gate.thy ===== *)
theory Gate
  imports Route
begin

text \<open>
  The gate (\<open>src/routing/provider/gate.go\<close>) and the connection tracking of the SOCKS5 server it
  owns (\<open>src/routing/socks5/server.go\<close>).

  The first part is the gate as its callers see it: a record whose \<open>g_route\<close> is the reference of
  the route it forwards to, with its bounded event log. The second part is the interleaving of the
  server's goroutines with \<open>Close\<close>: one step per atomic action of the code.
\<close>

section \<open>Events\<close>

record ConnectEvent =
  ce_At :: int
  ce_Host :: string
  ce_Port :: int
  ce_AddrType :: byte
  ce_Reply :: byte
  ce_Err :: string

fun result_err_Error :: "result_err \<Rightarrow> string" where
  "result_err_Error (CommandRefused cmd) = ''socks5: command '' @ itoa_nat (unat cmd) @ '' refused''"
| "result_err_Error ErrRefused = ''socks5: refused (route not ready)''"
| "result_err_Error (DialFailed e) = de_text e"

section \<open>The gate\<close>

record gate =
  g_route :: nat
  g_open :: bool
  g_port :: "nat option"
  g_down :: bool
  g_events :: "ConnectEvent list"
  g_max :: nat

definition NewGate :: "nat \<Rightarrow> gate" where
  "NewGate r = \<lparr>g_route = r, g_open = False, g_port = None, g_down = False, g_events = [], g_max = 4096\<rparr>"

text \<open>\<open>Listen\<close>: the outcome of binding the loopback listener is a parameter.\<close>

definition gate_Listen :: "string \<Rightarrow> gerr + nat \<Rightarrow> gate \<Rightarrow> gerr option \<times> gate" where
  "gate_Listen route_id bind g = (case bind of
      Inl e \<Rightarrow> (Some (''gate for '' @ route_id @ '': '' @ e), g)
    | Inr p \<Rightarrow> (None, g\<lparr>g_port := Some p\<rparr>))"

definition gate_Addr :: "gate \<Rightarrow> string" where
  "gate_Addr g = (case g_port g of None \<Rightarrow> [] | Some p \<Rightarrow> ''127.0.0.1:'' @ itoa_nat p)"

definition gate_Port :: "gate \<Rightarrow> nat" where
  "gate_Port g = (case g_port g of None \<Rightarrow> 0 | Some p \<Rightarrow> p)"

definition gate_SetRoute :: "nat \<Rightarrow> gate \<Rightarrow> gate" where
  "gate_SetRoute r g = g\<lparr>g_route := r\<rparr>"

definition gate_Open :: "gate \<Rightarrow> gate" where
  "gate_Open g = g\<lparr>g_open := True\<rparr>"

definition gate_Close :: "gate \<Rightarrow> gate" where
  "gate_Close g = g\<lparr>g_open := False\<rparr>"

definition gate_IsOpen :: "gate \<Rightarrow> bool" where
  "gate_IsOpen g = g_open g"

definition gate_Shutdown :: "gate \<Rightarrow> gate" where
  "gate_Shutdown g = g\<lparr>g_open := False, g_down := True\<rparr>"

definition gate_record :: "int \<Rightarrow> target \<Rightarrow> byte \<Rightarrow> result_err option \<Rightarrow> gate \<Rightarrow> gate" where
  "gate_record at t code err g =
    (let ev = \<lparr>ce_At = at, ce_Host = t_Host t, ce_Port = t_Port t, ce_AddrType = t_Type t,
               ce_Reply = code, ce_Err = (case err of None \<Rightarrow> [] | Some e \<Rightarrow> result_err_Error e)\<rparr>
     in g\<lparr>g_events := keep_last (g_max g) (g_events g @ [ev])\<rparr>)"

definition gate_Events :: "gate \<Rightarrow> ConnectEvent list" where
  "gate_Events g = g_events g"

definition EventCount :: "gate \<Rightarrow> int" where
  "EventCount g = int (length (g_events g))"

definition EventsSince :: "int \<Rightarrow> gate \<Rightarrow> ConnectEvent list" where
  "EventsSince cursor g =
    (let c = (if cursor < 0 \<or> cursor > int (length (g_events g)) then 0 else cursor)
     in drop (nat c) (g_events g))"

text \<open>The server of the gate: its callbacks read the gate and the route it forwards to.\<close>

definition gate_server :: "netw \<Rightarrow> (nat \<Rightarrow> route) \<Rightarrow> gate \<Rightarrow> server" where
  "gate_server n routes g =
    \<lparr>sv_Authenticate = None, sv_Refuse = Some (\<not> g_open g),
     sv_Dial = (\<lambda>hostport. route_Dial n (routes (g_route g)) ''tcp'' hostport)\<rparr>"

fun gate_log :: "int \<Rightarrow> hev list \<Rightarrow> gate \<Rightarrow> gate" where
  "gate_log at [] g = g"
| "gate_log at (OnResult t code err # es) g = gate_log at es (gate_record at t code err g)"
| "gate_log at (_ # es) g = gate_log at es g"

text \<open>One client connection served by the gate: what happened, the connection and the gate after.\<close>

definition gate_serve ::
  "netw \<Rightarrow> (nat \<Rightarrow> route) \<Rightarrow> int \<Rightarrow> conn \<Rightarrow> gate \<Rightarrow> hev list \<times> conn \<times> gate" where
  "gate_serve n routes at c g =
    (case handle (gate_server n routes g) c of (tr, c') \<Rightarrow> (tr, c', gate_log at tr g))"

lemmas gate_defs = NewGate_def gate_SetRoute_def gate_Open_def gate_Close_def gate_IsOpen_def
  gate_Shutdown_def

lemma gate_record_frame [frame_simps, simp]:
  "g_route (gate_record at t c e g) = g_route g" "g_open (gate_record at t c e g) = g_open g"
  "g_port (gate_record at t c e g) = g_port g" "g_max (gate_record at t c e g) = g_max g"
  "g_down (gate_record at t c e g) = g_down g"
  by (simp_all add: gate_record_def Let_def)

lemma gate_log_frame [frame_simps, simp]:
  "g_route (gate_log at es g) = g_route g" "g_open (gate_log at es g) = g_open g"
  "g_port (gate_log at es g) = g_port g" "g_max (gate_log at es g) = g_max g"
  "g_down (gate_log at es g) = g_down g"
  by (induction at es g rule: gate_log.induct) simp_all

text \<open>The log never outgrows its bound, and the newest event is always in it.\<close>

definition gate_wf :: "gate \<Rightarrow> bool" where
  "gate_wf g \<longleftrightarrow> g_max g = 4096 \<and> length (g_events g) \<le> g_max g"

lemma gate_wf_NewGate [simp]: "gate_wf (NewGate r)"
  by (simp add: gate_wf_def NewGate_def)

lemma gate_wf_ops [simp]:
  "gate_wf g \<Longrightarrow> gate_wf (gate_SetRoute r g)" "gate_wf g \<Longrightarrow> gate_wf (gate_Open g)"
  "gate_wf g \<Longrightarrow> gate_wf (gate_Close g)" "gate_wf g \<Longrightarrow> gate_wf (gate_Shutdown g)"
  "gate_wf g \<Longrightarrow> gate_wf (gate_record at t c e g)"
  by (simp_all add: gate_wf_def gate_defs gate_record_def Let_def)

lemma gate_wf_log [simp]: "gate_wf g \<Longrightarrow> gate_wf (gate_log at es g)"
  by (induction at es g rule: gate_log.induct) simp_all

text \<open>A closed gate refuses, and a route that is not up is answered like a failed dial.\<close>

lemma gate_serve_closed:
  assumes "\<not> g_open g" and "gate_serve n routes at c g = (tr, c', g')"
  shows "Piped \<notin> set tr \<and> (\<forall>hp. Dialed hp \<notin> set tr)"
proof -
  let ?s = "gate_server n routes g"
  have "sv_Refuse ?s = Some True" using assms(1) by (simp add: gate_server_def)
  moreover have "tr = fst (handle ?s c)" using assms(2) by (auto simp: gate_serve_def split: prod.splits)
  ultimately show ?thesis
    using handle_trace [of ?s c] by (auto simp: request_trace_def split: if_splits)
qed

lemma gate_serve_piped:
  assumes "gate_serve n routes at c g = (tr, c', g')" and "Piped \<in> set tr"
  shows "g_open g \<and> (route_Status (routes (g_route g)) = StatusReady
    \<or> route_Status (routes (g_route g)) = StatusVerifying)"
proof -
  let ?s = "gate_server n routes g"
  have tr: "tr = fst (handle ?s c)" using assms(1) by (auto simp: gate_serve_def split: prod.splits)
  obtain t where "sv_Refuse ?s \<noteq> Some True" "sv_Dial ?s (HostPort t) = None"
    using handle_trace [of ?s c] assms(2) unfolding tr
    by (auto simp: request_trace_def split: if_splits option.splits)
  then show ?thesis
    using rt.dial_None_status [of n "routes (g_route g)" "''tcp''" "HostPort t"]
    by (auto simp: gate_server_def)
qed

lemma closed_codes:
  assumes "\<not> g_open g" and "gate_serve n routes at c g = (tr, c', g')" and "OnResult t code e \<in> set tr"
  shows "code = RepGeneralFailure \<or> code = RepCommandNotSupported"
proof -
  let ?s = "gate_server n routes g"
  have tr: "tr = fst (handle ?s c)" using assms(2) by (auto simp: gate_serve_def split: prod.splits)
  have "sv_Refuse ?s = Some True" using assms(1) by (simp add: gate_server_def)
  then show ?thesis
    using handle_trace [of ?s c] assms(3) unfolding tr
    by (auto simp: request_trace_def split: if_splits)
qed

section \<open>The server's goroutines against \<open>Close\<close>\<close>

text \<open>
  One goroutine per accepted connection runs \<open>handle\<close>; any number of callers run \<open>Gate.Close\<close> or
  \<open>Gate.Shutdown\<close>. A state holds the gate's flag, the server's \<open>closed\<close> flag and \<open>conns\<close> map, the
  client sockets that have been closed, where each connection's goroutine is, and where each closer
  is. \<open>gs_epoch\<close> counts the calls of \<open>Open\<close> and \<open>gs_sealed\<close> says that some \<open>Close\<close> has returned
  with no \<open>Open\<close> since it began; the code has neither, they only serve to state what \<open>Close\<close> achieves.
\<close>

datatype phase =
    Greeting    \<comment> \<open>tracked, reading the handshake and the request\<close>
  | Asked       \<comment> \<open>request parsed, \<open>Refuse\<close> not yet asked\<close>
  | Dialing     \<comment> \<open>\<open>Refuse\<close> returned false, the outbound dial runs\<close>
  | Connected   \<comment> \<open>the outbound leg is up, success not yet written\<close>
  | Piping      \<comment> \<open>success written, bytes are copied\<close>
  | Finished    \<comment> \<open>\<open>handle\<close> returned and the connection was untracked\<close>

datatype closer =
    CIdle
  | CStored nat             \<comment> \<open>\<open>open.Store(false)\<close> done\<close>
  | CClosing nat "nat list" \<comment> \<open>\<open>CloseConnections\<close> has its snapshot; the connections left to close\<close>

record gstate =
  gs_open :: bool
  gs_stopped :: bool
  gs_tracked :: "nat list"
  gs_dead :: "nat set"
  gs_phase :: "nat \<Rightarrow> phase"
  gs_next :: nat
  gs_closer :: "nat \<Rightarrow> closer"
  gs_epoch :: nat
  gs_sealed :: bool

definition gs_init :: gstate where
  "gs_init = \<lparr>gs_open = False, gs_stopped = False, gs_tracked = [], gs_dead = {},
     gs_phase = (\<lambda>_. Finished), gs_next = 0, gs_closer = (\<lambda>_. CIdle), gs_epoch = 0, gs_sealed = False\<rparr>"

definition track :: "nat \<Rightarrow> gstate \<Rightarrow> bool \<times> gstate" where
  "track c s = (if gs_stopped s then (False, s)
     else (True, s\<lparr>gs_tracked := c # removeAll c (gs_tracked s)\<rparr>))"

definition untrack :: "nat \<Rightarrow> gstate \<Rightarrow> gstate" where
  "untrack c s = s\<lparr>gs_tracked := removeAll c (gs_tracked s), gs_dead := insert c (gs_dead s)\<rparr>"

definition ActiveConnections :: "gstate \<Rightarrow> nat" where
  "ActiveConnections s = length (gs_tracked s)"

inductive gate_step :: "gstate \<Rightarrow> gstate \<Rightarrow> bool" where
  Accept: "track (gs_next s) s = (True, s') \<Longrightarrow>
    gate_step s (s'\<lparr>gs_phase := (gs_phase s)(gs_next s := Greeting), gs_next := Suc (gs_next s)\<rparr>)"
| AcceptStopped: "track (gs_next s) s = (False, s') \<Longrightarrow>
    gate_step s (s'\<lparr>gs_dead := insert (gs_next s) (gs_dead s'), gs_next := Suc (gs_next s)\<rparr>)"
| Parse: "gs_phase s c = Greeting \<Longrightarrow> c \<notin> gs_dead s \<Longrightarrow>
    gate_step s (s\<lparr>gs_phase := (gs_phase s)(c := Asked)\<rparr>)"
| Pass: "gs_phase s c = Asked \<Longrightarrow> gs_open s \<Longrightarrow>
    gate_step s (s\<lparr>gs_phase := (gs_phase s)(c := Dialing)\<rparr>)"
| Refuse: "gs_phase s c = Asked \<Longrightarrow> \<not> gs_open s \<Longrightarrow>
    gate_step s (untrack c (s\<lparr>gs_phase := (gs_phase s)(c := Finished)\<rparr>))"
| DialOk: "gs_phase s c = Dialing \<Longrightarrow>
    gate_step s (s\<lparr>gs_phase := (gs_phase s)(c := Connected)\<rparr>)"
| ReplyOk: "gs_phase s c = Connected \<Longrightarrow> c \<notin> gs_dead s \<Longrightarrow>
    gate_step s (s\<lparr>gs_phase := (gs_phase s)(c := Piping)\<rparr>)"
| Return: "gs_phase s c \<noteq> Finished \<Longrightarrow> gs_phase s c \<noteq> Asked \<Longrightarrow>
    gate_step s (untrack c (s\<lparr>gs_phase := (gs_phase s)(c := Finished)\<rparr>))"
| OpenGate: "gate_step s (s\<lparr>gs_open := True, gs_epoch := Suc (gs_epoch s), gs_sealed := False\<rparr>)"
| CloseStore: "gs_closer s t = CIdle \<Longrightarrow>
    gate_step s (s\<lparr>gs_open := False, gs_closer := (gs_closer s)(t := CStored (gs_epoch s))\<rparr>)"
| SrvClose: "gs_closer s t = CStored e \<Longrightarrow> gate_step s (s\<lparr>gs_stopped := True\<rparr>)"
| CloseSnap: "gs_closer s t = CStored e \<Longrightarrow>
    gate_step s (s\<lparr>gs_closer := (gs_closer s)(t := CClosing e (gs_tracked s))\<rparr>)"
| CloseOne: "gs_closer s t = CClosing e (c # cs) \<Longrightarrow>
    gate_step s (s\<lparr>gs_dead := insert c (gs_dead s), gs_closer := (gs_closer s)(t := CClosing e cs)\<rparr>)"
| CloseDone: "gs_closer s t = CClosing e [] \<Longrightarrow>
    gate_step s (s\<lparr>gs_closer := (gs_closer s)(t := CIdle),
                  gs_sealed := (gs_sealed s \<or> e = gs_epoch s)\<rparr>)"

inductive gate_reach :: "gstate \<Rightarrow> bool" where
  init: "gate_reach gs_init"
| step: "gate_reach s \<Longrightarrow> gate_step s s' \<Longrightarrow> gate_reach s'"

text \<open>A connection whose goroutine got past the refusal check.\<close>

definition forwarding :: "gstate \<Rightarrow> nat \<Rightarrow> bool" where
  "forwarding s c \<longleftrightarrow> gs_phase s c = Dialing \<or> gs_phase s c = Connected \<or> gs_phase s c = Piping"

definition tracked_ok :: "gstate \<Rightarrow> bool" where
  "tracked_ok s \<longleftrightarrow> (\<forall>c. gs_phase s c \<noteq> Finished \<longrightarrow> c \<in> set (gs_tracked s))"

text \<open>The connections a closer still has to close, if no \<open>Open\<close> came after it stored the flag.\<close>

definition closer_ok :: "gstate \<Rightarrow> closer \<Rightarrow> bool" where
  "closer_ok s k = (case k of
      CIdle \<Rightarrow> True
    | CStored e \<Rightarrow> e \<le> gs_epoch s \<and> (e = gs_epoch s \<longrightarrow> \<not> gs_open s)
    | CClosing e cs \<Rightarrow> e \<le> gs_epoch s \<and> (e = gs_epoch s \<longrightarrow>
        \<not> gs_open s \<and> (\<forall>c. forwarding s c \<longrightarrow> c \<in> gs_dead s \<union> set cs)))"

definition sealed_ok :: "gstate \<Rightarrow> bool" where
  "sealed_ok s \<longleftrightarrow> (gs_sealed s \<longrightarrow> \<not> gs_open s \<and> (\<forall>c. forwarding s c \<longrightarrow> c \<in> gs_dead s))"

definition gate_inv :: "gstate \<Rightarrow> bool" where
  "gate_inv s \<longleftrightarrow> tracked_ok s \<and> (\<forall>t. closer_ok s (gs_closer s t)) \<and> sealed_ok s"

lemma gate_inv_init: "gate_inv gs_init"
  by (simp add: gate_inv_def tracked_ok_def closer_ok_def sealed_ok_def gs_init_def forwarding_def)

lemma tracked_ok_step: "gate_step s s' \<Longrightarrow> tracked_ok s \<Longrightarrow> tracked_ok s'"
  by (induction rule: gate_step.induct)
    (auto simp: tracked_ok_def track_def untrack_def split: if_splits)

text \<open>A step that starts no forwarding, revives no socket and leaves the flag closed keeps both.\<close>

lemma closer_ok_mono:
  assumes "closer_ok s k" and "gs_epoch s' = gs_epoch s" and "gs_open s' \<Longrightarrow> gs_open s"
    and "\<And>c. forwarding s' c \<Longrightarrow> gs_open s \<or> forwarding s c" and "gs_dead s \<subseteq> gs_dead s'"
  shows "closer_ok s' k"
  using assms by (cases k) (auto simp: closer_ok_def)

lemma sealed_ok_mono:
  assumes "sealed_ok s" and "gs_sealed s' \<Longrightarrow> gs_sealed s" and "gs_open s' \<Longrightarrow> gs_open s"
    and "\<And>c. forwarding s' c \<Longrightarrow> gs_open s \<or> forwarding s c" and "gs_dead s \<subseteq> gs_dead s'"
  shows "sealed_ok s'"
  using assms by (auto simp: sealed_ok_def)

lemma gate_inv_quiet:
  assumes "gate_step s s'" "gate_inv s" "gs_epoch s' = gs_epoch s" "gs_open s' \<Longrightarrow> gs_open s"
    "\<And>c. forwarding s' c \<Longrightarrow> gs_open s \<or> forwarding s c" "gs_dead s \<subseteq> gs_dead s'"
    "gs_closer s' = gs_closer s" "gs_sealed s' = gs_sealed s"
  shows "gate_inv s'"
  using assms tracked_ok_step [OF assms(1)] closer_ok_mono [of s _ s'] sealed_ok_mono [of s s']
  unfolding gate_inv_def by metis

lemma forwarding_tracked: "tracked_ok s \<Longrightarrow> forwarding s c \<Longrightarrow> c \<in> set (gs_tracked s)"
  by (auto simp: tracked_ok_def forwarding_def)

lemma track_frame:
  "track c s = (b, s') \<Longrightarrow> gs_open s' = gs_open s \<and> gs_dead s' = gs_dead s \<and> gs_phase s' = gs_phase s
     \<and> gs_closer s' = gs_closer s \<and> gs_epoch s' = gs_epoch s \<and> gs_sealed s' = gs_sealed s"
  by (auto simp: track_def split: if_splits)

lemma gate_inv_step:
  assumes st: "gate_step s s'" and inv: "gate_inv s"
  shows "gate_inv s'"
  using st
proof cases
  case (OpenGate)
  have "closer_ok s' (gs_closer s t)" for t
    using inv OpenGate by (cases "gs_closer s t") (auto simp: gate_inv_def closer_ok_def dest: spec [of _ t])
  then show ?thesis
    using tracked_ok_step [OF st] inv OpenGate by (simp add: gate_inv_def sealed_ok_def)
next
  case (CloseStore t)
  have "closer_ok s' k" if "closer_ok s k" for k
    using that by (rule closer_ok_mono) (auto simp: CloseStore forwarding_def)
  moreover have "sealed_ok s'"
    using inv by (auto simp: gate_inv_def sealed_ok_def CloseStore forwarding_def)
  ultimately show ?thesis
    using tracked_ok_step [OF st] inv by (auto simp: gate_inv_def CloseStore closer_ok_def)
next
  case (CloseSnap t e)
  have m: "closer_ok s' k" if "closer_ok s k" for k
    using that by (rule closer_ok_mono) (auto simp: CloseSnap forwarding_def)
  have "closer_ok s (CStored e)" using inv CloseSnap by (metis gate_inv_def)
  then have "closer_ok s' (CClosing e (gs_tracked s))"
    using inv forwarding_tracked [of s] by (auto simp: gate_inv_def closer_ok_def CloseSnap forwarding_def)
  moreover have "sealed_ok s'"
    using inv by (auto simp: gate_inv_def sealed_ok_def CloseSnap forwarding_def)
  ultimately show ?thesis
    using tracked_ok_step [OF st] inv m by (auto simp: gate_inv_def CloseSnap)
next
  case (CloseOne t e c cs)
  have m: "closer_ok s' k" if "closer_ok s k" for k
    using that by (rule closer_ok_mono) (auto simp: CloseOne forwarding_def)
  have "closer_ok s (CClosing e (c # cs))" using inv CloseOne by (metis gate_inv_def)
  then have "closer_ok s' (CClosing e cs)" by (auto simp: closer_ok_def CloseOne forwarding_def)
  moreover have "sealed_ok s'"
    using inv by (auto simp: gate_inv_def sealed_ok_def CloseOne forwarding_def)
  ultimately show ?thesis
    using tracked_ok_step [OF st] inv m by (auto simp: gate_inv_def CloseOne)
next
  case (CloseDone t e)
  have m: "closer_ok s' k" if "closer_ok s k" for k
    using that by (rule closer_ok_mono) (auto simp: CloseDone forwarding_def)
  have "closer_ok s (CClosing e [])" using inv CloseDone by (metis gate_inv_def)
  then have "sealed_ok s'"
    using inv by (auto simp: gate_inv_def sealed_ok_def closer_ok_def CloseDone forwarding_def)
  then show ?thesis
    using tracked_ok_step [OF st] inv m by (auto simp: gate_inv_def CloseDone closer_ok_def)
qed (rule gate_inv_quiet [OF st inv];
     auto simp: forwarding_def untrack_def dest: track_frame split: if_splits)+

lemma gate_reach_inv: "gate_reach s \<Longrightarrow> gate_inv s"
  by (induction rule: gate_reach.induct) (auto intro: gate_inv_init gate_inv_step)

section \<open>The log as a cursor\<close>

definition event_of :: "int \<times> target \<times> byte \<times> result_err option \<Rightarrow> ConnectEvent" where
  "event_of = (\<lambda>(at, t, code, err).
     \<lparr>ce_At = at, ce_Host = t_Host t, ce_Port = t_Port t, ce_AddrType = t_Type t,
      ce_Reply = code, ce_Err = (case err of None \<Rightarrow> [] | Some e \<Rightarrow> result_err_Error e)\<rparr>)"

definition record_all :: "(int \<times> target \<times> byte \<times> result_err option) list \<Rightarrow> gate \<Rightarrow> gate" where
  "record_all rs g = foldl (\<lambda>g (at, t, code, err). gate_record at t code err g) g rs"

lemma record_all_simps [simp]:
  "record_all [] g = g"
  "record_all (r # rs) g = record_all rs (g\<lparr>g_events := keep_last (g_max g) (g_events g @ [event_of r])\<rparr>)"
  by (auto simp: record_all_def event_of_def gate_record_def Let_def split: prod.splits)

lemma record_all_events_small:
  "length (g_events g) + length rs \<le> g_max g \<Longrightarrow>
     g_events (record_all rs g) = g_events g @ map event_of rs"
  by (induction rs arbitrary: g) auto

lemma record_all_events_full:
  "length (g_events g) = g_max g \<Longrightarrow> g_max g > 0 \<Longrightarrow>
     length (g_events (record_all rs g)) = g_max g"
proof (induction rs arbitrary: g)
  case (Cons r rs)
  let ?g = "g\<lparr>g_events := keep_last (g_max g) (g_events g @ [event_of r])\<rparr>"
  have "length (g_events ?g) = g_max ?g" using Cons.prems by (simp add: length_keep_last)
  from Cons.IH [OF this] Cons.prems show ?case by simp
qed simp

section \<open>Properties\<close>


definition sample_client :: conn where
  "sample_client = \<lparr>c_in = [5, 1, 0, 5, 1, 0, 3, 1, 97, 0, 80], c_out = [], c_wleft = 3\<rparr>"


text \<open>
  C7: \<open>Close\<close> terminates live tunnels, under every interleaving of the accept loop, the
  connection handlers and any number of concurrent callers of \<open>Open\<close>, \<open>Close\<close> and \<open>Shutdown\<close>:
  once a \<open>Close\<close> has returned and no \<open>Open\<close> was called since it began, the gate is closed and
  every connection whose handler got past the refusal check has had its client socket closed.
\<close>

theorem gate_close_seals:
  assumes "gate_reach s" and "gs_sealed s"
  shows "\<not> gs_open s \<and> (\<forall>c. gs_phase s c = Dialing \<or> gs_phase s c = Connected \<or> gs_phase s c = Piping
    \<longrightarrow> c \<in> gs_dead s)"
  using gate_reach_inv [OF assms(1)] assms(2) by (auto simp: gate_inv_def sealed_ok_def forwarding_def)

definition sample_run :: gstate where
  "sample_run = gs_init\<lparr>gs_tracked := [0], gs_phase := (\<lambda>_. Finished)(0 := Dialing), gs_next := 1,
     gs_dead := {0}, gs_closer := (\<lambda>_. CIdle)(0 := CIdle), gs_epoch := 1, gs_sealed := True\<rparr>"

theorem gate_close_seals_witness:
  "gate_reach sample_run \<and> gs_phase sample_run 0 = Dialing \<and> 0 \<in> gs_dead sample_run"
proof -
  note st = gate_reach.step
  have 1: "gate_reach (gs_init\<lparr>gs_tracked := [0], gs_phase := (\<lambda>_. Finished)(0 := Greeting), gs_next := 1\<rparr>)"
    using st [OF gate_reach.init gate_step.Accept] by (simp add: track_def gs_init_def)
  have 2: "gate_reach (gs_init\<lparr>gs_tracked := [0], gs_phase := (\<lambda>_. Finished)(0 := Asked), gs_next := 1\<rparr>)"
    using st [OF 1 gate_step.Parse, of 0] by (simp add: gs_init_def)
  have 3: "gate_reach (gs_init\<lparr>gs_open := True, gs_tracked := [0], gs_phase := (\<lambda>_. Finished)(0 := Asked),
      gs_next := 1, gs_epoch := 1\<rparr>)"
    using st [OF 2 gate_step.OpenGate] by (simp add: gs_init_def)
  have 4: "gate_reach (gs_init\<lparr>gs_open := True, gs_tracked := [0], gs_phase := (\<lambda>_. Finished)(0 := Dialing),
      gs_next := 1, gs_epoch := 1\<rparr>)"
    using st [OF 3 gate_step.Pass, of 0] by (simp add: gs_init_def)
  have 5: "gate_reach (gs_init\<lparr>gs_tracked := [0], gs_phase := (\<lambda>_. Finished)(0 := Dialing),
      gs_next := 1, gs_epoch := 1, gs_closer := (\<lambda>_. CIdle)(0 := CStored 1)\<rparr>)"
    using st [OF 4 gate_step.CloseStore, of 0] by (simp add: gs_init_def)
  have 6: "gate_reach (gs_init\<lparr>gs_tracked := [0], gs_phase := (\<lambda>_. Finished)(0 := Dialing),
      gs_next := 1, gs_epoch := 1, gs_closer := (\<lambda>_. CIdle)(0 := CClosing 1 [0])\<rparr>)"
    using st [OF 5 gate_step.CloseSnap, of 0 1] by (simp add: gs_init_def)
  have 7: "gate_reach (gs_init\<lparr>gs_tracked := [0], gs_phase := (\<lambda>_. Finished)(0 := Dialing),
      gs_next := 1, gs_dead := {0}, gs_epoch := 1, gs_closer := (\<lambda>_. CIdle)(0 := CClosing 1 [])\<rparr>)"
    using st [OF 6 gate_step.CloseOne, of 0 1 0 "[]"] by (simp add: gs_init_def)
  have 8: "gate_reach sample_run"
    using st [OF 7 gate_step.CloseDone, of 0 1] by (simp add: gs_init_def sample_run_def)
  have p: "gs_phase sample_run 0 = Dialing" "gs_sealed sample_run" by (simp_all add: sample_run_def)
  show ?thesis using gate_close_seals [OF 8 p(2)] 8 p(1) by blast
qed

text \<open>
  The event log as a cursor, while it has room: the events recorded after an \<open>EventCount\<close> are
  exactly what \<open>EventsSince\<close> returns for it, in order.
\<close>

theorem gate_events_since:
  assumes "length (g_events g) + length rs \<le> g_max g"
  shows "EventsSince (EventCount g) (record_all rs g) = map event_of rs"
  using record_all_events_small [OF assms]
  by (simp add: EventsSince_def EventCount_def Let_def)

theorem gate_events_since_witness:
  "EventsSince (EventCount (NewGate 0))
     (record_all [(7, \<lparr>t_Type = ATypDomain, t_Host = ''a.io'', t_Port = 443\<rparr>, RepSuccess, None)] (NewGate 0))
   = map event_of [(7, \<lparr>t_Type = ATypDomain, t_Host = ''a.io'', t_Port = 443\<rparr>, RepSuccess, None)]"
  by (rule gate_events_since) (simp add: NewGate_def)

text \<open>
  The event log as a cursor, once it is full: \<open>EventCount\<close> stays at the bound, so the cursor
  taken then makes \<open>EventsSince\<close> return nothing, whatever is recorded afterwards.
\<close>

theorem gate_cursor_saturates:
  assumes "length (g_events g) = g_max g" and "g_max g > 0"
  shows "EventCount (record_all rs g) = EventCount g
    \<and> EventsSince (EventCount g) (record_all rs g) = []"
  using record_all_events_full [OF assms, of rs] assms(1)
  by (simp add: EventsSince_def EventCount_def Let_def)

definition sample_event :: ConnectEvent where
  "sample_event = \<lparr>ce_At = 0, ce_Host = ''a.io'', ce_Port = 443, ce_AddrType = ATypDomain,
     ce_Reply = RepSuccess, ce_Err = []\<rparr>"

theorem gate_cursor_saturates_witness:
  "EventsSince (EventCount ((NewGate 0)\<lparr>g_events := replicate 4096 sample_event\<rparr>))
     (record_all [(7, \<lparr>t_Type = ATypIPv4, t_Host = ''1.2.3.4'', t_Port = 443\<rparr>, RepSuccess, None)]
       ((NewGate 0)\<lparr>g_events := replicate 4096 sample_event\<rparr>)) = []"
proof -
  have "length (g_events ((NewGate 0)\<lparr>g_events := replicate 4096 sample_event\<rparr>))
      = g_max ((NewGate 0)\<lparr>g_events := replicate 4096 sample_event\<rparr>)"
    "0 < g_max ((NewGate 0)\<lparr>g_events := replicate 4096 sample_event\<rparr>)"
    by (simp_all add: NewGate_def)
  from gate_cursor_saturates [OF this] show ?thesis by blast
qed

end
