(* ===== verification/Decodo.thy ===== *)
theory Decodo
  imports Gate
begin

text \<open>
  Provisioners (\<open>src/routing/manager\<close>: \<open>manager.go\<close>, \<open>decodo.go\<close>): the static provisioner, the
  Decodo provisioner with its sticky sessions and their state file, and the choice between them.

  Go's \<open>Provisioner\<close> interface is the locale \<open>provisioner\<close>, interpreted on both. Time is in
  nanoseconds. The state file is modelled by what \<open>load\<close> finds in it: \<open>json\<close> is not modelled.
\<close>

section \<open>The static provisioner\<close>

definition static_Name :: "RouteDef list \<Rightarrow> string" where
  "static_Name defs = (case defs of [] \<Rightarrow> ''static'' | d # _ \<Rightarrow> ''static/'' @ rd_Type d)"

fun new_all :: "(string \<Rightarrow> string option) \<Rightarrow> RouteDef list \<Rightarrow> route list result" where
  "new_all getenv [] = Inr []"
| "new_all getenv (d # ds) = (case New getenv registered d of
      Inl e \<Rightarrow> Inl e
    | Inr r \<Rightarrow> (case new_all getenv ds of Inl e \<Rightarrow> Inl e | Inr rs \<Rightarrow> Inr (r # rs)))"

definition static_Provision ::
  "(string \<Rightarrow> string option) \<Rightarrow> int \<Rightarrow> RouteDef list \<Rightarrow> route list result" where
  "static_Provision getenv n defs =
    (if n < 1 then Inl ''provision: need at least 1 route''
     else if int (length defs) < n then
       Inl (''provision: '' @ Itoa n @ '' identities requested but only '' @ itoa_nat (length defs)
            @ '' routes available (routes are never shared)'')
     else new_all getenv (take (nat n) defs))"

definition static_Reestablish ::
  "(string \<Rightarrow> string option) \<Rightarrow> int \<Rightarrow> RouteDef list \<Rightarrow> route result" where
  "static_Reestablish getenv slot defs =
    (if slot < 1 \<or> slot > int (length defs) then Inl (''provision: no route for slot '' @ Itoa slot)
     else New getenv registered (defs ! nat (slot - 1)))"

section \<open>Decodo sessions\<close>

definition defaultDecodoHost :: string where "defaultDecodoHost = ''gate.decodo.com''"
definition defaultDecodoPort :: int where "defaultDecodoPort = 7000"
definition defaultSessionMinutes :: int where "defaultSessionMinutes = 1440"
definition maxSessionMinutes :: int where "maxSessionMinutes = 1440"

definition ErrDecodoCredentials :: gerr where
  "ErrDecodoCredentials = ''decodo credentials are not available''"

record DecodoConfig =
  cf_Account :: string
  cf_Password :: string
  cf_Host :: string
  cf_Port :: int
  cf_Country :: string
  cf_SessionMinutes :: int
  cf_StatePath :: string

record decodoSlot =
  ds_SessionID :: string
  ds_Created :: int

record Decodo =
  dc_Account :: string
  dc_Password :: string
  dc_Host :: string
  dc_Port :: int
  dc_Country :: string
  dc_SessionMinutes :: int
  dc_StatePath :: string
  dc_slots :: "(int \<times> decodoSlot) list"

definition alphaNum :: "string \<Rightarrow> bool" where
  "alphaNum s \<longleftrightarrow> s \<noteq> [] \<and> list_all alnum_char s"

definition minutes_err :: gerr where
  "minutes_err = ''decodo: session minutes must be 1..'' @ Itoa maxSessionMinutes"

definition Username :: "string \<Rightarrow> string \<Rightarrow> string \<Rightarrow> int \<Rightarrow> string result" where
  "Username account0 country0 sessionID0 minutes =
    (let account = TrimPrefix (TrimSpace account0) ''user-'';
         country = ToLower (TrimSpace country0);
         sessionID = TrimSpace sessionID0 in
     if \<not> alphaNum account then Inl ''decodo: account must be alphanumeric''
     else if \<not> alphaNum sessionID then Inl ''decodo: session id must be alphanumeric''
     else if country \<noteq> [] \<and> (length country \<noteq> 2 \<or> \<not> alphaNum country) then
       Inl ''decodo: country must be a 2-letter code''
     else if minutes < 1 \<or> minutes > maxSessionMinutes then Inl minutes_err
     else Inr (''user-'' @ account @ (if country \<noteq> [] then ''-country-'' @ country else [])
               @ ''-session_iplock-'' @ sessionID @ ''-sessionduration-'' @ Itoa minutes))"

definition decodo_validate :: "Decodo \<Rightarrow> gerr option" where
  "decodo_validate d =
    (if dc_Account d = [] \<or> dc_Password d = [] then Some ErrDecodoCredentials
     else if dc_SessionMinutes d < 1 \<or> dc_SessionMinutes d > maxSessionMinutes then Some minutes_err
     else if dc_Port d < 1 \<or> dc_Port d > 65535 then Some (''decodo: invalid port '' @ Itoa (dc_Port d))
     else case Username (dc_Account d) (dc_Country d) ''session'' (dc_SessionMinutes d) of
        Inl e \<Rightarrow> Some e
      | Inr _ \<Rightarrow> None)"

definition NewDecodo :: "DecodoConfig \<Rightarrow> Decodo result" where
  "NewDecodo cfg =
    (let d = \<lparr>dc_Account = TrimPrefix (TrimSpace (cf_Account cfg)) ''user-'',
              dc_Password = cf_Password cfg,
              dc_Host = (let h = TrimSpace (cf_Host cfg) in if h = [] then defaultDecodoHost else h),
              dc_Port = (if cf_Port cfg = 0 then defaultDecodoPort else cf_Port cfg),
              dc_Country = ToLower (TrimSpace (cf_Country cfg)),
              dc_SessionMinutes = (if cf_SessionMinutes cfg = 0 then defaultSessionMinutes
                                   else cf_SessionMinutes cfg),
              dc_StatePath = cf_StatePath cfg, dc_slots = []\<rparr>
     in case decodo_validate d of Some e \<Rightarrow> Inl e | None \<Rightarrow> Inr d)"

text \<open>\<open>filepath.Join\<close> of a clean directory path.\<close>

definition decodoStatePath :: "string \<Rightarrow> string" where
  "decodoStatePath dataDir = dataDir @ ''/decodo-sessions.json''"

text \<open>\<open>getenv\<close> is \<open>os.Getenv\<close>: the empty string for a variable that is not set.\<close>

definition Atoi_error :: "string \<Rightarrow> gerr" where
  "Atoi_error v = ''strconv.Atoi: parsing '' @ Quote v @
    (let ds = (case v of c # cs \<Rightarrow> if c = CHR ''-'' \<or> c = CHR ''+'' then cs else v | [] \<Rightarrow> [])
     in if ds = [] \<or> \<not> list_all is_digit ds then '': invalid syntax'' else '': value out of range'')"

definition env_number :: "string \<Rightarrow> string \<Rightarrow> int \<Rightarrow> int result" where
  "env_number name v dflt =
    (if v = [] then Inr dflt
     else case Atoi v of
        None \<Rightarrow> Inl (''decodo: '' @ name @ '': '' @ Atoi_error v)
      | Some p \<Rightarrow> Inr p)"

definition DecodoFromEnv :: "(string \<Rightarrow> string) \<Rightarrow> string \<Rightarrow> DecodoConfig \<Rightarrow> Decodo result" where
  "DecodoFromEnv getenv dataDir cfg0 =
    (let c1 = cfg0\<lparr>cf_Account := (if cf_Account cfg0 = [] then getenv ''DECODO_USERNAME'' else cf_Account cfg0)\<rparr>;
         c2 = c1\<lparr>cf_Password := (if cf_Password c1 = [] then getenv ''DECODO_PASSWORD'' else cf_Password c1)\<rparr>
     in
     if TrimSpace (cf_Account c2) = [] \<or> cf_Password c2 = [] then Inl ErrDecodoCredentials
     else
       (let c3 = c2\<lparr>cf_Host := (if getenv ''DECODO_HOST'' \<noteq> [] then getenv ''DECODO_HOST'' else cf_Host c2)\<rparr>
        in case env_number ''DECODO_PORT'' (getenv ''DECODO_PORT'') (cf_Port c3) of
          Inl e \<Rightarrow> Inl e
        | Inr port \<Rightarrow>
           (let c4 = c3\<lparr>cf_Port := port, cf_Country :=
                 (if getenv ''DECODO_COUNTRY'' \<noteq> [] then getenv ''DECODO_COUNTRY'' else cf_Country c3)\<rparr>
            in case env_number ''DECODO_SESSION_MINUTES'' (getenv ''DECODO_SESSION_MINUTES'')
                      (cf_SessionMinutes c4) of
              Inl e \<Rightarrow> Inl e
            | Inr m \<Rightarrow> NewDecodo (c4\<lparr>cf_SessionMinutes := m,
                cf_StatePath := (if cf_StatePath c4 = [] \<and> dataDir \<noteq> [] then decodoStatePath dataDir
                                 else cf_StatePath c4)\<rparr>))))"

section \<open>State\<close>

text \<open>The state file as \<open>load\<close> reads it.\<close>

record decodoStateSlot =
  ss_Slot :: int
  ss_SessionID :: string
  ss_Created :: int

datatype state_file =
    NoFile
  | Unreadable gerr
  | Blank
  | BadJSON gerr
  | SlotsFile "decodoStateSlot list"

record dworld =
  dw_file :: state_file
  dw_drawn :: nat

text \<open>The random source by draw, the clock, the outcome of writing the state file, and the environment.\<close>

record denv =
  dv_rand :: "nat \<Rightarrow> byte list option"
  dv_now :: int
  dv_save :: "gerr option"
  dv_getenv :: "string \<Rightarrow> string option"

definition newSessionID :: "denv \<Rightarrow> nat \<Rightarrow> string" where
  "newSessionID env k = (case dv_rand env k of
      None \<Rightarrow> CHR ''s'' # hex_nat (nat (dv_now env))
    | Some b \<Rightarrow> EncodeToString b)"

definition life :: "Decodo \<Rightarrow> int" where
  "life d = dc_SessionMinutes d * 60000000000"

definition zero_slot :: decodoSlot where
  "zero_slot = \<lparr>ds_SessionID = [], ds_Created = 0\<rparr>"

definition slot_of :: "Decodo \<Rightarrow> int \<Rightarrow> decodoSlot" where
  "slot_of d slot = (case map_of (dc_slots d) slot of None \<Rightarrow> zero_slot | Some s \<Rightarrow> s)"

definition SessionID :: "Decodo \<Rightarrow> int \<Rightarrow> string" where
  "SessionID d slot = ds_SessionID (slot_of d slot)"

definition put_slot :: "int \<Rightarrow> decodoSlot \<Rightarrow> Decodo \<Rightarrow> Decodo" where
  "put_slot slot s d = d\<lparr>dc_slots := AList.update slot s (dc_slots d)\<rparr>"

definition ensure :: "denv \<Rightarrow> int \<Rightarrow> Decodo \<times> dworld \<Rightarrow> Decodo \<times> dworld" where
  "ensure env slot = (\<lambda>(d, w).
    (case map_of (dc_slots d) slot of
       Some st \<Rightarrow>
         if ds_SessionID st \<noteq> [] \<and> dv_now env < ds_Created st + life d then (d, w)
         else (put_slot slot \<lparr>ds_SessionID = newSessionID env (dw_drawn w), ds_Created = dv_now env\<rparr> d,
               w\<lparr>dw_drawn := Suc (dw_drawn w)\<rparr>)
     | None \<Rightarrow>
         (put_slot slot \<lparr>ds_SessionID = newSessionID env (dw_drawn w), ds_Created = dv_now env\<rparr> d,
          w\<lparr>dw_drawn := Suc (dw_drawn w)\<rparr>)))"

definition decodo_def :: "Decodo \<Rightarrow> int \<Rightarrow> string \<Rightarrow> RouteDef" where
  "decodo_def d slot user =
    \<lparr>rd_ID = ''decodo-'' @ fmt03d slot, rd_Type = ''socks5'',
     rd_Address = JoinHostPort (dc_Host d) (Itoa (dc_Port d)), rd_Username = user,
     rd_Password = dc_Password d, rd_PasswordEnv = [], rd_PrivateKey = [], rd_PeerPublicKey = [],
     rd_LocalAddress = [], rd_LocalAddress6 = [], rd_DNS = [], rd_MTU = 0\<rparr>"

definition decodo_route :: "denv \<Rightarrow> int \<Rightarrow> Decodo \<Rightarrow> route result" where
  "decodo_route env slot d =
    (case Username (dc_Account d) (dc_Country d) (SessionID d slot) (dc_SessionMinutes d) of
       Inl e \<Rightarrow> Inl e
     | Inr user \<Rightarrow> New (dv_getenv env) registered (decodo_def d slot user))"

fun load_slots :: "decodoStateSlot list \<Rightarrow> Decodo \<Rightarrow> Decodo" where
  "load_slots [] d = d"
| "load_slots (s # ss) d = load_slots ss
    (if ss_Slot s < 1 \<or> ss_SessionID s = [] then d
     else put_slot (ss_Slot s) \<lparr>ds_SessionID = ss_SessionID s, ds_Created = ss_Created s\<rparr> d)"

definition load :: "dworld \<Rightarrow> Decodo \<Rightarrow> gerr option \<times> Decodo" where
  "load w d =
    (if dc_StatePath d = [] then (None, d)
     else case dw_file w of
        NoFile \<Rightarrow> (None, d)
      | Unreadable e \<Rightarrow> (Some e, d)
      | Blank \<Rightarrow> (None, d)
      | BadJSON e \<Rightarrow> (Some (''decodo: session state: '' @ e), d)
      | SlotsFile ss \<Rightarrow> (None, load_slots ss d))"

text \<open>
  The sorting loop of \<open>save\<close>: element \<open>i\<close> moves left past larger slots. \<open>sink\<close> moves an element
  into the sorted prefix, which is kept reversed.
\<close>

fun sink :: "decodoStateSlot \<Rightarrow> decodoStateSlot list \<Rightarrow> decodoStateSlot list" where
  "sink x [] = [x]"
| "sink x (y # ys) = (if ss_Slot x < ss_Slot y then y # sink x ys else x # y # ys)"

definition sort_slots :: "decodoStateSlot list \<Rightarrow> decodoStateSlot list" where
  "sort_slots xs = rev (foldl (\<lambda>acc x. sink x acc) [] xs)"

definition state_slot :: "int \<times> decodoSlot \<Rightarrow> decodoStateSlot" where
  "state_slot p = \<lparr>ss_Slot = fst p, ss_SessionID = ds_SessionID (snd p), ss_Created = ds_Created (snd p)\<rparr>"

definition save :: "denv \<Rightarrow> Decodo \<Rightarrow> dworld \<Rightarrow> gerr option \<times> dworld" where
  "save env d w =
    (if dc_StatePath d = [] then (None, w)
     else case dv_save env of
        Some e \<Rightarrow> (Some e, w)
      | None \<Rightarrow> (None, w\<lparr>dw_file := SlotsFile (sort_slots (map state_slot (dc_slots d)))\<rparr>))"

section \<open>Operations\<close>

fun provision_loop ::
  "denv \<Rightarrow> int list \<Rightarrow> Decodo \<times> dworld \<Rightarrow> route list result \<times> Decodo \<times> dworld" where
  "provision_loop env [] dw = (Inr [], dw)"
| "provision_loop env (slot # slots) dw =
    (let dw1 = ensure env slot dw in
     case decodo_route env slot (fst dw1) of
       Inl e \<Rightarrow> (Inl e, dw1)
     | Inr r \<Rightarrow> (case provision_loop env slots dw1 of
         (Inl e, dw2) \<Rightarrow> (Inl e, dw2)
       | (Inr rs, dw2) \<Rightarrow> (Inr (r # rs), dw2)))"

definition decodo_Provision ::
  "denv \<Rightarrow> int \<Rightarrow> Decodo \<times> dworld \<Rightarrow> route list result \<times> Decodo \<times> dworld" where
  "decodo_Provision env n dw =
    (if n < 1 then (Inl ''provision: need at least 1 route'', dw)
     else case load (snd dw) (fst dw) of
        (Some e, d1) \<Rightarrow> (Inl e, d1, snd dw)
      | (None, d1) \<Rightarrow> (case provision_loop env [1..n] (d1, snd dw) of
          (Inl e, dw2) \<Rightarrow> (Inl e, dw2)
        | (Inr rs, d2, w2) \<Rightarrow> (case save env d2 w2 of
            (Some e, w3) \<Rightarrow> (Inl e, d2, w3)
          | (None, w3) \<Rightarrow> (Inr rs, d2, w3))))"

definition decodo_Reestablish ::
  "denv \<Rightarrow> int \<Rightarrow> Decodo \<times> dworld \<Rightarrow> route result \<times> Decodo \<times> dworld" where
  "decodo_Reestablish env slot dw =
    (if slot < 1 then (Inl (''decodo: no route for slot '' @ Itoa slot), dw)
     else case load (snd dw) (fst dw) of
        (Some e, d1) \<Rightarrow> (Inl e, d1, snd dw)
      | (None, d1) \<Rightarrow>
          if map_of (dc_slots d1) slot = None \<or> SessionID d1 slot = [] then
            (Inl (''decodo: no session for slot '' @ Itoa slot), d1, snd dw)
          else (decodo_route env slot d1, d1, snd dw))"

definition decodo_ReplaceSession ::
  "denv \<Rightarrow> int \<Rightarrow> Decodo \<times> dworld \<Rightarrow> route result \<times> Decodo \<times> dworld" where
  "decodo_ReplaceSession env slot dw =
    (if slot < 1 then (Inl (''decodo: no route for slot '' @ Itoa slot), dw)
     else case load (snd dw) (fst dw) of
        (Some e, d1) \<Rightarrow> (Inl e, d1, snd dw)
      | (None, d1) \<Rightarrow>
         (let d2 = put_slot slot \<lparr>ds_SessionID = newSessionID env (dw_drawn (snd dw)),
                                  ds_Created = dv_now env\<rparr> d1;
              w2 = (snd dw)\<lparr>dw_drawn := Suc (dw_drawn (snd dw))\<rparr>
          in case save env d2 w2 of
               (Some e, w3) \<Rightarrow> (Inl e, d2, w3)
             | (None, w3) \<Rightarrow> (decodo_route env slot d2, d2, w3)))"

section \<open>Choosing a provisioner\<close>

datatype Provisioner = Static "RouteDef list" | DecodoP Decodo

record Input =
  in_DataDir :: string
  in_Explicit :: "RouteDef list"
  in_Provider :: string
  in_Decodo :: "Decodo option"

definition empty_config :: DecodoConfig where
  "empty_config = \<lparr>cf_Account = [], cf_Password = [], cf_Host = [], cf_Port = 0, cf_Country = [],
     cf_SessionMinutes = 0, cf_StatePath = []\<rparr>"

definition manager_Open :: "(string \<Rightarrow> string) \<Rightarrow> Input \<Rightarrow> (Provisioner \<times> string) result" where
  "manager_Open getenv i =
    (if in_Explicit i \<noteq> [] then Inr (Static (in_Explicit i), ''static'')
     else let p = ToLower (TrimSpace (in_Provider i)) in
       if p \<noteq> [] \<and> p \<noteq> ''decodo'' then Inl (''unknown network provider '' @ Quote (in_Provider i))
       else case in_Decodo i of
          Some d \<Rightarrow> Inr (DecodoP d, ''decodo'')
        | None \<Rightarrow> (case DecodoFromEnv getenv (in_DataDir i) empty_config of
            Inl e \<Rightarrow> Inl (''decodo: '' @ e)
          | Inr d \<Rightarrow> Inr (DecodoP d, ''decodo'')))"

definition Resolve ::
  "(string \<Rightarrow> string) \<Rightarrow> string \<Rightarrow> RouteDef list \<Rightarrow> (Provisioner \<times> string) result" where
  "Resolve getenv dataDir explicitDefs = manager_Open getenv
     \<lparr>in_DataDir = dataDir, in_Explicit = explicitDefs, in_Provider = [], in_Decodo = None\<rparr>"



section \<open>Usernames\<close>

lemma alnum_dash_split:
  assumes "list_all alnum_char x" "list_all alnum_char y" "x @ CHR ''-'' # r = y @ CHR ''-'' # r'"
  shows "x = y \<and> r = r'"
proof -
  have tw: "takeWhile (\<lambda>c. c \<noteq> CHR ''-'') (z @ CHR ''-'' # q) = z" if "list_all alnum_char z" for z q
    using that by (induction z) auto
  have "x = y" using tw [OF assms(1)] tw [OF assms(2)] assms(3) by metis
  with assms(3) show ?thesis by simp
qed

text \<open>What a username says: account, country, session and minutes, as they were normalised.\<close>

lemma Username_Inr:
  assumes "Username a c s m = Inr u"
  obtains ac co se where "ac = TrimPrefix (TrimSpace a) ''user-''" "co = ToLower (TrimSpace c)"
    "se = TrimSpace s" "list_all alnum_char ac" "list_all alnum_char se" "se \<noteq> []" "1 \<le> m" "m \<le> 1440"
    "u = ''user-'' @ ac @ CHR ''-'' # ((if co \<noteq> [] then ''country-'' @ co @ ''-'' else [])
       @ ''session_iplock-'' @ se @ CHR ''-'' # ''sessionduration-'' @ Itoa m)"
    "co \<noteq> [] \<Longrightarrow> list_all alnum_char co"
  using assms that [of "TrimPrefix (TrimSpace a) ''user-''" "ToLower (TrimSpace c)" "TrimSpace s"]
  by (auto simp: Username_def Let_def alphaNum_def maxSessionMinutes_def split: if_splits)

lemma Username_inj:
  assumes "Username a c s m = Inr u" and "Username a' c' s' m' = Inr u"
  shows "TrimPrefix (TrimSpace a) ''user-'' = TrimPrefix (TrimSpace a') ''user-''
    \<and> ToLower (TrimSpace c) = ToLower (TrimSpace c') \<and> TrimSpace s = TrimSpace s' \<and> m = m'"
proof -
  obtain ac co se where u: "ac = TrimPrefix (TrimSpace a) ''user-''" "co = ToLower (TrimSpace c)"
    "se = TrimSpace s" "list_all alnum_char ac" "list_all alnum_char se" "1 \<le> m"
    "u = ''user-'' @ ac @ CHR ''-'' # ((if co \<noteq> [] then ''country-'' @ co @ ''-'' else [])
       @ ''session_iplock-'' @ se @ CHR ''-'' # ''sessionduration-'' @ Itoa m)"
    "co \<noteq> [] \<Longrightarrow> list_all alnum_char co"
    using Username_Inr [OF assms(1)] by metis
  obtain ac' co' se' where u': "ac' = TrimPrefix (TrimSpace a') ''user-''" "co' = ToLower (TrimSpace c')"
    "se' = TrimSpace s'" "list_all alnum_char ac'" "list_all alnum_char se'" "1 \<le> m'"
    "u = ''user-'' @ ac' @ CHR ''-'' # ((if co' \<noteq> [] then ''country-'' @ co' @ ''-'' else [])
       @ ''session_iplock-'' @ se' @ CHR ''-'' # ''sessionduration-'' @ Itoa m')"
    "co' \<noteq> [] \<Longrightarrow> list_all alnum_char co'"
    using Username_Inr [OF assms(2)] by metis
  have "ac @ CHR ''-'' # ((if co \<noteq> [] then ''country-'' @ co @ ''-'' else [])
       @ ''session_iplock-'' @ se @ CHR ''-'' # ''sessionduration-'' @ Itoa m)
     = ac' @ CHR ''-'' # ((if co' \<noteq> [] then ''country-'' @ co' @ ''-'' else [])
       @ ''session_iplock-'' @ se' @ CHR ''-'' # ''sessionduration-'' @ Itoa m')"
    using u(7) u'(7) by simp
  from alnum_dash_split [OF u(4) u'(4) this] have ac: "ac = ac'"
    and r: "(if co \<noteq> [] then ''country-'' @ co @ ''-'' else [])
       @ ''session_iplock-'' @ se @ CHR ''-'' # ''sessionduration-'' @ Itoa m
     = (if co' \<noteq> [] then ''country-'' @ co' @ ''-'' else [])
       @ ''session_iplock-'' @ se' @ CHR ''-'' # ''sessionduration-'' @ Itoa m'"
    by auto
  have co: "co = co' \<and> se @ CHR ''-'' # ''sessionduration-'' @ Itoa m
      = se' @ CHR ''-'' # ''sessionduration-'' @ Itoa m'"
  proof (cases "co = [] \<or> co' = []")
    case True
    then show ?thesis using r by (auto split: if_splits)
  next
    case False
    then have "co @ CHR ''-'' # ''session_iplock-'' @ se @ CHR ''-'' # ''sessionduration-'' @ Itoa m
      = co' @ CHR ''-'' # ''session_iplock-'' @ se' @ CHR ''-'' # ''sessionduration-'' @ Itoa m'"
      using r by simp
    from alnum_dash_split [OF u(8) u'(8) this] False show ?thesis by auto
  qed
  have se: "se = se'" and "''sessionduration-'' @ Itoa m = ''sessionduration-'' @ Itoa m'"
    using alnum_dash_split [OF u(5) u'(5)] co by auto
  then have "Itoa m = Itoa m'" by simp
  then have "m = m'" using Itoa_inj_nonneg [of m m'] u(6) u'(6) by simp
  with ac co se u(1-3) u'(1-3) show ?thesis by simp
qed

section \<open>Slots\<close>

lemma map_of_put_slot [simp]: "map_of (dc_slots (put_slot k x d)) = (map_of (dc_slots d))(k \<mapsto> x)"
  by (simp add: put_slot_def update_conv')

lemma put_slot_frame [simp]:
  "dc_Account (put_slot k x d) = dc_Account d" "dc_Password (put_slot k x d) = dc_Password d"
  "dc_Host (put_slot k x d) = dc_Host d" "dc_Port (put_slot k x d) = dc_Port d"
  "dc_Country (put_slot k x d) = dc_Country d"
  "dc_SessionMinutes (put_slot k x d) = dc_SessionMinutes d"
  "dc_StatePath (put_slot k x d) = dc_StatePath d"
  by (simp_all add: put_slot_def)

lemma distinct_put_slot [simp]:
  "distinct (map fst (dc_slots d)) \<Longrightarrow> distinct (map fst (dc_slots (put_slot k x d)))"
  by (simp add: put_slot_def distinct_update)

text \<open>Two provisioners of the same account: only their slots may differ.\<close>

definition same_account :: "Decodo \<Rightarrow> Decodo \<Rightarrow> bool" where
  "same_account d d' \<longleftrightarrow> d'\<lparr>dc_slots := dc_slots d\<rparr> = d"

lemma same_account_iff:
  "same_account d d' \<longleftrightarrow> dc_Account d' = dc_Account d \<and> dc_Password d' = dc_Password d \<and> dc_Host d' = dc_Host d
     \<and> dc_Port d' = dc_Port d \<and> dc_Country d' = dc_Country d \<and> dc_SessionMinutes d' = dc_SessionMinutes d
     \<and> dc_StatePath d' = dc_StatePath d"
  by (cases d; cases d') (auto simp: same_account_def)

lemma decodo_route_cong:
  "same_account d d' \<Longrightarrow> map_of (dc_slots d') slot = map_of (dc_slots d) slot \<Longrightarrow>
     decodo_route env slot d' = decodo_route env slot d"
  by (simp add: decodo_route_def decodo_def_def SessionID_def slot_of_def same_account_iff split: sum.splits)

lemma ensure_frame:
  assumes "ensure env slot (d, w) = (d', w')"
  shows "same_account d d'" "k \<noteq> slot \<Longrightarrow> map_of (dc_slots d') k = map_of (dc_slots d) k"
    "distinct (map fst (dc_slots d)) \<Longrightarrow> distinct (map fst (dc_slots d'))" "dw_file w' = dw_file w"
  using assms by (auto simp: ensure_def same_account_iff split: option.splits if_splits)

lemma provision_loop_frame:
  "provision_loop env slots (d, w) = (res, d', w') \<Longrightarrow>
     same_account d d' \<and> (\<forall>k. k \<notin> set slots \<longrightarrow> map_of (dc_slots d') k = map_of (dc_slots d) k)
     \<and> (distinct (map fst (dc_slots d)) \<longrightarrow> distinct (map fst (dc_slots d'))) \<and> dw_file w' = dw_file w"
proof (induction slots arbitrary: d w res d' w')
  case Nil
  then show ?case by (auto simp: same_account_iff)
next
  case (Cons slot slots)
  obtain d1 w1 where e: "ensure env slot (d, w) = (d1, w1)" by (metis prod.exhaust)
  note f = ensure_frame [OF e]
  show ?case
  proof (cases "decodo_route env slot d1")
    case (Inl x)
    then show ?thesis using Cons.prems f by (auto simp: e)
  next
    case (Inr r)
    obtain res' where "provision_loop env slots (d1, w1) = (res', d', w')"
      using Cons.prems Inr by (auto simp: e split: prod.splits sum.splits)
    from Cons.IH [OF this] f show ?thesis by (auto simp: same_account_iff)
  qed
qed

lemma provision_loop_routes:
  "provision_loop env slots (d, w) = (Inr rs, d', w') \<Longrightarrow> distinct slots \<Longrightarrow>
     length rs = length slots \<and> (\<forall>i < length slots. decodo_route env (slots ! i) d' = Inr (rs ! i))"
proof (induction slots arbitrary: d w rs d' w')
  case Nil
  then show ?case by simp
next
  case (Cons slot slots)
  obtain d1 w1 where e: "ensure env slot (d, w) = (d1, w1)" by (metis prod.exhaust)
  obtain r rs' where r: "decodo_route env slot d1 = Inr r"
    and l: "provision_loop env slots (d1, w1) = (Inr rs', d', w')" and rs: "rs = r # rs'"
    using Cons.prems(1) by (auto simp: e Let_def split: prod.splits sum.splits)
  have "decodo_route env slot d' = Inr r"
    using r decodo_route_cong [of d1 d' slot env] provision_loop_frame [OF l] Cons.prems(2) by auto
  moreover have "length rs' = length slots \<and>
      (\<forall>i < length slots. decodo_route env (slots ! i) d' = Inr (rs' ! i))"
    using Cons.IH [OF l] Cons.prems(2) by simp
  ultimately show ?case by (auto simp: rs nth_Cons split: nat.splits)
qed

lemma decodo_route_Def:
  "decodo_route env slot d = Inr r \<Longrightarrow> \<exists>user. route_Def r = decodo_def d slot user
     \<and> Username (dc_Account d) (dc_Country d) (SessionID d slot) (dc_SessionMinutes d) = Inr user
     \<and> route_Status r = StatusCreated \<and> RouteDef_Validate (decodo_def d slot user) = None"
  by (auto simp: decodo_route_def dest: New_fresh split: sum.splits)

section \<open>The state file\<close>

lemma set_sink: "set (sink x ys) = insert x (set ys)"
  by (induction ys) auto

lemma mset_sink: "distinct (map ss_Slot (x # ys)) \<Longrightarrow> distinct (map ss_Slot (sink x ys))"
  by (induction ys) (auto simp: set_sink)

lemma sort_slots_aux:
  "set (foldl (\<lambda>acc x. sink x acc) acc xs) = set acc \<union> set xs \<and>
   (distinct (map ss_Slot (acc @ xs)) \<longrightarrow> distinct (map ss_Slot (foldl (\<lambda>acc x. sink x acc) acc xs)))"
proof (induction xs arbitrary: acc)
  case (Cons x xs)
  have "distinct (map ss_Slot (acc @ x # xs)) \<Longrightarrow> distinct (map ss_Slot (sink x acc @ xs))"
    using mset_sink [of x acc] by (auto simp: set_sink)
  then show ?case using Cons [of "sink x acc"] by (auto simp: set_sink)
qed simp

lemma sort_slots_set [simp]: "set (sort_slots xs) = set xs"
  and sort_slots_distinct: "distinct (map ss_Slot xs) \<Longrightarrow> distinct (map ss_Slot (sort_slots xs))"
  using sort_slots_aux [of "[]" xs] by (auto simp: sort_slots_def rev_map [symmetric])

lemma sink_sorted: "sorted_wrt (\<lambda>a b. ss_Slot b \<le> ss_Slot a) ys \<Longrightarrow>
    sorted_wrt (\<lambda>a b. ss_Slot b \<le> ss_Slot a) (sink x ys)"
  by (induction ys) (auto simp: set_sink)

lemma sort_slots_sorted: "sorted (map ss_Slot (sort_slots xs))"
proof -
  have "sorted_wrt (\<lambda>a b. ss_Slot b \<le> ss_Slot a) acc \<Longrightarrow>
      sorted_wrt (\<lambda>a b. ss_Slot b \<le> ss_Slot a) (foldl (\<lambda>acc x. sink x acc) acc xs)" for acc
    by (induction xs arbitrary: acc) (auto intro: sink_sorted)
  from this [of "[]"] show ?thesis
    by (simp add: sort_slots_def sorted_wrt_map sorted_wrt_rev)
qed

lemma load_slots_frame: "same_account d (load_slots ss d)"
  "distinct (map fst (dc_slots d)) \<Longrightarrow> distinct (map fst (dc_slots (load_slots ss d)))"
  by (induction ss d rule: load_slots.induct) (auto simp: same_account_iff split: if_splits)

definition valid_slot :: "decodoStateSlot \<Rightarrow> bool" where
  "valid_slot s \<longleftrightarrow> 1 \<le> ss_Slot s \<and> ss_SessionID s \<noteq> []"

definition slot_entry :: "decodoStateSlot \<Rightarrow> int \<times> decodoSlot" where
  "slot_entry s = (ss_Slot s, \<lparr>ds_SessionID = ss_SessionID s, ds_Created = ss_Created s\<rparr>)"

text \<open>Loading a file: its valid entries override the slots in memory, the last one of a slot winning.\<close>

lemma map_of_load_slots:
  "map_of (dc_slots (load_slots ss d))
     = map_of (dc_slots d) ++ map_of (rev (map slot_entry (filter valid_slot ss)))"
  by (induction ss d rule: load_slots.induct) (auto simp: valid_slot_def slot_entry_def map_add_def fun_eq_iff split: option.splits)

lemma load_slots_idem: "map_of (dc_slots (load_slots ss (load_slots ss d))) = map_of (dc_slots (load_slots ss d))"
  by (auto simp: map_of_load_slots map_add_def fun_eq_iff split: option.splits)

lemma state_slot_simps [simp]:
  "ss_Slot (state_slot p) = fst p" "ss_SessionID (state_slot p) = ds_SessionID (snd p)"
  "ss_Created (state_slot p) = ds_Created (snd p)" "slot_entry (state_slot p) = p"
  by (simp_all add: state_slot_def slot_entry_def prod_eq_iff)

definition file_of :: "Decodo \<Rightarrow> decodoStateSlot list" where
  "file_of d = sort_slots (map state_slot (dc_slots d))"

lemma file_of_distinct: "distinct (map fst (dc_slots d)) \<Longrightarrow> distinct (map ss_Slot (file_of d))"
  unfolding file_of_def by (rule sort_slots_distinct) (simp add: comp_def)

text \<open>Reading back what was written.\<close>

lemma file_of_entries:
  assumes "distinct (map fst (dc_slots d))"
  shows "map_of (rev (map slot_entry (filter valid_slot (file_of d)))) k =
    (case map_of (dc_slots d) k of
       Some x \<Rightarrow> if 1 \<le> k \<and> ds_SessionID x \<noteq> [] then Some x else None
     | None \<Rightarrow> None)" (is "map_of ?es k = _")
proof -
  have "distinct (map ss_Slot (filter valid_slot (file_of d)))"
    using file_of_distinct [OF assms] by (rule distinct_map_filter)
  then have D: "distinct (map fst ?es)" by (simp add: rev_map [symmetric] comp_def slot_entry_def)
  have S: "set ?es = {p \<in> set (dc_slots d). 1 \<le> fst p \<and> ds_SessionID (snd p) \<noteq> []}"
    by (force simp: file_of_def valid_slot_def)
  show ?thesis
  proof (cases "map_of (dc_slots d) k")
    case None
    then have "k \<notin> fst ` set ?es" using S map_of_eq_None_iff [of "dc_slots d" k] by auto
    then show ?thesis using None map_of_eq_None_iff [of ?es k] by (simp del: set_rev set_map)
  next
    case (Some x)
    then have x: "(k, x) \<in> set (dc_slots d)" by (rule map_of_SomeD)
    show ?thesis
    proof (cases "1 \<le> k \<and> ds_SessionID x \<noteq> []")
      case True
      then have "(k, x) \<in> set ?es" using x S by auto
      then show ?thesis using map_of_is_SomeI [OF D] True Some by simp
    next
      case False
      have "k \<notin> fst ` set ?es"
      proof
        assume "k \<in> fst ` set ?es"
        then obtain y where "(k, y) \<in> set (dc_slots d)" "1 \<le> k" "ds_SessionID y \<noteq> []" using S by auto
        then show False using map_of_is_SomeI [OF assms] False Some by fastforce
      qed
      then have "map_of ?es k = None" by (simp only: map_of_eq_None_iff not_False_eq_True)
      then show ?thesis using False Some by simp
    qed
  qed
qed

lemma load_file_of_self:
  "distinct (map fst (dc_slots d)) \<Longrightarrow> map_of (dc_slots (load_slots (file_of d) d)) = map_of (dc_slots d)"
  by (auto simp: map_of_load_slots map_add_def fun_eq_iff file_of_entries split: option.splits)

section \<open>The interface\<close>

text \<open>The state after a sequence of calls of one operation.\<close>

definition after_all :: "('e \<Rightarrow> int \<Rightarrow> 's \<Rightarrow> 'r \<times> 's) \<Rightarrow> ('e \<times> int) list \<Rightarrow> 's \<Rightarrow> 's" where
  "after_all f ops s = foldl (\<lambda>s (e, slot). snd (f e slot s)) s ops"

text \<open>
  The \<open>Provisioner\<close> interface. \<open>key\<close> is the part of a route's definition that makes it the session path of a
  slot; \<open>view s slot\<close> is the key that belongs to a slot: that of the route \<open>Provision\<close> hands out, and what
  \<open>Reestablish\<close> must restore.
\<close>

locale provisioner =
  fixes provision :: "'e \<Rightarrow> int \<Rightarrow> 's \<Rightarrow> route list result \<times> 's"
    and reestablish :: "'e \<Rightarrow> int \<Rightarrow> 's \<Rightarrow> route result \<times> 's"
    and key :: "RouteDef \<Rightarrow> 'v"
    and view :: "'s \<Rightarrow> int \<Rightarrow> 'v option"
    and ok :: "'s \<Rightarrow> bool"
  assumes provision_routes: "ok s \<Longrightarrow> provision e n s = (Inr rs, s') \<Longrightarrow>
      1 \<le> n \<and> length rs = nat n \<and> (\<forall>r \<in> set rs. route_Status r = StatusCreated)
      \<and> (\<forall>slot. 1 \<le> slot \<and> slot \<le> n \<longrightarrow> view s' slot = Some (key (route_Def (rs ! nat (slot - 1)))))"
    and provision_ok: "ok s \<Longrightarrow> ok (snd (provision e n s))"
    and reestablish_view: "ok s \<Longrightarrow> reestablish e slot s = (Inr r, s') \<Longrightarrow>
      (\<forall>v. view s slot = Some v \<longrightarrow> v = key (route_Def r)) \<and> route_Status r = StatusCreated"
    and reestablish_keeps: "ok s \<Longrightarrow> view s i = Some v \<Longrightarrow> view (snd (reestablish e slot s)) i = Some v"
    and reestablish_ok: "ok s \<Longrightarrow> ok (snd (reestablish e slot s))"
begin

lemma reestablish_all_keeps:
  "ok s \<Longrightarrow> view s i = Some v \<Longrightarrow> view (after_all reestablish ops s) i = Some v \<and> ok (after_all reestablish ops s)"
  unfolding after_all_def
  by (induction ops arbitrary: s) (auto simp: reestablish_keeps reestablish_ok split: prod.splits)

text \<open>Whatever is reestablished in between, a slot keeps the session path it was provisioned with.\<close>

lemma reestablish_restores:
  assumes "ok s" and "provision e n s = (Inr rs, s1)" and "1 \<le> slot" and "slot \<le> n"
    and "reestablish e' slot (after_all reestablish ops s1) = (Inr r, s2)"
  shows "key (route_Def r) = key (route_Def (rs ! nat (slot - 1))) \<and> route_Status r = StatusCreated"
proof -
  have ok1: "ok s1" using provision_ok [OF assms(1), of e n] assms(2) by simp
  have "view s1 slot = Some (key (route_Def (rs ! nat (slot - 1))))"
    using provision_routes [OF assms(1,2)] assms(3,4) by blast
  then show ?thesis
    using reestablish_all_keeps [OF ok1, of slot _ ops] reestablish_view [OF _ assms(5)] by auto
qed

end


section \<open>The static provisioner keeps the contract\<close>

lemma new_all_routes:
  "new_all getenv ds = Inr rs \<Longrightarrow> length rs = length ds \<and> map route_Def rs = ds
     \<and> (\<forall>r \<in> set rs. route_Status r = StatusCreated)"
  by (induction ds arbitrary: rs) (auto dest: New_fresh split: sum.splits)

definition static_view :: "RouteDef list \<Rightarrow> int \<Rightarrow> RouteDef option" where
  "static_view defs slot = (if slot < 1 \<or> slot > int (length defs) then None else Some (defs ! nat (slot - 1)))"

interpretation st: provisioner "\<lambda>getenv n defs. (static_Provision getenv n defs, defs)"
  "\<lambda>getenv slot defs. (static_Reestablish getenv slot defs, defs)" "\<lambda>d. d" static_view "\<lambda>_. True"
proof (unfold_locales, goal_cases)
  case (1 s e n rs s')
  then have n: "1 \<le> n" "n \<le> int (length s)" "new_all e (take (nat n) s) = Inr rs" "s' = s"
    by (auto simp: static_Provision_def split: if_splits)
  have m: "length rs = nat n" "map route_Def rs = take (nat n) s"
    "\<forall>r \<in> set rs. route_Status r = StatusCreated"
    using new_all_routes [OF n(3)] n(1,2) by auto
  have "static_view s' slot = Some (route_Def (rs ! nat (slot - 1)))" if "1 \<le> slot" "slot \<le> n" for slot
  proof -
    have "route_Def (rs ! nat (slot - 1)) = map route_Def rs ! nat (slot - 1)"
      using that m(1) by simp
    then show ?thesis using that n m by (auto simp: static_view_def)
  qed
  then show ?case using n m by auto
next
  case (3 s e slot r s')
  then show ?case
    by (auto simp: static_Reestablish_def static_view_def dest: New_fresh split: if_splits)
qed simp_all

section \<open>The Decodo provisioner keeps the contract\<close>

definition decodo_view :: "Decodo \<times> dworld \<Rightarrow> int \<Rightarrow> RouteDef option" where
  "decodo_view dw slot = (case load (snd dw) (fst dw) of
      (Some _, _) \<Rightarrow> None
    | (None, d) \<Rightarrow>
        (case Username (dc_Account d) (dc_Country d) (SessionID d slot) (dc_SessionMinutes d) of
           Inl _ \<Rightarrow> None
         | Inr user \<Rightarrow>
             if RouteDef_Validate (decodo_def d slot user) = None then Some (decodo_def d slot user)
             else None))"

definition decodo_ok :: "Decodo \<times> dworld \<Rightarrow> bool" where
  "decodo_ok dw \<longleftrightarrow> distinct (map fst (dc_slots (fst dw)))"

lemma load_frame:
  assumes "load w d = (e, d')"
  shows "same_account d d'" "distinct (map fst (dc_slots d)) \<Longrightarrow> distinct (map fst (dc_slots d'))"
  using assms load_slots_frame [of d]
  by (auto simp: load_def same_account_iff split: if_splits state_file.splits)

lemma same_account_refl [simp]: "same_account d d"
  by (simp add: same_account_iff)

lemma load_again:
  assumes "load w d = (e, d1)"
  shows "\<exists>d2. load w d1 = (e, d2) \<and> same_account d1 d2 \<and> map_of (dc_slots d2) = map_of (dc_slots d1)"
proof (cases "\<exists>ss. dc_StatePath d \<noteq> [] \<and> dw_file w = SlotsFile ss")
  case True
  then obtain ss where ss: "dc_StatePath d \<noteq> []" "dw_file w = SlotsFile ss" by blast
  then have d1: "d1 = load_slots ss d" "e = None" using assms by (auto simp: load_def)
  have "dc_StatePath d1 \<noteq> []" using ss(1) load_slots_frame(1) [of d ss] d1 by (simp add: same_account_iff)
  then have "load w d1 = (None, load_slots ss d1)" by (simp add: load_def ss)
  then show ?thesis using d1 load_slots_idem [of ss d] load_slots_frame(1) [of d1 ss] by simp
next
  case False
  then have "d1 = d" using assms by (auto simp: load_def split: if_splits state_file.splits)
  then show ?thesis using assms by simp
qed

lemma view_cong:
  assumes "load w d = (None, d1)" and "load w' d' = (None, d2)" and "same_account d1 d2"
    and "map_of (dc_slots d2) = map_of (dc_slots d1)"
  shows "decodo_view (d', w') = decodo_view (d, w)"
proof
  fix slot
  have "SessionID d2 slot = SessionID d1 slot" using assms(4) by (simp add: SessionID_def slot_of_def)
  moreover have "decodo_def d2 slot user = decodo_def d1 slot user" for user
    using assms(3) by (simp add: decodo_def_def same_account_iff)
  ultimately show "decodo_view (d', w') slot = decodo_view (d, w) slot"
    using assms(3) by (simp add: decodo_view_def assms(1,2) same_account_iff split: sum.splits)
qed

lemma view_after_load:
  assumes "load w d = (x, d1)" shows "decodo_view (d1, w) = decodo_view (d, w)"
proof -
  obtain d2 where l2: "load w d1 = (x, d2)" "same_account d1 d2" "map_of (dc_slots d2) = map_of (dc_slots d1)"
    using load_again [OF assms] by blast
  show ?thesis
  proof (cases x)
    case None
    then show ?thesis using view_cong [of w d d1 w d1 d2] assms l2 by simp
  next
    case (Some e)
    then show ?thesis using assms l2(1) by (simp add: decodo_view_def fun_eq_iff)
  qed
qed

lemma save_then_load:
  assumes "save env d w = (None, w')" and "distinct (map fst (dc_slots d))"
  shows "\<exists>d'. load w' d = (None, d') \<and> same_account d d' \<and> map_of (dc_slots d') = map_of (dc_slots d)"
proof (cases "dc_StatePath d = []")
  case True
  then show ?thesis by (simp add: load_def same_account_iff)
next
  case False
  then have "dw_file w' = SlotsFile (file_of d)"
    using assms(1) by (auto simp: save_def file_of_def split: option.splits)
  then show ?thesis
    using False load_slots_frame(1) [of d "file_of d"] load_file_of_self [OF assms(2)]
    by (simp add: load_def)
qed

lemma decodo_view_route:
  assumes "load w d = (None, d1)" and "decodo_route env slot d1 = Inr r"
  shows "decodo_view (d, w) slot = Some (route_Def r) \<and> route_Status r = StatusCreated"
  using assms decodo_route_Def [OF assms(2)] by (auto simp: decodo_view_def)

interpretation dp: provisioner decodo_Provision decodo_Reestablish "\<lambda>d. d" decodo_view decodo_ok
proof (unfold_locales, goal_cases)
  case (1 s e n rs s')
  obtain d w where s: "s = (d, w)" by (metis prod.exhaust)
  obtain d1 d2 w2 w3 where n: "1 \<le> n" and l: "load w d = (None, d1)"
    and pl: "provision_loop e [1..n] (d1, w) = (Inr rs, d2, w2)"
    and sv: "save e d2 w2 = (None, w3)" and s': "s' = (d2, w3)"
    using 1 by (auto simp: decodo_Provision_def s split: if_splits prod.splits option.splits sum.splits)
  have "distinct (map fst (dc_slots d1))" using load_frame(2) [OF l] 1(1) by (simp add: decodo_ok_def s)
  then have D: "distinct (map fst (dc_slots d2))" using provision_loop_frame [OF pl] by blast
  obtain d3 where l3: "load w3 d2 = (None, d3)" "same_account d2 d3" "map_of (dc_slots d3) = map_of (dc_slots d2)"
    using save_then_load [OF sv D] by auto
  have R: "length rs = nat n" "\<And>i. i < nat n \<Longrightarrow> decodo_route e (1 + int i) d2 = Inr (rs ! i)"
    using provision_loop_routes [OF pl] by auto
  have "decodo_view s' slot = Some (route_Def (rs ! nat (slot - 1)))" if "1 \<le> slot" "slot \<le> n" for slot
  proof -
    have "decodo_route e slot d3 = Inr (rs ! nat (slot - 1))"
      using R(2) [of "nat (slot - 1)"] that decodo_route_cong [OF l3(2), of slot e] l3(3) by simp
    then show ?thesis using decodo_view_route [OF l3(1)] by (simp add: s')
  qed
  moreover have "route_Status r = StatusCreated" if "r \<in> set rs" for r
    using that R decodo_route_Def by (metis in_set_conv_nth)
  ultimately show ?case using n R(1) by blast
next
  case (2 s e n)
  obtain d w where s: "s = (d, w)" by (metis prod.exhaust)
  obtain x d1 where l: "load w d = (x, d1)" by (metis prod.exhaust)
  obtain res d2 w2 where pl: "provision_loop e [1..n] (d1, w) = (res, d2, w2)" by (metis prod_cases3)
  have D: "distinct (map fst (dc_slots d))" using 2 by (simp add: s decodo_ok_def)
  have D1: "distinct (map fst (dc_slots d1))" by (rule load_frame(2) [OF l D])
  have D2: "distinct (map fst (dc_slots d2))" using provision_loop_frame [OF pl] D1 by blast
  have "fst (snd (decodo_Provision e n s)) \<in> {d, d1, d2}"
    by (auto simp: decodo_Provision_def s l pl split: prod.splits option.splits sum.splits)
  then show ?case using D D1 D2 by (auto simp: decodo_ok_def)
next
  case (3 s e slot r s')
  obtain d w where s: "s = (d, w)" by (metis prod.exhaust)
  obtain d1 where l: "load w d = (None, d1)" and r: "decodo_route e slot d1 = Inr r"
    using 3 by (auto simp: decodo_Reestablish_def s split: if_splits prod.splits option.splits)
  show ?case using decodo_view_route [OF l r] by (simp add: s)
next
  case (4 s i v e slot)
  obtain d w where s: "s = (d, w)" by (metis prod.exhaust)
  obtain x d1 where l: "load w d = (x, d1)" by (metis prod.exhaust)
  have "snd (decodo_Reestablish e slot s) = s \<or> snd (decodo_Reestablish e slot s) = (d1, w)"
    by (auto simp: decodo_Reestablish_def s l split: option.splits)
  moreover have "decodo_view (d1, w) = decodo_view (d, w)" by (rule view_after_load [OF l])
  ultimately show ?case using 4 by (auto simp: s)
next
  case (5 s e slot)
  obtain d w where s: "s = (d, w)" by (metis prod.exhaust)
  then show ?case
    using 5 load_frame [of w d]
    by (auto simp: decodo_ok_def decodo_Reestablish_def split: prod.splits option.splits)
qed






section \<open>Sticky sessions\<close>

text \<open>A slot whose session is still inside the sticky window.\<close>

definition alive_slot :: "denv \<Rightarrow> Decodo \<Rightarrow> int \<Rightarrow> bool" where
  "alive_slot env d slot = (case map_of (dc_slots d) slot of
      None \<Rightarrow> False
    | Some st \<Rightarrow> ds_SessionID st \<noteq> [] \<and> dv_now env < ds_Created st + life d)"

lemma ensure_alive: "alive_slot env d slot \<Longrightarrow> ensure env slot (d, w) = (d, w)"
  by (auto simp: alive_slot_def ensure_def split: option.splits)

lemma decodo_route_env: "decodo_route env slot d = decodo_route env' slot d"
  by (simp add: decodo_route_def New_def Lookup_Register registered_def decodo_def_def
      resolvePassword_def split: sum.splits option.splits)

lemma provision_loop_alive:
  "\<forall>slot \<in> set slots. alive_slot env d slot \<Longrightarrow>
   length rs = length slots \<Longrightarrow> \<forall>i < length slots. decodo_route env (slots ! i) d = Inr (rs ! i) \<Longrightarrow>
     provision_loop env slots (d, w) = (Inr rs, d, w)"
proof (induction slots arbitrary: rs)
  case (Cons slot slots)
  then obtain r rs' where rs: "rs = r # rs'" by (cases rs) auto
  have "decodo_route env slot d = Inr r" using Cons.prems(3) by (force simp: rs)
  moreover have "provision_loop env slots (d, w) = (Inr rs', d, w)"
  proof (rule Cons.IH)
    show "\<forall>i < length slots. decodo_route env (slots ! i) d = Inr (rs' ! i)"
    proof (intro allI impI)
      fix i assume "i < length slots"
      then show "decodo_route env (slots ! i) d = Inr (rs' ! i)"
        using Cons.prems(3) [rule_format, of "Suc i"] by (simp add: rs)
    qed
  qed (use Cons.prems in \<open>auto simp: rs\<close>)
  ultimately show ?case using Cons.prems(1) by (simp add: ensure_alive rs)
qed simp

lemma provision_Inr:
  assumes "decodo_Provision env n (d, w) = (Inr rs, d2, w3)"
  obtains d1 w2 where "1 \<le> n" "load w d = (None, d1)" "provision_loop env [1..n] (d1, w) = (Inr rs, d2, w2)"
    "save env d2 w2 = (None, w3)"
  using assms by (auto simp: decodo_Provision_def split: if_splits prod.splits option.splits sum.splits)

lemma provision_sessions:
  assumes "provision_loop env [1..n] (d, w) = (Inr rs, d2, w2)" and "1 \<le> slot" "slot \<le> n"
  shows "decodo_route env slot d2 = Inr (rs ! nat (slot - 1)) \<and> SessionID d2 slot \<noteq> []"
proof -
  have r: "decodo_route env slot d2 = Inr (rs ! nat (slot - 1))"
    using provision_loop_routes [OF assms(1)] assms(2,3) by (auto dest!: spec [of _ "nat (slot - 1)"])
  moreover have "SessionID d2 slot \<noteq> []"
    using decodo_route_Def [OF r] by (auto elim!: Username_Inr simp: TrimSpace_def)
  ultimately show ?thesis by blast
qed

lemma restart_slots:
  assumes "distinct (map fst (dc_slots d))" "1 \<le> slot" "SessionID d slot \<noteq> []" "d' = d\<lparr>dc_slots := []\<rparr>"
  shows "map_of (dc_slots (load_slots (file_of d) d')) slot = map_of (dc_slots d) slot"
proof -
  obtain x where "map_of (dc_slots d) slot = Some x" "ds_SessionID x \<noteq> []"
    using assms(3) by (auto simp: SessionID_def slot_of_def zero_slot_def split: option.splits)
  then show ?thesis using assms(2) file_of_entries [OF assms(1), of slot]
    by (simp add: map_of_load_slots map_add_def)
qed

lemma provision_restart:
  assumes p: "decodo_Provision env n (d, w) = (Inr rs, d2, w3)" and D: "distinct (map fst (dc_slots d))"
    and path: "dc_StatePath d \<noteq> []" and sv': "dv_save env' = None"
    and now: "\<And>slot. 1 \<le> slot \<Longrightarrow> slot \<le> n \<Longrightarrow> dv_now env' < ds_Created (slot_of d2 slot) + life d2"
  shows "\<exists>d4 w4. decodo_Provision env' n (d2\<lparr>dc_slots := []\<rparr>, w3) = (Inr rs, d4, w4)"
proof -
  obtain d1 w2 where n: "1 \<le> n" and l: "load w d = (None, d1)"
    and pl: "provision_loop env [1..n] (d1, w) = (Inr rs, d2, w2)" and sv: "save env d2 w2 = (None, w3)"
    using provision_Inr [OF p] .
  have fr: "same_account d1 d2" using provision_loop_frame [OF pl] by blast
  have D2: "distinct (map fst (dc_slots d2))"
    using provision_loop_frame [OF pl] load_frame(2) [OF l D] by blast
  have path2: "dc_StatePath d2 \<noteq> []"
    using path fr load_frame(1) [OF l] by (simp add: same_account_iff)
  then have fil: "dw_file w3 = SlotsFile (file_of d2)"
    using sv by (auto simp: save_def file_of_def split: option.splits)
  let ?d0 = "d2\<lparr>dc_slots := []\<rparr>"
  let ?d3 = "load_slots (file_of d2) ?d0"
  have l3: "load w3 ?d0 = (None, ?d3)" using path2 by (simp add: load_def fil)
  have same: "same_account d2 ?d3" using load_slots_frame(1) [of ?d0 "file_of d2"] by (simp add: same_account_iff)
  have slots: "map_of (dc_slots ?d3) slot = map_of (dc_slots d2) slot"
    "decodo_route env' slot ?d3 = Inr (rs ! nat (slot - 1))" "alive_slot env' ?d3 slot"
    if "1 \<le> slot" "slot \<le> n" for slot
  proof -
    have s: "decodo_route env slot d2 = Inr (rs ! nat (slot - 1))" "SessionID d2 slot \<noteq> []"
      using provision_sessions [OF pl that] by auto
    show m: "map_of (dc_slots ?d3) slot = map_of (dc_slots d2) slot"
      by (rule restart_slots [OF D2 that(1) s(2) refl])
    show "decodo_route env' slot ?d3 = Inr (rs ! nat (slot - 1))"
      using decodo_route_cong [OF same m, of env'] s(1) decodo_route_env [of env' slot d2 env] by simp
    show "alive_slot env' ?d3 slot"
      using s(2) now [OF that] same m
      by (auto simp: alive_slot_def SessionID_def slot_of_def life_def same_account_iff zero_slot_def
          split: option.splits)
  qed
  have len: "length rs = nat n" using provision_loop_routes [OF pl] by simp
  have "provision_loop env' [1..n] (?d3, w3) = (Inr rs, ?d3, w3)"
  proof (rule provision_loop_alive)
    show "\<forall>i < length [1..n]. decodo_route env' ([1..n] ! i) ?d3 = Inr (rs ! i)"
      using slots(2) by (auto simp: len)
  qed (use slots(3) len in auto)
  then show ?thesis using n by (auto simp: decodo_Provision_def l3 save_def sv' split: prod.splits)
qed

section \<open>Independence of fresh sessions\<close>

lemma EncodeToString_inj: "EncodeToString a = EncodeToString b \<Longrightarrow> a = b"
  by (metis hex_roundtrip option.inject)

lemma TrimSpace_EncodeToString [simp]: "TrimSpace (EncodeToString b) = EncodeToString b"
  by (rule TrimSpace_id) (auto dest: EncodeToString_alnum hd_in_set last_in_set)

lemma ensure_fresh:
  "map_of (dc_slots d) slot = None \<Longrightarrow> ensure env slot (d, w) =
     (put_slot slot \<lparr>ds_SessionID = newSessionID env (dw_drawn w), ds_Created = dv_now env\<rparr> d,
      w\<lparr>dw_drawn := Suc (dw_drawn w)\<rparr>)"
  by (simp add: ensure_def)

lemma provision_loop_fresh:
  "provision_loop env slots (d, w) = (Inr rs, d', w') \<Longrightarrow> distinct slots \<Longrightarrow>
   \<forall>slot \<in> set slots. map_of (dc_slots d) slot = None \<Longrightarrow> i < length slots \<Longrightarrow>
     SessionID d' (slots ! i) = newSessionID env (dw_drawn w + i)"
proof (induction slots arbitrary: d w rs i)
  case (Cons slot slots)
  let ?d1 = "put_slot slot \<lparr>ds_SessionID = newSessionID env (dw_drawn w), ds_Created = dv_now env\<rparr> d"
  let ?w1 = "w\<lparr>dw_drawn := Suc (dw_drawn w)\<rparr>"
  have e: "ensure env slot (d, w) = (?d1, ?w1)" using Cons.prems(3) by (simp add: ensure_fresh)
  obtain rs' where l: "provision_loop env slots (?d1, ?w1) = (Inr rs', d', w')"
    using Cons.prems(1) by (auto simp: e Let_def split: prod.splits sum.splits)
  show ?case
  proof (cases i)
    case 0
    have "map_of (dc_slots d') slot = map_of (dc_slots ?d1) slot"
      using provision_loop_frame [OF l] Cons.prems(2) by auto
    then show ?thesis by (simp add: 0 SessionID_def slot_of_def)
  next
    case (Suc j)
    have "SessionID d' (slots ! j) = newSessionID env (dw_drawn ?w1 + j)"
      using Cons.prems by (intro Cons.IH [OF l]) (auto simp: Suc)
    then show ?thesis by (simp add: Suc)
  qed
qed simp


lemma provision_fresh_usernames:
  assumes p: "decodo_Provision env n (d, w) = (Inr rs, d2, w3)" and "dc_slots d = []"
    and "dc_StatePath d = [] \<or> dw_file w = NoFile"
    and rnd: "\<And>k. dv_rand env k = Some (b k)"
    and inj: "inj_on b {dw_drawn w ..< dw_drawn w + nat n}"
  shows "distinct (map (\<lambda>r. rd_Username (route_Def r)) rs)"
proof -
  obtain d1 w2 where n: "1 \<le> n" and l: "load w d = (None, d1)"
    and pl: "provision_loop env [1..n] (d1, w) = (Inr rs, d2, w2)"
    using provision_Inr [OF p] by metis
  have "d1 = d" using l assms(3) by (auto simp: load_def split: if_splits)
  then have none: "\<forall>slot \<in> set [1..n]. map_of (dc_slots d1) slot = None" using assms(2) by simp
  have R: "length rs = nat n" "\<And>i. i < nat n \<Longrightarrow> decodo_route env (1 + int i) d2 = Inr (rs ! i)"
    using provision_loop_routes [OF pl] by auto
  have sid: "SessionID d2 (1 + int i) = EncodeToString (b (dw_drawn w + i))" if "i < nat n" for i
    using provision_loop_fresh [OF pl _ none, of i] that by (simp add: newSessionID_def rnd)
  have "i = j" if i: "i < nat n" and j: "j < nat n"
    and eq: "rd_Username (route_Def (rs ! i)) = rd_Username (route_Def (rs ! j))" for i j
  proof -
    obtain u v where "Username (dc_Account d2) (dc_Country d2) (SessionID d2 (1 + int i)) (dc_SessionMinutes d2) = Inr u"
      "rd_Username (route_Def (rs ! i)) = u"
      "Username (dc_Account d2) (dc_Country d2) (SessionID d2 (1 + int j)) (dc_SessionMinutes d2) = Inr v"
      "rd_Username (route_Def (rs ! j)) = v"
      using decodo_route_Def [OF R(2) [OF i]] decodo_route_Def [OF R(2) [OF j]] by (auto simp: decodo_def_def)
    then have "TrimSpace (SessionID d2 (1 + int i)) = TrimSpace (SessionID d2 (1 + int j))"
      using eq Username_inj by metis
    then have "b (dw_drawn w + i) = b (dw_drawn w + j)"
      by (simp add: sid i j EncodeToString_inj)
    then have "dw_drawn w + i = dw_drawn w + j" by (rule inj_onD [OF inj]) (use i j in auto)
    then show "i = j" by simp
  qed
  then show ?thesis by (auto simp: distinct_conv_nth R(1))
qed

section \<open>Replacing a session\<close>

lemma replace_session:
  assumes "decodo_ReplaceSession env slot (d, w) = (Inr r, d2, w2)"
  shows "SessionID d2 slot = newSessionID env (dw_drawn w)
    \<and> decodo_route env slot d2 = Inr r
    \<and> (\<forall>k. k \<noteq> slot \<longrightarrow> map_of (dc_slots d2) k = map_of (dc_slots (snd (load w d))) k)"
  using assms
  by (auto simp: decodo_ReplaceSession_def Let_def SessionID_def slot_of_def
      split: if_splits prod.splits option.splits)

lemma replace_view:
  assumes r: "decodo_ReplaceSession env slot (d, w) = (Inr r, d2, w2)"
    and D: "distinct (map fst (dc_slots d))"
  shows "decodo_view (d2, w2) slot = Some (route_Def r)
    \<and> (\<forall>k. k \<noteq> slot \<longrightarrow> decodo_view (d2, w2) k = decodo_view (d, w) k)"
proof -
  obtain d1 w1 where l: "load w d = (None, d1)"
    and d2: "d2 = put_slot slot \<lparr>ds_SessionID = newSessionID env (dw_drawn w), ds_Created = dv_now env\<rparr> d1"
    and sv: "save env d2 w1 = (None, w2)" and rt: "decodo_route env slot d2 = Inr r"
    using r by (auto simp: decodo_ReplaceSession_def Let_def split: if_splits prod.splits option.splits)
  have D2: "distinct (map fst (dc_slots d2))" using load_frame(2) [OF l D] by (simp add: d2)
  obtain d3 where l3: "load w2 d2 = (None, d3)" "same_account d2 d3" "map_of (dc_slots d3) = map_of (dc_slots d2)"
    using save_then_load [OF sv D2] by blast
  have "decodo_route env slot d3 = Inr r" using decodo_route_cong [OF l3(2)] l3(3) rt by simp
  then have "decodo_view (d2, w2) slot = Some (route_Def r)" using decodo_view_route [OF l3(1)] by blast
  moreover have "decodo_view (d2, w2) k = decodo_view (d, w) k" if "k \<noteq> slot" for k
  proof -
    have same: "same_account d1 d3" using l3(2) by (simp add: d2 same_account_iff)
    have "SessionID d3 k = SessionID d1 k" using that l3(3) by (simp add: SessionID_def slot_of_def d2)
    moreover have "decodo_def d3 k user = decodo_def d1 k user" for user
      using same by (simp add: decodo_def_def same_account_iff)
    ultimately show ?thesis
      using same by (simp add: decodo_view_def l l3(1) same_account_iff split: sum.splits)
  qed
  ultimately show ?thesis by blast
qed
section \<open>Success\<close>

lemma alphaNum_newSessionID:
  assumes "\<And>k b. dv_rand env k = Some b \<Longrightarrow> b \<noteq> []"
  shows "alphaNum (newSessionID env k) \<and> TrimSpace (newSessionID env k) = newSessionID env k"
proof -
  have hx: "c \<in> set (hex_nat n) \<Longrightarrow> alnum_char c" for c n
    by (induction n rule: hex_nat.induct) (subst (asm) (2) hex_nat.simps, auto intro: alnum_hex_char split: if_splits)
  have al: "\<forall>c \<in> set (newSessionID env k). alnum_char c"
    by (auto simp: newSessionID_def alnum_char_def [of "CHR ''s''"] dest: hx EncodeToString_alnum split: option.splits)
  moreover have ne: "newSessionID env k \<noteq> []"
    using assms by (auto simp: newSessionID_def EncodeToString_def hex_byte_def split: option.splits)
  moreover have "TrimSpace (newSessionID env k) = newSessionID env k"
    by (rule TrimSpace_id) (use al ne in \<open>auto dest: hd_in_set last_in_set\<close>)
  ultimately show ?thesis by (simp add: alphaNum_def list_all_iff)
qed

lemma Username_session:
  assumes "Username a c s m = Inr u" and "alphaNum (TrimSpace s')"
  shows "\<exists>u'. Username a c s' m = Inr u'"
  using assms by (auto simp: Username_def Let_def split: if_splits)

text \<open>A host that \<open>net.JoinHostPort\<close> and \<open>net.SplitHostPort\<close> handle.\<close>

definition host_ok :: "Decodo \<Rightarrow> bool" where
  "host_ok d \<longleftrightarrow> CHR ''['' \<notin> set (dc_Host d) \<and> CHR '']'' \<notin> set (dc_Host d)"

lemma digits_not_sep: "is_digit c \<Longrightarrow> c \<noteq> CHR '':'' \<and> c \<noteq> CHR ''['' \<and> c \<noteq> CHR '']''"
  by (auto simp: is_digit_def)

lemma decodo_def_valid:
  assumes "host_ok d" and "0 \<le> dc_Port d"
  shows "RouteDef_Validate (decodo_def d slot user) = None"
proof -
  have "\<forall>c \<in> set (Itoa (dc_Port d)). is_digit c"
    using assms(2) itoa_nat_digit_set by (auto simp: Itoa_nonneg)
  then have "SplitHostPort (JoinHostPort (dc_Host d) (Itoa (dc_Port d))) = Inr (dc_Host d, Itoa (dc_Port d))"
    using assms(1) digits_not_sep by (intro SplitHostPort_JoinHostPort) (auto simp: host_ok_def)
  moreover have "TrimSpace (''decodo-'' @ fmt03d slot) \<noteq> []"
  proof -
    have "\<not> is_space (CHR ''d'')" by (simp add: is_space_def)
    then show ?thesis by (simp add: TrimSpace_def)
  qed
  ultimately show ?thesis by (simp add: RouteDef_Validate_def decodo_def_def)
qed

lemma New_decodo:
  "RouteDef_Validate (decodo_def d slot user) = None \<Longrightarrow>
     \<exists>r. New getenv registered (decodo_def d slot user) = Inr r"
  by (simp add: New_def Lookup_Register registered_def resolvePassword_def decodo_def_def)

definition sessions_ok :: "Decodo \<Rightarrow> bool" where
  "sessions_ok d \<longleftrightarrow> (\<forall>k st. map_of (dc_slots d) k = Some st \<longrightarrow> alphaNum (TrimSpace (ds_SessionID st)))"

lemma ensure_sessions:
  assumes "ensure env slot (d, w) = (d', w')" and "sessions_ok d"
    and "\<And>k b. dv_rand env k = Some b \<Longrightarrow> b \<noteq> []"
  shows "sessions_ok d' \<and> alphaNum (TrimSpace (SessionID d' slot))"
  using assms alphaNum_newSessionID [of env]
  by (auto simp: ensure_def sessions_ok_def SessionID_def slot_of_def split: option.splits if_splits)

lemma route_succeeds:
  assumes "decodo_validate d = None" and "host_ok d" and "alphaNum (TrimSpace (SessionID d slot))"
  shows "\<exists>r. decodo_route env slot d = Inr r"
proof -
  have "\<exists>u. Username (dc_Account d) (dc_Country d) ''session'' (dc_SessionMinutes d) = Inr u" "1 \<le> dc_Port d"
    using assms(1) by (auto simp: decodo_validate_def split: if_splits sum.splits)
  then obtain user where "Username (dc_Account d) (dc_Country d) (SessionID d slot) (dc_SessionMinutes d) = Inr user"
    using Username_session assms(3) by blast
  then show ?thesis
    using New_decodo [OF decodo_def_valid [OF assms(2), of slot user]] \<open>1 \<le> dc_Port d\<close>
    by (simp add: decodo_route_def)
qed

lemma validate_same: "same_account d d' \<Longrightarrow> decodo_validate d' = decodo_validate d \<and> host_ok d' = host_ok d"
  by (simp add: same_account_iff decodo_validate_def host_ok_def)

lemma provision_loop_succeeds:
  assumes "\<And>k b. dv_rand env k = Some b \<Longrightarrow> b \<noteq> []"
  shows "decodo_validate d = None \<Longrightarrow> host_ok d \<Longrightarrow> sessions_ok d \<Longrightarrow>
    \<exists>rs dw. provision_loop env slots (d, w) = (Inr rs, dw)"
proof (induction slots arbitrary: d w)
  case (Cons slot slots)
  obtain d1 w1 where e: "ensure env slot (d, w) = (d1, w1)" by (metis prod.exhaust)
  have v: "decodo_validate d1 = None" "host_ok d1"
    using validate_same [OF ensure_frame(1) [OF e]] Cons.prems by auto
  have s: "sessions_ok d1" "alphaNum (TrimSpace (SessionID d1 slot))"
    using ensure_sessions [OF e Cons.prems(3) assms] by auto
  obtain r where "decodo_route env slot d1 = Inr r" using route_succeeds [OF v s(2)] by blast
  moreover obtain rs dw where "provision_loop env slots (d1, w1) = (Inr rs, dw)"
    using Cons.IH [OF v s(1)] by blast
  ultimately show ?case by (simp add: e)
qed simp

lemma provision_succeeds:
  assumes "\<And>k b. dv_rand env k = Some b \<Longrightarrow> b \<noteq> []" and "decodo_validate d = None" and "host_ok d"
    and "dc_slots d = []" and "dc_StatePath d = [] \<or> dw_file w = NoFile" and "dv_save env = None" and "1 \<le> n"
  shows "\<exists>rs d2 w2. decodo_Provision env n (d, w) = (Inr rs, d2, w2)"
proof -
  have l: "load w d = (None, d)" using assms(5) by (auto simp: load_def)
  have "sessions_ok d" using assms(4) by (simp add: sessions_ok_def)
  then obtain rs dw where "provision_loop env [1..n] (d, w) = (Inr rs, dw)"
    using provision_loop_succeeds [of env d "[1..n]" w] assms(1-3) by blast
  then obtain rs d2 w2 where "provision_loop env [1..n] (d, w) = (Inr rs, d2, w2)" by (cases dw) auto
  then show ?thesis using assms(6,7) by (auto simp: decodo_Provision_def l save_def)
qed

lemma reestablish_succeeds:
  assumes "decodo_view s slot = Some df" and "1 \<le> slot"
  shows "\<exists>r s'. decodo_Reestablish env slot s = (Inr r, s')"
proof -
  obtain d w where s: "s = (d, w)" by (metis prod.exhaust)
  obtain d1 user where l: "load w d = (None, d1)"
    and u: "Username (dc_Account d1) (dc_Country d1) (SessionID d1 slot) (dc_SessionMinutes d1) = Inr user"
    and v: "RouteDef_Validate (decodo_def d1 slot user) = None"
    using assms(1) by (auto simp: decodo_view_def s split: prod.splits option.splits sum.splits if_splits)
  have "SessionID d1 slot \<noteq> []" using u by (auto elim!: Username_Inr simp: TrimSpace_def)
  moreover from this have "map_of (dc_slots d1) slot \<noteq> None" by (auto simp: SessionID_def slot_of_def zero_slot_def split: option.splits)
  ultimately show ?thesis
    using New_decodo [OF v] u assms(2) by (auto simp: decodo_Reestablish_def s l decodo_route_def)
qed

section \<open>Properties\<close>

text \<open>
  A Decodo username determines the session it names: two calls that build the same username
  were given the same account, country, session id and duration, up to the normalisation the code
  applies. So two identities with different session ids can never share an upstream session.
\<close>

theorem decodo_username_injective:
  assumes "Username a c s m = Inr u" and "Username a' c' s' m' = Inr u"
  shows "TrimPrefix (TrimSpace a) ''user-'' = TrimPrefix (TrimSpace a') ''user-''
    \<and> ToLower (TrimSpace c) = ToLower (TrimSpace c') \<and> TrimSpace s = TrimSpace s' \<and> m = m'"
  using assms by (rule Username_inj)

theorem decodo_username_injective_witness:
  "Username ''acct'' ''US'' ''s1'' 60 = Inr ''user-acct-country-us-session_iplock-s1-sessionduration-60''
   \<and> TrimSpace ''s1'' = TrimSpace '' s1 ''"
proof -
  have a: "Username ''acct'' ''US'' ''s1'' 60
      = Inr ''user-acct-country-us-session_iplock-s1-sessionduration-60''" by code_simp
  have b: "Username ''user-acct'' ''us'' '' s1 '' 60
      = Inr ''user-acct-country-us-session_iplock-s1-sessionduration-60''" by code_simp
  show ?thesis using decodo_username_injective [OF a b] a by blast
qed

definition sample_decodo :: Decodo where
  "sample_decodo = \<lparr>dc_Account = ''acct'', dc_Password = ''pw'', dc_Host = ''h'', dc_Port = 7000,
     dc_Country = [], dc_SessionMinutes = 60, dc_StatePath = ''s'', dc_slots = []\<rparr>"

definition sample_denv :: denv where
  "sample_denv = \<lparr>dv_rand = (\<lambda>k. Some [word_of_nat k, 1]), dv_now = 5, dv_save = None, dv_getenv = (\<lambda>_. None)\<rparr>"

definition sample_dworld :: dworld where
  "sample_dworld = \<lparr>dw_file = NoFile, dw_drawn = 0\<rparr>"

definition sample_provision :: "route list result \<times> Decodo \<times> dworld" where
  "sample_provision = decodo_Provision sample_denv 2 (sample_decodo, sample_dworld)"

lemma sample_provision_ok: "\<exists>rs d w. sample_provision = (Inr rs, d, w)"
proof -
  have "decodo_validate sample_decodo = None" by code_simp
  then show ?thesis
    unfolding sample_provision_def
    by (intro provision_succeeds) (auto simp: sample_denv_def sample_decodo_def sample_dworld_def host_ok_def)
qed

text \<open>
  C34: Reestablishing restores the provisioned path: after a successful \<open>Provision\<close> of \<open>n\<close>
  routes, and after any sequence of further \<open>Reestablish\<close> calls for whatever slots, \<open>Reestablish\<close>
  of slot \<open>i\<close> succeeds and its route has exactly the definition (gateway, username with its session
  id, password) of the route provisioned for slot \<open>i\<close>: no new session is ever minted.
\<close>

theorem decodo_reestablish_restores:
  assumes "distinct (map fst (dc_slots (fst s)))" and "decodo_Provision e n s = (Inr rs, s1)"
    and "1 \<le> slot" and "slot \<le> n"
  shows "\<exists>r s2. decodo_Reestablish e' slot (after_all decodo_Reestablish ops s1) = (Inr r, s2)
    \<and> route_Def r = route_Def (rs ! nat (slot - 1)) \<and> route_Status r = StatusCreated"
proof -
  have ok: "decodo_ok s" using assms(1) by (simp add: decodo_ok_def)
  then have ok1: "decodo_ok s1" using dp.provision_ok [OF ok, of e n] assms(2) by simp
  obtain v where v: "decodo_view s1 slot = Some v"
    using dp.provision_routes [OF ok assms(2)] assms(3,4) by blast
  have "decodo_view (after_all decodo_Reestablish ops s1) slot = Some v"
    using dp.reestablish_all_keeps [OF ok1 v, of ops] by simp
  then obtain r s2 where r: "decodo_Reestablish e' slot (after_all decodo_Reestablish ops s1) = (Inr r, s2)"
    using reestablish_succeeds [of "after_all decodo_Reestablish ops s1" slot v e'] assms(3) by blast
  show ?thesis using dp.reestablish_restores [OF ok assms(2-4) r] r by auto
qed

theorem decodo_reestablish_restores_witness:
  "\<exists>rs s1 r s2. sample_provision = (Inr rs, s1)
     \<and> decodo_Reestablish sample_denv 2 (after_all decodo_Reestablish [(sample_denv, 1)] s1) = (Inr r, s2)
     \<and> route_Def r = route_Def (rs ! nat (2 - 1))"
proof -
  obtain rs s1 where p: "sample_provision = (Inr rs, s1)" using sample_provision_ok by auto
  then have "decodo_Provision sample_denv 2 (sample_decodo, sample_dworld) = (Inr rs, s1)"
    by (simp add: sample_provision_def)
  from decodo_reestablish_restores [OF _ this, of 2 sample_denv "[(sample_denv, 1)]"]
  obtain r s2 where "decodo_Reestablish sample_denv 2 (after_all decodo_Reestablish [(sample_denv, 1)] s1)
      = (Inr r, s2)" "route_Def r = route_Def (rs ! nat (2 - 1))"
    by (auto simp: sample_decodo_def)
  with p show ?thesis by blast
qed

text \<open>
  Sessions survive a restart: a fresh provisioner of the same account that reads the state
  file a successful \<open>Provision\<close> wrote provisions the very same routes, as long as every session is
  inside its sticky window.
\<close>

theorem decodo_restart_sticky:
  assumes "decodo_Provision env n (d, w) = (Inr rs, d2, w2)" and "distinct (map fst (dc_slots d))"
    and "dc_StatePath d \<noteq> []" and "dv_save env' = None"
    and "\<forall>slot. 1 \<le> slot \<and> slot \<le> n \<longrightarrow> dv_now env' < ds_Created (slot_of d2 slot) + life d2"
  shows "fst (decodo_Provision env' n (d2\<lparr>dc_slots := []\<rparr>, w2)) = Inr rs"
  using provision_restart [OF assms(1-4)] assms(5) by auto

theorem decodo_restart_sticky_witness:
  "fst (decodo_Provision (sample_denv\<lparr>dv_now := 1000\<rparr>) 1
      ((fst (snd (decodo_Provision sample_denv 1 (sample_decodo, sample_dworld))))\<lparr>dc_slots := []\<rparr>,
       snd (snd (decodo_Provision sample_denv 1 (sample_decodo, sample_dworld)))))
   = fst (decodo_Provision sample_denv 1 (sample_decodo, sample_dworld))"
proof -
  have v: "decodo_validate sample_decodo = None" by code_simp
  obtain rs d2 w2 where p: "decodo_Provision sample_denv 1 (sample_decodo, sample_dworld) = (Inr rs, d2, w2)"
    using provision_succeeds [of sample_denv sample_decodo sample_dworld 1] v
    by (auto simp: sample_denv_def sample_decodo_def sample_dworld_def host_ok_def)
  then have "d2 = put_slot 1 \<lparr>ds_SessionID = newSessionID sample_denv 0, ds_Created = 5\<rparr> sample_decodo"
    by (auto simp: decodo_Provision_def load_def sample_decodo_def sample_dworld_def sample_denv_def
        ensure_def Let_def split: sum.splits prod.splits option.splits)
  then have "\<forall>slot. 1 \<le> slot \<and> slot \<le> 1 \<longrightarrow>
      dv_now (sample_denv\<lparr>dv_now := 1000\<rparr>) < ds_Created (slot_of d2 slot) + life d2"
    by (auto simp: slot_of_def life_def sample_decodo_def)
  from decodo_restart_sticky [OF p _ _ _ this] p show ?thesis
    by (simp add: sample_decodo_def sample_denv_def)
qed

text \<open>
  Provisioning succeeds and its routes are independent: a validated account with no earlier
  sessions, a writable state file and pairwise different random draws gets exactly \<open>n\<close> routes,
  each with a different upstream username, hence a different residential session.
\<close>

theorem decodo_provision_independent:
  assumes "decodo_validate d = None" and "CHR ''['' \<notin> set (dc_Host d)" and "CHR '']'' \<notin> set (dc_Host d)"
    and "dc_slots d = []" and "dc_StatePath d = [] \<or> dw_file w = NoFile" and "dv_save env = None" and "1 \<le> n"
    and "\<forall>k. dv_rand env k = Some (b k) \<and> b k \<noteq> []" and "inj_on b {dw_drawn w ..< dw_drawn w + nat n}"
  shows "\<exists>rs d2 w2. decodo_Provision env n (d, w) = (Inr rs, d2, w2)
    \<and> length rs = nat n \<and> distinct (map (\<lambda>r. rd_Username (route_Def r)) rs)"
proof -
  obtain rs d2 w2 where p: "decodo_Provision env n (d, w) = (Inr rs, d2, w2)"
    using provision_succeeds [of env d w n] assms by (auto simp: host_ok_def)
  then show ?thesis
    using provision_fresh_usernames [OF p assms(4,5) _ assms(9)] assms(8)
      dp.provision_routes [OF _ p] assms(4) by (auto simp: decodo_ok_def)
qed

theorem decodo_provision_independent_witness:
  "\<exists>rs d w. sample_provision = (Inr rs, d, w) \<and> length rs = nat 2
     \<and> distinct (map (\<lambda>r. rd_Username (route_Def r)) rs)"
proof -
  have v: "decodo_validate sample_decodo = None" by code_simp
  have "inj_on (\<lambda>k. [word_of_nat k, 1] :: byte list) {0..<2}"
    by (auto simp: inj_on_def numeral_2_eq_2 less_Suc_eq)
  then have i: "inj_on (\<lambda>k. [word_of_nat k, 1] :: byte list)
      {dw_drawn sample_dworld ..< dw_drawn sample_dworld + nat 2}"
    by (simp add: sample_dworld_def numeral_2_eq_2)
  show ?thesis
    unfolding sample_provision_def
    by (rule decodo_provision_independent [OF v _ _ _ _ _ _ _ i])
      (simp_all add: sample_denv_def sample_decodo_def sample_dworld_def)
qed

text \<open>
  \<open>ReplaceSession\<close> mints a session for one slot only: the slot gets the next random session
  id and the route of that session, and every other slot keeps the route it had, also after the
  state file is read back.
\<close>

theorem decodo_replace_one_slot:
  assumes "decodo_ReplaceSession env slot (d, w) = (Inr r, d2, w2)"
    and "distinct (map fst (dc_slots d))"
  shows "SessionID d2 slot = newSessionID env (dw_drawn w)
    \<and> decodo_view (d2, w2) slot = Some (route_Def r)
    \<and> (\<forall>k. k \<noteq> slot \<longrightarrow> decodo_view (d2, w2) k = decodo_view (d, w) k)"
  using replace_view [OF assms] replace_session [OF assms(1)] by blast

theorem decodo_replace_one_slot_witness:
  "\<exists>r d2 w2. decodo_ReplaceSession sample_denv 1 (sample_decodo, sample_dworld) = (Inr r, d2, w2)
     \<and> SessionID d2 1 = newSessionID sample_denv 0"
proof -
  let ?d = "put_slot 1 \<lparr>ds_SessionID = newSessionID sample_denv 0, ds_Created = 5\<rparr> sample_decodo"
  have v: "decodo_validate sample_decodo = None" by code_simp
  then have "decodo_validate ?d = None" "host_ok ?d"
    using validate_same [of sample_decodo ?d] by (auto simp: same_account_iff host_ok_def sample_decodo_def)
  moreover have "alphaNum (TrimSpace (SessionID ?d 1))"
    using alphaNum_newSessionID [of sample_denv 0] by (simp add: SessionID_def slot_of_def sample_denv_def)
  ultimately obtain r where r: "decodo_route sample_denv 1 ?d = Inr r" using route_succeeds by blast
  have p: "dc_StatePath ?d = ''s''" by (simp add: sample_decodo_def)
  have "\<exists>w2. decodo_ReplaceSession sample_denv 1 (sample_decodo, sample_dworld) = (Inr r, ?d, w2)"
    using r by (simp add: decodo_ReplaceSession_def load_def sample_dworld_def save_def p Let_def)
      (simp add: sample_denv_def sample_decodo_def)
  then obtain w2 where "decodo_ReplaceSession sample_denv 1 (sample_decodo, sample_dworld) = (Inr r, ?d, w2)"
    by blast
  from decodo_replace_one_slot [OF this] this show ?thesis
    by (auto simp: sample_decodo_def sample_dworld_def)
qed

text \<open>
  Choosing a provisioner fails closed. Explicit definitions always win; otherwise only Decodo
  can be chosen, and with neither a prepared provisioner nor a username and a password in the
  environment the choice is an error: nothing else is fallen back to.
\<close>

theorem manager_open_fails_closed:
  "(in_Explicit i \<noteq> [] \<longrightarrow> manager_Open getenv i = Inr (Static (in_Explicit i), ''static''))
   \<and> (in_Explicit i = [] \<longrightarrow> (case manager_Open getenv i of
        Inl _ \<Rightarrow> True
      | Inr (p, name) \<Rightarrow> name = ''decodo'' \<and> (\<exists>d. p = DecodoP d)))
   \<and> (in_Explicit i = [] \<and> in_Decodo i = None
        \<and> (TrimSpace (getenv ''DECODO_USERNAME'') = [] \<or> getenv ''DECODO_PASSWORD'' = [])
      \<longrightarrow> isl (manager_Open getenv i))"
  by (auto simp: manager_Open_def DecodoFromEnv_def empty_config_def Let_def
      split: sum.splits option.splits)

theorem manager_open_fails_closed_witness:
  "isl (manager_Open (\<lambda>_. []) \<lparr>in_DataDir = ''d'', in_Explicit = [], in_Provider = [], in_Decodo = None\<rparr>)"
  using manager_open_fails_closed [of "\<lparr>in_DataDir = ''d'', in_Explicit = [], in_Provider = [],
    in_Decodo = None\<rparr>" "\<lambda>_. []"] by (simp add: TrimSpace_def)



end
