(* ===== verification/Environment.thy ===== *)
theory Environment
  imports Go_Strings
begin

text \<open>
  Identities and their environments (\<open>src/controller/identity/environment.go\<close> and the data of
  \<open>identity.go\<close>): validation, the environment a new identity is created with, and the detection of
  the host's locale and time zone.

  What the host answers is \<open>hostenv\<close>: its environment variables, the target of \<open>/etc/localtime\<close>, the
  name of the local zone, and which zone names \<open>time.LoadLocation\<close> knows. A \<open>float64\<close> is a dyadic
  number, an infinity or NaN, whose comparisons are all false.
\<close>

section \<open>Data\<close>

datatype float64 = Dyadic int int | PosInf | NegInf | NaN

text \<open>\<open>Dyadic m e\<close> is \<open>m * 2^e\<close>. The comparisons are with \<open>n/2\<close>.\<close>

fun f64_less :: "float64 \<Rightarrow> int \<Rightarrow> bool" where
  "f64_less (Dyadic m e) n = (if 0 \<le> e then 2 * m * 2 ^ nat e < n else 2 * m < n * 2 ^ nat (- e))"
| "f64_less PosInf n = False"
| "f64_less NegInf n = True"
| "f64_less NaN n = False"

fun f64_greater :: "float64 \<Rightarrow> int \<Rightarrow> bool" where
  "f64_greater (Dyadic m e) n = (if 0 \<le> e then n < 2 * m * 2 ^ nat e else n * 2 ^ nat (- e) < 2 * m)"
| "f64_greater PosInf n = True"
| "f64_greater NegInf n = False"
| "f64_greater NaN n = False"

fun f64_zero :: "float64 \<Rightarrow> bool" where
  "f64_zero (Dyadic m e) = (m = 0)"
| "f64_zero _ = False"

record Environment =
  ev_Locale :: string
  ev_AcceptLanguages :: string
  ev_Timezone :: string
  ev_WindowWidth :: int
  ev_WindowHeight :: int
  ev_WindowX :: int
  ev_WindowY :: int
  ev_DeviceScaleFactor :: float64
  ev_ColorScheme :: string
  ev_DownloadDir :: string

record EnvironmentDefaults =
  ed_Locale :: string
  ed_Timezone :: string
  ed_WindowWidth :: int
  ed_WindowHeight :: int
  ed_DeviceScaleFactor :: float64
  ed_ColorScheme :: string

record identity =
  id_ID :: string
  id_Index :: int
  id_RouteSlot :: int
  id_Created :: int
  id_Environment :: Environment
  id_Dir :: string
  id_Profile :: string
  id_JustCreated :: bool

definition Label :: "identity \<Rightarrow> string" where
  "Label i = ''Identity '' @ fmt03d (id_Index i)"

definition DownloadPath :: "identity \<Rightarrow> string" where
  "DownloadPath i = id_Dir i @ ''/'' @ ev_DownloadDir (id_Environment i)"

record hostenv =
  hv_getenv :: "string \<Rightarrow> string"
  hv_windows :: bool
  hv_localtime :: "gerr + string"
  hv_location :: string
  hv_zone :: "string \<Rightarrow> bool"
  hv_float :: "float64 \<Rightarrow> string"

section \<open>Validation\<close>

definition lower_letter :: "char \<Rightarrow> bool" where
  "lower_letter c = (let n = of_char c :: nat in 97 \<le> n \<and> n \<le> 122)"

text \<open>\<open>localeRe\<close>: two or three small letters, then groups of two to eight letters or digits.\<close>

definition locale_head :: "string \<Rightarrow> bool" where
  "locale_head s = (2 \<le> length s \<and> length s \<le> 3 \<and> list_all lower_letter s)"

definition locale_group :: "string \<Rightarrow> bool" where
  "locale_group s = (2 \<le> length s \<and> length s \<le> 8 \<and> list_all alnum_char s)"

definition localeRe :: "string \<Rightarrow> bool" where
  "localeRe s = (case Split s (CHR ''-'') of
      [] \<Rightarrow> False
    | p # ps \<Rightarrow> locale_head p \<and> list_all locale_group ps)"

definition IsAbs :: "string \<Rightarrow> bool" where
  "IsAbs p = HasPrefix p ''/''"

definition Environment_Validate :: "hostenv \<Rightarrow> Environment \<Rightarrow> gerr option" where
  "Environment_Validate h e =
    (if \<not> localeRe (ev_Locale e) then
       Some (''environment: invalid locale '' @ Quote (ev_Locale e) @ '' (expected e.g. en-US)'')
     else if ev_Timezone e = [] then Some ''environment: timezone is required''
     else if \<not> hv_zone h (ev_Timezone e) then Some (''environment: unknown timezone '' @ Quote (ev_Timezone e))
     else if ev_WindowWidth e < 320 \<or> ev_WindowHeight e < 240 then
       Some (''environment: window '' @ Itoa (ev_WindowWidth e) @ ''x'' @ Itoa (ev_WindowHeight e) @ '' too small'')
     else if f64_less (ev_DeviceScaleFactor e) 1 \<or> f64_greater (ev_DeviceScaleFactor e) 8 then
       Some (''environment: device_scale_factor '' @ hv_float h (ev_DeviceScaleFactor e) @ '' out of range'')
     else if ev_ColorScheme e \<noteq> ''light'' \<and> ev_ColorScheme e \<noteq> ''dark'' then
       Some ''environment: color_scheme must be light or dark''
     else if ev_DownloadDir e = [] \<or> IsAbs (ev_DownloadDir e) \<or> Contains (ev_DownloadDir e) ''..'' then
       Some ''environment: download_dir must be a relative path inside the identity''
     else None)"

section \<open>New environments\<close>

definition acceptLanguagesFor :: "string \<Rightarrow> string" where
  "acceptLanguagesFor loc = (case Cut loc (CHR ''-'') of
     (base, _, hasRegion) \<Rightarrow> if hasRegion then loc @ '','' @ base else loc)"

definition locale_of_var :: "string \<Rightarrow> string" where
  "locale_of_var v = map (\<lambda>c. if c = CHR ''_'' then CHR ''-'' else c) (fst (Cut v (CHR ''.'')))"

fun first_locale :: "(string \<Rightarrow> string) \<Rightarrow> string list \<Rightarrow> string" where
  "first_locale getenv [] = ''en-US''"
| "first_locale getenv (k # ks) =
    (let v = getenv k in
     if v = [] \<or> v = ''C'' \<or> v = ''POSIX'' then first_locale getenv ks
     else if localeRe (locale_of_var v) then locale_of_var v
     else first_locale getenv ks)"

definition detectLocale :: "hostenv \<Rightarrow> string" where
  "detectLocale h = first_locale (hv_getenv h) [''LC_ALL'', ''LC_MESSAGES'', ''LANG'']"

text \<open>What follows the first occurrence of a string, as \<open>strings.Index\<close> finds it.\<close>

fun after_first :: "string \<Rightarrow> string \<Rightarrow> string option" where
  "after_first p [] = (if p = [] then Some [] else None)"
| "after_first p (c # s) = (if HasPrefix (c # s) p then Some (drop (length p) (c # s)) else after_first p s)"

definition zone_link :: "hostenv \<Rightarrow> string option" where
  "zone_link h = (if hv_windows h then None else case hv_localtime h of
      Inl _ \<Rightarrow> None
    | Inr target \<Rightarrow> (case after_first ''zoneinfo/'' target of
        None \<Rightarrow> None
      | Some tz \<Rightarrow> if hv_zone h tz then Some tz else None))"

definition detectTimezone :: "hostenv \<Rightarrow> string" where
  "detectTimezone h =
    (let tz = hv_getenv h ''TZ''; name = hv_location h in
     if tz \<noteq> [] \<and> hv_zone h tz then tz
     else case zone_link h of
       Some t \<Rightarrow> t
     | None \<Rightarrow> if name \<noteq> [] \<and> name \<noteq> ''Local'' \<and> hv_zone h name then name else ''UTC'')"

definition NewEnvironment :: "hostenv \<Rightarrow> int \<Rightarrow> EnvironmentDefaults \<Rightarrow> Environment" where
  "NewEnvironment h index d =
    (let loc = (if ed_Locale d = [] then detectLocale h else ed_Locale d);
         small = (ed_WindowWidth d = 0 \<or> ed_WindowHeight d = 0)
     in \<lparr>ev_Locale = loc, ev_AcceptLanguages = acceptLanguagesFor loc,
         ev_Timezone = (if ed_Timezone d = [] then detectTimezone h else ed_Timezone d),
         ev_WindowWidth = (if small then 1280 else ed_WindowWidth d),
         ev_WindowHeight = (if small then 860 else ed_WindowHeight d),
         ev_WindowX = 40 + (index - 1) * 60, ev_WindowY = 40 + (index - 1) * 60,
         ev_DeviceScaleFactor = (if f64_zero (ed_DeviceScaleFactor d) then Dyadic 1 0 else ed_DeviceScaleFactor d),
         ev_ColorScheme = (if ed_ColorScheme d = [] then ''light'' else ed_ColorScheme d),
         ev_DownloadDir = ''downloads''\<rparr>)"

section \<open>Properties\<close>

lemma localeRe_en_US: "localeRe ''en-US''"
  by code_simp

lemma detectLocale_ok: "localeRe (detectLocale h)"
proof -
  have "localeRe (first_locale getenv ks)" for getenv ks
    by (induction ks) (auto simp: Let_def localeRe_en_US)
  then show ?thesis unfolding detectLocale_def .
qed

lemma Validate_None_iff:
  "Environment_Validate h e = None \<longleftrightarrow> localeRe (ev_Locale e) \<and> ev_Timezone e \<noteq> [] \<and> hv_zone h (ev_Timezone e)
     \<and> \<not> (ev_WindowWidth e < 320 \<or> ev_WindowHeight e < 240)
     \<and> \<not> (f64_less (ev_DeviceScaleFactor e) 1 \<or> f64_greater (ev_DeviceScaleFactor e) 8)
     \<and> (ev_ColorScheme e = ''light'' \<or> ev_ColorScheme e = ''dark'')
     \<and> ev_DownloadDir e \<noteq> [] \<and> \<not> (IsAbs (ev_DownloadDir e) \<or> Contains (ev_DownloadDir e) ''..'')"
  unfolding Environment_Validate_def if_Some_None by blast

text \<open>
  What \<open>NewEnvironment\<close> builds is accepted by \<open>Validate\<close> exactly when the defaults it was given
  are acceptable or left empty; empty values are filled from the host or with the built-in ones, and
  the windows of different identities never coincide.
\<close>

theorem environment_new_valid:
  "(Environment_Validate h (NewEnvironment h i d) = None \<longleftrightarrow>
     (ed_Locale d = [] \<or> localeRe (ed_Locale d))
     \<and> (let tz = (if ed_Timezone d = [] then detectTimezone h else ed_Timezone d) in tz \<noteq> [] \<and> hv_zone h tz)
     \<and> (ed_WindowWidth d = 0 \<or> ed_WindowHeight d = 0 \<or> (320 \<le> ed_WindowWidth d \<and> 240 \<le> ed_WindowHeight d))
     \<and> (f64_zero (ed_DeviceScaleFactor d)
        \<or> \<not> (f64_less (ed_DeviceScaleFactor d) 1 \<or> f64_greater (ed_DeviceScaleFactor d) 8))
     \<and> ed_ColorScheme d \<in> {[], ''light'', ''dark''})
   \<and> (i \<noteq> j \<longrightarrow> ev_WindowX (NewEnvironment h i d) \<noteq> ev_WindowX (NewEnvironment h j d'))"
proof -
  have sel: "ev_Locale (NewEnvironment h i d) = (if ed_Locale d = [] then detectLocale h else ed_Locale d)"
    "ev_Timezone (NewEnvironment h i d) = (if ed_Timezone d = [] then detectTimezone h else ed_Timezone d)"
    "ev_WindowWidth (NewEnvironment h i d) = (if ed_WindowWidth d = 0 \<or> ed_WindowHeight d = 0 then 1280 else ed_WindowWidth d)"
    "ev_WindowHeight (NewEnvironment h i d) = (if ed_WindowWidth d = 0 \<or> ed_WindowHeight d = 0 then 860 else ed_WindowHeight d)"
    "ev_DeviceScaleFactor (NewEnvironment h i d) = (if f64_zero (ed_DeviceScaleFactor d) then Dyadic 1 0 else ed_DeviceScaleFactor d)"
    "ev_ColorScheme (NewEnvironment h i d) = (if ed_ColorScheme d = [] then ''light'' else ed_ColorScheme d)"
    "ev_DownloadDir (NewEnvironment h i d) = ''downloads''"
    unfolding NewEnvironment_def Let_def by simp_all
  have dl: "\<not> (IsAbs ''downloads'' \<or> Contains ''downloads'' ''..'')" by code_simp
  have loc: "localeRe (if ed_Locale d = [] then detectLocale h else ed_Locale d) \<longleftrightarrow> (ed_Locale d = [] \<or> localeRe (ed_Locale d))"
    by (simp add: detectLocale_ok)
  have fl: "f64_less (if f64_zero x then Dyadic 1 0 else x) 1 \<or> f64_greater (if f64_zero x then Dyadic 1 0 else x) 8
      \<longleftrightarrow> \<not> f64_zero x \<and> (f64_less x 1 \<or> f64_greater x 8)" for x by auto
  have win: "(if ed_WindowWidth d = 0 \<or> ed_WindowHeight d = 0 then 1280 else ed_WindowWidth d) < 320
      \<or> (if ed_WindowWidth d = 0 \<or> ed_WindowHeight d = 0 then 860 else ed_WindowHeight d) < 240
      \<longleftrightarrow> \<not> (ed_WindowWidth d = 0 \<or> ed_WindowHeight d = 0 \<or> (320 \<le> ed_WindowWidth d \<and> 240 \<le> ed_WindowHeight d))"
    by auto
  have "Environment_Validate h (NewEnvironment h i d) = None \<longleftrightarrow>
     (ed_Locale d = [] \<or> localeRe (ed_Locale d))
     \<and> (let tz = (if ed_Timezone d = [] then detectTimezone h else ed_Timezone d) in tz \<noteq> [] \<and> hv_zone h tz)
     \<and> (ed_WindowWidth d = 0 \<or> ed_WindowHeight d = 0 \<or> (320 \<le> ed_WindowWidth d \<and> 240 \<le> ed_WindowHeight d))
     \<and> (f64_zero (ed_DeviceScaleFactor d)
        \<or> \<not> (f64_less (ed_DeviceScaleFactor d) 1 \<or> f64_greater (ed_DeviceScaleFactor d) 8))
     \<and> (ed_ColorScheme d = [] \<or> ed_ColorScheme d = ''light'' \<or> ed_ColorScheme d = ''dark'')"
    unfolding Validate_None_iff sel loc fl win Let_def using dl by auto
  then show ?thesis by (simp add: NewEnvironment_def Let_def)
qed

text \<open>
  The range check of \<open>device_scale_factor\<close> lets NaN through: both of its comparisons are false.
\<close>

theorem environment_nan_passes:
  assumes "Environment_Validate h e = None"
  shows "Environment_Validate h (e\<lparr>ev_DeviceScaleFactor := NaN\<rparr>) = None"
  using assms by (simp add: Validate_None_iff)

definition sample_host :: hostenv where
  "sample_host = \<lparr>hv_getenv = (\<lambda>_. []), hv_windows = False, hv_localtime = Inr ''/usr/share/zoneinfo/Europe/London'',
     hv_location = ''Local'', hv_zone = (\<lambda>z. z \<in> {''UTC'', ''Europe/London''}), hv_float = (\<lambda>_. ''?'')\<rparr>"

definition sample_environment :: Environment where
  "sample_environment = \<lparr>ev_Locale = ''en-US'', ev_AcceptLanguages = ''en-US,en'', ev_Timezone = ''UTC'',
     ev_WindowWidth = 1280, ev_WindowHeight = 860, ev_WindowX = 40, ev_WindowY = 40,
     ev_DeviceScaleFactor = Dyadic 1 0, ev_ColorScheme = ''light'', ev_DownloadDir = ''downloads''\<rparr>"

definition sample_defaults :: EnvironmentDefaults where
  "sample_defaults = \<lparr>ed_Locale = [], ed_Timezone = [], ed_WindowWidth = 0, ed_WindowHeight = 0,
     ed_DeviceScaleFactor = Dyadic 0 0, ed_ColorScheme = []\<rparr>"

theorem environment_new_valid_witness:
  "Environment_Validate sample_host (NewEnvironment sample_host 1 sample_defaults) = None
   \<and> detectTimezone sample_host = ''Europe/London''
   \<and> ev_WindowX (NewEnvironment sample_host 1 sample_defaults) \<noteq> ev_WindowX (NewEnvironment sample_host 2 sample_defaults)"
proof -
  have tz: "detectTimezone sample_host = ''Europe/London''" by code_simp
  show ?thesis
    using environment_new_valid [of sample_host 1 sample_defaults 2 sample_defaults] tz
    by (simp add: sample_defaults_def sample_host_def)
qed

lemma sample_environment_valid: "Environment_Validate sample_host sample_environment = None"
  by code_simp

theorem environment_nan_passes_witness:
  "Environment_Validate sample_host sample_environment = None
   \<and> Environment_Validate sample_host (sample_environment\<lparr>ev_DeviceScaleFactor := NaN\<rparr>) = None"
  using environment_nan_passes [OF sample_environment_valid] sample_environment_valid by blast

end
