(* ===== verification/Verify.thy ===== *)
theory Verify
  imports Decodo Environment
begin

text \<open>
  The isolation checks V1 to V9 (\<open>src/controller/verify/verify.go\<close>), with the endpoint sampler and
  the helpers they use.

  A check is a function of what the outside world answered while it ran: the outcome of a probe
  through the route, of the navigations of the verification tab (with the connections the browser
  made to its gate meanwhile), of the storage calls and of the endpoint enumerations. It returns the
  check and the subject after it. \<open>url.Parse\<close> enters as \<open>uo_hostOf\<close> and \<open>uo_cacheBust\<close>.
\<close>

section \<open>Checks and subjects\<close>

record Check =
  ck_ID :: string
  ck_Name :: string
  ck_Passed :: bool
  ck_Detail :: string
  ck_Duration :: int

definition Check_String :: "Check \<Rightarrow> string" where
  "Check_String c = (let mark = (if ck_Passed c then ''OK'' else ''FAILED'') in
     if ck_Detail c \<noteq> [] then ck_ID c @ '' '' @ mark @ '': '' @ ck_Name c @ '' ('' @ ck_Detail c @ '')''
     else ck_ID c @ '' '' @ mark @ '': '' @ ck_Name c)"

text \<open>Sockets of the browser's process tree. \<open>None\<close> is the zero \<open>netip.AddrPort\<close>.\<close>

type_synonym addrport = "(addr \<times> nat) option"

definition AddrPort_String :: "addrport \<Rightarrow> string" where
  "AddrPort_String ap = (case ap of
      None \<Rightarrow> ''invalid AddrPort''
    | Some (a, p) \<Rightarrow>
        if length (a_bytes a) = 4 then addr_String a @ '':'' @ itoa_nat p
        else ''['' @ addr_String a @ '']:'' @ itoa_nat p)"

record Endpoint =
  ep_PID :: int
  ep_Proto :: string
  ep_Local :: addrport
  ep_Remote :: addrport
  ep_State :: string

definition remote_set :: "Endpoint \<Rightarrow> bool" where
  "remote_set e = (case ep_Remote e of None \<Rightarrow> False | Some (_, p) \<Rightarrow> p \<noteq> 0)"

definition Endpoint_String :: "Endpoint \<Rightarrow> string" where
  "Endpoint_String e =
    (if remote_set e then
       ep_Proto e @ '' pid='' @ Itoa (ep_PID e) @ '' '' @ AddrPort_String (ep_Local e) @ '' -> ''
         @ AddrPort_String (ep_Remote e) @ '' '' @ ep_State e
     else
       ep_Proto e @ '' pid='' @ Itoa (ep_PID e) @ '' '' @ AddrPort_String (ep_Local e)
         @ '' (unconnected) '' @ ep_State e)"

record sampler =
  sm_gate :: string
  sm_leaks :: "(string \<times> Endpoint) list"
  sm_samples :: nat
  sm_err :: "gerr option"

record subject =
  sb_Identity :: identity
  sb_Route :: nat
  sb_Gate :: gate
  sb_Browser :: bool
  sb_RouteIP :: "ip option"
  sb_BrowserIP :: "ip option"
  sb_Page :: bool
  sb_Results :: "Check list"
  sb_eventCursor :: int
  sb_sampler :: "sampler option"

definition subject_Label :: "subject \<Rightarrow> string" where
  "subject_Label s = Label (sb_Identity s)"

definition Failed :: "subject \<Rightarrow> bool" where
  "Failed s \<longleftrightarrow> (\<exists>c \<in> set (sb_Results s). \<not> ck_Passed c)"

text \<open>Options of the checks. \<open>timeout\<close> only bounds how long the world may take to answer.\<close>

record VOptions =
  vo_EchoURL :: string
  vo_IPv6EchoURL :: string
  vo_StorageOrigin :: string
  vo_CompareHostIP :: bool
  vo_HostIPv4 :: "ip option"
  vo_HostIPv6 :: "ip option"
  uo_hostOf :: "string \<Rightarrow> string"
  uo_cacheBust :: "string \<Rightarrow> string"
  uo_unmarshal :: "string \<Rightarrow> (string \<Rightarrow> string option) option"

definition report :: "subject \<Rightarrow> Check \<Rightarrow> Check \<times> subject" where
  "report s c = (c, s\<lparr>sb_Results := sb_Results s @ [c]\<rparr>)"

section \<open>Helpers\<close>

definition neq_glyph :: string where "neq_glyph = [CHR '' '', CHR 0xE2, CHR 0x89, CHR 0xA0, CHR '' '']"
definition ellipsis :: string where "ellipsis = [CHR 0xE2, CHR 0x80, CHR 0xA6]"

definition truncate_str :: "string \<Rightarrow> nat \<Rightarrow> string" where
  "truncate_str s n = (let t = map (\<lambda>c. if c = CHR 0x0A then CHR '' '' else c) s in
     if length t > n then take n t @ ellipsis else t)"

fun dedupe_from :: "string list \<Rightarrow> string list \<Rightarrow> string list" where
  "dedupe_from seen [] = []"
| "dedupe_from seen (s # ss) =
    (if s \<in> set seen then dedupe_from seen ss else s # dedupe_from (s # seen) ss)"

definition dedupe :: "string list \<Rightarrow> string list" where
  "dedupe ss = dedupe_from [] ss"

definition is_domain :: "ConnectEvent \<Rightarrow> bool" where
  "is_domain ev \<longleftrightarrow> ce_AddrType ev = ATypDomain"

definition countDomain :: "ConnectEvent list \<Rightarrow> nat" where
  "countDomain evs = card (set (map (\<lambda>ev. ToLower (ce_Host ev)) (filter is_domain evs)))"

definition joinEndpoints :: "Endpoint list \<Rightarrow> string" where
  "joinEndpoints eps = Join
     (map Endpoint_String (take 5 eps)
       @ (if length eps > 5 then [ellipsis @ '' ('' @ itoa_nat (length eps) @ '' total)''] else [])) ''; ''"

definition gateSucceededSince :: "gate \<Rightarrow> int \<Rightarrow> bool" where
  "gateSucceededSince g cursor \<longleftrightarrow> list_ex (\<lambda>ev. ce_Reply ev = RepSuccess) (EventsSince cursor g)"

definition gateSawHost :: "ConnectEvent list \<Rightarrow> string \<Rightarrow> bool" where
  "gateSawHost evs host \<longleftrightarrow> list_ex (\<lambda>ev. EqualFold (ce_Host ev) host \<and> ce_Reply ev = RepSuccess) evs"

fun gateFailure :: "string \<Rightarrow> ConnectEvent list \<Rightarrow> string \<Rightarrow> string" where
  "gateFailure prev [] host = prev"
| "gateFailure prev (ev # evs) host = gateFailure
    (if \<not> EqualFold (ce_Host ev) host \<or> ce_Reply ev = RepSuccess then prev
     else if ce_Err ev \<noteq> [] then ce_Err ev else ReplyError_Error (ce_Reply ev)) evs host"

definition gateFailureSince :: "ConnectEvent list \<Rightarrow> string \<Rightarrow> string" where
  "gateFailureSince evs host = gateFailure [] evs host"

section \<open>The endpoint sampler\<close>

definition isLeak :: "Endpoint \<Rightarrow> string \<Rightarrow> bool" where
  "isLeak ep gaddr =
    (if HasPrefix (ep_Proto ep) ''udp'' then True
     else if \<not> remote_set ep then False
     else AddrPort_String (ep_Remote ep) \<noteq> gaddr)"

definition startSampler :: "string \<Rightarrow> sampler" where
  "startSampler gaddr = \<lparr>sm_gate = gaddr, sm_leaks = [], sm_samples = 0, sm_err = None\<rparr>"

definition sample :: "gerr + Endpoint list \<Rightarrow> sampler \<Rightarrow> Endpoint list \<times> sampler" where
  "sample eps s = (case eps of
      Inl e \<Rightarrow> ([], s\<lparr>sm_err := Some e\<rparr>)
    | Inr es \<Rightarrow>
       (let found = filter (\<lambda>ep. isLeak ep (sm_gate s)) es in
        (found, s\<lparr>sm_samples := Suc (sm_samples s),
                 sm_leaks := foldl (\<lambda>m ep. AList.update (Endpoint_String ep) ep m) (sm_leaks s) found\<rparr>)))"

text \<open>The samples the sampling goroutine takes between two points of the program.\<close>

definition sample_all :: "(gerr + Endpoint list) list \<Rightarrow> sampler \<Rightarrow> sampler" where
  "sample_all obs s = foldl (\<lambda>s o'. snd (sample o' s)) s obs"

definition sampler_results :: "sampler \<Rightarrow> Endpoint list \<times> nat \<times> gerr option" where
  "sampler_results s = (map snd (sm_leaks s), sm_samples s, sm_err s)"

section \<open>The browser\<close>

record NavResult =
  nr_FinalURL :: string
  nr_ErrorText :: string
  nr_Status :: int

definition Blocked :: "NavResult \<Rightarrow> bool" where
  "Blocked r \<longleftrightarrow> nr_ErrorText r \<noteq> []"

text \<open>
  A navigation: its result and its error (with \<open>errors.Is\<close> of a deadline or a cancellation), and
  the connections the browser opened to its gate while it ran.
\<close>

record nav_err =
  ne_text :: gerr
  ne_deadline :: bool

record nav =
  nv_res :: NavResult
  nv_err :: "nav_err option"
  nv_conns :: "(int \<times> conn) list"

definition gate_traffic :: "netw \<Rightarrow> (nat \<Rightarrow> route) \<Rightarrow> (int \<times> conn) list \<Rightarrow> gate \<Rightarrow> gate" where
  "gate_traffic n routes conns g = foldl (\<lambda>g (at, c). snd (snd (gate_serve n routes at c g))) g conns"

definition browse :: "netw \<Rightarrow> (nat \<Rightarrow> route) \<Rightarrow> nav \<Rightarrow> subject \<Rightarrow> subject" where
  "browse n routes v s = s\<lparr>sb_Gate := gate_traffic n routes (nv_conns v) (sb_Gate s)\<rparr>"

section \<open>The checks\<close>

text \<open>\<open>HostIPs\<close>: the two probes over the host's own connection.\<close>

definition HostIPs :: "ip result \<Rightarrow> string \<Rightarrow> ip result \<Rightarrow> ip option \<times> ip option" where
  "HostIPs probe4 ipv6EchoURL probe6 =
    ((case probe4 of Inl _ \<Rightarrow> None | Inr a \<Rightarrow> Some a),
     (if ipv6EchoURL = [] then None else case probe6 of Inl _ \<Rightarrow> None | Inr a \<Rightarrow> Some a))"

definition V1RouteUp :: "ip result \<Rightarrow> int \<Rightarrow> subject \<Rightarrow> Check \<times> subject" where
  "V1RouteUp probe elapsed s =
    (let c = \<lparr>ck_ID = ''V1'', ck_Name = ''route up'', ck_Passed = False, ck_Detail = [],
              ck_Duration = elapsed\<rparr> in
     case probe of
       Inl e \<Rightarrow> report s (c\<lparr>ck_Detail := e\<rparr>)
     | Inr a \<Rightarrow> report (s\<lparr>sb_RouteIP := Some a\<rparr>) (c\<lparr>ck_Passed := True, ck_Detail := ip_String a\<rparr>))"

definition Begin :: "gerr option \<Rightarrow> subject \<Rightarrow> gerr option \<times> subject" where
  "Begin newPage s0 =
    (let s = s0\<lparr>sb_eventCursor := EventCount (sb_Gate s0)\<rparr> in
     case newPage of
       Some e \<Rightarrow> (Some e, s)
     | None \<Rightarrow> (None, s\<lparr>sb_Page := True, sb_sampler := Some (startSampler (gate_Addr (sb_Gate s)))\<rparr>))"

definition Finish :: "subject \<Rightarrow> subject" where
  "Finish s = s\<lparr>sb_Page := False\<rparr>"

text \<open>
  In V2, V5, V7 and V9 the duration is assigned by a deferred function, after the check has been
  copied into the result: the reported duration is 0.
\<close>

definition check0 :: "string \<Rightarrow> string \<Rightarrow> Check" where
  "check0 ident name = \<lparr>ck_ID = ident, ck_Name = name, ck_Passed = False, ck_Detail = [], ck_Duration = 0\<rparr>"

definition is_host :: "VOptions \<Rightarrow> ip \<Rightarrow> bool" where
  "is_host o' a = (vo_CompareHostIP o' \<and> (case vo_HostIPv4 o' of None \<Rightarrow> False | Some h \<Rightarrow> ip_Equal a h))"

definition V2BrowserEgress ::
  "netw \<Rightarrow> (nat \<Rightarrow> route) \<Rightarrow> VOptions \<Rightarrow> nav \<Rightarrow> string result \<Rightarrow> subject \<Rightarrow> Check \<times> subject" where
  "V2BrowserEgress n routes o' v body s0 =
    (let c = check0 ''V2'' ''browser egress''; s = browse n routes v s0 in
     case nv_err v of
       Some e \<Rightarrow> report s (c\<lparr>ck_Detail := ne_text e\<rparr>)
     | None \<Rightarrow>
       if Blocked (nv_res v) then report s (c\<lparr>ck_Detail := ''navigation failed: '' @ nr_ErrorText (nv_res v)\<rparr>)
       else (case body of
         Inl e \<Rightarrow> report s (c\<lparr>ck_Detail := e\<rparr>)
       | Inr b \<Rightarrow> (case ParseEchoBody (uo_unmarshal o') b of
           Inl e \<Rightarrow> report s (c\<lparr>ck_Detail := e @ '' (body '' @ Quote (truncate_str b 80) @ '')''\<rparr>)
         | Inr a \<Rightarrow>
            (let s1 = s\<lparr>sb_BrowserIP := Some a\<rparr> in
             if is_host o' a then
               report s1 (c\<lparr>ck_Detail := ''browser egress '' @ ip_String a @ '' equals host IP''\<rparr>)
             else report (s1\<lparr>sb_RouteIP := Some a\<rparr>)
                    (c\<lparr>ck_Passed := True, ck_Detail := ip_String a\<rparr>)))))"

fun shared_with :: "subject \<Rightarrow> ip \<Rightarrow> subject list \<Rightarrow> string list" where
  "shared_with a x [] = []"
| "shared_with a x (b # bs) =
    (case sb_BrowserIP b of
       Some y \<Rightarrow> if ip_Equal x y
         then (subject_Label a @ '' and '' @ subject_Label b @ '' share egress '' @ ip_String x) # shared_with a x bs
         else shared_with a x bs
     | None \<Rightarrow> shared_with a x bs)"

fun separation_problems :: "VOptions \<Rightarrow> subject list \<Rightarrow> string list" where
  "separation_problems o' [] = []"
| "separation_problems o' (a # rest) =
    (case sb_BrowserIP a of
       None \<Rightarrow> [subject_Label a @ '' has no verified IP'']
     | Some x \<Rightarrow>
         (if is_host o' x then [subject_Label a @ '' egress '' @ ip_String x @ '' equals host IP''] else [])
         @ shared_with a x rest)
    @ separation_problems o' rest"

definition separation_detail :: "VOptions \<Rightarrow> subject list \<Rightarrow> string" where
  "separation_detail o' subs =
    (let ps = separation_problems o' subs in
     if ps \<noteq> [] then Join ps ''; ''
     else Join (map (\<lambda>s. ip_opt_String (sb_BrowserIP s)) subs) neq_glyph
       @ (if vo_CompareHostIP o' then (case vo_HostIPv4 o' of None \<Rightarrow> []
             | Some h \<Rightarrow> neq_glyph @ ''host '' @ ip_String h) else []))"

definition V3Separation :: "VOptions \<Rightarrow> int \<Rightarrow> subject list \<Rightarrow> bool \<times> subject list" where
  "V3Separation o' elapsed subs =
    (let ok = (separation_problems o' subs = []);
         c = \<lparr>ck_ID = ''V3'', ck_Name = ''separation'', ck_Passed = ok,
              ck_Detail = separation_detail o' subs, ck_Duration = elapsed\<rparr>
     in (ok, map (\<lambda>s. snd (report s c)) subs))"

definition V4DNSDelegation :: "VOptions \<Rightarrow> int \<Rightarrow> subject \<Rightarrow> Check \<times> subject" where
  "V4DNSDelegation o' elapsed s =
    (let c = \<lparr>ck_ID = ''V4'', ck_Name = ''DNS delegation'', ck_Passed = False, ck_Detail = [],
              ck_Duration = elapsed\<rparr>;
         echoHost = uo_hostOf o' (vo_EchoURL o');
         events = EventsSince (sb_eventCursor s) (sb_Gate s);
         sawEcho = list_ex (\<lambda>ev. is_domain ev \<and> EqualFold (ce_Host ev) echoHost) events;
         literal = map (\<lambda>ev. ce_Host ev @ '':'' @ Itoa (ce_Port ev)) (filter (\<lambda>ev. \<not> is_domain ev) events);
         reused = (\<not> sawEcho \<and> list_ex (\<lambda>ev. EqualFold (ce_Host ev) echoHost \<and> is_domain ev
                       \<and> ce_Reply ev = RepSuccess) (gate_Events (sb_Gate s)))
     in report s
       (if \<not> sawEcho \<and> \<not> reused then
          c\<lparr>ck_Detail := ''gate never saw a CONNECT for '' @ echoHost @ '' ('' @ itoa_nat (length events) @ '' events)''\<rparr>
        else if literal \<noteq> [] then
          c\<lparr>ck_Detail := ''IP-literal CONNECTs indicate local resolution: '' @ Join (dedupe literal) '', ''\<rparr>
        else if reused then
          c\<lparr>ck_Passed := True, ck_Detail := ''hostname delegated to route (connection reused), 0 local lookups''\<rparr>
        else
          c\<lparr>ck_Passed := True,
            ck_Detail := itoa_nat (countDomain events) @ '' hostnames delegated to route, 0 local lookups''\<rparr>))"

definition V5IPv6 ::
  "netw \<Rightarrow> (nat \<Rightarrow> route) \<Rightarrow> VOptions \<Rightarrow> nav \<Rightarrow> string \<Rightarrow> subject \<Rightarrow> Check \<times> subject" where
  "V5IPv6 n routes o' v body s0 =
    (let c = check0 ''V5'' ''IPv6 behaviour'' in
     if vo_IPv6EchoURL o' = [] then
       report s0 (c\<lparr>ck_Passed := True, ck_Detail := ''no IPv6 echo configured; skipped''\<rparr>)
     else
      (let s = browse n routes v s0 in
       if nv_err v \<noteq> None then report s (c\<lparr>ck_Passed := True, ck_Detail := ''blocked (no response)''\<rparr>)
       else if Blocked (nv_res v) then
         report s (c\<lparr>ck_Passed := True, ck_Detail := ''blocked ('' @ nr_ErrorText (nv_res v) @ '')''\<rparr>)
       else (case ParseEchoBody (uo_unmarshal o') body of
           Inl _ \<Rightarrow> report s (c\<lparr>ck_Passed := True, ck_Detail := ''blocked (no address returned)''\<rparr>)
         | Inr a \<Rightarrow>
             if (case vo_HostIPv6 o' of None \<Rightarrow> False | Some h \<Rightarrow> ip_Equal a h) then
               report s (c\<lparr>ck_Detail := ''browser used the host'' @ [CHR 0x27] @ ''s IPv6 address '' @ ip_String a\<rparr>)
             else if To4 a \<noteq> None then
               report s (c\<lparr>ck_Passed := True,
                 ck_Detail := ''route has no IPv6 egress (echo answered over IPv4 '' @ ip_String a @ '')''\<rparr>)
             else report s (c\<lparr>ck_Passed := True, ck_Detail := ''route IPv6 '' @ ip_String a\<rparr>))))"

text \<open>What the file system and the two pages answer during V6.\<close>

record storage_obs =
  so_profileA :: string
  so_profileB :: string
  so_navA :: nav
  so_navB :: nav
  so_setCookie :: "gerr option"
  so_setItem :: "gerr option"
  so_cookies :: "string list result"
  so_getB :: "string option result"
  so_getA :: "string option"

definition nav_problem :: "nav \<Rightarrow> string option" where
  "nav_problem v = (case nv_err v of
      Some e \<Rightarrow> Some (ne_text e)
    | None \<Rightarrow> if Blocked (nv_res v) then Some (nr_ErrorText (nv_res v)) else None)"

text \<open>The reason V6 fails with, if it fails; \<open>name\<close> is the probe's name.\<close>

definition storage_problem :: "string \<Rightarrow> storage_obs \<Rightarrow> subject \<Rightarrow> subject \<Rightarrow> string option" where
  "storage_problem name ob a b =
    (if so_profileA ob = [] \<or> so_profileA ob = so_profileB ob then
       Some ''profile directories are not distinct''
     else case nav_problem (so_navA ob) of
        Some e \<Rightarrow> Some (''navigate '' @ subject_Label a @ '' to storage origin: '' @ e)
      | None \<Rightarrow> (case nav_problem (so_navB ob) of
          Some e \<Rightarrow> Some (''navigate '' @ subject_Label b @ '' to storage origin: '' @ e)
        | None \<Rightarrow> (case so_setCookie ob of
            Some e \<Rightarrow> Some (''set cookie in '' @ subject_Label a @ '': '' @ e)
          | None \<Rightarrow> (case so_setItem ob of
              Some e \<Rightarrow> Some (''localStorage in '' @ subject_Label a @ '': '' @ e)
            | None \<Rightarrow> (case so_cookies ob of
                Inl e \<Rightarrow> Some (''read cookies in '' @ subject_Label b @ '': '' @ e)
              | Inr cks \<Rightarrow>
                  if name \<in> set cks then
                    Some (''cookie written in '' @ subject_Label a @ '' is visible in '' @ subject_Label b)
                  else (case so_getB ob of
                      Inl e \<Rightarrow> Some (''localStorage in '' @ subject_Label b @ '': '' @ e)
                    | Inr (Some _) \<Rightarrow>
                        Some (''localStorage written in '' @ subject_Label a @ '' is visible in '' @ subject_Label b)
                    | Inr None \<Rightarrow>
                        if so_getA ob = None then
                          Some (subject_Label a @ '' could not read back its own storage'')
                        else None))))))"

definition V6StorageIsolation ::
  "netw \<Rightarrow> (nat \<Rightarrow> route) \<Rightarrow> string \<Rightarrow> storage_obs \<Rightarrow> int \<Rightarrow> subject \<Rightarrow> subject
    \<Rightarrow> Check \<times> subject \<times> subject" where
  "V6StorageIsolation n routes name ob elapsed a0 b0 =
    (let early = (so_profileA ob = [] \<or> so_profileA ob = so_profileB ob);
         a = (if early then a0 else browse n routes (so_navA ob) a0);
         b = (if early \<or> nav_problem (so_navA ob) \<noteq> None then b0 else browse n routes (so_navB ob) b0);
         c = (case storage_problem name ob a0 b0 of
           Some d \<Rightarrow> \<lparr>ck_ID = ''V6'', ck_Name = ''storage isolation'', ck_Passed = False, ck_Detail = d,
                      ck_Duration = elapsed\<rparr>
         | None \<Rightarrow> \<lparr>ck_ID = ''V6'', ck_Name = ''storage isolation'', ck_Passed = True,
              ck_Detail = subject_Label a0 @ '' state invisible to '' @ subject_Label b0 @ ''; distinct profiles'',
              ck_Duration = elapsed\<rparr>)
     in (c, snd (report a c), snd (report b c)))"

text \<open>
  \<open>resumeNavigate\<close>: one retry after half a second, unless the context is done by then. The result is
  the navigation that counts; the connections of both reached the gate.
\<close>

definition resumeNavigate ::
  "netw \<Rightarrow> (nat \<Rightarrow> route) \<Rightarrow> nav \<Rightarrow> bool \<Rightarrow> nav \<Rightarrow> subject \<Rightarrow> nav \<times> subject" where
  "resumeNavigate n routes v1 ctxDone v2 s0 =
    (let s1 = browse n routes v1 s0 in
     if nv_err v1 = None \<and> \<not> Blocked (nv_res v1) then (v1, s1)
     else if ctxDone then (v1, s1)
     else (v2, browse n routes v2 s1))"

text \<open>What the world answers during V7.\<close>

record failclosed_obs =
  fo_blocked :: nav
  fo_snapshot :: "gerr + Endpoint list"
  fo_resume :: nav
  fo_ctxDone :: bool
  fo_retry :: nav
  fo_body :: string

definition with_gate :: "(gate \<Rightarrow> gate) \<Rightarrow> subject \<Rightarrow> subject" where
  "with_gate f s = s\<lparr>sb_Gate := f (sb_Gate s)\<rparr>"

definition V7_resume ::
  "netw \<Rightarrow> (nat \<Rightarrow> route) \<Rightarrow> VOptions \<Rightarrow> failclosed_obs \<Rightarrow> string \<Rightarrow> int \<Rightarrow> subject \<Rightarrow> Check \<times> subject" where
  "V7_resume n routes o' ob blockedWith cursor s0 =
    (let c = check0 ''V7'' ''fail-closed'' in
     case resumeNavigate n routes (fo_resume ob) (fo_ctxDone ob) (fo_retry ob) s0 of
       (v, s) \<Rightarrow>
        (if nv_err v \<noteq> None \<or> Blocked (nv_res v) then
           report s (c\<lparr>ck_Detail := ''traffic did not resume after reopening the gate: ''
             @ (case nv_err v of None \<Rightarrow> nr_ErrorText (nv_res v) | Some e \<Rightarrow> ne_text e)\<rparr>)
         else (case ParseEchoBody (uo_unmarshal o') (fo_body ob) of
             Inl _ \<Rightarrow> report s (c\<lparr>ck_Detail := ''no IP after resume''\<rparr>)
           | Inr a \<Rightarrow>
               if is_host o' a then
                 report s (c\<lparr>ck_Detail := ''egress became the host IP after resume: '' @ ip_String a\<rparr>)
               else if \<not> gateSucceededSince (sb_Gate s) cursor then
                 report s (c\<lparr>ck_Detail := ''resume did not produce a successful gate CONNECT''\<rparr>)
               else report (s\<lparr>sb_BrowserIP := Some a, sb_RouteIP := Some a\<rparr>)
                 (c\<lparr>ck_Passed := True, ck_Detail := ''blocked while down ('' @ blockedWith @ ''), resumed via '' @ ip_String a
                    @ (case sb_BrowserIP s of
                         None \<Rightarrow> []
                       | Some prev \<Rightarrow> if ip_Equal a prev then []
                           else '' (exit rotated from '' @ ip_String prev @ '')'')\<rparr>))))"

definition V7FailClosed ::
  "netw \<Rightarrow> (nat \<Rightarrow> route) \<Rightarrow> VOptions \<Rightarrow> failclosed_obs \<Rightarrow> subject \<Rightarrow> Check \<times> subject" where
  "V7FailClosed n routes o' ob s0 =
    (let c = check0 ''V7'' ''fail-closed'';
         s1 = browse n routes (fo_blocked ob) (with_gate gate_Close s0);
         v = fo_blocked ob in
     if nv_err v = None \<and> \<not> Blocked (nv_res v) then
       report (with_gate gate_Open s1)
         (c\<lparr>ck_Detail := ''navigation succeeded (HTTP '' @ Itoa (nr_Status (nv_res v)) @ '') while the gate was closed''\<rparr>)
     else
      (let blockedWith = (if nv_err v = None \<and> nr_ErrorText (nv_res v) \<noteq> [] then nr_ErrorText (nv_res v)
                          else ''timeout'');
           snap = map_option (sample (fo_snapshot ob)) (sb_sampler s1);
           s2 = (case snap of None \<Rightarrow> s1 | Some (_, sm) \<Rightarrow> s1\<lparr>sb_sampler := Some sm\<rparr>) in
       case snap of
         Some (l # ls, _) \<Rightarrow>
           report (with_gate gate_Open s2)
             (c\<lparr>ck_Detail := ''non-gate endpoints while gate closed: '' @ joinEndpoints (l # ls)\<rparr>)
       | _ \<Rightarrow>
           V7_resume n routes o' ob blockedWith (EventCount (sb_Gate s2)) (with_gate gate_Open s2)))"

definition V8NoDirect :: "int \<Rightarrow> subject \<Rightarrow> Check \<times> subject" where
  "V8NoDirect elapsed s =
    (let c = check0 ''V8'' ''no direct connections'' in
     case sb_sampler s of
       None \<Rightarrow> report s (c\<lparr>ck_Detail := ''sampler not started''\<rparr>)
     | Some sm \<Rightarrow> (case sampler_results sm of
         (leaks, samples, err) \<Rightarrow>
          (let c1 = c\<lparr>ck_Duration := elapsed\<rparr> in
           case err of
             Some e \<Rightarrow> report s (c1\<lparr>ck_Detail := ''endpoint enumeration failed: '' @ e\<rparr>)
           | None \<Rightarrow>
               if leaks \<noteq> [] then report s (c1\<lparr>ck_Detail := ''non-gate endpoints observed: '' @ joinEndpoints leaks\<rparr>)
               else report s (c1\<lparr>ck_Passed := True,
                 ck_Detail := itoa_nat samples @ '' samples, only '' @ gate_Addr (sb_Gate s) @ '' observed''\<rparr>))))"

definition V9StartupURL ::
  "netw \<Rightarrow> (nat \<Rightarrow> route) \<Rightarrow> VOptions \<Rightarrow> nav \<Rightarrow> string \<Rightarrow> subject \<Rightarrow> Check \<times> NavResult \<times> subject" where
  "V9StartupURL n routes o' v startupURL s0 =
    (let c = check0 ''V9'' ''startup URL'';
         cursor = EventCount (sb_Gate s0);
         s = browse n routes v s0;
         res = nv_res v;
         host = uo_hostOf o' startupURL;
         rid = route_ID (routes (sb_Route s));
         reused = gateSawHost (gate_Events (sb_Gate s)) host;
         fresh = gateSawHost (EventsSince cursor (sb_Gate s)) host;
         saw = (fresh \<or> reused);
         deadline = (case nv_err v of None \<Rightarrow> False | Some e \<Rightarrow> ne_deadline e);
         done = (\<lambda>c'. case report s c' of (d, s') \<Rightarrow> (d, res, s'))
     in
     if Blocked res \<and> \<not> saw then
       (let fail = gateFailureSince (EventsSince cursor (sb_Gate s)) host in
        done (c\<lparr>ck_Detail := ''navigation failed: '' @ nr_ErrorText res
                 @ (if fail \<noteq> [] then '' ('' @ fail @ '')'' else [])\<rparr>))
     else if saw \<and> nr_Status res > 0 \<and> \<not> Blocked res then
       done (c\<lparr>ck_Passed := True, ck_Detail := ''HTTP '' @ Itoa (nr_Status res) @ '' via '' @ rid
          @ (if \<not> fresh then '', connection reused'' else [])
          @ (if nr_FinalURL res \<noteq> [] \<and> nr_FinalURL res \<noteq> startupURL
             then '' (redirected to '' @ truncate_str (nr_FinalURL res) 60 @ '')'' else [])\<rparr>)
     else if saw \<and> (nr_Status res > 0 \<or> deadline) then
       done (c\<lparr>ck_Passed := True,
          ck_Detail := (if nr_Status res > 0 then ''HTTP '' @ Itoa (nr_Status res) @ '' via '' @ rid
            else ''CONNECT to '' @ host @ '' via '' @ rid @ '' (page still loading)'')\<rparr>)
     else (case nv_err v of
         Some e \<Rightarrow> done (c\<lparr>ck_Detail := ne_text e\<rparr>)
       | None \<Rightarrow> done (c\<lparr>ck_Detail := ''no CONNECT to '' @ host @ '' observed at gate''\<rparr>)))"

section \<open>What the checks leave alone\<close>

lemma gate_serve_frame:
  "gate_serve n routes at c g = (tr, c', g') \<Longrightarrow> g_open g' = g_open g \<and> g_route g' = g_route g
     \<and> g_port g' = g_port g \<and> g_down g' = g_down g \<and> (gate_wf g \<longrightarrow> gate_wf g')"
  by (auto simp: gate_serve_def split: prod.splits)

lemma gate_traffic_frame [simp]:
  "g_open (gate_traffic n routes cs g) = g_open g" "g_route (gate_traffic n routes cs g) = g_route g"
  "g_port (gate_traffic n routes cs g) = g_port g" "g_down (gate_traffic n routes cs g) = g_down g"
  unfolding gate_traffic_def
  by (induction cs arbitrary: g) (auto dest: gate_serve_frame split: prod.splits simp: gate_serve_def)

lemma browse_frame [simp]:
  "sb_Route (browse n routes v s) = sb_Route s" "sb_Identity (browse n routes v s) = sb_Identity s"
  "sb_RouteIP (browse n routes v s) = sb_RouteIP s" "sb_BrowserIP (browse n routes v s) = sb_BrowserIP s"
  "sb_Results (browse n routes v s) = sb_Results s" "sb_Browser (browse n routes v s) = sb_Browser s"
  "sb_sampler (browse n routes v s) = sb_sampler s" "sb_eventCursor (browse n routes v s) = sb_eventCursor s"
  "g_open (sb_Gate (browse n routes v s)) = g_open (sb_Gate s)"
  "g_route (sb_Gate (browse n routes v s)) = g_route (sb_Gate s)"
  "g_port (sb_Gate (browse n routes v s)) = g_port (sb_Gate s)"
  by (simp_all add: browse_def)

text \<open>The fields that fix what a subject is bound to: identity, route, the gate's route and flag.\<close>

definition binding :: "subject \<Rightarrow> identity \<times> nat \<times> nat \<times> bool" where
  "binding s = (sb_Identity s, sb_Route s, g_route (sb_Gate s), g_open (sb_Gate s))"

lemma binding_simps [simp]:
  "binding (browse n routes v s) = binding s"
  "binding (snd (report s c)) = binding s"
  "binding (s\<lparr>sb_RouteIP := x\<rparr>) = binding s" "binding (s\<lparr>sb_BrowserIP := x\<rparr>) = binding s"
  "binding (s\<lparr>sb_sampler := y\<rparr>) = binding s"
  by (simp_all add: binding_def report_def)

lemma V1_binding [simp]: "binding (snd (V1RouteUp p t s)) = binding s"
  by (simp add: V1RouteUp_def Let_def split: sum.splits)

lemma V2_binding [simp]: "binding (snd (V2BrowserEgress n routes o' v b s)) = binding s"
  by (simp add: V2BrowserEgress_def Let_def split: sum.splits option.splits)

lemma V4_binding [simp]: "binding (snd (V4DNSDelegation o' t s)) = binding s"
  by (simp add: V4DNSDelegation_def Let_def)

lemma V5_binding [simp]: "binding (snd (V5IPv6 n routes o' v b s)) = binding s"
  by (simp add: V5IPv6_def Let_def split: sum.splits)

lemma V8_binding [simp]: "binding (snd (V8NoDirect t s)) = binding s"
  by (simp add: V8NoDirect_def Let_def split: option.splits prod.splits)

lemma V9_binding [simp]: "binding (snd (snd (V9StartupURL n routes o' v u s))) = binding s"
  by (simp add: V9StartupURL_def Let_def report_def binding_def split: option.splits)

lemma V7_resume_binding [simp]: "binding (snd (V7_resume n routes o' ob bw cur s)) = binding s"
  by (simp add: V7_resume_def resumeNavigate_def Let_def split: sum.splits)

lemma binding_open: "binding (with_gate gate_Open s) = (sb_Identity s, sb_Route s, g_route (sb_Gate s), True)"
  by (simp add: binding_def with_gate_def gate_Open_def)

lemma V7_binding:
  "binding (snd (V7FailClosed n routes o' ob s)) = (sb_Identity s, sb_Route s, g_route (sb_Gate s), True)"
proof -
  have 1: "sb_Identity (with_gate gate_Close s) = sb_Identity s" "sb_Route (with_gate gate_Close s) = sb_Route s"
    "g_route (sb_Gate (with_gate gate_Close s)) = g_route (sb_Gate s)"
    by (simp_all add: with_gate_def gate_Close_def)
  show ?thesis
    by (simp add: V7FailClosed_def Let_def binding_open 1 split: option.splits list.splits prod.splits)
qed

section \<open>The checks mean what they say\<close>

lemma shared_with_Nil:
  "shared_with a x bs = [] \<longleftrightarrow> (\<forall>b \<in> set bs. \<forall>y. sb_BrowserIP b = Some y \<longrightarrow> \<not> ip_Equal x y)"
  by (induction bs) (auto split: option.splits)

definition distinct_egress :: "subject \<Rightarrow> subject \<Rightarrow> bool" where
  "distinct_egress a b \<longleftrightarrow>
     (\<forall>x y. sb_BrowserIP a = Some x \<longrightarrow> sb_BrowserIP b = Some y \<longrightarrow> \<not> ip_Equal x y)"

definition separated :: "VOptions \<Rightarrow> subject list \<Rightarrow> bool" where
  "separated o' subs \<longleftrightarrow>
     (\<forall>s \<in> set subs. \<exists>x. sb_BrowserIP s = Some x \<and> \<not> is_host o' x) \<and> sorted_wrt distinct_egress subs"

lemma separation_iff: "separation_problems o' subs = [] \<longleftrightarrow> separated o' subs"
  by (induction subs)
    (auto simp: separated_def shared_with_Nil distinct_egress_def split: option.splits)

lemma sample_leak_free:
  "sm_leaks (snd (sample ob s)) = [] \<longleftrightarrow>
     sm_leaks s = [] \<and> (\<forall>es. ob = Inr es \<longrightarrow> (\<forall>ep \<in> set es. \<not> isLeak ep (sm_gate s)))"
proof -
  have ne: "AList.update k v m \<noteq> []" for k :: string and v :: Endpoint and m
    by (cases m) auto
  have "foldl (\<lambda>m ep. AList.update (Endpoint_String ep) ep m) m es = [] \<longleftrightarrow> m = [] \<and> es = []" for m es
    by (induction es arbitrary: m) (auto simp: ne)
  then show ?thesis by (auto simp: sample_def Let_def filter_empty_conv split: sum.splits)
qed

lemma sample_gate [simp]: "sm_gate (snd (sample ob s)) = sm_gate s"
  by (simp add: sample_def Let_def split: sum.splits)

lemma sample_err: "sm_err (snd (sample ob s)) = None \<longleftrightarrow> \<not> isl ob \<and> sm_err s = None"
  by (cases ob) (auto simp: sample_def Let_def)

lemma sample_all_clean:
  "sm_leaks (sample_all obs s) = [] \<and> sm_err (sample_all obs s) = None \<longleftrightarrow>
     sm_leaks s = [] \<and> sm_err s = None \<and>
     (\<forall>ob \<in> set obs. \<exists>es. ob = Inr es \<and> (\<forall>ep \<in> set es. \<not> isLeak ep (sm_gate s)))"
  unfolding sample_all_def
proof (induction obs arbitrary: s)
  case (Cons ob obs)
  have "sm_leaks (snd (sample ob s)) = [] \<and> sm_err (snd (sample ob s)) = None \<longleftrightarrow>
      sm_leaks s = [] \<and> sm_err s = None \<and> (\<exists>es. ob = Inr es \<and> (\<forall>ep \<in> set es. \<not> isLeak ep (sm_gate s)))"
    by (cases ob) (auto simp: sample_leak_free sample_err)
  then show ?case using Cons [of "snd (sample ob s)"] by auto
qed simp

lemma V8_passed:
  "ck_Passed (fst (V8NoDirect t s)) \<longleftrightarrow>
     (\<exists>sm. sb_sampler s = Some sm \<and> sm_err sm = None \<and> sm_leaks sm = [])"
  by (auto simp: V8NoDirect_def Let_def report_def check0_def sampler_results_def split: option.splits)

lemma V4_passed:
  assumes "ck_Passed (fst (V4DNSDelegation o' t s))"
  shows "(\<forall>ev \<in> set (EventsSince (sb_eventCursor s) (sb_Gate s)). is_domain ev)
    \<and> (\<exists>ev \<in> set (gate_Events (sb_Gate s)). is_domain ev
         \<and> EqualFold (ce_Host ev) (uo_hostOf o' (vo_EchoURL o')))"
proof -
  have sub: "set (EventsSince c g) \<subseteq> set (gate_Events g)" for c g
    by (auto simp: EventsSince_def gate_Events_def Let_def dest: in_set_dropD)
  show ?thesis
    using assms sub
    by (fastforce simp: V4DNSDelegation_def Let_def report_def list_ex_iff filter_empty_conv split: if_splits)
qed

text \<open>While the gate is closed, no connection the browser makes is recorded as a success.\<close>

lemma gate_log_events:
  "\<forall>ev \<in> set (g_events (gate_log at es g)). ev \<in> set (g_events g)
     \<or> (\<exists>t code err. OnResult t code err \<in> set es \<and> ce_Reply ev = code)"
proof (induction at es g rule: gate_log.induct)
  case (2 at t code err es g)
  have "ev \<in> set (g_events g) \<or> ce_Reply ev = code" if "ev \<in> set (g_events (gate_record at t code err g))" for ev
    using that set_keep_last [of "g_max g"] by (fastforce simp: gate_record_def Let_def)
  then show ?case using 2 by fastforce
qed auto

lemma closed_serve_events:
  assumes "\<not> g_open g" and "gate_serve n routes at c g = (tr, c', g')" and "ev \<in> set (g_events g')"
  shows "ev \<in> set (g_events g) \<or> ce_Reply ev = RepGeneralFailure \<or> ce_Reply ev = RepCommandNotSupported"
proof -
  have "g' = gate_log at tr g" using assms(2) by (auto simp: gate_serve_def split: prod.splits)
  then show ?thesis
    using gate_log_events [of at tr g] assms closed_codes [OF assms(1,2)] by blast
qed

lemma closed_traffic_events:
  "\<not> g_open g \<Longrightarrow> ev \<in> set (g_events (gate_traffic n routes cs g)) \<Longrightarrow>
     ev \<in> set (g_events g) \<or> ce_Reply ev \<noteq> RepSuccess"
  unfolding gate_traffic_def
proof (induction cs arbitrary: g)
  case (Cons p cs)
  obtain at c where p: "p = (at, c)" by (metis prod.exhaust)
  obtain tr c' g' where s: "gate_serve n routes at c g = (tr, c', g')" by (metis prod_cases3)
  have "\<not> g_open g'" using gate_serve_frame [OF s] Cons.prems(1) by simp
  then have "ev \<in> set (g_events g') \<or> ce_Reply ev \<noteq> RepSuccess"
    using Cons.IH [of g'] Cons.prems(2) by (simp add: p s)
  then show ?case
    using closed_serve_events [OF Cons.prems(1) s, of ev] by (auto simp: socks_consts)
qed simp
lemma V7_resume_passed:
  assumes "ck_Passed (fst (V7_resume n routes o' ob bw cur s))"
  shows "\<exists>a. sb_BrowserIP (snd (V7_resume n routes o' ob bw cur s)) = Some a
    \<and> sb_RouteIP (snd (V7_resume n routes o' ob bw cur s)) = Some a \<and> \<not> is_host o' a"
proof -
  obtain v s1 where r: "resumeNavigate n routes (fo_resume ob) (fo_ctxDone ob) (fo_retry ob) s = (v, s1)"
    by (metis prod.exhaust)
  show ?thesis
    using assms by (simp add: V7_resume_def r Let_def report_def check0_def split: if_splits sum.splits)
qed

lemma V7_cases:
  "\<not> ck_Passed (fst (V7FailClosed n routes o' ob s))
   \<or> ((nv_err (fo_blocked ob) \<noteq> None \<or> Blocked (nv_res (fo_blocked ob)))
      \<and> (\<exists>bw cur s1. V7FailClosed n routes o' ob s = V7_resume n routes o' ob bw cur s1))"
proof (cases "nv_err (fo_blocked ob) = None \<and> \<not> Blocked (nv_res (fo_blocked ob))")
  case True
  then show ?thesis by (simp add: V7FailClosed_def Let_def report_def check0_def)
next
  case False
  let ?s1 = "browse n routes (fo_blocked ob) (with_gate gate_Close s)"
  show ?thesis
  proof (cases "map_option (sample (fo_snapshot ob)) (sb_sampler ?s1)")
    case None
    then show ?thesis using False unfolding V7FailClosed_def Let_def None by auto
  next
    case (Some p)
    show ?thesis
    proof (cases "fst p")
      case Nil
      then show ?thesis using False unfolding V7FailClosed_def Let_def Some by (cases p) auto
    next
      case (Cons l ls)
      then show ?thesis
        using False unfolding V7FailClosed_def Let_def Some by (cases p) (auto simp: report_def check0_def)
    qed
  qed
qed

lemma V7_passed:
  assumes "ck_Passed (fst (V7FailClosed n routes o' ob s))"
  shows "(nv_err (fo_blocked ob) \<noteq> None \<or> Blocked (nv_res (fo_blocked ob)))
    \<and> (\<exists>a. sb_BrowserIP (snd (V7FailClosed n routes o' ob s)) = Some a
          \<and> sb_RouteIP (snd (V7FailClosed n routes o' ob s)) = Some a \<and> \<not> is_host o' a)"
  using assms V7_cases [of n routes o' ob s] V7_resume_passed by metis

section \<open>Properties\<close>

text \<open>
  C9: V3 passes exactly when every identity has a browser egress, none of them is the host's
  address (when the comparison is on), and no two identities share one; and it records its verdict
  on every identity.
\<close>

theorem verify_separation:
  "(fst (V3Separation o' t subs) \<longleftrightarrow>
      (\<forall>s \<in> set subs. \<exists>x. sb_BrowserIP s = Some x \<and> \<not> is_host o' x)
    \<and> (\<forall>i j x y. i < j \<longrightarrow> j < length subs \<longrightarrow> sb_BrowserIP (subs ! i) = Some x
          \<longrightarrow> sb_BrowserIP (subs ! j) = Some y \<longrightarrow> \<not> ip_Equal x y))
   \<and> (\<forall>s \<in> set (snd (V3Separation o' t subs)). \<exists>c. last (sb_Results s) = c \<and> ck_ID c = ''V3''
        \<and> ck_Passed c = fst (V3Separation o' t subs))"
  by (auto simp: V3Separation_def Let_def separation_iff separated_def distinct_egress_def
      sorted_wrt_iff_nth_less report_def)

definition sample_subject :: "int \<Rightarrow> byte \<Rightarrow> subject" where
  "sample_subject i b = \<lparr>sb_Identity = \<lparr>id_ID = ''identity'', id_Index = i, id_RouteSlot = i,
       id_Created = 0, id_Environment = sample_environment, id_Dir = ''d'', id_Profile = ''p'', id_JustCreated = False\<rparr>,
     sb_Route = 0, sb_Gate = gate_Open (NewGate 0), sb_Browser = True, sb_RouteIP = None,
     sb_BrowserIP = Some (v4InV6Prefix @ [1, 2, 3, b]), sb_Page = True, sb_Results = [],
     sb_eventCursor = 0, sb_sampler = Some (startSampler ''127.0.0.1:9'')\<rparr>"

definition sample_vopts :: VOptions where
  "sample_vopts = \<lparr>vo_EchoURL = ''https://e'', vo_IPv6EchoURL = [], vo_StorageOrigin = [],
     vo_CompareHostIP = True, vo_HostIPv4 = Some (v4InV6Prefix @ [9, 9, 9, 9]), vo_HostIPv6 = None,
     uo_hostOf = (\<lambda>_. ''e''), uo_cacheBust = id, uo_unmarshal = (\<lambda>_. None)\<rparr>"

theorem verify_separation_witness:
  "\<not> fst (V3Separation sample_vopts 0 [sample_subject 1 4, sample_subject 2 4])
   \<and> fst (V3Separation sample_vopts 0 [sample_subject 1 4, sample_subject 2 5])"
proof -
  have "fst (V3Separation sample_vopts 0 [sample_subject 1 4, sample_subject 2 5])"
    by (subst verify_separation [THEN conjunct1])
      (auto simp: sample_subject_def sample_vopts_def is_host_def ip_Equal_def less_Suc_eq nth_Cons'
        split: if_splits)
  moreover have "\<not> fst (V3Separation sample_vopts 0 [sample_subject 1 4, sample_subject 2 4])"
    using verify_separation [of sample_vopts 0 "[sample_subject 1 4, sample_subject 2 4]", THEN conjunct1]
    by (force simp: sample_subject_def)
  ultimately show ?thesis by blast
qed

text \<open>
  C24: V4 is sound for the events it looks at: when it passes, every CONNECT recorded since \<open>Begin\<close>
  carried a host name (none an IP literal), and the echo host itself was delegated by name.
\<close>

theorem verify_dns_delegation:
  assumes "ck_Passed (fst (V4DNSDelegation o' t s))"
  shows "(\<forall>ev \<in> set (EventsSince (sb_eventCursor s) (sb_Gate s)). ce_AddrType ev = ATypDomain)
    \<and> (\<exists>ev \<in> set (gate_Events (sb_Gate s)). ce_AddrType ev = ATypDomain
         \<and> EqualFold (ce_Host ev) (uo_hostOf o' (vo_EchoURL o')))"
  using V4_passed [OF assms] by (simp add: is_domain_def)

definition sample_v4 :: subject where
  "sample_v4 = (sample_subject 1 4)\<lparr>sb_Gate := (NewGate 0)\<lparr>g_events := [\<lparr>ce_At = 0, ce_Host = ''E'',
     ce_Port = 443, ce_AddrType = ATypDomain, ce_Reply = RepSuccess, ce_Err = []\<rparr>]\<rparr>\<rparr>"

theorem verify_dns_delegation_witness:
  "ck_Passed (fst (V4DNSDelegation sample_vopts 0 sample_v4))
   \<and> (\<exists>ev \<in> set (gate_Events (sb_Gate sample_v4)). EqualFold (ce_Host ev) ''e'')"
proof -
  have "ck_Passed (fst (V4DNSDelegation sample_vopts 0 sample_v4))" by code_simp
  from verify_dns_delegation [OF this] this show ?thesis by (auto simp: sample_vopts_def)
qed


definition sample_nav :: "string \<Rightarrow> (int \<times> conn) list \<Rightarrow> nav" where
  "sample_nav e cs = \<lparr>nv_res = \<lparr>nr_FinalURL = [], nr_ErrorText = e, nr_Status = 200\<rparr>, nv_err = None, nv_conns = cs\<rparr>"

definition sample_v7 :: failclosed_obs where
  "sample_v7 = \<lparr>fo_blocked = sample_nav ''net::ERR'' [(1, sample_client)], fo_snapshot = Inr [],
     fo_resume = sample_nav [] [(2, sample_client)], fo_ctxDone = False,
     fo_retry = sample_nav [] [], fo_body = ''1.2.3.4''\<rparr>"


text \<open>
  V8 passes exactly when the sampler has been running, every enumeration of the browser's
  sockets succeeded, and none of them contained a UDP socket or a TCP connection to anything but
  this identity's gate.
\<close>

theorem verify_no_direct:
  "ck_Passed (fst (V8NoDirect t (s\<lparr>sb_sampler := Some (sample_all obs (startSampler gaddr))\<rparr>))) \<longleftrightarrow>
    (\<forall>ob \<in> set obs. \<exists>es. ob = Inr es \<and> (\<forall>ep \<in> set es. \<not> HasPrefix (ep_Proto ep) ''udp''
       \<and> (remote_set ep \<longrightarrow> AddrPort_String (ep_Remote ep) = gaddr)))"
  using sample_all_clean [of obs "startSampler gaddr"]
  by (auto simp: V8_passed startSampler_def isLeak_def) metis+

theorem verify_no_direct_witness:
  "\<not> ck_Passed (fst (V8NoDirect 0 ((sample_subject 1 4)\<lparr>sb_sampler :=
     Some (sample_all [Inr [\<lparr>ep_PID = 1, ep_Proto = ''udp6'', ep_Local = None, ep_Remote = None, ep_State = []\<rparr>]]
       (startSampler ''127.0.0.1:9''))\<rparr>)))"
  by (subst verify_no_direct) auto

end
