(* ===== verification/World.thy ===== *)
theory World
  imports Verify
begin

text \<open>
  The state the session and the health monitor share, and what the outside world answers.

  Routes are objects several parts hold on to: a subject and its gate name the same route, and the
  old route of a replaced session is still stopped. So routes live in a heap (\<open>se_routes\<close>) and are
  named by references; \<open>se_fresh\<close> is the next free one. A subject owns its gate.

  Everything outside the program is a stream of answers: \<open>env t\<close> is what the world answers to the
  \<open>t\<close>-th question, and \<open>se_tick\<close> counts the questions asked, so no two questions need have
  consistent answers.
\<close>

section \<open>The environment\<close>

record penv =
  pe_net :: netw
  pe_get :: "RouteDef \<Rightarrow> string \<Rightarrow> gerr + (int \<times> string)"
  pe_addr :: "string \<Rightarrow> string"
  pe_unmarshal :: "string \<Rightarrow> (string \<Rightarrow> string option) option"
  pe_denv :: denv
  pe_now :: int
  pe_direct :: "string \<Rightarrow> gerr + (int \<times> string)"
  pe_elapsed :: int
  pe_find :: "gerr option"
  pe_bind :: "gerr + nat"
  pe_launch :: "gerr option"
  pe_firstPage :: "gerr option"
  pe_newPage :: "gerr option"
  pe_nav :: "string \<Rightarrow> nav"
  pe_body :: "string result"
  pe_storage :: storage_obs
  pe_failclosed :: failclosed_obs
  pe_samples :: "(gerr + Endpoint list) list"
  pe_name :: string
  pe_endpoints :: "gerr + Endpoint list"

type_synonym env = "nat \<Rightarrow> penv"

text \<open>
  \<open>provider.PublicIP\<close> through a route: the HTTP client connects with the route's \<open>Dial\<close>, so a route
  that refuses the dial refuses the probe; otherwise the answer is that of the route's upstream.
\<close>

definition route_PublicIP :: "penv \<Rightarrow> route \<Rightarrow> string \<Rightarrow> ip result" where
  "route_PublicIP e r url = PublicIP (pe_unmarshal e)
    (\<lambda>u. case route_Dial (pe_net e) r ''tcp'' (pe_addr e u) of
        Some er \<Rightarrow> Inl (de_text er)
      | None \<Rightarrow> pe_get e (route_Def r) u) url"

lemma route_PublicIP_up:
  "route_PublicIP e r url = Inr a \<Longrightarrow> route_Status r = StatusReady \<or> route_Status r = StatusVerifying"
  using rt.dial_None_status [of "pe_net e" r "''tcp''" "pe_addr e url"]
  by (auto simp: route_PublicIP_def PublicIP_def split: option.splits sum.splits if_splits)

lemma route_PublicIP_length: "route_PublicIP e r url = Inr a \<Longrightarrow> length a = 16"
  unfolding route_PublicIP_def by (rule PublicIP_length)

section \<open>The shared state\<close>

record world =
  se_routes :: "nat \<Rightarrow> route"
  se_fresh :: nat
  se_subjects :: "subject list"
  se_prov :: "Provisioner option"
  se_dworld :: dworld
  se_tick :: nat
  se_alive :: "nat \<Rightarrow> bool"
  se_closed :: bool
  se_locked :: bool
  se_finalURL :: "nat \<Rightarrow> string"
  se_hostIPv4 :: string
  se_hostIPv6 :: string

definition ask :: "env \<Rightarrow> world \<Rightarrow> penv" where
  "ask env w = env (se_tick w)"

definition tick :: "world \<Rightarrow> world" where
  "tick w = w\<lparr>se_tick := Suc (se_tick w)\<rparr>"

definition sub :: "world \<Rightarrow> nat \<Rightarrow> subject" where
  "sub w i = se_subjects w ! i"

definition set_sub :: "nat \<Rightarrow> subject \<Rightarrow> world \<Rightarrow> world" where
  "set_sub i s w = w\<lparr>se_subjects := (se_subjects w)[i := s]\<rparr>"

definition route_at :: "world \<Rightarrow> nat \<Rightarrow> route" where
  "route_at w i = se_routes w (sb_Route (sub w i))"

definition set_route :: "nat \<Rightarrow> route \<Rightarrow> world \<Rightarrow> world" where
  "set_route ref r w = w\<lparr>se_routes := (se_routes w)(ref := r)\<rparr>"

definition alloc :: "route \<Rightarrow> world \<Rightarrow> nat \<times> world" where
  "alloc r w = (se_fresh w, (set_route (se_fresh w) r w)\<lparr>se_fresh := Suc (se_fresh w)\<rparr>)"

definition set_status :: "nat \<Rightarrow> RouteStatus \<Rightarrow> world \<Rightarrow> world" where
  "set_status ref st w = set_route ref (route_SetStatus st (se_routes w ref)) w"

definition stop_route :: "nat \<Rightarrow> world \<Rightarrow> world" where
  "stop_route ref w = set_route ref (route_Stop (se_routes w ref)) w"

definition start_route :: "env \<Rightarrow> nat \<Rightarrow> world \<Rightarrow> gerr option \<times> world" where
  "start_route env ref w = (case route_Start (pe_net (ask env w)) (se_routes w ref) of
     (e, r) \<Rightarrow> (e, tick (set_route ref r w)))"

definition on_gate :: "nat \<Rightarrow> (gate \<Rightarrow> gate) \<Rightarrow> world \<Rightarrow> world" where
  "on_gate i f w = set_sub i (with_gate f (sub w i)) w"

text \<open>Binding a subject and its gate to another route: \<open>Gate.SetRoute\<close> and \<open>sub.Route = next\<close>.\<close>

definition swap_route :: "nat \<Rightarrow> nat \<Rightarrow> world \<Rightarrow> world" where
  "swap_route i ref w =
    (let w1 = on_gate i (gate_SetRoute ref) w in set_sub i ((sub w1 i)\<lparr>sb_Route := ref\<rparr>) w1)"

section \<open>The provisioner behind its interface\<close>

fun prov_Name :: "Provisioner \<Rightarrow> string" where
  "prov_Name (Static defs) = static_Name defs"
| "prov_Name (DecodoP d) = ''decodo''"

definition prov_Provision :: "env \<Rightarrow> int \<Rightarrow> Provisioner \<Rightarrow> world \<Rightarrow> route list result \<times> world" where
  "prov_Provision env n p w = (case p of
      Static defs \<Rightarrow> (static_Provision (dv_getenv (pe_denv (ask env w))) n defs, tick w)
    | DecodoP d \<Rightarrow> (case decodo_Provision (pe_denv (ask env w)) n (d, se_dworld w) of
        (res, d', dw') \<Rightarrow> (res, tick (w\<lparr>se_prov := Some (DecodoP d'), se_dworld := dw'\<rparr>))))"

definition prov_Reestablish :: "env \<Rightarrow> int \<Rightarrow> Provisioner \<Rightarrow> world \<Rightarrow> route result \<times> world" where
  "prov_Reestablish env slot p w = (case p of
      Static defs \<Rightarrow> (static_Reestablish (dv_getenv (pe_denv (ask env w))) slot defs, tick w)
    | DecodoP d \<Rightarrow> (case decodo_Reestablish (pe_denv (ask env w)) slot (d, se_dworld w) of
        (res, d', dw') \<Rightarrow> (res, tick (w\<lparr>se_prov := Some (DecodoP d'), se_dworld := dw'\<rparr>))))"

text \<open>The type assertion to \<open>SessionReplacer\<close>: only the Decodo provisioner implements it.\<close>

definition is_replacer :: "Provisioner option \<Rightarrow> bool" where
  "is_replacer p = (case p of Some (DecodoP _) \<Rightarrow> True | _ \<Rightarrow> False)"

definition prov_ReplaceSession :: "env \<Rightarrow> int \<Rightarrow> world \<Rightarrow> route result \<times> world" where
  "prov_ReplaceSession env slot w = (case se_prov w of
      Some (DecodoP d) \<Rightarrow> (case decodo_ReplaceSession (pe_denv (ask env w)) slot (d, se_dworld w) of
        (res, d', dw') \<Rightarrow> (res, tick (w\<lparr>se_prov := Some (DecodoP d'), se_dworld := dw'\<rparr>)))
    | _ \<Rightarrow> (Inl [], w))"

section \<open>Frame lemmas\<close>

lemma set_sub_simps [simp]:
  "se_routes (set_sub i s w) = se_routes w" "se_fresh (set_sub i s w) = se_fresh w"
  "se_prov (set_sub i s w) = se_prov w" "se_dworld (set_sub i s w) = se_dworld w"
  "se_tick (set_sub i s w) = se_tick w" "se_alive (set_sub i s w) = se_alive w"
  "se_closed (set_sub i s w) = se_closed w" "se_locked (set_sub i s w) = se_locked w"
  "length (se_subjects (set_sub i s w)) = length (se_subjects w)"
  "se_subjects (set_sub i s w) = (se_subjects w)[i := s]"
  by (simp_all add: set_sub_def)

lemma set_route_simps [simp]:
  "se_routes (set_route ref r w) = (se_routes w)(ref := r)" "se_fresh (set_route ref r w) = se_fresh w"
  "se_subjects (set_route ref r w) = se_subjects w" "se_prov (set_route ref r w) = se_prov w"
  "se_dworld (set_route ref r w) = se_dworld w" "se_tick (set_route ref r w) = se_tick w"
  "se_alive (set_route ref r w) = se_alive w" "se_closed (set_route ref r w) = se_closed w"
  "se_locked (set_route ref r w) = se_locked w"
  by (simp_all add: set_route_def)

lemma tick_simps [simp]:
  "se_routes (tick w) = se_routes w" "se_fresh (tick w) = se_fresh w" "se_subjects (tick w) = se_subjects w"
  "se_prov (tick w) = se_prov w" "se_dworld (tick w) = se_dworld w" "se_alive (tick w) = se_alive w"
  "se_closed (tick w) = se_closed w" "se_locked (tick w) = se_locked w"
  by (simp_all add: tick_def)

lemma sub_set_sub [simp]: "i < length (se_subjects w) \<Longrightarrow> sub (set_sub i s w) i = s"
  "i \<noteq> j \<Longrightarrow> sub (set_sub i s w) j = sub w j"
  by (simp_all add: sub_def set_sub_def)

lemma sub_frame [simp]: "sub (tick w) i = sub w i" "sub (set_route ref r w) i = sub w i"
  "sub (w\<lparr>se_prov := p\<rparr>) i = sub w i" "sub (w\<lparr>se_dworld := d\<rparr>) i = sub w i"
  "sub (w\<lparr>se_fresh := n\<rparr>) i = sub w i" "sub (w\<lparr>se_closed := b\<rparr>) i = sub w i"
  by (simp_all add: sub_def)

lemma alloc_simps [simp]:
  "fst (alloc r w) = se_fresh w" "se_fresh (snd (alloc r w)) = Suc (se_fresh w)"
  "se_routes (snd (alloc r w)) = (se_routes w)(se_fresh w := r)"
  "se_subjects (snd (alloc r w)) = se_subjects w" "se_prov (snd (alloc r w)) = se_prov w"
  "sub (snd (alloc r w)) i = sub w i" "se_alive (snd (alloc r w)) = se_alive w"
  "se_closed (snd (alloc r w)) = se_closed w" "se_locked (snd (alloc r w)) = se_locked w"
  by (simp_all add: alloc_def sub_def)

text \<open>
  The state the program keeps: every subject and its gate name the same, allocated route, and no
  two subjects share one.
\<close>

definition world_ok :: "world \<Rightarrow> bool" where
  "world_ok w \<longleftrightarrow>
     (\<forall>i < length (se_subjects w). g_route (sb_Gate (sub w i)) = sb_Route (sub w i)
        \<and> sb_Route (sub w i) < se_fresh w)
   \<and> (\<forall>i < length (se_subjects w). \<forall>j < length (se_subjects w). i \<noteq> j
        \<longrightarrow> sb_Route (sub w i) \<noteq> sb_Route (sub w j))"

text \<open>The identities, in order: nothing after startup changes them.\<close>

definition idents :: "world \<Rightarrow> identity list" where
  "idents w = map sb_Identity (se_subjects w)"

lemma length_idents [simp]: "length (idents w) = length (se_subjects w)"
  by (simp add: idents_def)

section \<open>Steps that concern one subject\<close>

text \<open>
  What belongs to one subject: itself, its route and whether its browser runs. \<open>only i w w'\<close>: going
  from \<open>w\<close> to \<open>w'\<close> keeps the state well-formed and touches subject \<open>i\<close> alone.
\<close>

definition loc :: "world \<Rightarrow> nat \<Rightarrow> subject \<times> route \<times> bool" where
  "loc w i = (sub w i, route_at w i, se_alive w i)"

definition only :: "nat \<Rightarrow> world \<Rightarrow> world \<Rightarrow> bool" where
  "only i w w' \<longleftrightarrow> world_ok w' \<and> idents w' = idents w \<and> se_closed w' = se_closed w \<and> se_locked w' = se_locked w
     \<and> (\<forall>j < length (se_subjects w). j \<noteq> i \<longrightarrow> loc w' j = loc w j)"

lemma only_length: "only i w w' \<Longrightarrow> length (se_subjects w') = length (se_subjects w)"
  unfolding only_def by (metis length_idents)

lemma only_refl [simp]: "world_ok w \<Longrightarrow> only i w w"
  by (simp add: only_def)

lemma only_trans: "only i w w1 \<Longrightarrow> only i w1 w2 \<Longrightarrow> only i w w2"
  using only_length [of i w w1] by (auto simp: only_def)

lemma only_ok: "only i w w' \<Longrightarrow> world_ok w'"
  by (simp add: only_def)

lemma only_idents: "only i w w' \<Longrightarrow> idents w' = idents w"
  by (simp add: only_def)

text \<open>A step that leaves the subjects alone and writes at most one subject's own or a new route.\<close>

lemma only_routes:
  assumes "world_ok w" "se_subjects w' = se_subjects w" "se_fresh w \<le> se_fresh w'" "se_alive w' = se_alive w"
    "se_closed w' = se_closed w" "se_locked w' = se_locked w"
    and "\<And>j. j < length (se_subjects w) \<Longrightarrow> j \<noteq> i \<Longrightarrow> se_routes w' (sb_Route (sub w j)) = se_routes w (sb_Route (sub w j))"
  shows "only i w w'"
proof -
  have s: "sub w' j = sub w j" for j using assms(2) by (simp add: sub_def)
  have "world_ok w'" using assms(1-3) unfolding world_ok_def s by (auto intro: less_le_trans)
  moreover have "loc w' j = loc w j" if "j < length (se_subjects w)" "j \<noteq> i" for j
    using that assms(4,7) by (auto simp: loc_def route_at_def s)
  ultimately show ?thesis using assms(2,5,6) by (simp add: only_def idents_def)
qed

lemma only_tick: "world_ok w \<Longrightarrow> i < length (se_subjects w) \<Longrightarrow> only i w (tick w)"
  by (rule only_routes) auto

lemma only_then_tick: "only i w w1 \<Longrightarrow> i < length (se_subjects w) \<Longrightarrow> only i w (tick w1)"
  using only_trans only_tick only_ok only_length by metis

text \<open>A reference that no subject but \<open>i\<close> uses.\<close>

definition free_for :: "nat \<Rightarrow> nat \<Rightarrow> world \<Rightarrow> bool" where
  "free_for i ref w \<longleftrightarrow> (\<forall>j < length (se_subjects w). j \<noteq> i \<longrightarrow> sb_Route (sub w j) \<noteq> ref)"

lemma free_for_own: "world_ok w \<Longrightarrow> i < length (se_subjects w) \<Longrightarrow> free_for i (sb_Route (sub w i)) w"
  unfolding world_ok_def free_for_def by metis

lemma only_set_route:
  "world_ok w \<Longrightarrow> free_for i ref w \<Longrightarrow> only i w (set_route ref r w)"
  by (rule only_routes) (auto simp: free_for_def)

lemma only_stop: "world_ok w \<Longrightarrow> free_for i ref w \<Longrightarrow> only i w (stop_route ref w)"
  unfolding stop_route_def by (rule only_set_route)

lemma only_status: "world_ok w \<Longrightarrow> free_for i ref w \<Longrightarrow> only i w (set_status ref st w)"
  unfolding set_status_def by (rule only_set_route)

lemma only_start: "world_ok w \<Longrightarrow> i < length (se_subjects w) \<Longrightarrow> free_for i ref w \<Longrightarrow>
    only i w (snd (start_route env ref w))"
  by (auto simp: start_route_def intro!: only_then_tick only_set_route split: prod.splits)

lemma only_set_status:
  "world_ok w \<Longrightarrow> i < length (se_subjects w) \<Longrightarrow> only i w (set_status (sb_Route (sub w i)) st w)"
  by (simp add: only_status free_for_own)

lemma idents_set_sub: "i < length (se_subjects w) \<Longrightarrow> sb_Identity s = sb_Identity (sub w i) \<Longrightarrow>
    idents (set_sub i s w) = idents w"
  by (simp add: idents_def sub_def map_update list_update_same_conv)

lemma sub_set_sub_if: "i < length (se_subjects w) \<Longrightarrow> sub (set_sub i s w) k = (if k = i then s else sub w k)"
  by (cases "k = i") auto

lemma only_set_sub:
  assumes "world_ok w" "i < length (se_subjects w)" "sb_Identity s = sb_Identity (sub w i)"
    "sb_Route s = sb_Route (sub w i)" "g_route (sb_Gate s) = sb_Route s"
  shows "only i w (set_sub i s w)"
proof -
  note eq = sub_set_sub_if [OF assms(2), of s]
  have "world_ok (set_sub i s w)"
    using assms unfolding world_ok_def by (simp add: eq del: set_sub_simps(10))
  then show ?thesis
    using assms by (simp add: only_def idents_set_sub loc_def route_at_def eq)
qed

lemma only_on_gate:
  assumes "world_ok w" "i < length (se_subjects w)" "\<And>g. g_route (f g) = g_route g"
  shows "only i w (on_gate i f w)"
  unfolding on_gate_def using assms
  by (intro only_set_sub) (auto simp: with_gate_def world_ok_def)

lemma gate_route_ops [simp]: "g_route (gate_Close g) = g_route g" "g_route (gate_Open g) = g_route g"
  "\<not> g_open (gate_Close g)" "g_open (gate_Open g)"
  by (simp_all add: gate_Close_def gate_Open_def)

lemma sub_on_gate [simp]: "i < length (se_subjects w) \<Longrightarrow> sub (on_gate i f w) i = with_gate f (sub w i)"
  "length (se_subjects (on_gate i f w)) = length (se_subjects w)"
  by (simp_all add: on_gate_def)

lemma with_gate_simps [simp]: "sb_Route (with_gate f s) = sb_Route s" "sb_Gate (with_gate f s) = f (sb_Gate s)"
  "sb_RouteIP (with_gate f s) = sb_RouteIP s" "sb_Identity (with_gate f s) = sb_Identity s"
  "sb_BrowserIP (with_gate f s) = sb_BrowserIP s"
  by (simp_all add: with_gate_def)

lemma set_status_simps [simp]:
  "sub (set_status ref st w) i = sub w i" "se_subjects (set_status ref st w) = se_subjects w"
  "route_Status (se_routes (set_status ref st w) ref) = st"
  "route_Def (se_routes (set_status ref st w) r) = route_Def (se_routes w r)"
  by (auto simp: set_status_def)

lemma on_gate_routes [simp]: "se_routes (on_gate i f w) = se_routes w"
  by (simp add: on_gate_def)

lemma start_route_frame [simp]:
  "se_subjects (snd (start_route env ref w)) = se_subjects w" "se_fresh (snd (start_route env ref w)) = se_fresh w"
  "sub (snd (start_route env ref w)) i = sub w i"
  "se_alive (snd (start_route env ref w)) = se_alive w" "se_closed (snd (start_route env ref w)) = se_closed w"
  "se_locked (snd (start_route env ref w)) = se_locked w"
  "r \<noteq> ref \<Longrightarrow> se_routes (snd (start_route env ref w)) r = se_routes w r"
  by (simp_all add: start_route_def split: prod.splits)

lemma stop_route_frame [simp]:
  "se_subjects (stop_route ref w) = se_subjects w" "se_fresh (stop_route ref w) = se_fresh w"
  "sub (stop_route ref w) i = sub w i"
  "se_routes (stop_route ref w) = (se_routes w)(ref := route_Stop (se_routes w ref))"
  "se_alive (stop_route ref w) = se_alive w" "se_closed (stop_route ref w) = se_closed w"
  "se_locked (stop_route ref w) = se_locked w"
  by (simp_all add: stop_route_def)

lemma set_status_frame [simp]:
  "se_fresh (set_status ref st w) = se_fresh w" "se_alive (set_status ref st w) = se_alive w"
  "se_closed (set_status ref st w) = se_closed w" "se_locked (set_status ref st w) = se_locked w"
  "r \<noteq> ref \<Longrightarrow> se_routes (set_status ref st w) r = se_routes w r"
  by (simp_all add: set_status_def)

lemma swap_route_sub:
  assumes "i < length (se_subjects w)"
  shows "sub (swap_route i ref w) i = (with_gate (gate_SetRoute ref) (sub w i))\<lparr>sb_Route := ref\<rparr>"
    "j \<noteq> i \<Longrightarrow> sub (swap_route i ref w) j = sub w j"
    "length (se_subjects (swap_route i ref w)) = length (se_subjects w)"
    "idents (swap_route i ref w) = idents w"
    "se_routes (swap_route i ref w) = se_routes w" "se_fresh (swap_route i ref w) = se_fresh w"
    "se_alive (swap_route i ref w) = se_alive w" "se_closed (swap_route i ref w) = se_closed w"
    "se_locked (swap_route i ref w) = se_locked w"
proof -
  have 1: "idents (on_gate i f w) = idents w" for f
    using assms unfolding on_gate_def by (simp add: idents_set_sub)
  show "idents (swap_route i ref w) = idents w"
    using assms by (simp add: swap_route_def Let_def idents_set_sub 1 del: set_sub_simps(10))
qed (use assms in \<open>simp_all add: swap_route_def Let_def on_gate_def sub_set_sub_if del: set_sub_simps(10)\<close>)

lemma only_swap:
  assumes "world_ok w" "i < length (se_subjects w)" "free_for i ref w" "ref < se_fresh w"
  shows "only i w (swap_route i ref w)"
proof -
  note sw = swap_route_sub [OF assms(2), where ref = ref]
  have sub: "sub (swap_route i ref w) j
      = (if j = i then (with_gate (gate_SetRoute ref) (sub w i))\<lparr>sb_Route := ref\<rparr> else sub w j)" for j
    using sw(1,2) by simp
  have "world_ok (swap_route i ref w)"
    using assms unfolding world_ok_def free_for_def sw(3,6) sub by (auto simp: gate_SetRoute_def)
  then show ?thesis by (simp add: only_def sw loc_def route_at_def sub)
qed

text \<open>A route just allocated and started: nobody's, and VERIFYING or DOWN.\<close>

lemma fresh_route:
  assumes "world_ok w" "i < length (se_subjects w)" "alloc r w = (ref, w1)" "start_route env ref w1 = (e, w2)"
  shows "only i w w2" "free_for i ref w2" "ref < se_fresh w2" "se_subjects w2 = se_subjects w"
    "route_Status (se_routes w2 ref) = (if e = None then StatusVerifying else StatusDown)"
    "route_Def (se_routes w2 ref) = route_Def r"
    "j < length (se_subjects w) \<Longrightarrow> sb_Route (sub w j) \<noteq> ref \<and> route_at w2 j = route_at w j"
proof -
  have ref: "ref = se_fresh w" "w1 = snd (alloc r w)" using assms(3) by (auto simp: alloc_def)
  have lt: "j < length (se_subjects w) \<Longrightarrow> sb_Route (sub w j) < ref" for j
    using assms(1) by (simp add: world_ok_def ref)
  have w2: "w2 = snd (start_route env ref w1)" and e: "e = fst (start_route env ref w1)" using assms(4) by simp_all
  have free: "free_for i ref w1" using lt by (fastforce simp: free_for_def ref(2))
  have o1: "only i w w1"
    unfolding ref(2) by (rule only_routes) (use assms(1) lt in \<open>fastforce simp: ref\<close>)+
  have o2: "only i w1 w2" unfolding w2 by (rule only_start) (use only_ok [OF o1] only_length [OF o1] assms free in auto)
  show "only i w w2" using o1 o2 by (rule only_trans)
  show "free_for i ref w2" using free by (simp add: free_for_def w2)
  show "ref < se_fresh w2" by (simp add: w2 ref)
  show "se_subjects w2 = se_subjects w" by (simp add: w2 ref)
  have r1: "se_routes w1 ref = r" by (simp add: ref)
  show "route_Status (se_routes w2 ref) = (if e = None then StatusVerifying else StatusDown)"
    using rt.start_ok [of "pe_net (ask env w1)" r] rt.start_err [of "pe_net (ask env w1)" r]
    by (auto simp: w2 e start_route_def r1 split: prod.splits)
  show "route_Def (se_routes w2 ref) = route_Def r"
    by (simp add: w2 start_route_def r1 case_prod_beta)
  show "sb_Route (sub w j) \<noteq> ref \<and> route_at w2 j = route_at w j" if "j < length (se_subjects w)"
    using lt [OF that] by (simp add: route_at_def w2 ref)
qed

end
