(* ===== verification/Health.thy ===== *)
theory Health
  imports World
begin

text \<open>
  The health monitor (\<open>src/controller/health/health.go\<close>): the probe of one subject, what marks a
  route DOWN and what reopens its gate, the re-establishment of a session, the leak sampler and the
  bounded event log. Times are in nanoseconds; the zero \<open>time.Time\<close> is \<open>None\<close>.

  The callback \<open>Reestablish\<close> is an interface the session provides: the locale \<open>reestablisher\<close>
  states what the monitor relies on.
\<close>

section \<open>State\<close>

datatype Kind = RouteDown | RouteRestored | EgressChanged | Leak | BrowserExited

fun Kind_String :: "Kind \<Rightarrow> string" where
  "Kind_String RouteDown = ''DOWN''"
| "Kind_String RouteRestored = ''READY''"
| "Kind_String EgressChanged = ''EGRESS CHANGED''"
| "Kind_String Leak = ''LEAK''"
| "Kind_String BrowserExited = ''BROWSER EXITED''"

record Event =
  he_At :: int
  he_Subject :: nat
  he_Kind :: Kind
  he_Detail :: string

record State =
  ms_LastProbe :: "int option"
  ms_LastIPCheck :: "int option"
  ms_LastError :: string
  ms_Leaks :: "string list"
  ms_Down :: bool
  ms_DownSince :: "int option"
  ms_reest :: bool
  ms_egressAlerted :: bool

record MOptions =
  mo_ProbeInterval :: int
  mo_IPCheckInterval :: int
  mo_EchoURL :: string
  mo_Timeout :: int
  mo_ReestablishAfter :: int

record monitor =
  mn_opts :: MOptions
  mn_state :: "nat \<Rightarrow> State"
  mn_events :: "Event list"

definition zero_State :: State where
  "zero_State = \<lparr>ms_LastProbe = None, ms_LastIPCheck = None, ms_LastError = [], ms_Leaks = [],
     ms_Down = False, ms_DownSince = None, ms_reest = False, ms_egressAlerted = False\<rparr>"

definition default_ns :: "int \<Rightarrow> int \<Rightarrow> int" where
  "default_ns v secs = (if v \<le> 0 then secs * 1000000000 else v)"

definition health_New :: "MOptions \<Rightarrow> monitor" where
  "health_New o' = \<lparr>mn_opts = \<lparr>mo_ProbeInterval = default_ns (mo_ProbeInterval o') 10,
       mo_IPCheckInterval = default_ns (mo_IPCheckInterval o') 60, mo_EchoURL = mo_EchoURL o',
       mo_Timeout = default_ns (mo_Timeout o') 10,
       mo_ReestablishAfter = default_ns (mo_ReestablishAfter o') 20\<rparr>,
     mn_state = (\<lambda>_. zero_State), mn_events = []\<rparr>"

definition emit :: "Event \<Rightarrow> monitor \<Rightarrow> monitor" where
  "emit ev m = m\<lparr>mn_events := keep_last 500 (mn_events m @ [ev])\<rparr>"

definition StateOf :: "monitor \<Rightarrow> nat \<Rightarrow> State" where
  "StateOf m i = mn_state m i"

definition set_state :: "nat \<Rightarrow> State \<Rightarrow> monitor \<Rightarrow> monitor" where
  "set_state i st m = m\<lparr>mn_state := (mn_state m)(i := st)\<rparr>"

section \<open>Probing\<close>

definition markDown :: "int \<Rightarrow> nat \<Rightarrow> string \<Rightarrow> monitor \<times> world \<Rightarrow> monitor \<times> world" where
  "markDown t i reason = (\<lambda>(m, w).
    (let st = mn_state m i; first = (\<not> ms_Down st);
         st' = st\<lparr>ms_Down := True, ms_LastError := reason,
                  ms_DownSince := (if first then Some t else ms_DownSince st)\<rparr>;
         m1 = set_state i st' m;
         w1 = on_gate i gate_Close (set_status (sb_Route (sub w i)) StatusDown w)
     in (if first then emit \<lparr>he_At = t, he_Subject = i, he_Kind = RouteDown,
                             he_Detail = reason @ ''; traffic blocked''\<rparr> m1 else m1, w1)))"

type_synonym callback = "env \<Rightarrow> nat \<Rightarrow> world \<Rightarrow> gerr option \<times> world"

definition since :: "int \<Rightarrow> int option \<Rightarrow> int option" where
  "since t z = map_option (\<lambda>u. t - u) z"

definition at_least :: "int option \<Rightarrow> int \<Rightarrow> bool" where
  "at_least d n = (case d of None \<Rightarrow> True | Some x \<Rightarrow> n \<le> x)"

definition maybeReestablish ::
  "callback option \<Rightarrow> env \<Rightarrow> nat \<Rightarrow> monitor \<times> world \<Rightarrow> monitor \<times> world" where
  "maybeReestablish cb env i = (\<lambda>(m, w).
    (case cb of
       None \<Rightarrow> (m, w)
     | Some re \<Rightarrow>
        (let st = mn_state m i; t = pe_now (ask env w) in
         if \<not> ms_Down st \<or> ms_reest st
            \<or> \<not> at_least (since t (ms_DownSince st)) (mo_ReestablishAfter (mn_opts m))
         then (m, w)
         else (case re env i w of
             (err, w1) \<Rightarrow>
              (let m1 = set_state i (st\<lparr>ms_reest := False\<rparr>) m in
               (case err of
                  None \<Rightarrow> m1
                | Some e \<Rightarrow> emit \<lparr>he_At = pe_now (ask env w1), he_Subject = i, he_Kind = RouteDown,
                                he_Detail = ''re-provision failed: '' @ e\<rparr> m1, w1))))))"

definition needIP :: "MOptions \<Rightarrow> bool \<Rightarrow> int \<Rightarrow> State \<Rightarrow> bool" where
  "needIP o' wasDown t st = (wasDown \<or> at_least (since t (ms_LastIPCheck st)) (mo_IPCheckInterval o'))"

text \<open>The second half of \<open>probe\<close>: what the monitor does with the answer of the egress probe.\<close>

definition egress_verdict ::
  "callback option \<Rightarrow> env \<Rightarrow> nat \<Rightarrow> bool \<Rightarrow> ip result \<Rightarrow> monitor \<times> world \<Rightarrow> monitor \<times> world" where
  "egress_verdict cb env i wasDown res = (\<lambda>(m, w).
    (let t = pe_now (ask env w); pinned = sb_RouteIP (sub w i); ref = sb_Route (sub w i);
         m1 = set_state i ((mn_state m i)\<lparr>ms_LastIPCheck := Some t\<rparr>) m
     in case res of
          Inl e \<Rightarrow> maybeReestablish cb env i (markDown t i (''egress probe failed: '' @ e) (m1, w))
        | Inr a \<Rightarrow>
            if (case pinned of None \<Rightarrow> False | Some p \<Rightarrow> \<not> ip_Equal a p) then
              (let change = ip_opt_String pinned @ '' -> '' @ ip_String a;
                   (m2, w2) = markDown t i (''egress changed '' @ change) (m1, w);
                   st = mn_state m2 i;
                   m3 = set_state i (st\<lparr>ms_egressAlerted := True\<rparr>) m2
               in (if \<not> ms_egressAlerted st
                   then emit \<lparr>he_At = t, he_Subject = i, he_Kind = EgressChanged, he_Detail = change\<rparr> m3
                   else m3, w2))
            else if wasDown then
              (emit \<lparr>he_At = t, he_Subject = i, he_Kind = RouteRestored,
                     he_Detail = ''egress '' @ ip_String a @ '' verified''\<rparr>
                 (set_state i ((mn_state m1 i)\<lparr>ms_Down := False, ms_LastError := [],
                                               ms_egressAlerted := False\<rparr>) m1),
               on_gate i gate_Open (set_status ref StatusReady w))
            else (m1, set_status ref StatusReady w)))"

definition egress_check ::
  "callback option \<Rightarrow> env \<Rightarrow> nat \<Rightarrow> bool \<Rightarrow> monitor \<times> world \<Rightarrow> monitor \<times> world" where
  "egress_check cb env i wasDown = (\<lambda>(m, w0).
    (let ref = sb_Route (sub w0 i);
         w = (if route_Status (se_routes w0 ref) = StatusDown then set_status ref StatusVerifying w0 else w0);
         res = route_PublicIP (ask env w) (se_routes w ref) (mo_EchoURL (mn_opts m))
     in egress_verdict cb env i wasDown res (m, tick w)))"

definition probe ::
  "callback option \<Rightarrow> env \<Rightarrow> nat \<Rightarrow> monitor \<times> world \<Rightarrow> monitor \<times> world" where
  "probe cb env i = (\<lambda>(m, w).
    (let err = route_Reachable (pe_net (ask env w)) (route_at w i);
         w1 = tick w; t = pe_now (ask env w);
         st = mn_state m i; wasDown = ms_Down st;
         m1 = set_state i (st\<lparr>ms_LastProbe := Some t\<rparr>) m
     in case err of
          Some e \<Rightarrow> maybeReestablish cb env i (markDown t i (''upstream unreachable: '' @ e) (m1, w1))
        | None \<Rightarrow> if \<not> needIP (mn_opts m) wasDown t st then (m1, w1) else egress_check cb env i wasDown (m1, w1)))"

section \<open>Leaks\<close>

definition diff :: "string list \<Rightarrow> string list \<Rightarrow> string list" where
  "diff xs before = filter (\<lambda>x. x \<notin> set before) xs"

definition sampleLeaks :: "env \<Rightarrow> nat \<Rightarrow> monitor \<times> world \<Rightarrow> monitor \<times> world" where
  "sampleLeaks env i = (\<lambda>(m, w).
    (case pe_endpoints (ask env w) of
       Inl _ \<Rightarrow> (m, tick w)
     | Inr eps \<Rightarrow>
        (let leaks = map Endpoint_String (filter (\<lambda>ep. isLeak ep (gate_Addr (sb_Gate (sub w i)))) eps);
             st = mn_state m i; fresh = diff leaks (ms_Leaks st);
             m1 = set_state i (st\<lparr>ms_Leaks := leaks\<rparr>) m
         in (if fresh \<noteq> [] then emit \<lparr>he_At = pe_now (ask env w), he_Subject = i, he_Kind = Leak,
                                     he_Detail = Join fresh ''; ''\<rparr> m1 else m1, tick w))))"

text \<open>
  One round of the supervision loop: \<open>exited\<close> says that the round saw the browser's exit, and the
  flag \<open>browserGone\<close> that an earlier one did.
\<close>

definition loop_round ::
  "callback option \<Rightarrow> env \<Rightarrow> nat \<Rightarrow> bool \<Rightarrow> bool \<times> monitor \<times> world \<Rightarrow> bool \<times> monitor \<times> world" where
  "loop_round cb env i exited = (\<lambda>(gone, m, w).
    (let closing = (exited \<and> \<not> gone);
         mw = (if closing then
             (emit \<lparr>he_At = pe_now (ask env w), he_Subject = i, he_Kind = BrowserExited, he_Detail = ''gate closed''\<rparr> m,
              on_gate i gate_Close w) else (m, w));
         gone' = (gone \<or> exited);
         mw1 = probe cb env i mw
     in (gone', if gone' then mw1 else sampleLeaks env i mw1)))"

section \<open>The outcome of a probe\<close>

text \<open>The state after a failure: blocked, DOWN in the monitor, and the session address unchanged.\<close>

definition blocked :: "nat \<Rightarrow> monitor \<times> world \<Rightarrow> monitor \<times> world \<Rightarrow> bool" where
  "blocked i = (\<lambda>(m, w) (m', w'). only i w w' \<and> \<not> g_open (sb_Gate (sub w' i))
     \<and> route_Status (route_at w' i) \<noteq> StatusReady \<and> ms_Down (mn_state m' i)
     \<and> (\<forall>p. sb_RouteIP (sub w i) = Some p \<longrightarrow> sb_RouteIP (sub w' i) = Some p)
     \<and> mn_opts m' = mn_opts m)"

text \<open>The outcome of a passed egress check: the probe went through the subject's route and saw the
  session address.\<close>

definition restored :: "nat \<Rightarrow> ip \<Rightarrow> monitor \<times> world \<Rightarrow> monitor \<times> world \<Rightarrow> bool" where
  "restored i a = (\<lambda>(m, w) (m', w'). only i w w'
     \<and> route_Status (route_at w' i) = StatusReady \<and> \<not> ms_Down (mn_state m' i)
     \<and> g_open (sb_Gate (sub w' i)) = (g_open (sb_Gate (sub w i)) \<or> ms_Down (mn_state m i))
     \<and> sb_Route (sub w' i) = sb_Route (sub w i) \<and> sb_RouteIP (sub w' i) = sb_RouteIP (sub w i)
     \<and> route_Def (route_at w' i) = route_Def (route_at w i) \<and> mn_opts m' = mn_opts m
     \<and> (\<forall>p. sb_RouteIP (sub w i) = Some p \<longrightarrow> ip_Equal a p))"

definition verified :: "env \<Rightarrow> nat \<Rightarrow> monitor \<times> world \<Rightarrow> monitor \<times> world \<Rightarrow> bool" where
  "verified env i p p' \<longleftrightarrow> (\<exists>t r a. restored i a p p' \<and> route_Def r = route_Def (route_at (snd p) i)
     \<and> route_PublicIP (env t) r (mo_EchoURL (mn_opts (fst p))) = Inr a)"

section \<open>What the monitor relies on\<close>

locale reestablisher =
  fixes re :: callback
  assumes touches: "world_ok w \<Longrightarrow> i < length (se_subjects w) \<Longrightarrow> re env i w = (e, w') \<Longrightarrow> only i w w'"
    and stays_closed: "world_ok w \<Longrightarrow> i < length (se_subjects w) \<Longrightarrow> re env i w = (e, w') \<Longrightarrow>
      \<not> g_open (sb_Gate (sub w i)) \<Longrightarrow> \<not> g_open (sb_Gate (sub w' i))"
    and not_ready: "world_ok w \<Longrightarrow> i < length (se_subjects w) \<Longrightarrow> re env i w = (e, w') \<Longrightarrow>
      route_Status (route_at w i) \<noteq> StatusReady \<Longrightarrow> route_Status (route_at w' i) \<noteq> StatusReady"
    and keeps_pin: "world_ok w \<Longrightarrow> i < length (se_subjects w) \<Longrightarrow> re env i w = (e, w') \<Longrightarrow>
      sb_RouteIP (sub w i) = Some p \<Longrightarrow> sb_RouteIP (sub w' i) = Some p"
begin

lemma markDown_blocked:
  assumes "world_ok w" "i < length (se_subjects w)"
  shows "blocked i (m, w) (markDown t i reason (m, w))"
proof -
  let ?w1 = "set_status (sb_Route (sub w i)) StatusDown w"
  have 1: "only i w ?w1" using assms by (rule only_set_status)
  have 2: "only i ?w1 (on_gate i gate_Close ?w1)"
    using only_ok [OF 1] only_length [OF 1] assms(2) by (intro only_on_gate) auto
  show ?thesis
    using only_trans [OF 1 2] assms(2)
    by (auto simp: blocked_def markDown_def Let_def route_at_def set_state_def emit_def)
qed

lemma maybeReestablish_blocked:
  assumes b: "blocked i mw (m1, w1)" and "i < length (se_subjects (snd mw))"
  shows "blocked i mw (maybeReestablish (Some re) env i (m1, w1))"
proof -
  obtain m w where mw: "mw = (m, w)" by (metis prod.exhaust)
  obtain e w2 where r: "re env i w1 = (e, w2)" by (metis prod.exhaust)
  have o1: "only i w w1" using b by (simp add: blocked_def mw)
  have ok1: "world_ok w1" "i < length (se_subjects w1)"
    using only_ok [OF o1] only_length [OF o1] assms(2) by (auto simp: mw)
  have o2: "only i w w2" using only_trans [OF o1 touches [OF ok1 r]] .
  show ?thesis
    using b o2 stays_closed [OF ok1 r] not_ready [OF ok1 r] keeps_pin [OF ok1 r]
    by (auto simp: blocked_def mw maybeReestablish_def r Let_def set_state_def emit_def split: option.splits)
qed

lemma blocked_state [simp]:
  "blocked i (set_state i st m, w) p = blocked i (m, w) p"
  by (cases p) (auto simp: blocked_def set_state_def)

lemma blocked_from: "only i w w1 \<Longrightarrow> sb_RouteIP (sub w1 i) = sb_RouteIP (sub w i) \<Longrightarrow>
    blocked i (m, w1) p \<Longrightarrow> blocked i (m, w) p"
  by (cases p) (auto simp: blocked_def intro: only_trans)

lemma egress_verdict_outcome:
  assumes ok: "world_ok w" and i: "i < length (se_subjects w)" and down: "wasDown = ms_Down (mn_state m i)"
    and r: "egress_verdict (Some re) env i wasDown res (m, w) = p"
  shows "blocked i (m, w) p \<or> (\<exists>a. res = Inr a \<and> restored i a (m, w) p)"
proof -
  define t where "t = pe_now (ask env w)"
  define m1 where "m1 = set_state i ((mn_state m i)\<lparr>ms_LastIPCheck := Some t\<rparr>) m"
  have bl: "blocked i (m, w) (markDown t i reason (m1, w))" for reason
    using markDown_blocked [OF ok i, of m1] by (simp add: m1_def)
  show ?thesis
  proof (cases res)
    case (Inl e)
    then have "p = maybeReestablish (Some re) env i (markDown t i (''egress probe failed: '' @ e) (m1, w))"
      using r by (simp add: egress_verdict_def Let_def t_def m1_def)
    then show ?thesis
      using maybeReestablish_blocked bl i by (metis prod.exhaust snd_conv)
  next
    case (Inr a)
    show ?thesis
    proof (cases "case sb_RouteIP (sub w i) of None \<Rightarrow> False | Some p \<Rightarrow> \<not> ip_Equal a p")
      case True
      obtain m2 w2 where md: "markDown t i (''egress changed '' @ ip_opt_String (sb_RouteIP (sub w i)) @ '' -> '' @ ip_String a)
          (m1, w) = (m2, w2)" by (metis prod.exhaust)
      have "blocked i (m, w) (m2, w2)" using bl md by metis
      then show ?thesis
        using r Inr True md
        by (auto simp: egress_verdict_def Let_def t_def m1_def blocked_def set_state_def emit_def)
    next
      case False
      let ?w1 = "set_status (sb_Route (sub w i)) StatusReady w"
      have o1: "only i w ?w1" using ok i by (rule only_set_status)
      have o2: "only i w (on_gate i gate_Open ?w1)"
        using only_trans [OF o1] only_on_gate [OF only_ok [OF o1]] i by simp
      show ?thesis
        using r Inr False down o1 o2 i
        by (auto simp: egress_verdict_def Let_def restored_def route_at_def set_state_def emit_def split: option.splits)
    qed
  qed
qed

lemma egress_check_outcome:
  assumes ok: "world_ok w0" and i: "i < length (se_subjects w0)" and down: "wasDown = ms_Down (mn_state m i)"
    and r: "egress_check (Some re) env i wasDown (m, w0) = p"
  shows "blocked i (m, w0) p \<or> verified env i (m, w0) p"
proof -
  let ?ref = "sb_Route (sub w0 i)"
  define w where "w = (if route_Status (se_routes w0 ?ref) = StatusDown then set_status ?ref StatusVerifying w0 else w0)"
  have ow: "only i w0 w" using ok i by (simp add: w_def only_set_status)
  have o1: "only i w0 (tick w)" using ow only_tick [OF only_ok [OF ow]] i only_length [OF ow] by (simp add: only_trans)
  have s1: "sub w i = sub w0 i" "route_Def (se_routes w ?ref) = route_Def (route_at w0 i)"
    "route_Def (route_at (tick w) i) = route_Def (route_at w0 i)"
    by (simp_all add: w_def route_at_def)
  have i1: "i < length (se_subjects (tick w))" using i only_length [OF o1] by simp
  have r': "egress_verdict (Some re) env i wasDown
      (route_PublicIP (ask env w) (se_routes w ?ref) (mo_EchoURL (mn_opts m))) (m, tick w) = p"
    using r by (simp add: egress_check_def Let_def w_def)
  from egress_verdict_outcome [OF only_ok [OF o1] i1 down r'] show ?thesis
  proof (elim disjE exE conjE)
    assume "blocked i (m, tick w) p"
    then show ?thesis by (auto intro: blocked_from [OF o1] simp: s1)
  next
    fix a
    assume "route_PublicIP (ask env w) (se_routes w ?ref) (mo_EchoURL (mn_opts m)) = Inr a"
      and "restored i a (m, tick w) p"
    then have "verified env i (m, w0) p"
      using only_trans [OF o1] s1 unfolding verified_def restored_def ask_def
      by (cases p) (auto intro!: exI [of _ "se_tick w"] exI [of _ "se_routes w ?ref"] exI [of _ a])
    then show ?thesis ..
  qed
qed

lemma probe_outcome:
  assumes ok: "world_ok w" and i: "i < length (se_subjects w)"
    and r: "probe (Some re) env i (m, w) = (m', w')"
  shows "blocked i (m, w) (m', w') \<or> verified env i (m, w) (m', w')
       \<or> (w' = tick w \<and> \<not> ms_Down (mn_state m i) \<and> \<not> ms_Down (mn_state m' i) \<and> mn_opts m' = mn_opts m)"
proof -
  define t where "t = pe_now (ask env w)"
  define m1 where "m1 = set_state i ((mn_state m i)\<lparr>ms_LastProbe := Some t\<rparr>) m"
  note o1 = only_tick [OF ok i]
  have i1: "i < length (se_subjects (tick w))" using i by simp
  have m1: "ms_Down (mn_state m1 i) = ms_Down (mn_state m i)" "mn_opts m1 = mn_opts m"
    by (simp_all add: m1_def set_state_def)
  have lift: "blocked i (m1, tick w) p \<Longrightarrow> blocked i (m, w) p" for p
    unfolding m1_def blocked_state by (rule blocked_from [OF o1]) simp_all
  have liftv: "verified env i (m1, tick w) p \<Longrightarrow> verified env i (m, w) p" for p
    by (cases p) (use only_trans [OF o1] in \<open>auto simp: verified_def restored_def m1 route_at_def\<close>)
  show ?thesis
  proof (cases "route_Reachable (pe_net (ask env w)) (route_at w i)")
    case (Some e)
    have "(m', w') = maybeReestablish (Some re) env i (markDown t i (''upstream unreachable: '' @ e) (m1, tick w))"
      using r Some by (simp add: probe_def Let_def t_def m1_def)
    moreover have "blocked i (m, w) (markDown t i (''upstream unreachable: '' @ e) (m1, tick w))"
      by (rule lift [OF markDown_blocked [OF only_ok [OF o1] i1]])
    ultimately show ?thesis
      using maybeReestablish_blocked i by (metis prod.exhaust snd_conv)
  next
    case None
    show ?thesis
    proof (cases "needIP (mn_opts m) (ms_Down (mn_state m i)) t (mn_state m i)")
      case True
      have "(m', w') = egress_check (Some re) env i (ms_Down (mn_state m1 i)) (m1, tick w)"
        using r None True unfolding m1 by (simp add: probe_def Let_def t_def m1_def)
      then show ?thesis
        using egress_check_outcome [OF only_ok [OF o1] i1 refl] lift liftv by metis
    next
      case False
      then show ?thesis
        using r None m1 unfolding m1_def t_def by (auto simp: probe_def Let_def needIP_def)
    qed
  qed
qed

end

end
