(* ===== verification/Session.thy ===== *)
theory Session
  imports Health
begin

text \<open>
  The session (\<open>src/controller/startup/session.go\<close>): bringing the routes up, replacing sessions that
  do not work or share an exit, launching the browsers, the verification suite, \<open>Run\<close>, and the
  teardown.

  \<open>parallel\<close> and the phases of \<open>verifyAll\<close> run one goroutine per subject and wait for all of them.
  Their bodies touch their own subject only (the locale \<open>subject_op\<close> and its interpretations), apart
  from the provisioner, which is behind its mutex; they are run here in the order of the subjects. The
  lines printed on the terminal are not part of the model.
\<close>

section \<open>Running something for every subject\<close>

fun over :: "(nat \<Rightarrow> world \<Rightarrow> 'a \<times> world) \<Rightarrow> nat list \<Rightarrow> world \<Rightarrow> 'a list \<times> world" where
  "over f [] w = ([], w)"
| "over f (i # is) w =
    (case f i w of (x, w1) \<Rightarrow> (case over f is w1 of (xs, w2) \<Rightarrow> (x # xs, w2)))"

definition indices :: "world \<Rightarrow> nat list" where
  "indices w = [0..<length (se_subjects w)]"

definition parallel :: "(nat \<Rightarrow> world \<Rightarrow> gerr option \<times> world) \<Rightarrow> world \<Rightarrow> gerr option \<times> world" where
  "parallel f w = apfst first_error (over f (indices w) w)"

section \<open>Bringing routes up\<close>

text \<open>A check of one subject, as a function of the answers it got and of the routes.\<close>

type_synonym checker = "penv \<Rightarrow> (nat \<Rightarrow> route) \<Rightarrow> subject \<Rightarrow> Check \<times> subject"

definition check_step :: "checker \<Rightarrow> env \<Rightarrow> nat \<Rightarrow> world \<Rightarrow> Check \<times> world" where
  "check_step f env i w =
    (case f (ask env w) (se_routes w) (sub w i) of (c, s) \<Rightarrow> (c, tick (set_sub i s w)))"

definition V1_on :: "VOptions \<Rightarrow> checker" where
  "V1_on o' e routes s =
    V1RouteUp (route_PublicIP e (routes (sb_Route s)) (vo_EchoURL o')) (pe_elapsed e) s"

abbreviation V1 :: "env \<Rightarrow> VOptions \<Rightarrow> nat \<Rightarrow> world \<Rightarrow> Check \<times> world" where
  "V1 env o' \<equiv> check_step (V1_on o') env"

definition replaceUnreachable :: "env \<Rightarrow> nat \<Rightarrow> world \<Rightarrow> bool \<times> world" where
  "replaceUnreachable env i w =
    (if \<not> is_replacer (se_prov w) then (False, w)
     else case prov_ReplaceSession env (id_RouteSlot (sb_Identity (sub w i))) w of
        (Inl _, w1) \<Rightarrow> (False, w1)
      | (Inr r, w1) \<Rightarrow>
         (case alloc r w1 of (ref, w2) \<Rightarrow>
          (case start_route env ref w2 of
             (Some _, w3) \<Rightarrow> (False, stop_route ref w3)
           | (None, w3) \<Rightarrow> (True, stop_route (sb_Route (sub w i)) (swap_route i ref w3)))))"

definition bringUpRoute :: "env \<Rightarrow> VOptions \<Rightarrow> nat \<Rightarrow> world \<Rightarrow> gerr option \<times> world" where
  "bringUpRoute env o' i w =
    (case start_route env (sb_Route (sub w i)) w of
       (Some e, w1) \<Rightarrow> (Some e, w1)
     | (None, w1) \<Rightarrow>
        (case V1 env o' i w1 of (c1, w2) \<Rightarrow>
         (case (if \<not> ck_Passed c1 then
                 (case replaceUnreachable env i w2 of
                    (True, w3) \<Rightarrow> V1 env o' i w3
                  | (False, w3) \<Rightarrow> (c1, w3))
                else (c1, w2)) of (c, w4) \<Rightarrow>
          if \<not> ck_Passed c then (Some (ck_Detail c), w4)
          else (None, set_status (sb_Route (sub w4 i)) StatusReady w4))))"

fun sharedExit_from :: "string list \<Rightarrow> subject list \<Rightarrow> int \<times> string" where
  "sharedExit_from seen [] = (0, [])"
| "sharedExit_from seen (s # ss) =
    (case sb_RouteIP s of
       None \<Rightarrow> sharedExit_from seen ss
     | Some a \<Rightarrow> if ip_String a \<in> set seen then (id_RouteSlot (sb_Identity s), ip_String a)
                 else sharedExit_from (ip_String a # seen) ss)"

definition sharedExit :: "subject list \<Rightarrow> int \<times> string" where
  "sharedExit subs = sharedExit_from [] subs"

fun find_slot :: "int \<Rightarrow> nat \<Rightarrow> subject list \<Rightarrow> nat option" where
  "find_slot slot k [] = None"
| "find_slot slot k (s # ss) =
    (if id_RouteSlot (sb_Identity s) = slot then Some k else find_slot slot (Suc k) ss)"

definition not_distinct :: "string \<Rightarrow> gerr" where
  "not_distinct a = ''residential exits are not distinct ('' @ a @ '')''"

text \<open>One turn of the loop of \<open>separateSharedExits\<close>, after its two guards.\<close>

definition separate_one :: "env \<Rightarrow> VOptions \<Rightarrow> int \<Rightarrow> string \<Rightarrow> world \<Rightarrow> gerr option \<times> world" where
  "separate_one env o' slot a w =
    (case find_slot slot 0 (se_subjects w) of
       None \<Rightarrow> (Some (not_distinct a), w)
     | Some i \<Rightarrow>
        (case prov_ReplaceSession env slot w of
           (Inl e, w1) \<Rightarrow> (Some e, w1)
         | (Inr r, w1) \<Rightarrow>
            (case alloc r w1 of (ref, w2) \<Rightarrow>
             (case start_route env ref w2 of
                (Some e, w3) \<Rightarrow> (Some e, stop_route ref w3)
              | (None, w3) \<Rightarrow>
                 (case V1 env o' i (swap_route i ref w3) of (c, w4) \<Rightarrow>
                  if \<not> ck_Passed c then (Some (ck_Detail c), stop_route ref w4)
                  else (None, set_status ref StatusReady (stop_route (sb_Route (sub w i)) w4)))))))"

section \<open>What the steps keep of the identities\<close>

lemma ReplaceSession_frame:
  assumes "prov_ReplaceSession env slot w = (res, w')"
  shows "se_subjects w' = se_subjects w" "se_fresh w' = se_fresh w" "se_routes w' = se_routes w"
    "se_alive w' = se_alive w" "se_closed w' = se_closed w" "se_locked w' = se_locked w"
  using assms by (auto simp: prov_ReplaceSession_def split: option.splits Provisioner.splits prod.splits)

lemma Reestablish_frame:
  assumes "prov_Reestablish env slot p w = (res, w')"
  shows "se_subjects w' = se_subjects w" "se_fresh w' = se_fresh w" "se_routes w' = se_routes w"
    "se_alive w' = se_alive w" "se_closed w' = se_closed w" "se_locked w' = se_locked w"
  using assms by (auto simp: prov_Reestablish_def split: Provisioner.splits prod.splits)

text \<open>What every check leaves alone: the identity, the route and the route the gate forwards to.\<close>

definition bound :: "subject \<Rightarrow> identity \<times> nat \<times> nat" where
  "bound s = (sb_Identity s, sb_Route s, g_route (sb_Gate s))"

lemma binding_bound: "binding s = binding s' \<Longrightarrow> bound s = bound s'"
  by (simp add: binding_def bound_def)

lemma V1_bound: "bound (snd (V1_on o' e routes s)) = bound s"
  unfolding V1_on_def by (rule binding_bound) simp

lemma check_step_sub:
  assumes "check_step f env i w = (c, w')"
  shows "\<exists>s. f (ask env w) (se_routes w) (sub w i) = (c, s) \<and> w' = tick (set_sub i s w)"
  using assms by (auto simp: check_step_def split: prod.splits)

lemma V1_idents:
  assumes "i < length (se_subjects w)" "V1 env o' i w = (c, w')"
  shows "idents w' = idents w"
proof -
  obtain s where s: "V1_on o' (ask env w) (se_routes w) (sub w i) = (c, s)" "w' = tick (set_sub i s w)"
    using check_step_sub [OF assms(2)] by blast
  have "sb_Identity s = sb_Identity (sub w i)"
    using V1_bound [of o' "ask env w" "se_routes w" "sub w i"] s(1) by (simp add: bound_def)
  then have "idents (set_sub i s w) = idents w" using assms(1) by (rule idents_set_sub [rotated])
  then show ?thesis by (simp add: s(2) idents_def)
qed

lemma find_slot_Some:
  "find_slot slot k ss = Some i \<Longrightarrow> k \<le> i \<and> i < k + length ss \<and> id_RouteSlot (sb_Identity (ss ! (i - k))) = slot"
proof (induction ss arbitrary: k)
  case (Cons s ss)
  show ?case
  proof (cases "id_RouteSlot (sb_Identity s) = slot")
    case False
    then have "find_slot slot (Suc k) ss = Some i" using Cons.prems by simp
    from Cons.IH [OF this] show ?thesis by (auto simp: nth_Cons' Suc_diff_le)
  qed (use Cons.prems in auto)
qed simp

lemma separate_one_idents:
  assumes "separate_one env o' slot a w = (e, w')"
  shows "idents w' = idents w"
proof (cases "find_slot slot 0 (se_subjects w)")
  case None
  then show ?thesis using assms by (simp add: separate_one_def)
next
  case (Some i)
  have i: "i < length (se_subjects w)" using find_slot_Some [OF Some] by simp
  obtain res w1 where r: "prov_ReplaceSession env slot w = (res, w1)" by (metis prod.exhaust)
  note f1 = ReplaceSession_frame [OF r]
  show ?thesis
  proof (cases res)
    case (Inl e)
    then show ?thesis using assms Some r f1 by (simp add: separate_one_def idents_def)
  next
    case (Inr rt)
    obtain ref w2 where a2: "alloc rt w1 = (ref, w2)" by (metis prod.exhaust)
    obtain e3 w3 where a3: "start_route env ref w2 = (e3, w3)" by (metis prod.exhaust)
    have s3: "se_subjects w3 = se_subjects w"
      using start_route_frame(1) [of env ref w2] alloc_simps(4) [of rt w1] a2 a3 f1 by simp
    obtain c w4 where a4: "V1 env o' i (swap_route i ref w3) = (c, w4)" by (metis prod.exhaust)
    have "idents w4 = idents w"
      using V1_idents [OF _ a4] swap_route_sub(3,4) [of i w3 ref] i s3 by (simp add: idents_def)
    then show ?thesis
      using assms s3 by (auto simp: separate_one_def Some r Inr a2 a3 a4 idents_def split: option.splits if_splits)
  qed
qed

section \<open>Separating shared exits\<close>

definition slots :: "world \<Rightarrow> int set" where
  "slots w = id_RouteSlot ` set (idents w)"

lemma sharedExit_from_slot:
  "sharedExit_from seen ss = (slot, a) \<Longrightarrow> slot \<noteq> 0 \<Longrightarrow> slot \<in> id_RouteSlot ` set (map sb_Identity ss)"
  by (induction seen ss rule: sharedExit_from.induct) (auto split: option.splits if_splits)

function separate_loop :: "env \<Rightarrow> VOptions \<Rightarrow> int list \<Rightarrow> world \<Rightarrow> gerr option \<times> world" where
  "separate_loop env o' replaced w =
    (case sharedExit (se_subjects w) of (slot, a) \<Rightarrow>
      if slot = 0 then (None, w)
      else if slot \<in> set replaced then (Some (not_distinct a), w)
      else case separate_one env o' slot a w of
          (Some e, w') \<Rightarrow> (Some e, w')
        | (None, w') \<Rightarrow> separate_loop env o' (slot # replaced) w')"
  by pat_completeness auto

termination
proof (relation "measure (\<lambda>(env, o', replaced, w). card (slots w - set replaced))", goal_cases)
  case (2 env o' replaced w slot a e w')
  have i: "idents w' = idents w" using 2(4) by (metis separate_one_idents)
  have "slot \<in> slots w - set replaced"
    using 2(1-3) sharedExit_from_slot [of "[]" "se_subjects w" slot a]
    by (auto simp: sharedExit_def slots_def idents_def)
  then have "slots w - insert slot (set replaced) \<subset> slots w - set replaced" by auto
  then have "card (slots w - insert slot (set replaced)) < card (slots w - set replaced)"
    by (rule psubset_card_mono [rotated]) (simp add: slots_def)
  moreover have "slots w' = slots w" by (simp add: slots_def i)
  ultimately show ?case by simp
qed simp

declare separate_loop.simps [simp del]

definition separateSharedExits :: "env \<Rightarrow> VOptions \<Rightarrow> world \<Rightarrow> gerr option \<times> world" where
  "separateSharedExits env o' w =
    (if \<not> is_replacer (se_prov w) then (None, w) else separate_loop env o' [] w)"

section \<open>Browsers\<close>

definition set_alive :: "nat \<Rightarrow> bool \<Rightarrow> world \<Rightarrow> world" where
  "set_alive i b w = w\<lparr>se_alive := (se_alive w)(i := b)\<rparr>"

definition launch :: "env \<Rightarrow> nat \<Rightarrow> world \<Rightarrow> gerr option \<times> world" where
  "launch env i w =
    (let w1 = on_gate i gate_Open w in
     case pe_launch (ask env w1) of
       Some e \<Rightarrow> (Some e, tick (on_gate i gate_Close w1))
     | None \<Rightarrow>
        (let w2 = tick (set_alive i True (set_sub i ((sub w1 i)\<lparr>sb_Browser := True\<rparr>) w1)) in
         case pe_firstPage (ask env w2) of
           Some e \<Rightarrow> (Some e, tick w2)
         | None \<Rightarrow> (case Begin (pe_newPage (ask env w2)) (sub w2 i) of
             (err, s) \<Rightarrow> (err, tick (set_sub i s w2)))))"

section \<open>Verification\<close>

definition V2_on :: "VOptions \<Rightarrow> checker" where
  "V2_on o' e routes s =
    V2BrowserEgress (pe_net e) routes o' (pe_nav e (uo_cacheBust o' (vo_EchoURL o'))) (pe_body e) s"

definition V4_on :: "VOptions \<Rightarrow> checker" where
  "V4_on o' e routes s = V4DNSDelegation o' (pe_elapsed e) s"

definition V5_on :: "VOptions \<Rightarrow> checker" where
  "V5_on o' e routes s = V5IPv6 (pe_net e) routes o' (pe_nav e (uo_cacheBust o' (vo_IPv6EchoURL o')))
     (case pe_body e of Inl _ \<Rightarrow> [] | Inr b \<Rightarrow> b) s"

definition V7_on :: "VOptions \<Rightarrow> checker" where
  "V7_on o' e routes s = V7FailClosed (pe_net e) routes o' (pe_failclosed e) s"

text \<open>The samples of the endpoint sampler since \<open>Begin\<close> are in when V8 reads its result.\<close>

definition V8_on :: checker where
  "V8_on e routes s =
    V8NoDirect (pe_elapsed e) (s\<lparr>sb_sampler := map_option (sample_all (pe_samples e)) (sb_sampler s)\<rparr>)"

definition V3 :: "env \<Rightarrow> VOptions \<Rightarrow> world \<Rightarrow> bool \<times> world" where
  "V3 env o' w = (case V3Separation o' (pe_elapsed (ask env w)) (se_subjects w) of
     (ok, subs) \<Rightarrow> (ok, tick (w\<lparr>se_subjects := subs\<rparr>)))"

definition V6 :: "env \<Rightarrow> nat \<Rightarrow> world \<Rightarrow> Check \<times> world" where
  "V6 env i w =
    (let e = ask env w; j = Suc i mod length (se_subjects w) in
     case V6StorageIsolation (pe_net e) (se_routes w) (pe_name e) (pe_storage e) (pe_elapsed e) (sub w i) (sub w j) of
       (c, a, b) \<Rightarrow> (c, tick (set_sub j b (set_sub i a w))))"

text \<open>The storage ring \<open>i -> i+1\<close>; with a single identity there is nothing to compare.\<close>

definition storage_ring :: "env \<Rightarrow> world \<Rightarrow> Check list \<times> world" where
  "storage_ring env w = (if length (se_subjects w) = 1 then ([], w) else over (V6 env) (indices w) w)"

definition all_passed :: "Check list \<Rightarrow> bool" where
  "all_passed cs = list_all ck_Passed cs"

definition phase :: "env \<Rightarrow> checker \<Rightarrow> world \<Rightarrow> bool \<times> world" where
  "phase env f w = apfst all_passed (over (check_step f env) (indices w) w)"

definition verifyAll :: "env \<Rightarrow> VOptions \<Rightarrow> world \<Rightarrow> bool \<times> world" where
  "verifyAll env o' w =
    (let (ok2, w1) = phase env (V2_on o') w;
         (ok3, w2) = V3 env o' w1;
         (ok4, w3) = phase env (V4_on o') w2;
         (ok5, w4) = phase env (V5_on o') w3;
         (cs6, w5) = storage_ring env w4;
         (ok7, w6) = phase env (V7_on o') w5;
         (ok3', w7) = V3 env o' w6;
         (ok8, w8) = phase env V8_on w7
     in (ok2 \<and> ok3 \<and> ok4 \<and> ok5 \<and> all_passed cs6 \<and> ok7 \<and> ok3' \<and> ok8, w8))"

definition V9 :: "env \<Rightarrow> VOptions \<Rightarrow> string \<Rightarrow> nat \<Rightarrow> world \<Rightarrow> Check \<times> world" where
  "V9 env o' url i w =
    (let e = ask env w in
     case V9StartupURL (pe_net e) (se_routes w) o' (pe_nav e url) url (sub w i) of
       (c, res, s) \<Rightarrow>
         (c, tick (set_sub i s (if nr_FinalURL res \<noteq> []
            then w\<lparr>se_finalURL := (se_finalURL w)(i := nr_FinalURL res)\<rparr> else w))))"

section \<open>Teardown\<close>

definition close_gates :: "world \<Rightarrow> world" where
  "close_gates w = w\<lparr>se_subjects := map (with_gate gate_Close) (se_subjects w)\<rparr>"

definition kill_browsers :: "world \<Rightarrow> world" where
  "kill_browsers w = w\<lparr>se_alive := (\<lambda>i. se_alive w i
     \<and> \<not> (i < length (se_subjects w) \<and> sb_Browser (sub w i)))\<rparr>"

definition shutdown_one :: "nat \<Rightarrow> world \<Rightarrow> unit \<times> world" where
  "shutdown_one i w = ((), stop_route (sb_Route (sub w i)) (on_gate i gate_Shutdown w))"

definition unlock :: "world \<Rightarrow> world" where
  "unlock w = w\<lparr>se_locked := False\<rparr>"

definition abort :: "world \<Rightarrow> world" where
  "abort w = (if se_closed w then w
     else let w1 = kill_browsers (close_gates (w\<lparr>se_closed := True\<rparr>))
          in unlock (snd (over shutdown_one (indices w1) w1)))"

text \<open>\<open>Browser.Close\<close> asks the browser to exit and then makes sure of it, so no browser is left.\<close>

definition Shutdown :: "world \<Rightarrow> world" where
  "Shutdown w = (if se_closed w then w else abort (kill_browsers w))"

definition AllBrowsersExited :: "world \<Rightarrow> bool" where
  "AllBrowsersExited w \<longleftrightarrow> (\<forall>i < length (se_subjects w). \<not> (sb_Browser (sub w i) \<and> se_alive w i))"

text \<open>What \<open>failAndAbort\<close> prints for a subject: failed checks, details, and whether only V9 failed.\<close>

fun failed_checks :: "string list \<Rightarrow> Check list \<Rightarrow> Check list" where
  "failed_checks seen [] = []"
| "failed_checks seen (c # cs) =
    (if \<not> ck_Passed c \<and> ck_ID c \<notin> set seen then c # failed_checks (ck_ID c # seen) cs
     else failed_checks seen cs)"

definition failure_report :: "subject \<Rightarrow> (string list \<times> string list \<times> bool) option" where
  "failure_report s =
    (let cs = failed_checks [] (sb_Results s) in
     if cs = [] then None
     else Some (map (\<lambda>c. ck_ID c @ '' '' @ ck_Name c) cs,
       map (\<lambda>c. ck_ID c @ '': '' @ ck_Detail c) (filter (\<lambda>c. ck_Detail c \<noteq> []) cs),
       map ck_ID cs = [''V9'']))"

section \<open>Startup\<close>

record SConfig =
  cf_IPEchoURL :: string
  cf_IPv6EchoURL :: string
  cf_StorageOrigin :: string
  cf_CompareHostIP :: bool
  cf_HostEchoURL :: string
  cf_HostEchoURLv6 :: string
  cf_IPv6 :: bool
  cf_TimeoutSeconds :: int
  cf_StartupURL :: string
  cf_ProbeIntervalSeconds :: int
  cf_IPCheckIntervalSeconds :: int
  cf_hostOf :: "string \<Rightarrow> string"
  cf_cacheBust :: "string \<Rightarrow> string"
  cf_unmarshal :: "string \<Rightarrow> (string \<Rightarrow> string option) option"

datatype run_err =
    RouteFailed gerr
  | BrowserFailed gerr
  | VerificationFailed
  | Panicked

definition base_options :: "SConfig \<Rightarrow> VOptions" where
  "base_options cfg = \<lparr>vo_EchoURL = cf_IPEchoURL cfg,
     vo_IPv6EchoURL = (if cf_IPv6 cfg then cf_IPv6EchoURL cfg else []),
     vo_StorageOrigin = cf_StorageOrigin cfg, vo_CompareHostIP = cf_CompareHostIP cfg,
     vo_HostIPv4 = None, vo_HostIPv6 = None,
     uo_hostOf = cf_hostOf cfg, uo_cacheBust = cf_cacheBust cfg, uo_unmarshal = cf_unmarshal cfg\<rparr>"

definition host_options :: "env \<Rightarrow> SConfig \<Rightarrow> world \<Rightarrow> VOptions \<times> world" where
  "host_options env cfg w =
    (if \<not> cf_CompareHostIP cfg then (base_options cfg, w)
     else
      (let e = ask env w; v6URL = (if cf_IPv6 cfg then cf_HostEchoURLv6 cfg else []);
           probe = PublicIP (pe_unmarshal e) (pe_direct e);
           (v4, v6) = HostIPs (probe (cf_HostEchoURL cfg)) v6URL (probe v6URL)
       in ((base_options cfg)\<lparr>vo_HostIPv4 := v4, vo_HostIPv6 := v6\<rparr>,
           tick (w\<lparr>se_hostIPv4 := (case v4 of None \<Rightarrow> se_hostIPv4 w | Some a \<Rightarrow> ip_String a),
                    se_hostIPv6 := (case v6 of None \<Rightarrow> se_hostIPv6 w | Some a \<Rightarrow> ip_String a)\<rparr>))))"

fun alloc_all :: "route list \<Rightarrow> world \<Rightarrow> nat list \<times> world" where
  "alloc_all [] w = ([], w)"
| "alloc_all (r # rs) w =
    (case alloc r w of (ref, w1) \<Rightarrow> (case alloc_all rs w1 of (refs, w2) \<Rightarrow> (ref # refs, w2)))"

definition new_subject :: "identity \<Rightarrow> nat \<Rightarrow> gate \<Rightarrow> subject" where
  "new_subject ident ref g = \<lparr>sb_Identity = ident, sb_Route = ref, sb_Gate = g, sb_Browser = False,
     sb_RouteIP = None, sb_BrowserIP = None, sb_Page = False, sb_Results = [], sb_eventCursor = 0,
     sb_sampler = None\<rparr>"

fun make_subjects :: "env \<Rightarrow> nat list \<Rightarrow> identity list \<Rightarrow> world \<Rightarrow> run_err option \<times> world" where
  "make_subjects env refs [] w = (None, w)"
| "make_subjects env refs (ident # ids) w =
    (let k = id_RouteSlot ident - 1 in
     if k \<ge> int (length refs) then
       (Some (RouteFailed (''provisioner returned '' @ itoa_nat (length refs) @ '' routes, need slot ''
          @ Itoa (id_RouteSlot ident))), w)
     else if k < 0 then (Some Panicked, w)
     else
      (let ref = refs ! nat k in
       case gate_Listen (route_ID (se_routes w ref)) (pe_bind (ask env w)) (NewGate ref) of
         (Some e, g) \<Rightarrow> (Some (RouteFailed e), tick w)
       | (None, g) \<Rightarrow> make_subjects env refs ids
           (tick (w\<lparr>se_subjects := se_subjects w @ [new_subject ident ref g]\<rparr>))))"

definition finish_all :: "world \<Rightarrow> world" where
  "finish_all w = w\<lparr>se_subjects := map Finish (se_subjects w)\<rparr>"

definition session_monitor :: "SConfig \<Rightarrow> monitor" where
  "session_monitor cfg = health_New \<lparr>mo_ProbeInterval = cf_ProbeIntervalSeconds cfg * 1000000000,
     mo_IPCheckInterval = cf_IPCheckIntervalSeconds cfg * 1000000000, mo_EchoURL = cf_IPEchoURL cfg,
     mo_Timeout = cf_TimeoutSeconds cfg * 1000000000, mo_ReestablishAfter = 0\<rparr>"

definition run_browsers :: "env \<Rightarrow> SConfig \<Rightarrow> VOptions \<Rightarrow> world \<Rightarrow> (run_err + monitor) \<times> world" where
  "run_browsers env cfg o' w =
    (case parallel (launch env) w of
       (Some e, w1) \<Rightarrow> (Inl (BrowserFailed e), abort w1)
     | (None, w1) \<Rightarrow>
        if se_subjects w1 = [] then (Inl Panicked, w1)
        else (case verifyAll env o' w1 of (passed, w2) \<Rightarrow>
         (let w3 = finish_all w2 in
          if \<not> passed then (Inl VerificationFailed, abort w3)
          else if cf_StartupURL cfg = [] then (Inr (session_monitor cfg), w3)
          else (case over (V9 env o' (cf_StartupURL cfg)) (indices w3) w3 of (cs, w4) \<Rightarrow>
            if all_passed cs then (Inr (session_monitor cfg), w4)
            else (Inl VerificationFailed, abort w4)))))"

definition run_routes :: "env \<Rightarrow> SConfig \<Rightarrow> world \<Rightarrow> (run_err + monitor) \<times> world" where
  "run_routes env cfg w =
    (case host_options env cfg w of (o', w1) \<Rightarrow>
     (case parallel (bringUpRoute env o') w1 of
        (Some e, w2) \<Rightarrow> (Inl (RouteFailed e), abort w2)
      | (None, w2) \<Rightarrow>
         (case separateSharedExits env o' w2 of
            (Some e, w3) \<Rightarrow> (Inl (RouteFailed e), abort w3)
          | (None, w3) \<Rightarrow> run_browsers env cfg o' w3)))"

text \<open>
  \<open>Run\<close> once the identity set is open and locked and \<open>Ensure\<close> has returned \<open>ids\<close>, with the
  provisioner that was passed in or resolved.
\<close>

definition Run ::
  "env \<Rightarrow> SConfig \<Rightarrow> identity list \<Rightarrow> Provisioner \<Rightarrow> world \<Rightarrow> (run_err + monitor) \<times> world" where
  "Run env cfg ids prov w0 =
    (let w = w0\<lparr>se_prov := Some prov\<rparr> in
     case pe_find (ask env w) of
       Some e \<Rightarrow> (Inl (BrowserFailed e), unlock (tick w))
     | None \<Rightarrow>
        (case prov_Provision env (int (length ids)) prov (tick w) of
           (Inl e, w1) \<Rightarrow> (Inl (RouteFailed e), abort w1)
         | (Inr rs, w1) \<Rightarrow>
            (case alloc_all rs w1 of (refs, w2) \<Rightarrow>
             (case make_subjects env refs ids w2 of
                (Some Panicked, w3) \<Rightarrow> (Inl Panicked, w3)
              | (Some e, w3) \<Rightarrow> (Inl e, abort w3)
              | (None, w3) \<Rightarrow> run_routes env cfg w3))))"

end
