(* ===== verification/Session_Steps.thy ===== *)
theory Session_Steps
  imports Session
begin

text \<open>
  What the steps of a session keep and establish: the contract of the operations that run once per
  subject (\<open>subject_op\<close>, \<open>checker_ok\<close>), bringing up and replacing routes, launching browsers, the
  verification suite, and the teardown.
\<close>

section \<open>Operations on one subject\<close>

text \<open>
  The contract of the bodies that run in parallel: each touches its own subject only. Whatever such
  an operation establishes for its subject therefore holds for every subject once all have run.
\<close>

locale subject_op =
  fixes f :: "nat \<Rightarrow> world \<Rightarrow> 'x \<times> world"
  assumes f_only: "world_ok w \<Longrightarrow> i < length (se_subjects w) \<Longrightarrow> f i w = (x, w') \<Longrightarrow> only i w w'"
begin

lemma over_only:
  assumes "over f is w = (xs, w')" "world_ok w" "\<forall>i \<in> set is. i < length (se_subjects w)"
  shows "world_ok w' \<and> idents w' = idents w \<and> se_closed w' = se_closed w \<and> se_locked w' = se_locked w
    \<and> length xs = length is \<and> (\<forall>j < length (se_subjects w). j \<notin> set is \<longrightarrow> loc w' j = loc w j)"
  using assms
proof (induction "is" arbitrary: w xs)
  case (Cons i "is")
  obtain x w1 where f: "f i w = (x, w1)" by (metis prod.exhaust)
  obtain ys where o: "over f is w1 = (ys, w')" "xs = x # ys"
    using Cons.prems(1) by (auto simp: f split: prod.splits)
  have o1: "only i w w1" using Cons.prems f by (auto intro: f_only)
  have len: "length (se_subjects w1) = length (se_subjects w)" using only_length [OF o1] .
  show ?case
    using Cons.IH [OF o(1) only_ok [OF o1]] Cons.prems(3) o1 o(2) len by (auto simp: only_def)
qed simp

lemma over_post:
  assumes "over f is w = (xs, w')" "world_ok w" "distinct is" "\<forall>i \<in> set is. i < length (se_subjects w)"
    and post: "\<And>i w x w'. world_ok w \<Longrightarrow> i < length (se_subjects w) \<Longrightarrow> P (loc w i) \<Longrightarrow> f i w = (x, w')
      \<Longrightarrow> R x (loc w' i)"
    and "\<forall>i \<in> set is. P (loc w i)" "k < length is"
  shows "R (xs ! k) (loc w' (is ! k))"
  using assms(1-4,6,7)
proof (induction "is" arbitrary: w xs k)
  case (Cons i "is")
  obtain x w1 where f: "f i w = (x, w1)" by (metis prod.exhaust)
  obtain ys where o: "over f is w1 = (ys, w')" "xs = x # ys"
    using Cons.prems(1) by (auto simp: f split: prod.splits)
  have i: "i < length (se_subjects w)" using Cons.prems(4) by simp
  have o1: "only i w w1" using Cons.prems(2) i f by (rule f_only)
  have len: "length (se_subjects w1) = length (se_subjects w)" using only_length [OF o1] .
  have P: "\<forall>j \<in> set is. P (loc w1 j)" using o1 Cons.prems(3-5) by (auto simp: only_def)
  show ?case
  proof (cases k)
    case 0
    have "loc w' i = loc w1 i"
      using over_only [OF o(1) only_ok [OF o1]] Cons.prems(3,4) len by simp
    then show ?thesis
      using post [OF Cons.prems(2) i _ f] Cons.prems(5) by (simp add: 0 o(2))
  next
    case (Suc k')
    then show ?thesis
      using Cons.IH [OF o(1) only_ok [OF o1] _ _ P, of k'] Cons.prems(3,4,6) len by (simp add: o(2))
  qed
qed simp

lemma all_post:
  assumes "over f (indices w) w = (xs, w')" "world_ok w"
    and "\<And>i w x w'. world_ok w \<Longrightarrow> i < length (se_subjects w) \<Longrightarrow> P (loc w i) \<Longrightarrow> f i w = (x, w')
      \<Longrightarrow> R x (loc w' i)"
    and "\<forall>i < length (se_subjects w). P (loc w i)" "k < length (se_subjects w)"
  shows "R (xs ! k) (loc w' k)"
proof -
  have "R (xs ! k) (loc w' (indices w ! k))"
    by (rule over_post [where P = P and R = R and w = w])
      (use assms in \<open>auto simp: indices_def\<close>)
  then show ?thesis using assms(5) by (simp add: indices_def)
qed

lemma all_kept:
  assumes "over f (indices w) w = (xs, w')" "world_ok w"
  shows "world_ok w'" "idents w' = idents w" "se_closed w' = se_closed w" "se_locked w' = se_locked w"
    "length xs = length (se_subjects w)" "length (se_subjects w') = length (se_subjects w)"
proof -
  have *: "world_ok w' \<and> idents w' = idents w \<and> se_closed w' = se_closed w \<and> se_locked w' = se_locked w
      \<and> length xs = length (se_subjects w)"
    using over_only [OF assms] by (auto simp: indices_def)
  show "world_ok w'" "idents w' = idents w" "se_closed w' = se_closed w" "se_locked w' = se_locked w"
    "length xs = length (se_subjects w)" using * by auto
  show "length (se_subjects w') = length (se_subjects w)" using * by (metis length_idents)
qed

end

text \<open>A check that keeps its subject's binding is such an operation.\<close>

locale checker_ok =
  fixes f :: checker
  assumes f_bound: "bound (snd (f e routes s)) = bound s"
    and f_browser: "sb_Browser (snd (f e routes s)) = sb_Browser s"
    and f_open: "g_open (sb_Gate s) \<Longrightarrow> g_open (sb_Gate (snd (f e routes s)))"

sublocale checker_ok \<subseteq> subject_op "check_step f env" for env
proof
  fix w i x w'
  assume ok: "world_ok w" and i: "i < length (se_subjects w)" and "check_step f env i w = (x, w')"
  then obtain s where s: "f (ask env w) (se_routes w) (sub w i) = (x, s)" "w' = tick (set_sub i s w)"
    using check_step_sub by blast
  have "bound s = bound (sub w i)" using f_bound s(1) by (metis snd_conv)
  then have "only i w (set_sub i s w)"
    using ok i by (intro only_set_sub) (auto simp: bound_def world_ok_def)
  then show "only i w w'" using i by (simp add: s(2) only_then_tick)
qed

lemma binding_open_eq: "binding s' = binding s \<Longrightarrow> g_open (sb_Gate s) \<Longrightarrow> g_open (sb_Gate s')"
  by (simp add: binding_def)

lemma report_browser [simp]: "sb_Browser (snd (report s c)) = sb_Browser s"
  by (simp add: report_def)

lemma resume_browser:
  "resumeNavigate n routes v1 d v2 s = (v, s') \<Longrightarrow> sb_Browser s' = sb_Browser s"
  by (auto simp: resumeNavigate_def Let_def split: if_splits)

lemma V7_resume_browser: "sb_Browser (snd (V7_resume n routes o' ob bw cur s)) = sb_Browser s"
  using resume_browser [of n routes "fo_resume ob" "fo_ctxDone ob" "fo_retry ob" s]
  by (auto simp: V7_resume_def Let_def split: sum.splits prod.splits)

lemma V7_browser: "sb_Browser (snd (V7FailClosed n routes o' ob s)) = sb_Browser s"
proof -
  have 1: "sb_Browser (with_gate g t) = sb_Browser t" for g t by (simp add: with_gate_def)
  show ?thesis
    by (simp add: V7FailClosed_def Let_def V7_resume_browser 1 split: option.splits list.splits prod.splits)
qed

interpretation v1: checker_ok "V1_on o'" for o'
proof
  fix e routes s
  have b: "binding (snd (V1_on o' e routes s)) = binding s" by (simp add: V1_on_def)
  show "bound (snd (V1_on o' e routes s)) = bound s" by (rule binding_bound [OF b])
  show "g_open (sb_Gate s) \<Longrightarrow> g_open (sb_Gate (snd (V1_on o' e routes s)))" by (rule binding_open_eq [OF b])
  show "sb_Browser (snd (V1_on o' e routes s)) = sb_Browser s"
    by (simp add: V1_on_def V1RouteUp_def Let_def split: sum.splits)
qed

interpretation v2: checker_ok "V2_on o'" for o'
proof
  fix e routes s
  have b: "binding (snd (V2_on o' e routes s)) = binding s" by (simp add: V2_on_def)
  show "bound (snd (V2_on o' e routes s)) = bound s" by (rule binding_bound [OF b])
  show "g_open (sb_Gate s) \<Longrightarrow> g_open (sb_Gate (snd (V2_on o' e routes s)))" by (rule binding_open_eq [OF b])
  show "sb_Browser (snd (V2_on o' e routes s)) = sb_Browser s"
    by (simp add: V2_on_def V2BrowserEgress_def Let_def split: sum.splits option.splits)
qed

interpretation v7: checker_ok "V7_on o'" for o'
  by unfold_locales (use V7_binding V7_browser in \<open>auto simp: V7_on_def bound_def binding_def\<close>)

section \<open>Replacing and bringing up a route\<close>

lemma ReplaceSession_only:
  assumes "world_ok w" "prov_ReplaceSession env slot w = (res, w')"
  shows "only i w w'"
  using ReplaceSession_frame [OF assms(2)] assms(1) by (intro only_routes) auto

lemma swap_then:
  assumes "world_ok w" "i < length (se_subjects w)" "free_for i ref w" "ref < se_fresh w"
  shows "world_ok (swap_route i ref w)" "i < length (se_subjects (swap_route i ref w))"
    "only i w (swap_route i ref w)" "free_for i ref (swap_route i ref w)"
    "free_for i (sb_Route (sub w i)) (swap_route i ref w)"
    "sb_Route (sub (swap_route i ref w) i) = ref" "sb_RouteIP (sub (swap_route i ref w) i) = sb_RouteIP (sub w i)"
    "g_open (sb_Gate (sub (swap_route i ref w) i)) = g_open (sb_Gate (sub w i))"
    "sb_Browser (sub (swap_route i ref w) i) = sb_Browser (sub w i)"
proof -
  show o: "only i w (swap_route i ref w)" by (rule only_swap [OF assms])
  show "world_ok (swap_route i ref w)" "i < length (se_subjects (swap_route i ref w))"
    using only_ok [OF o] only_length [OF o] assms(2) by auto
  note sw = swap_route_sub [OF assms(2), where ref = ref]
  show "free_for i ref (swap_route i ref w)" using assms(3) by (simp add: free_for_def sw)
  show "free_for i (sb_Route (sub w i)) (swap_route i ref w)"
    using free_for_own [OF assms(1,2)] by (simp add: free_for_def sw)
qed (simp_all add: swap_route_sub [OF assms(2)] gate_SetRoute_def with_gate_def)

lemma replaceUnreachable_only:
  assumes ok: "world_ok w" "i < length (se_subjects w)" and r: "replaceUnreachable env i w = (b, w')"
  shows "only i w w'"
proof (cases "is_replacer (se_prov w)")
  case False
  then show ?thesis using r ok by (simp add: replaceUnreachable_def)
next
  case True
  obtain res w1 where r1: "prov_ReplaceSession env (id_RouteSlot (sb_Identity (sub w i))) w = (res, w1)"
    by (metis prod.exhaust)
  note o1 = ReplaceSession_only [OF ok(1) r1, of i]
  note ok1 = only_ok [OF o1] only_length [OF o1]
  show ?thesis
  proof (cases res)
    case (Inl e)
    then show ?thesis using r r1 o1 True by (simp add: replaceUnreachable_def)
  next
    case (Inr rt)
    obtain ref w2 where a: "alloc rt w1 = (ref, w2)" by (metis prod.exhaust)
    obtain e w3 where st: "start_route env ref w2 = (e, w3)" by (metis prod.exhaust)
    have i1: "i < length (se_subjects w1)" using ok1(2) ok(2) by simp
    note fr = fresh_route [OF ok1(1) i1 a st]
    have o3: "only i w w3" using o1 fr(1) by (rule only_trans)
    have i3: "i < length (se_subjects w3)" using only_length [OF o3] ok(2) by simp
    have s3: "sub w3 i = sub w i" using fr(4) ReplaceSession_frame(1) [OF r1] by (simp add: sub_def)
    note sw = swap_then [OF only_ok [OF o3] i3 fr(2,3)]
    have "w' = (if e = None then stop_route (sb_Route (sub w i)) (swap_route i ref w3) else stop_route ref w3)"
      using r r1 Inr True a st by (auto simp: replaceUnreachable_def split: option.splits)
    moreover have "only i w (stop_route ref w3)"
      using o3 only_stop [OF only_ok [OF o3] fr(2)] by (rule only_trans)
    moreover have "only i w (stop_route (sb_Route (sub w i)) (swap_route i ref w3))"
      using only_trans [OF only_trans [OF o3 sw(3)] only_stop [OF sw(1)]] sw(5) by (simp add: s3)
    ultimately show ?thesis by simp
  qed
qed

lemma V1_only:
  assumes "world_ok w" "i < length (se_subjects w)" "V1 env o' i w = (c, w')"
  shows "only i w w'" "sb_Route (sub w' i) = sb_Route (sub w i)"
    "ck_Passed c \<Longrightarrow> \<exists>a. sb_RouteIP (sub w' i) = Some a \<and> route_PublicIP (ask env w) (route_at w i) (vo_EchoURL o') = Inr a"
    "se_routes w' = se_routes w"
    "g_open (sb_Gate (sub w' i)) = g_open (sb_Gate (sub w i))"
proof -
  show "only i w w'" by (rule v1.f_only [OF assms])
  obtain s where s: "V1_on o' (ask env w) (se_routes w) (sub w i) = (c, s)" "w' = tick (set_sub i s w)"
    using check_step_sub [OF assms(3)] by blast
  have b: "binding s = binding (sub w i)"
    using V1_binding [of _ _ "sub w i"] s(1) unfolding V1_on_def by (metis snd_conv)
  show "sb_Route (sub w' i) = sb_Route (sub w i)" "g_open (sb_Gate (sub w' i)) = g_open (sb_Gate (sub w i))"
    using b assms(2) by (auto simp: s(2) binding_def)
  show "se_routes w' = se_routes w" by (simp add: s(2))
  assume "ck_Passed c"
  then show "\<exists>a. sb_RouteIP (sub w' i) = Some a \<and> route_PublicIP (ask env w) (route_at w i) (vo_EchoURL o') = Inr a"
    using s assms(2)
    by (auto simp: V1_on_def V1RouteUp_def Let_def report_def route_at_def split: sum.splits)
qed

text \<open>A subject whose route has been brought up: READY, with the egress V1 saw.\<close>

definition up :: "subject \<times> route \<times> bool \<Rightarrow> bool" where
  "up = (\<lambda>(s, r, a). route_Status r = StatusReady \<and> sb_RouteIP s \<noteq> None)"

lemma bringUpRoute_ok:
  assumes ok: "world_ok w" "i < length (se_subjects w)" and r: "bringUpRoute env o' i w = (e, w')"
  shows "only i w w' \<and> (e = None \<longrightarrow> up (loc w' i))"
proof -
  obtain e1 w1 where st: "start_route env (sb_Route (sub w i)) w = (e1, w1)" by (metis prod.exhaust)
  have o1: "only i w w1" using only_start [OF ok free_for_own [OF ok], of env] by (simp add: st)
  have i1: "i < length (se_subjects w1)" using only_length [OF o1] ok(2) by simp
  show ?thesis
  proof (cases e1)
    case (Some m)
    then show ?thesis using r st o1 by (auto simp: bringUpRoute_def)
  next
    case None
    obtain c1 w2 where c1: "V1 env o' i w1 = (c1, w2)" by (metis prod.exhaust)
    note v1 = V1_only [OF only_ok [OF o1] i1 c1]
    have o2: "only i w w2" using o1 v1(1) by (rule only_trans)
    have i2: "i < length (se_subjects w2)" using only_length [OF o2] ok(2) by simp
    obtain b w3 where ru: "replaceUnreachable env i w2 = (b, w3)" by (metis prod.exhaust)
    have o3: "only i w w3" using o2 replaceUnreachable_only [OF only_ok [OF o2] i2 ru] by (rule only_trans)
    have i3: "i < length (se_subjects w3)" using only_length [OF o3] ok(2) by simp
    obtain c3 w4 where c3: "V1 env o' i w3 = (c3, w4)" by (metis prod.exhaust)
    note v3 = V1_only [OF only_ok [OF o3] i3 c3]
    have o4: "only i w w4" using o3 v3(1) by (rule only_trans)
    define cx where "cx = (if \<not> ck_Passed c1 then if b then (c3, w4) else (c1, w3) else (c1, w2))"
    obtain c w5 where cx: "cx = (c, w5)" by (metis prod.exhaust)
    have o5: "only i w w5" using cx o2 o3 o4 by (auto simp: cx_def split: if_splits)
    have i5: "i < length (se_subjects w5)" using only_length [OF o5] ok(2) by simp
    have ip: "ck_Passed c \<Longrightarrow> sb_RouteIP (sub w5 i) \<noteq> None"
      using cx v1(3) v3(3) by (auto simp: cx_def split: if_splits)
    have "bringUpRoute env o' i w = (case cx of (c, w4) \<Rightarrow>
        if \<not> ck_Passed c then (Some (ck_Detail c), w4)
        else (None, set_status (sb_Route (sub w4 i)) StatusReady w4))"
      using None by (auto simp: bringUpRoute_def st c1 ru c3 cx_def split: bool.splits)
    then have eq: "(e, w') = (if \<not> ck_Passed c then (Some (ck_Detail c), w5)
        else (None, set_status (sb_Route (sub w5 i)) StatusReady w5))"
      using r by (simp add: cx)
    have "only i w (set_status (sb_Route (sub w5 i)) StatusReady w5)"
      using o5 only_set_status [OF only_ok [OF o5] i5] by (rule only_trans)
    moreover have "ck_Passed c \<Longrightarrow> up (loc (set_status (sb_Route (sub w5 i)) StatusReady w5) i)"
      using ip by (simp add: up_def loc_def route_at_def)
    ultimately show ?thesis using eq o5 by (auto split: if_splits)
  qed
qed

interpretation bu: subject_op "bringUpRoute env o'" for env o'
  by unfold_locales (use bringUpRoute_ok in blast)

text \<open>What every step of the startup keeps.\<close>

definition kept :: "world \<Rightarrow> world \<Rightarrow> bool" where
  "kept w w' \<longleftrightarrow> world_ok w' \<and> idents w' = idents w \<and> se_closed w' = se_closed w \<and> se_locked w' = se_locked w"

lemma only_kept: "only i w w' \<Longrightarrow> kept w w'"
  by (simp add: only_def kept_def)

lemma kept_refl: "world_ok w \<Longrightarrow> kept w w"
  by (simp add: kept_def)

lemma kept_trans: "kept w w1 \<Longrightarrow> kept w1 w2 \<Longrightarrow> kept w w2"
  by (simp add: kept_def)

lemma kept_length: "kept w w' \<Longrightarrow> length (se_subjects w') = length (se_subjects w)"
  unfolding kept_def by (metis length_idents)

lemma kept_ok: "kept w w' \<Longrightarrow> world_ok w'"
  by (simp add: kept_def)

definition everyone :: "(subject \<times> route \<times> bool \<Rightarrow> bool) \<Rightarrow> world \<Rightarrow> bool" where
  "everyone P w \<longleftrightarrow> (\<forall>i < length (se_subjects w). P (loc w i))"

lemma everyone_only:
  "only i w w' \<Longrightarrow> everyone P w \<Longrightarrow> P (loc w' i) \<Longrightarrow> everyone P w'"
  using only_length [of i w w'] by (auto simp: everyone_def only_def)

lemma separate_one_ok:
  assumes ok: "world_ok w" and r: "separate_one env o' slot a w = (e, w')"
  shows "kept w w' \<and> (e = None \<longrightarrow> everyone up w \<longrightarrow> everyone up w')"
proof (cases "find_slot slot 0 (se_subjects w)")
  case None
  then show ?thesis using r ok by (auto simp: separate_one_def kept_def)
next
  case (Some i)
  have i: "i < length (se_subjects w)" using find_slot_Some [OF Some] by simp
  obtain res w1 where r1: "prov_ReplaceSession env slot w = (res, w1)" by (metis prod.exhaust)
  note o1 = ReplaceSession_only [OF ok r1, of i]
  have i1: "i < length (se_subjects w1)" using only_length [OF o1] i by simp
  show ?thesis
  proof (cases res)
    case (Inl m)
    then show ?thesis using r r1 Some only_kept [OF o1] by (auto simp: separate_one_def)
  next
    case (Inr rt)
    obtain ref w2 where al: "alloc rt w1 = (ref, w2)" by (metis prod.exhaust)
    obtain e3 w3 where st: "start_route env ref w2 = (e3, w3)" by (metis prod.exhaust)
    note fr = fresh_route [OF only_ok [OF o1] i1 al st]
    have o3: "only i w w3" using o1 fr(1) by (rule only_trans)
    have i3: "i < length (se_subjects w3)" using only_length [OF o3] i by simp
    have s3: "sub w3 j = sub w j" for j using fr(4) ReplaceSession_frame(1) [OF r1] by (simp add: sub_def)
    have old: "sb_Route (sub w i) \<noteq> ref"
      using fr(7) [OF i1] ReplaceSession_frame(1) [OF r1] by (simp add: sub_def)
    note sw = swap_then [OF only_ok [OF o3] i3 fr(2,3)]
    obtain c w4 where c: "V1 env o' i (swap_route i ref w3) = (c, w4)" by (metis prod.exhaust)
    note v = V1_only [OF sw(1,2) c]
    have o4: "only i w w4" using only_trans [OF only_trans [OF o3 sw(3)] v(1)] .
    have i4: "i < length (se_subjects w4)" using only_length [OF o4] i by simp
    have rt4: "sb_Route (sub w4 i) = ref" using v(2) sw(6) by simp
    have own: "sb_Route (sub w4 j) = sb_Route (sub w j)" if "j < length (se_subjects w)" "j \<noteq> i" for j
      using o4 that by (simp add: only_def loc_def)
    have f4: "free_for i ref w4" using free_for_own [OF only_ok [OF o4] i4] rt4 by simp
    have f4': "free_for i (sb_Route (sub w i)) w4"
      using own only_length [OF o4] free_for_own [OF ok i] by (simp add: free_for_def)
    have o5: "only i w (stop_route (sb_Route (sub w i)) w4)"
      using o4 only_stop [OF only_ok [OF o4] f4'] by (rule only_trans)
    have o6: "only i w (set_status ref StatusReady (stop_route (sb_Route (sub w i)) w4))"
      using o5 only_status [OF only_ok [OF o5]] f4 by (auto intro: only_trans simp: free_for_def)
    have o5': "only i w (stop_route ref w4)" "only i w (stop_route ref w3)"
      using only_trans [OF o4 only_stop [OF only_ok [OF o4] f4]]
        only_trans [OF o3 only_stop [OF only_ok [OF o3] fr(2)]] by auto
    have up: "up (loc (set_status ref StatusReady (stop_route (sb_Route (sub w i)) w4)) i)" if "ck_Passed c"
      using v(3) [OF that] by (auto simp: up_def loc_def route_at_def rt4)
    have "(e, w') = (case e3 of Some m \<Rightarrow> (Some m, stop_route ref w3)
        | None \<Rightarrow> if \<not> ck_Passed c then (Some (ck_Detail c), stop_route ref w4)
           else (None, set_status ref StatusReady (stop_route (sb_Route (sub w i)) w4)))"
      using r by (auto simp: separate_one_def Some r1 Inr al st c split: option.splits if_splits)
    then show ?thesis
      using o5' only_kept o6 everyone_only [OF o6] up
      by (auto split: option.splits if_splits)
  qed
qed

lemma separate_loop_ok:
  assumes "world_ok w" "separate_loop env o' replaced w = (e, w')"
  shows "kept w w' \<and> (e = None \<longrightarrow> (everyone up w \<longrightarrow> everyone up w') \<and> fst (sharedExit (se_subjects w')) = 0)"
  using assms
proof (induction env o' replaced w rule: separate_loop.induct)
  case (1 env o' replaced w)
  obtain slot a where sh: "sharedExit (se_subjects w) = (slot, a)" by (metis prod.exhaust)
  obtain e1 w1 where so: "separate_one env o' slot a w = (e1, w1)" by (metis prod.exhaust)
  note s1 = separate_one_ok [OF 1(2) so]
  show ?case
  proof (cases "slot = 0 \<or> slot \<in> set replaced \<or> e1 \<noteq> None")
    case True
    then show ?thesis
      using 1(2,3) s1 sh kept_refl [OF 1(2)]
      by (auto simp: separate_loop.simps [of env o' replaced w] so split: if_splits)
  next
    case False
    have l: "separate_loop env o' (slot # replaced) w1 = (e, w')"
      using 1(3) False by (simp add: separate_loop.simps [of env o' replaced w] sh so)
    from s1 have k: "kept w w1" by simp
    show ?thesis
      using 1(1) [OF sh [symmetric] _ _ so [symmetric] _ kept_ok [OF k] l] False s1 kept_trans [OF k] by auto
  qed
qed

lemma sharedExit_from_apart:
  assumes "fst (sharedExit_from seen ss) = 0" "\<forall>s \<in> set ss. id_RouteSlot (sb_Identity s) \<noteq> 0"
  shows "(\<forall>i x. i < length ss \<longrightarrow> sb_RouteIP (ss ! i) = Some x \<longrightarrow> ip_String x \<notin> set seen)
    \<and> (\<forall>i j x y. i < j \<longrightarrow> j < length ss \<longrightarrow> sb_RouteIP (ss ! i) = Some x \<longrightarrow> sb_RouteIP (ss ! j) = Some y
         \<longrightarrow> ip_String x \<noteq> ip_String y)"
  using assms
proof (induction ss arbitrary: seen)
  case (Cons s ss)
  define seen' where "seen' = (case sb_RouteIP s of None \<Rightarrow> seen | Some a \<Rightarrow> ip_String a # seen)"
  have f: "fst (sharedExit_from seen' ss) = 0" "\<And>a. sb_RouteIP s = Some a \<Longrightarrow> ip_String a \<notin> set seen"
    using Cons.prems by (auto simp: seen'_def split: option.splits if_splits)
  have ih: "\<And>i x. i < length ss \<Longrightarrow> sb_RouteIP (ss ! i) = Some x \<Longrightarrow> ip_String x \<notin> set seen'"
    "\<And>i j x y. i < j \<Longrightarrow> j < length ss \<Longrightarrow> sb_RouteIP (ss ! i) = Some x \<Longrightarrow> sb_RouteIP (ss ! j) = Some y
       \<Longrightarrow> ip_String x \<noteq> ip_String y"
    using Cons.IH [OF f(1)] Cons.prems(2) by auto
  have sub: "set seen \<subseteq> set seen'" by (auto simp: seen'_def split: option.splits)
  show ?case
  proof (intro conjI allI impI)
    fix i x assume "i < length (s # ss)" "sb_RouteIP ((s # ss) ! i) = Some x"
    then show "ip_String x \<notin> set seen" using f(2) ih(1) sub by (cases i) auto
  next
    fix i j x y
    assume *: "i < j" "j < length (s # ss)" "sb_RouteIP ((s # ss) ! i) = Some x" "sb_RouteIP ((s # ss) ! j) = Some y"
    then obtain j' where j: "j = Suc j'" by (cases j) auto
    show "ip_String x \<noteq> ip_String y"
    proof (cases i)
      case 0
      then have "ip_String x \<in> set seen'" using * by (simp add: seen'_def)
      then show ?thesis using ih(1) [of j' y] * j by auto
    next
      case (Suc i')
      then show ?thesis using ih(2) [of i' j' x y] * j by simp
    qed
  qed
qed simp

section \<open>Browsers and checks\<close>

text \<open>A subject in use: its route READY, its gate open, its browser running.\<close>

definition live :: "subject \<times> route \<times> bool \<Rightarrow> bool" where
  "live = (\<lambda>(s, r, a). route_Status r = StatusReady \<and> g_open (sb_Gate s) \<and> sb_Browser s \<and> a)"

lemma set_alive_simps [simp]:
  "se_subjects (set_alive i b w) = se_subjects w" "se_routes (set_alive i b w) = se_routes w"
  "se_fresh (set_alive i b w) = se_fresh w" "se_closed (set_alive i b w) = se_closed w"
  "se_locked (set_alive i b w) = se_locked w" "sub (set_alive i b w) j = sub w j" "se_alive (set_alive i b w) i = b"
  by (simp_all add: set_alive_def sub_def)

lemma only_set_alive: "world_ok w \<Longrightarrow> only i w (set_alive i b w)"
  by (simp add: only_def loc_def route_at_def world_ok_def idents_def set_alive_def sub_def)

lemma Begin_simps:
  assumes "Begin p s = (e, s')"
  shows "bound s' = bound s" "sb_Browser s' = sb_Browser s" "sb_Gate s' = sb_Gate s"
    "sb_Identity s' = sb_Identity s" "sb_Route s' = sb_Route s"
  using assms by (auto simp: Begin_def Let_def bound_def split: option.splits)

lemma launch_ok:
  assumes ok: "world_ok w" "i < length (se_subjects w)" and r: "launch env i w = (e, w')"
  shows "only i w w' \<and> (e = None \<longrightarrow> up (loc w i) \<longrightarrow> live (loc w' i))"
proof -
  define w1 where "w1 = on_gate i gate_Open w"
  have o1: "only i w w1" using ok by (simp add: w1_def only_on_gate)
  have i1: "i < length (se_subjects w1)" using only_length [OF o1] ok(2) by simp
  define w2 where "w2 = tick (set_alive i True (set_sub i ((sub w1 i)\<lparr>sb_Browser := True\<rparr>) w1))"
  have "only i w1 (set_sub i ((sub w1 i)\<lparr>sb_Browser := True\<rparr>) w1)"
    using only_ok [OF o1] i1 by (intro only_set_sub) (auto simp: world_ok_def)
  then have o2: "only i w w2"
    unfolding w2_def using o1 ok(2) by (meson only_then_tick only_trans only_set_alive only_ok)
  have i2: "i < length (se_subjects w2)" using only_length [OF o2] ok(2) by simp
  have s2: "sub w2 i = (with_gate gate_Open (sub w i))\<lparr>sb_Browser := True\<rparr>" "se_routes w2 = se_routes w" "se_alive w2 i"
    using ok(2) by (simp_all add: w2_def w1_def del: set_sub_simps(10))
  show ?thesis
  proof (cases "pe_launch (ask env w1)")
    case (Some m)
    have "only i w (tick (on_gate i gate_Close w1))"
      using o1 only_on_gate [OF only_ok [OF o1] i1, of gate_Close] ok(2) by (auto intro: only_then_tick only_trans)
    then show ?thesis using r Some by (auto simp: launch_def Let_def w1_def)
  next
    case None
    obtain err s where b: "Begin (pe_newPage (ask env w2)) (sub w2 i) = (err, s)" by (metis prod.exhaust)
    note bs = Begin_simps [OF b]
    have "only i w2 (set_sub i s w2)"
      using only_ok [OF o2] i2 bs by (intro only_set_sub) (auto simp: world_ok_def)
    then have o3: "only i w (tick (set_sub i s w2))" using o2 ok(2) by (meson only_then_tick only_trans)
    have "(e, w') = (case pe_firstPage (ask env w2) of Some m \<Rightarrow> (Some m, tick w2)
        | None \<Rightarrow> (err, tick (set_sub i s w2)))"
      using r None b by (auto simp: launch_def Let_def w1_def w2_def split: option.splits)
    moreover have "up (loc w i) \<longrightarrow> live (loc (tick (set_sub i s w2)) i)"
      using i2 s2 bs by (auto simp: up_def live_def loc_def route_at_def)
    ultimately show ?thesis
      using o3 only_then_tick [OF o2 ok(2)] by (auto split: option.splits)
  qed
qed

interpretation la: subject_op "launch env" for env
  by unfold_locales (use launch_ok in blast)

context checker_ok
begin

lemma step_loc:
  assumes "i < length (se_subjects w)" "check_step f env i w = (c, w')"
  shows "\<exists>s. f (ask env w) (se_routes w) (sub w i) = (c, s) \<and> loc w' i = (s, route_at w i, se_alive w i)"
proof -
  obtain s where s: "f (ask env w) (se_routes w) (sub w i) = (c, s)" "w' = tick (set_sub i s w)"
    using check_step_sub [OF assms(2)] by blast
  have "bound s = bound (sub w i)" using f_bound s(1) by (metis snd_conv)
  then show ?thesis using s assms(1) by (auto simp: loc_def route_at_def bound_def)
qed

lemma phase_all:
  assumes ph: "phase env f w = (ok, w')" and w: "world_ok w" and P: "everyone P w"
    and step: "\<And>e routes s c s' r a. P (s, r, a) \<Longrightarrow> f e routes s = (c, s') \<Longrightarrow> ok \<longrightarrow> ck_Passed c \<Longrightarrow> Q (s', r, a)"
  shows "kept w w' \<and> everyone Q w'"
proof -
  obtain cs where ov: "over (check_step f env) (indices w) w = (cs, w')" and okd: "ok = all_passed cs"
    using ph by (auto simp: phase_def apfst_def map_prod_def split: prod.splits)
  note k = all_kept [OF ov w]
  have "(ok \<longrightarrow> ck_Passed (cs ! i)) \<longrightarrow> Q (loc w' i)" if "i < length (se_subjects w)" for i
  proof (rule all_post [OF ov w _ _ that, where P = P and R = "\<lambda>c l. (ok \<longrightarrow> ck_Passed c) \<longrightarrow> Q l"])
    show "\<forall>i<length (se_subjects w). P (loc w i)" using P by (simp add: everyone_def)
  next
    fix i w x w'
    assume "i < length (se_subjects w)" "P (loc w i)" "check_step f env i w = (x, w')"
    then show "(ok \<longrightarrow> ck_Passed x) \<longrightarrow> Q (loc w' i)"
      using step_loc step by (fastforce simp: loc_def)
  qed
  moreover have "ok \<Longrightarrow> i < length (se_subjects w) \<Longrightarrow> ck_Passed (cs ! i)" for i
    using okd k(5) by (simp add: all_passed_def list_all_length)
  ultimately show ?thesis using k by (simp add: kept_def everyone_def)
qed

lemma phase_live:
  assumes "phase env f w = (ok, w')" "world_ok w" "everyone live w"
  shows "kept w w' \<and> everyone live w'"
proof (rule phase_all [OF assms])
  fix e routes s c s' r a
  assume "live (s, r, a)" "f e routes s = (c, s')"
  then show "live (s', r, a)"
    using f_browser [of e routes s] f_open [of s e routes] by (simp add: live_def)
qed

end

text \<open>V3, V6 and \<open>Finish\<close> concern several subjects at once and change none of what \<open>live\<close> looks at.\<close>

definition like :: "subject \<Rightarrow> subject \<Rightarrow> bool" where
  "like s s' \<longleftrightarrow> bound s' = bound s \<and> sb_Browser s' = sb_Browser s \<and> g_open (sb_Gate s') = g_open (sb_Gate s)
     \<and> sb_BrowserIP s' = sb_BrowserIP s \<and> sb_RouteIP s' = sb_RouteIP s"

lemma like_refl [simp]: "like s s"
  by (simp add: like_def)

lemma like_trans: "like s s1 \<Longrightarrow> like s1 s2 \<Longrightarrow> like s s2"
  by (simp add: like_def)

lemma like_report: "like s s' \<Longrightarrow> like s (snd (report s' c))"
  by (simp add: like_def report_def bound_def)

lemma like_browse: "like s (browse n routes v s)"
  by (simp add: like_def bound_def)

definition similar :: "world \<Rightarrow> world \<Rightarrow> bool" where
  "similar w w' \<longleftrightarrow> length (se_subjects w') = length (se_subjects w)
     \<and> (\<forall>i < length (se_subjects w). like (sub w i) (sub w' i))
     \<and> se_routes w' = se_routes w \<and> se_fresh w' = se_fresh w \<and> se_alive w' = se_alive w
     \<and> se_closed w' = se_closed w \<and> se_locked w' = se_locked w"

lemma similar_refl [simp]: "similar w w"
  by (simp add: similar_def)

lemma similar_trans: "similar w w1 \<Longrightarrow> similar w1 w2 \<Longrightarrow> similar w w2"
  using like_trans by (fastforce simp: similar_def)

lemma similar_kept:
  assumes "similar w w'" "world_ok w"
  shows "kept w w'"
proof -
  have l: "length (se_subjects w') = length (se_subjects w)" using assms(1) by (simp add: similar_def)
  have b: "bound (sub w' i) = bound (sub w i)" if "i < length (se_subjects w)" for i
    using assms(1) that by (simp add: similar_def like_def)
  have "world_ok w'"
    using assms b by (auto simp: world_ok_def similar_def bound_def)
  moreover have "idents w' = idents w"
    unfolding idents_def by (rule nth_equalityI) (use l b in \<open>auto simp: bound_def sub_def\<close>)
  ultimately show ?thesis using assms(1) by (simp add: kept_def similar_def)
qed

lemma similar_live: "similar w w' \<Longrightarrow> everyone live w \<Longrightarrow> everyone live w'"
  by (simp add: similar_def everyone_def live_def loc_def like_def route_at_def bound_def)

lemma V3_similar:
  assumes "V3 env o' w = (ok, w')"
  shows "similar w w'" "ok \<longleftrightarrow> separated o' (se_subjects w)"
  using assms like_report [OF like_refl]
  by (auto simp: V3_def V3Separation_def Let_def similar_def sub_def separation_iff)

lemma over_similar:
  assumes step: "\<And>i w x w'. f i w = (x, w') \<Longrightarrow> i < length (se_subjects w) \<Longrightarrow> length (se_subjects w) = n \<Longrightarrow> similar w w'"
    and "over f is w = (xs, w')" "\<forall>i \<in> set is. i < n" "length (se_subjects w) = n"
  shows "similar w w'"
  using assms(2-)
proof (induction "is" arbitrary: w xs)
  case (Cons i "is")
  obtain x w1 where f: "f i w = (x, w1)" by (metis prod.exhaust)
  obtain ys where o: "over f is w1 = (ys, w')" using Cons.prems(1) by (auto simp: f split: prod.splits)
  have s: "similar w w1" using step [OF f] Cons.prems by simp
  then have "similar w1 w'" using Cons.IH [OF o] Cons.prems by (simp add: similar_def)
  with s show ?case by (rule similar_trans)
qed simp

lemma set_sub_similar:
  assumes "i < length (se_subjects w)" "like (sub w i) s"
  shows "similar w (tick (set_sub i s w))"
  using assms by (auto simp: similar_def sub_set_sub_if simp del: set_sub_simps(10))

lemma phase_similar:
  assumes "\<And>e routes s. like s (snd (f e routes s))" "phase env f w = (ok, w')"
  shows "similar w w'"
proof -
  obtain cs where ov: "over (check_step f env) (indices w) w = (cs, w')"
    using assms(2) by (auto simp: phase_def apfst_def map_prod_def split: prod.splits)
  show ?thesis
  proof (rule over_similar [OF _ ov _ refl])
    fix i w x w'
    assume "check_step f env i w = (x, w')" "i < length (se_subjects w)"
    then show "similar w w'"
      using check_step_sub [of f env i w x w'] assms(1) set_sub_similar by (metis snd_conv)
  qed (simp add: indices_def)
qed

lemma V4_like: "like s (snd (V4_on o' e routes s))"
  by (simp add: V4_on_def V4DNSDelegation_def Let_def like_report)

lemma V5_like: "like s (snd (V5_on o' e routes s))"
  by (simp add: V5_on_def V5IPv6_def Let_def like_report like_browse split: sum.splits)

lemma V8_like: "like s (snd (V8_on e routes s))"
proof -
  have "like s (s\<lparr>sb_sampler := x\<rparr>)" for x by (simp add: like_def bound_def)
  then show ?thesis
    by (simp add: V8_on_def V8NoDirect_def Let_def like_report split: option.splits prod.splits)
qed

lemma V9_like: "like s (snd (snd (V9StartupURL n routes o' v url s)))"
  using like_report [OF like_browse, of s n routes v]
  by (simp add: V9StartupURL_def Let_def report_def split: option.splits)

lemma V9_similar:
  assumes "V9 env o' url i w = (c, w')" "i < length (se_subjects w)"
  shows "similar w w'"
proof -
  let ?e = "ask env w"
  obtain res s where v: "V9StartupURL (pe_net ?e) (se_routes w) o' (pe_nav ?e url) url (sub w i) = (c, res, s)"
    using assms(1) by (auto simp: V9_def Let_def split: prod.splits)
  have "like (sub w i) s"
    using V9_like [of "sub w i" "pe_net ?e" "se_routes w" o' "pe_nav ?e url" url] by (simp add: v)
  then show ?thesis
    using assms v by (auto simp: V9_def Let_def similar_def sub_def nth_list_update split: if_splits)
qed

lemma V6_like:
  assumes "V6StorageIsolation n routes name ob t a b = (c, a', b')"
  shows "like a a'" "like b b'"
  using assms like_report [OF like_browse] like_report [OF like_refl]
  by (auto simp: V6StorageIsolation_def Let_def)

lemma V6_similar:
  assumes "V6 env i w = (c, w')" "i < length (se_subjects w)" "length (se_subjects w) \<noteq> 1"
  shows "similar w w'"
proof -
  let ?j = "Suc i mod length (se_subjects w)"
  have j: "?j < length (se_subjects w)" using assms(2) by (metis gr_implies_not0 mod_less_divisor not_gr_zero)
  have ij: "?j \<noteq> i" using assms(2,3) by (cases "Suc i < length (se_subjects w)") (auto simp: mod_if)
  obtain a b where v: "V6StorageIsolation (pe_net (ask env w)) (se_routes w) (pe_name (ask env w)) (pe_storage (ask env w))
      (pe_elapsed (ask env w)) (sub w i) (sub w ?j) = (c, a, b)" and w': "w' = tick (set_sub ?j b (set_sub i a w))"
    using assms(1) by (auto simp: V6_def Let_def split: prod.splits)
  have "sub w' k = (if k = ?j then b else if k = i then a else sub w k)" for k
    using assms(2) j by (simp add: w' sub_set_sub_if del: set_sub_simps(10))
  then show ?thesis
    using V6_like [OF v] ij by (simp add: similar_def w' del: set_sub_simps(10))
qed

lemma storage_ring_similar:
  assumes "storage_ring env w = (cs, w')"
  shows "similar w w'"
proof (cases "length (se_subjects w) = 1")
  case True
  then show ?thesis using assms by (simp add: storage_ring_def)
next
  case False
  then have ov: "over (V6 env) (indices w) w = (cs, w')" using assms by (simp add: storage_ring_def)
  show ?thesis
    by (rule over_similar [OF _ ov _ refl]) (use V6_similar False in \<open>auto simp: indices_def\<close>)
qed


definition settled :: "VOptions \<Rightarrow> subject \<times> route \<times> bool \<Rightarrow> bool" where
  "settled o' = (\<lambda>(s, r, a). \<exists>x. sb_BrowserIP s = Some x \<and> sb_RouteIP s = Some x \<and> \<not> is_host o' x)"

lemma similar_settled: "similar w w' \<Longrightarrow> everyone (settled o') w \<Longrightarrow> everyone (settled o') w'"
  by (simp add: similar_def everyone_def settled_def loc_def like_def)

lemma similar_separated: 
  assumes "similar w w'" "separated o' (se_subjects w)"
  shows "separated o' (se_subjects w')"
  using assms unfolding separated_def sorted_wrt_iff_nth_less distinct_egress_def
  by (simp add: similar_def like_def sub_def all_set_conv_all_nth)

lemma verifyAll_ok:
  assumes w: "world_ok w" "everyone live w" and r: "verifyAll env o' w = (passed, w')"
  shows "kept w w' \<and> everyone live w' \<and> (passed \<longrightarrow> everyone (settled o') w' \<and> separated o' (se_subjects w'))"
proof -
  obtain ok2 w1 where p1: "phase env (V2_on o') w = (ok2, w1)" by (metis prod.exhaust)
  obtain ok3 w2 where p2: "V3 env o' w1 = (ok3, w2)" by (metis prod.exhaust)
  obtain ok4 w3 where p3: "phase env (V4_on o') w2 = (ok4, w3)" by (metis prod.exhaust)
  obtain ok5 w4 where p4: "phase env (V5_on o') w3 = (ok5, w4)" by (metis prod.exhaust)
  obtain cs6 w5 where p5: "storage_ring env w4 = (cs6, w5)" by (metis prod.exhaust)
  obtain ok7 w6 where p6: "phase env (V7_on o') w5 = (ok7, w6)" by (metis prod.exhaust)
  obtain ok3' w7 where p7: "V3 env o' w6 = (ok3', w7)" by (metis prod.exhaust)
  obtain ok8 w8 where p8: "phase env V8_on w7 = (ok8, w8)" by (metis prod.exhaust)
  have r': "passed \<Longrightarrow> ok7 \<and> ok3'" "w' = w8"
    using r by (auto simp: verifyAll_def p1 p2 p3 p4 p5 p6 p7 p8)
  have k1: "kept w w1 \<and> everyone live w1" using v2.phase_live [OF p1 w] .
  have s15: "similar w1 w5"
    using V3_similar(1) [OF p2] phase_similar [OF V4_like p3] phase_similar [OF V5_like p4]
      storage_ring_similar [OF p5] by (blast intro: similar_trans)
  have k5: "kept w w5 \<and> everyone live w5"
    using k1 similar_kept [OF s15] similar_live [OF s15] kept_ok kept_trans by blast
  have k6: "kept w w6 \<and> everyone live w6"
    using v7.phase_live [OF p6] k5 kept_ok kept_trans by blast
  have s68: "similar w6 w8"
    using V3_similar(1) [OF p7] phase_similar [OF V8_like p8] by (rule similar_trans)
  have set6: "everyone (settled o') w6" if ok7
  proof -
    have "kept w5 w6 \<and> everyone (settled o') w6"
    proof (rule v7.phase_all [OF p6, where P = "\<lambda>_. True"])
      fix e routes s c s' r a
      assume "V7_on o' e routes s = (c, s')" "ok7 \<longrightarrow> ck_Passed c"
      then show "settled o' (s', r, a)"
        using V7_passed [of "pe_net e" routes o' "pe_failclosed e" s] that
        by (auto simp: V7_on_def settled_def)
    qed (use k5 kept_ok in \<open>auto simp: everyone_def\<close>)
    then show ?thesis ..
  qed
  show ?thesis
    using k6 similar_kept [OF s68] similar_live [OF s68] kept_ok kept_trans r'
      set6 similar_settled [OF s68] similar_separated [OF s68] V3_similar(2) [OF p7] by blast
qed

section \<open>Teardown\<close>

text \<open>Everything torn down: gates closed for good, routes stopped, no browser left, the set unlocked.\<close>

definition torn_down :: "world \<Rightarrow> bool" where
  "torn_down w \<longleftrightarrow> \<not> se_locked w \<and> (\<forall>i < length (se_subjects w).
     \<not> g_open (sb_Gate (sub w i)) \<and> g_down (sb_Gate (sub w i)) \<and> route_Status (route_at w i) = StatusStopped
     \<and> \<not> (sb_Browser (sub w i) \<and> se_alive w i))"

lemma shutdown_one_frame:
  assumes "shutdown_one i w = (u, w')" "i < length (se_subjects w)"
  shows "sub w' j = (if j = i then with_gate gate_Shutdown (sub w i) else sub w j)"
    "length (se_subjects w') = length (se_subjects w)" "se_alive w' = se_alive w" "se_closed w' = se_closed w"
    "se_routes w' r = (if r = sb_Route (sub w i) then route_Stop (se_routes w r) else se_routes w r)"
  using assms by (auto simp: shutdown_one_def on_gate_def sub_set_sub_if simp del: set_sub_simps(10))

definition stopped_at :: "world \<Rightarrow> nat \<Rightarrow> bool" where
  "stopped_at w i \<longleftrightarrow> \<not> g_open (sb_Gate (sub w i)) \<and> g_down (sb_Gate (sub w i)) \<and> route_Status (route_at w i) = StatusStopped"

lemma shutdown_one_stops:
  assumes "shutdown_one i w = (u, w')" "i < length (se_subjects w)"
  shows "stopped_at w' i" "stopped_at w j \<Longrightarrow> stopped_at w' j"
    "sb_Browser (sub w' j) = sb_Browser (sub w j)"
  using shutdown_one_frame [OF assms]
  by (auto simp: stopped_at_def route_at_def with_gate_def gate_Shutdown_def)

lemma over_shutdown:
  assumes "over shutdown_one is w = (us, w')" "\<forall>i \<in> set is. i < length (se_subjects w)"
  shows "(\<forall>i. i \<in> set is \<or> stopped_at w i \<longrightarrow> stopped_at w' i) \<and> length (se_subjects w') = length (se_subjects w)
    \<and> se_alive w' = se_alive w \<and> se_closed w' = se_closed w \<and> (\<forall>j. sb_Browser (sub w' j) = sb_Browser (sub w j))"
  using assms
proof (induction "is" arbitrary: w us)
  case (Cons i "is")
  obtain u w1 where f: "shutdown_one i w = (u, w1)" by (metis prod.exhaust)
  obtain vs where o: "over shutdown_one is w1 = (vs, w')" using Cons.prems(1) by (auto simp: f split: prod.splits)
  have i: "i < length (se_subjects w)" using Cons.prems(2) by simp
  show ?case
    using Cons.IH [OF o] Cons.prems(2) shutdown_one_frame(2-4) [OF f i] shutdown_one_stops [OF f i]
    by auto
qed simp

lemma abort_torn_down:
  assumes "\<not> se_closed w"
  shows "torn_down (abort w)" "se_closed (abort w)" "length (se_subjects (abort w)) = length (se_subjects w)"
proof -
  define w1 where "w1 = kill_browsers (close_gates (w\<lparr>se_closed := True\<rparr>))"
  obtain us w2 where o: "over shutdown_one (indices w1) w1 = (us, w2)" by (metis prod.exhaust)
  have a: "abort w = unlock w2" using assms by (simp add: abort_def Let_def w1_def [symmetric] o)
  have l: "length (se_subjects w1) = length (se_subjects w)" "se_closed w1"
    by (simp_all add: w1_def kill_browsers_def close_gates_def)
  have sh: "\<forall>i < length (se_subjects w). stopped_at w2 i" "length (se_subjects w2) = length (se_subjects w)"
      "se_alive w2 = se_alive w1" "se_closed w2" "\<forall>j. sb_Browser (sub w2 j) = sb_Browser (sub w1 j)"
    using over_shutdown [OF o] l by (auto simp: indices_def)
  have dead: "\<not> (sb_Browser (sub w1 i) \<and> se_alive w1 i)" if "i < length (se_subjects w)" for i
    using that by (auto simp: w1_def kill_browsers_def close_gates_def sub_def)
  have f: "sub (unlock w2) i = sub w2 i" "route_at (unlock w2) i = route_at w2 i" "se_alive (unlock w2) = se_alive w2"
      "se_subjects (unlock w2) = se_subjects w2" "se_closed (unlock w2) = se_closed w2" "\<not> se_locked (unlock w2)" for i
    by (simp_all add: unlock_def sub_def route_at_def)
  show "torn_down (abort w)"
    using sh dead by (simp add: a torn_down_def f stopped_at_def)
  show "se_closed (abort w)" "length (se_subjects (abort w)) = length (se_subjects w)"
    using sh by (simp_all add: a f)
qed

lemma Shutdown_torn_down: "\<not> se_closed w \<Longrightarrow> torn_down (Shutdown w)"
  using abort_torn_down(1) [of "kill_browsers w"] by (simp add: Shutdown_def kill_browsers_def)

end
