(* ===== verification/Startup.thy ===== *)
theory Startup
  imports Session_Steps
begin

text \<open>
  The startup sequence as a whole (\<open>Run\<close> in \<open>src/controller/startup/session.go\<close>): its two outcomes,
  and the properties of the session's lifecycle.
\<close>

section \<open>Startup\<close>

text \<open>What holds after \<open>Run\<close>: a teardown, or a verified session.\<close>

definition ready :: "VOptions \<Rightarrow> world \<Rightarrow> bool" where
  "ready o' w \<longleftrightarrow> world_ok w \<and> everyone live w \<and> everyone (settled o') w \<and> separated o' (se_subjects w)
     \<and> se_subjects w \<noteq> []"

lemma parallel_over: "parallel f w = (e, w') \<Longrightarrow> \<exists>es. over f (indices w) w = (es, w') \<and> e = first_error es"
  by (auto simp: parallel_def apfst_def map_prod_def split: prod.splits)

lemma run_browsers_ok:
  assumes w: "world_ok w" "everyone up w" "\<not> se_closed w" and r: "run_browsers env cfg o' w = (res, w')"
  shows "case res of Inl e \<Rightarrow> se_subjects w = [] \<or> torn_down w'
    | Inr m \<Rightarrow> ready o' w' \<and> idents w' = idents w \<and> \<not> se_closed w'"
proof -
  obtain e w1 where l: "parallel (launch env) w = (e, w1)" by (metis prod.exhaust)
  obtain es where es: "over (launch env) (indices w) w = (es, w1)" "e = first_error es"
    using parallel_over [OF l] by blast
  note k = la.all_kept [OF es(1) w(1)]
  have k1: "kept w w1" using k by (simp add: kept_def)
  have lv: "everyone live w1" if "e = None"
    unfolding everyone_def
  proof (intro allI impI)
    fix i assume i: "i < length (se_subjects w1)"
    have "es ! i = None \<longrightarrow> live (loc w1 i)"
      by (rule la.all_post [OF es(1) w(1), where P = up and R = "\<lambda>e l. e = None \<longrightarrow> live l"])
        (use launch_ok w(2) i k(6) in \<open>auto simp: everyone_def\<close>)
    then show "live (loc w1 i)" using es(2) that k(5,6) i by (metis first_error_None nth_mem)
  qed
  obtain passed w2 where v: "verifyAll env o' w1 = (passed, w2)" by (metis prod.exhaust)
  show ?thesis
  proof (cases "e = None \<and> se_subjects w1 \<noteq> []")
    case False
    then show ?thesis
      using r l w(3) k(3,6) abort_torn_down(1) [of w1] by (auto simp: run_browsers_def split: option.splits)
  next
    case True
    then have va: "kept w1 w2" "everyone live w2" "passed \<longrightarrow> everyone (settled o') w2 \<and> separated o' (se_subjects w2)"
      using verifyAll_ok [OF k(1) _ v] lv by auto
    have fs: "similar w2 (finish_all w2)"
      by (simp add: similar_def finish_all_def Finish_def sub_def like_def bound_def)
    define w3 where "w3 = finish_all w2"
    have k3: "kept w w3" using kept_trans [OF k1 kept_trans [OF va(1) similar_kept [OF fs]]] kept_ok [OF va(1)]
      by (simp add: w3_def)
    have c3: "\<not> se_closed w3" using k3 w(3) by (simp add: kept_def)
    have rd3: "ready o' w3" if passed
      using that va similar_live [OF fs] similar_settled [OF fs] similar_separated [OF fs] kept_ok [OF k3]
        kept_length [OF k3] k(6) True by (auto simp: ready_def w3_def [symmetric])
    obtain cs w4 where o9: "over (V9 env o' (cf_StartupURL cfg)) (indices w3) w3 = (cs, w4)" by (metis prod.exhaust)
    have s4: "similar w3 w4"
      by (rule over_similar [OF _ o9 _ refl]) (use V9_similar in \<open>auto simp: indices_def\<close>)
    have k4: "kept w w4" using kept_trans [OF k3 similar_kept [OF s4]] kept_ok [OF k3] by simp
    have c4: "\<not> se_closed w4" using k4 w(3) by (simp add: kept_def)
    have rd4: "ready o' w4" if "ready o' w3"
      using that similar_live [OF s4] similar_settled [OF s4] similar_separated [OF s4] kept_ok [OF k4]
        kept_length [OF k3] kept_length [OF k4] by (auto simp: ready_def)
    have "(res, w') = (if \<not> passed then (Inl VerificationFailed, abort w3)
        else if cf_StartupURL cfg = [] then (Inr (session_monitor cfg), w3)
        else if all_passed cs then (Inr (session_monitor cfg), w4) else (Inl VerificationFailed, abort w4))"
      using r True by (auto simp: run_browsers_def l v Let_def w3_def [symmetric] o9 split: if_splits)
    then show ?thesis
      using rd3 rd4 abort_torn_down(1) c3 c4 k3 k4 by (auto simp: kept_def split: if_splits)
  qed
qed

lemma host_options_kept: "world_ok w \<Longrightarrow> host_options env cfg w = (o', w') \<Longrightarrow> kept w w'"
  by (auto simp: host_options_def Let_def kept_def world_ok_def idents_def sub_def split: if_splits prod.splits)

lemma separateSharedExits_ok:
  assumes "world_ok w" "separateSharedExits env o' w = (e, w')"
  shows "kept w w' \<and> (e = None \<longrightarrow> everyone up w \<longrightarrow> everyone up w')"
  using assms separate_loop_ok [of w env o' "[]" e w'] kept_refl by (auto simp: separateSharedExits_def split: if_splits)

lemma run_routes_ok:
  assumes w: "world_ok w" "\<not> se_closed w" and r: "run_routes env cfg w = (res, w')"
  shows "case res of Inl e \<Rightarrow> se_subjects w = [] \<or> torn_down w'
    | Inr m \<Rightarrow> ready (fst (host_options env cfg w)) w' \<and> idents w' = idents w \<and> \<not> se_closed w'"
proof -
  obtain o' w1 where h: "host_options env cfg w = (o', w1)" by (metis prod.exhaust)
  have k1: "kept w w1" using host_options_kept [OF w(1) h] .
  obtain e w2 where b: "parallel (bringUpRoute env o') w1 = (e, w2)" by (metis prod.exhaust)
  obtain es where es: "over (bringUpRoute env o') (indices w1) w1 = (es, w2)" "e = first_error es"
    using parallel_over [OF b] by blast
  note k = bu.all_kept [OF es(1) kept_ok [OF k1]]
  have k2: "kept w w2" using kept_trans [OF k1] k by (simp add: kept_def)
  have up: "everyone up w2" if "e = None"
    unfolding everyone_def
  proof (intro allI impI)
    fix i assume i: "i < length (se_subjects w2)"
    have "es ! i = None \<longrightarrow> up (loc w2 i)"
      by (rule bu.all_post [OF es(1) kept_ok [OF k1], where P = "\<lambda>_. True" and R = "\<lambda>e l. e = None \<longrightarrow> up l"])
        (use bringUpRoute_ok i k(6) in auto)
    then show "up (loc w2 i)" using es(2) that k(5,6) i by (metis first_error_None nth_mem)
  qed
  obtain e3 w3 where s: "separateSharedExits env o' w2 = (e3, w3)" by (metis prod.exhaust)
  note s3 = separateSharedExits_ok [OF kept_ok [OF k2] s]
  have k3: "kept w w3" using kept_trans [OF k2] s3 by blast
  have c: "\<not> se_closed w2" "\<not> se_closed w3" using k2 k3 w(2) by (simp_all add: kept_def)
  show ?thesis
  proof (cases "e = None \<and> e3 = None")
    case False
    then show ?thesis
      using r c abort_torn_down(1) by (auto simp: run_routes_def h b s split: option.splits)
  next
    case True
    then have rb: "run_browsers env cfg o' w3 = (res, w')" using r by (simp add: run_routes_def h b s)
    have u3: "everyone up w3" using s3 up True by blast
    show ?thesis
      using run_browsers_ok [OF kept_ok [OF k3] u3 c(2) rb] k3 kept_length [OF k3] h by (auto simp: kept_def split: sum.splits)
  qed
qed

lemma alloc_all_refs:
  "alloc_all rs w = (refs, w') \<Longrightarrow> refs = [se_fresh w..<se_fresh w + length rs] \<and> se_fresh w' = se_fresh w + length rs
     \<and> se_subjects w' = se_subjects w \<and> se_closed w' = se_closed w"
proof (induction rs arbitrary: w refs)
  case (Cons r rs)
  obtain refs' where a: "alloc_all rs (snd (alloc r w)) = (refs', w')" "refs = se_fresh w # refs'"
    using Cons.prems by (auto simp: alloc_def split: prod.splits)
  from Cons.IH [OF a(1)] a(2) show ?case by (simp add: upt_conv_Cons del: upt_Suc)
qed auto

definition seated :: "nat list \<Rightarrow> subject \<Rightarrow> bool" where
  "seated refs s \<longleftrightarrow> 1 \<le> id_RouteSlot (sb_Identity s) \<and> id_RouteSlot (sb_Identity s) \<le> int (length refs)
     \<and> sb_Route s = refs ! nat (id_RouteSlot (sb_Identity s) - 1) \<and> g_route (sb_Gate s) = sb_Route s"

lemma make_subjects_ok:
  "make_subjects env refs ids w = (e, w') \<Longrightarrow> se_fresh w' = se_fresh w \<and> se_closed w' = se_closed w
   \<and> (e = None \<longrightarrow> (\<exists>ss. se_subjects w' = se_subjects w @ ss \<and> map sb_Identity ss = ids \<and> list_all (seated refs) ss))"
proof (induction env refs ids w rule: make_subjects.induct)
  case (2 env refs ident ids w)
  let ?k = "id_RouteSlot ident - 1"
  let ?ref = "refs ! nat ?k"
  show ?case
  proof (cases "?k \<ge> int (length refs) \<or> ?k < 0 \<or> isl (pe_bind (ask env w))")
    case True
    then show ?thesis using 2(2) by (auto simp: Let_def gate_Listen_def split: if_splits sum.splits)
  next
    case False
    then obtain p where p: "pe_bind (ask env w) = Inr p" by (cases "pe_bind (ask env w)") auto
    define s where "s = new_subject ident ?ref ((NewGate ?ref)\<lparr>g_port := Some p\<rparr>)"
    have m: "make_subjects env refs ids (tick (w\<lparr>se_subjects := se_subjects w @ [s]\<rparr>)) = (e, w')"
      using 2(2) False p by (simp add: Let_def gate_Listen_def s_def)
    have s: "sb_Identity s = ident" "seated refs s"
      using False by (auto simp: s_def new_subject_def NewGate_def seated_def)
    have ih: "se_fresh w' = se_fresh w \<and> se_closed w' = se_closed w \<and> (e = None \<longrightarrow>
        (\<exists>ss. se_subjects w' = (se_subjects w @ [s]) @ ss \<and> map sb_Identity ss = ids \<and> list_all (seated refs) ss))"
      using 2(1) [OF refl _ _ refl _ _ m [unfolded s_def]] False p by (simp add: gate_Listen_def s_def)
    show ?thesis
    proof (intro conjI impI)
      assume "e = None"
      with ih obtain ss where "se_subjects w' = (se_subjects w @ [s]) @ ss" "map sb_Identity ss = ids" "list_all (seated refs) ss"
        by blast
      then show "\<exists>ss. se_subjects w' = se_subjects w @ ss \<and> map sb_Identity ss = ident # ids \<and> list_all (seated refs) ss"
        using s by (intro exI [of _ "s # ss"]) simp
    qed (use ih in auto)
  qed
qed auto

definition slots_ok :: "identity list \<Rightarrow> bool" where
  "slots_ok ids \<longleftrightarrow> distinct (map id_RouteSlot ids) \<and> (\<forall>i \<in> set ids. 1 \<le> id_RouteSlot i)"

lemma make_subjects_world_ok:
  assumes a: "alloc_all rs w = (refs, w1)" and m: "make_subjects env refs ids w1 = (None, w2)"
    and e: "se_subjects w = []" and d: "slots_ok ids"
  shows "world_ok w2" "idents w2 = ids"
proof -
  note al = alloc_all_refs [OF a]
  obtain ss where ss: "se_subjects w2 = ss" "map sb_Identity ss = ids"
      "list_all (seated refs) ss"
    and fr: "se_fresh w2 = se_fresh w1"
    using make_subjects_ok [OF m] al e by auto
  show "idents w2 = ids" by (simp add: idents_def ss)
  have ref: "sb_Route s = se_fresh w + nat (id_RouteSlot (sb_Identity s) - 1)
      \<and> nat (id_RouteSlot (sb_Identity s) - 1) < length rs \<and> g_route (sb_Gate s) = sb_Route s
      \<and> 1 \<le> id_RouteSlot (sb_Identity s)" if "s \<in> set ss" for s
    using ss(3) that al by (auto simp: nat_less_iff seated_def list_all_iff)
  have slot: "id_RouteSlot (sb_Identity (ss ! i)) \<noteq> id_RouteSlot (sb_Identity (ss ! j))"
    if "i < length ss" "j < length ss" "i \<noteq> j" for i j
    using d that unfolding slots_ok_def ss(2) [symmetric] by (simp add: distinct_conv_nth)
  show "world_ok w2"
    unfolding world_ok_def sub_def ss(1)
  proof (intro conjI allI impI)
    fix i assume "i < length ss"
    then have "ss ! i \<in> set ss" by simp
    from ref [OF this] al fr show "g_route (sb_Gate (ss ! i)) = sb_Route (ss ! i)" "sb_Route (ss ! i) < se_fresh w2" by auto
  next
    fix i j assume ij: "i < length ss" "j < length ss" "i \<noteq> j"
    then have "ss ! i \<in> set ss" "ss ! j \<in> set ss" by simp_all
    from ref [OF this(1)] ref [OF this(2)] slot [OF ij] show "sb_Route (ss ! i) \<noteq> sb_Route (ss ! j)" by auto
  qed
qed

lemma prov_Provision_frame:
  "prov_Provision env n p w = (res, w') \<Longrightarrow> se_subjects w' = se_subjects w \<and> se_closed w' = se_closed w"
  by (auto simp: prov_Provision_def split: Provisioner.splits prod.splits)

lemma make_subjects_no_panic:
  "make_subjects env refs ids w = (e, w') \<Longrightarrow> \<forall>i \<in> set ids. 1 \<le> id_RouteSlot i \<Longrightarrow> e \<noteq> Some Panicked"
  by (induction env refs ids w rule: make_subjects.induct)
    (auto simp: Let_def gate_Listen_def split: if_splits sum.splits)

lemma Run_ok:
  assumes w0: "se_subjects w0 = []" "\<not> se_closed w0" "slots_ok ids" "ids \<noteq> []" and r: "Run env cfg ids prov w0 = (res, w')"
  shows "case res of Inl e \<Rightarrow> torn_down w'
    | Inr m \<Rightarrow> (\<exists>w3. ready (fst (host_options env cfg w3)) w') \<and> idents w' = ids \<and> \<not> se_closed w'"
proof -
  define w where "w = w0\<lparr>se_prov := Some prov\<rparr>"
  have w: "se_subjects w = []" "\<not> se_closed w" using w0 by (simp_all add: w_def)
  obtain pr w1 where p: "prov_Provision env (int (length ids)) prov (tick w) = (pr, w1)" by (metis prod.exhaust)
  have w1: "se_subjects w1 = []" "\<not> se_closed w1" using prov_Provision_frame [OF p] w by auto
  show ?thesis
  proof (cases "pe_find (ask env w)")
    case (Some m)
    then have "res = Inl (BrowserFailed m) \<and> w' = unlock (tick w)"
      using r by (simp add: Run_def Let_def w_def)
    then show ?thesis using w by (simp add: torn_down_def unlock_def)
  next
    case None
    show ?thesis
    proof (cases pr)
      case (Inl m)
      then have "res = Inl (RouteFailed m) \<and> w' = abort w1"
        using r None p by (simp add: Run_def Let_def w_def [symmetric])
      then show ?thesis using abort_torn_down(1) [OF w1(2)] by simp
    next
      case (Inr rs)
      obtain refs w2 where a: "alloc_all rs w1 = (refs, w2)" by (metis prod.exhaust)
      obtain e w3 where m: "make_subjects env refs ids w2 = (e, w3)" by (metis prod.exhaust)
      have c3: "\<not> se_closed w3" using make_subjects_ok [OF m] alloc_all_refs [OF a] w1 by simp
      have no_panic: "e \<noteq> Some Panicked" using make_subjects_no_panic [OF m] w0(3) by (auto simp: slots_ok_def)
      have eq: "Run env cfg ids prov w0 = (case e of Some Panicked \<Rightarrow> (Inl Panicked, w3)
          | Some x \<Rightarrow> (Inl x, abort w3) | None \<Rightarrow> run_routes env cfg w3)"
        using None p Inr a m by (simp add: Run_def Let_def w_def [symmetric] split: option.splits run_err.splits)
      show ?thesis
      proof (cases e)
        case (Some x)
        then show ?thesis
          using r eq abort_torn_down(1) [OF c3] no_panic by (cases x) auto
      next
        case None
        note m' = make_subjects_world_ok [OF a m [unfolded None] w1(1) w0(3)]
        have rr: "run_routes env cfg w3 = (res, w')" using r eq None by simp
        show ?thesis
          using run_routes_ok [OF m'(1) c3 rr] m'(2) w0(4) by (auto simp: idents_def split: sum.splits)
      qed
    qed
  qed
qed

section \<open>Properties\<close>


definition sample_penv :: penv where
  "sample_penv = \<lparr>pe_net = sample_net\<lparr>n_tcp := (\<lambda>_. Inr sample_client)\<rparr>, pe_get = (\<lambda>_ _. Inr (200, ''1.2.3.4'')),
     pe_addr = (\<lambda>_. ''a:80''), pe_unmarshal = (\<lambda>_. None), pe_denv = sample_denv, pe_now = 0,
     pe_direct = (\<lambda>_. Inr (200, ''9.9.9.9'')), pe_elapsed = 0, pe_find = None, pe_bind = Inr 9,
     pe_launch = None, pe_firstPage = None, pe_newPage = None,
     pe_nav = (\<lambda>_. sample_nav [] [(1, sample_client)]), pe_body = Inr ''1.2.3.4'',
     pe_storage = \<lparr>so_profileA = ''a'', so_profileB = ''b'', so_navA = sample_nav [] [], so_navB = sample_nav [] [],
       so_setCookie = None, so_setItem = None, so_cookies = Inr [], so_getB = Inr None, so_getA = Some ''1''\<rparr>,
     pe_failclosed = sample_v7, pe_samples = [Inr []], pe_name = ''tr'', pe_endpoints = Inr []\<rparr>"

definition sample_cfg :: SConfig where
  "sample_cfg = \<lparr>cf_IPEchoURL = ''https://a'', cf_IPv6EchoURL = [], cf_StorageOrigin = [], cf_CompareHostIP = True,
     cf_HostEchoURL = ''https://h'', cf_HostEchoURLv6 = [], cf_IPv6 = False, cf_TimeoutSeconds = 20,
     cf_StartupURL = ''https://a'', cf_ProbeIntervalSeconds = 10, cf_IPCheckIntervalSeconds = 60,
     cf_hostOf = (\<lambda>_. ''a''), cf_cacheBust = id, cf_unmarshal = (\<lambda>_. None)\<rparr>"

definition sample_def :: RouteDef where
  "sample_def = \<lparr>rd_ID = ''r1'', rd_Type = ''http'', rd_Address = ''p:1'', rd_Username = [], rd_Password = [],
     rd_PasswordEnv = [], rd_PrivateKey = [], rd_PeerPublicKey = [], rd_LocalAddress = [], rd_LocalAddress6 = [],
     rd_DNS = [], rd_MTU = 0\<rparr>"

definition sample_ident :: "int \<Rightarrow> identity" where
  "sample_ident i = \<lparr>id_ID = ''i'', id_Index = i, id_RouteSlot = i, id_Created = 0,
     id_Environment = sample_environment, id_Dir = ''d'', id_Profile = ''p'', id_JustCreated = False\<rparr>"

definition sample_world :: world where
  "sample_world = \<lparr>se_routes = (\<lambda>_. sample_wg), se_fresh = 0, se_subjects = [], se_prov = None,
     se_dworld = sample_dworld, se_tick = 0, se_alive = (\<lambda>_. False), se_closed = False, se_locked = True,
     se_finalURL = (\<lambda>_. []), se_hostIPv4 = [], se_hostIPv6 = []\<rparr>"

definition sample_startup :: "(run_err + monitor) \<times> world" where
  "sample_startup = Run (\<lambda>_. sample_penv) sample_cfg [sample_ident 1] (Static [sample_def]) sample_world"



definition sample_pair :: world where
  "sample_pair = sample_world\<lparr>se_fresh := 2, se_prov := Some (DecodoP sample_decodo), se_subjects :=
     [(new_subject (sample_ident 1) 0 (NewGate 0))\<lparr>sb_RouteIP := Some (v4InV6Prefix @ [1, 2, 3, 4])\<rparr>,
      (new_subject (sample_ident 2) 1 (NewGate 1))\<lparr>sb_RouteIP := Some (v4InV6Prefix @ [1, 2, 3, 5])\<rparr>]\<rparr>"


text \<open>
  C14: Teardown. \<open>abort\<close> and \<open>Shutdown\<close> of an open session leave every gate closed and shut down, every
  route stopped, no browser running and the identity set unlocked, and repeating either changes
  nothing.
\<close>

theorem session_teardown:
  assumes "\<not> se_closed w"
  shows "\<forall>w' \<in> {abort w, Shutdown w}. \<not> se_locked w' \<and> length (se_subjects w') = length (se_subjects w)
      \<and> (\<forall>i < length (se_subjects w'). \<not> g_open (sb_Gate (sub w' i)) \<and> g_down (sb_Gate (sub w' i))
           \<and> route_Status (route_at w' i) = StatusStopped)
      \<and> AllBrowsersExited w' \<and> abort w' = w' \<and> Shutdown w' = w'"
proof -
  have k: "\<not> se_closed (kill_browsers w)" "length (se_subjects (kill_browsers w)) = length (se_subjects w)"
    using assms by (simp_all add: kill_browsers_def)
  have idem: "se_closed w' \<Longrightarrow> abort w' = w' \<and> Shutdown w' = w'" for w' by (simp add: abort_def Shutdown_def)
  show ?thesis
    using abort_torn_down [OF assms] abort_torn_down [OF k(1)] idem k(2) assms
    by (auto simp: Shutdown_def torn_down_def AllBrowsersExited_def)
qed

theorem session_teardown_witness:
  "\<not> se_closed sample_world \<and> \<not> se_locked (Shutdown sample_world)"
  using session_teardown [of sample_world] by (simp add: sample_world_def)

end
