(* ===== verification/Config.thy ===== *)
theory Config
  imports Environment Route
begin

text \<open>
  Configuration (\<open>src/controller/config/config.go\<close>): defaults, the merge of \<open>config.toml\<close>, the command
  line and the environment, validation, the environment of a new identity, and \<open>routes.toml\<close>.

  The TOML decoder is a third-party package and a parameter: it takes the text and the configuration
  decoded into. So are the answers of the file system and \<open>url.Parse\<close>, of which the code looks at the
  scheme and the host. \<open>Load\<close> returns \<open>cfg\<close> and \<open>cfg.Validate()\<close> in one statement; as with the Go compiler,
  the configuration returned is the one \<open>Validate\<close> has completed.
\<close>

section \<open>Data\<close>

definition MaxIdentities :: int where "MaxIdentities = 2"

record VerifyConfig =
  vc_IPEchoURL :: string
  vc_IPv6EchoURL :: string
  vc_HostEchoURL :: string
  vc_HostEchoURLv6 :: string
  vc_CompareHostIP :: bool
  vc_StorageOrigin :: string
  vc_TimeoutSeconds :: int

record HealthConfig =
  hc_ProbeIntervalSeconds :: int
  hc_IPCheckIntervalSeconds :: int

record RoutingConfig =
  rc_Provider :: string
  rc_Country :: string
  rc_SessionMinutes :: int
  rc_Host :: string
  rc_Port :: int

record EnvironmentConfig =
  ec_Locale :: string
  ec_Timezone :: string
  ec_Window :: string
  ec_DeviceScaleFactor :: float64
  ec_ColorScheme :: string

record config =
  cg_Identities :: int
  cg_StartupURL :: string
  cg_PersistentIdentities :: bool
  cg_FailClosed :: bool
  cg_IPv6 :: bool
  cg_Headless :: bool
  cg_Verify :: VerifyConfig
  cg_Health :: HealthConfig
  cg_Routing :: RoutingConfig
  cg_ActivationServer :: string
  cg_Environment :: EnvironmentConfig
  cg_Identity :: "(int \<times> EnvironmentConfig) list"
  cg_DataDir :: string
  cg_ConfigPath :: string
  cg_RoutesPath :: string
  cg_Fresh :: bool

record Overrides =
  ov_Identities :: int
  ov_URL :: string
  ov_URLSet :: bool
  ov_Fresh :: bool
  ov_Headless :: bool
  ov_DataDir :: string
  ov_ConfigPath :: string
  ov_RoutesPath :: string

datatype file_read = NotExist | ReadError gerr | Contents string

record cfgenv =
  ce_getenv :: "string \<Rightarrow> string"
  ce_dataDir :: "string result"
  ce_read :: "string \<Rightarrow> file_read"
  ce_toml :: "string \<Rightarrow> config \<Rightarrow> gerr option \<times> config"
  ce_url :: "string \<Rightarrow> (string \<times> string) result"

definition DecodoSelected :: "config \<Rightarrow> bool" where
  "DecodoSelected c = EqualFold (TrimSpace (rc_Provider (cg_Routing c))) ''decodo''"

definition zero_EnvironmentConfig :: EnvironmentConfig where
  "zero_EnvironmentConfig = \<lparr>ec_Locale = [], ec_Timezone = [], ec_Window = [],
     ec_DeviceScaleFactor = Dyadic 0 0, ec_ColorScheme = []\<rparr>"

definition Defaults :: config where
  "Defaults = \<lparr>cg_Identities = 2, cg_StartupURL = [], cg_PersistentIdentities = True, cg_FailClosed = True,
     cg_IPv6 = True, cg_Headless = False,
     cg_Verify = \<lparr>vc_IPEchoURL = ''https://api.ipify.org?format=json'',
       vc_IPv6EchoURL = ''https://api6.ipify.org?format=json'', vc_HostEchoURL = [], vc_HostEchoURLv6 = [],
       vc_CompareHostIP = True, vc_StorageOrigin = [], vc_TimeoutSeconds = 20\<rparr>,
     cg_Health = \<lparr>hc_ProbeIntervalSeconds = 10, hc_IPCheckIntervalSeconds = 60\<rparr>,
     cg_Routing = \<lparr>rc_Provider = [], rc_Country = [], rc_SessionMinutes = 0, rc_Host = [], rc_Port = 0\<rparr>,
     cg_ActivationServer = [], cg_Environment = zero_EnvironmentConfig, cg_Identity = [],
     cg_DataDir = [], cg_ConfigPath = [], cg_RoutesPath = [], cg_Fresh = False\<rparr>"

section \<open>Environments of new identities\<close>

text \<open>
  \<open>fmt.Sscanf\<close> of a \<open>%d\<close>: blanks, a sign, and a run of digits and underscores that \<open>strconv.ParseInt\<close>
  accepts, which it does when there is no underscore and the number fits 64 bits.
\<close>

definition blank :: "char \<Rightarrow> bool" where
  "blank c = (is_space c \<and> c \<noteq> CHR 0x0A)"

definition scan_sign :: "string \<Rightarrow> int \<times> string" where
  "scan_sign s = (case s of
      c # r \<Rightarrow> if c = CHR ''-'' then (-1, r) else if c = CHR ''+'' then (1, r) else (1, s)
    | [] \<Rightarrow> (1, s))"

definition scan_int :: "string \<Rightarrow> (int \<times> string) option" where
  "scan_int s =
    (case scan_sign (dropWhile blank s) of (sg, r) \<Rightarrow>
      (let tok = takeWhile (\<lambda>c. is_digit c \<or> c = CHR ''_'') r; v = sg * int (digits_val tok) in
       if tok = [] \<or> CHR ''_'' \<in> set tok \<or> v < - (2 ^ 63) \<or> v \<ge> 2 ^ 63 then None
       else Some (v, dropWhile (\<lambda>c. is_digit c \<or> c = CHR ''_'') r)))"

definition parseWindow :: "string \<Rightarrow> (int \<times> int) result" where
  "parseWindow s =
    (let err = Inl (''environment.window '' @ Quote s @ '' must look like 1280x860'') in
     if s = [] then Inr (0, 0)
     else case scan_int (ToLower s) of
         None \<Rightarrow> err
       | Some (w, r) \<Rightarrow> (case r of
           [] \<Rightarrow> err
         | c # r' \<Rightarrow> if c \<noteq> CHR ''x'' then err
             else case scan_int r' of None \<Rightarrow> err | Some (h, _) \<Rightarrow> Inr (w, h)))"

definition override_env :: "EnvironmentConfig \<Rightarrow> EnvironmentDefaults \<Rightarrow> EnvironmentDefaults result" where
  "override_env o' d =
    (let d1 = \<lparr>ed_Locale = (if ec_Locale o' \<noteq> [] then ec_Locale o' else ed_Locale d),
               ed_Timezone = (if ec_Timezone o' \<noteq> [] then ec_Timezone o' else ed_Timezone d),
               ed_WindowWidth = ed_WindowWidth d, ed_WindowHeight = ed_WindowHeight d,
               ed_DeviceScaleFactor = (if \<not> f64_zero (ec_DeviceScaleFactor o') then ec_DeviceScaleFactor o'
                                       else ed_DeviceScaleFactor d),
               ed_ColorScheme = (if ec_ColorScheme o' \<noteq> [] then ec_ColorScheme o' else ed_ColorScheme d)\<rparr> in
     if ec_Window o' = [] then Inr d1
     else case parseWindow (ec_Window o') of
         Inl e \<Rightarrow> Inl e
       | Inr (w, h) \<Rightarrow> Inr (d1\<lparr>ed_WindowWidth := w, ed_WindowHeight := h\<rparr>))"

fun override_all :: "int \<Rightarrow> (int \<times> EnvironmentConfig) list \<Rightarrow> EnvironmentDefaults \<Rightarrow> EnvironmentDefaults result" where
  "override_all index [] d = Inr d"
| "override_all index ((k, o') # os) d =
    (if k \<noteq> index then override_all index os d
     else case override_env o' d of Inl e \<Rightarrow> Inl e | Inr d1 \<Rightarrow> override_all index os d1)"

definition EnvironmentFor :: "hostenv \<Rightarrow> config \<Rightarrow> int \<Rightarrow> Environment result" where
  "EnvironmentFor h c index =
    (let ec = cg_Environment c in
     case parseWindow (ec_Window ec) of
       Inl e \<Rightarrow> Inl e
     | Inr (w, ht) \<Rightarrow>
        (case override_all index (cg_Identity c)
            \<lparr>ed_Locale = ec_Locale ec, ed_Timezone = ec_Timezone ec, ed_WindowWidth = w, ed_WindowHeight = ht,
             ed_DeviceScaleFactor = ec_DeviceScaleFactor ec, ed_ColorScheme = ec_ColorScheme ec\<rparr> of
           Inl e \<Rightarrow> Inl e
         | Inr d \<Rightarrow>
            (let env = NewEnvironment h index d in
             case Environment_Validate h env of
               Some e \<Rightarrow> Inl (''identity '' @ fmt03d index @ '': '' @ e)
             | None \<Rightarrow> Inr env)))"

section \<open>Validation and loading\<close>

definition ValidateURL :: "(string \<Rightarrow> (string \<times> string) result) \<Rightarrow> string \<Rightarrow> gerr option" where
  "ValidateURL parse raw = (case parse raw of
      Inl e \<Rightarrow> Some (''invalid URL '' @ Quote raw @ '': '' @ e)
    | Inr (scheme, host) \<Rightarrow>
        if scheme \<noteq> ''http'' \<and> scheme \<noteq> ''https'' then
          Some (''invalid URL '' @ Quote raw @ '': scheme must be http or https'')
        else if host = [] then Some (''invalid URL '' @ Quote raw @ '': missing host'')
        else None)"

definition fill_verify :: "VerifyConfig \<Rightarrow> VerifyConfig" where
  "fill_verify v = v\<lparr>vc_TimeoutSeconds := (if vc_TimeoutSeconds v \<le> 0 then 20 else vc_TimeoutSeconds v),
     vc_HostEchoURL := (if vc_HostEchoURL v = [] then vc_IPEchoURL v else vc_HostEchoURL v),
     vc_HostEchoURLv6 := (if vc_HostEchoURLv6 v = [] then vc_IPv6EchoURL v else vc_HostEchoURLv6 v)\<rparr>"

definition fill_health :: "HealthConfig \<Rightarrow> HealthConfig" where
  "fill_health hc = \<lparr>hc_ProbeIntervalSeconds = (if hc_ProbeIntervalSeconds hc \<le> 0 then 10 else hc_ProbeIntervalSeconds hc),
     hc_IPCheckIntervalSeconds = (if hc_IPCheckIntervalSeconds hc \<le> 0 then 60 else hc_IPCheckIntervalSeconds hc)\<rparr>"

definition too_many :: "int \<Rightarrow> gerr" where
  "too_many n = ''identities='' @ Itoa n @ '' exceeds the current cap of '' @ Itoa MaxIdentities
     @ '' (the 2-identity milestone must pass its isolation suite before the cap is lifted; see docs/ENGINEERING_PLAN.md M9)''"

definition startup_url_error :: "(string \<Rightarrow> (string \<times> string) result) \<Rightarrow> config \<Rightarrow> gerr option" where
  "startup_url_error parse c = (if cg_StartupURL c = [] then None else ValidateURL parse (cg_StartupURL c))"

definition Config_Validate :: "(string \<Rightarrow> (string \<times> string) result) \<Rightarrow> config \<Rightarrow> gerr option \<times> config" where
  "Config_Validate parse c =
    (if cg_Identities c < 1 then (Some ''identities must be at least 1'', c)
     else if cg_Identities c > MaxIdentities then (Some (too_many (cg_Identities c)), c)
     else if \<not> cg_FailClosed c then (Some ''fail_closed=false is not supported in v0.1'', c)
     else case startup_url_error parse c of
         Some e \<Rightarrow> (Some e, c)
       | None \<Rightarrow>
          if vc_IPEchoURL (cg_Verify c) = [] then (Some ''verify.ip_echo_url is required'', c)
          else (None, c\<lparr>cg_Verify := fill_verify (cg_Verify c), cg_Health := fill_health (cg_Health c)\<rparr>))"

definition applyEnv :: "cfgenv \<Rightarrow> config \<Rightarrow> gerr option \<times> config" where
  "applyEnv ce c =
    (let p = TrimSpace (ce_getenv ce ''TAB_ROUTER_PROVIDER'');
         c1 = (if p \<noteq> [] then c\<lparr>cg_Routing := (cg_Routing c)\<lparr>rc_Provider := p\<rparr>\<rparr> else c);
         a = TrimSpace (ce_getenv ce ''TAB_ROUTER_ACTIVATION_SERVER'');
         c2 = (if a \<noteq> [] then c1\<lparr>cg_ActivationServer := a\<rparr> else c1)
     in if cg_ActivationServer c2 \<noteq> [] then
          (case ValidateURL (ce_url ce) (cg_ActivationServer c2) of
             Some e \<Rightarrow> (Some (''activation server: '' @ e), c2)
           | None \<Rightarrow> (None, c2))
        else (None, c2))"

definition choose_paths :: "cfgenv \<Rightarrow> Overrides \<Rightarrow> config result" where
  "choose_paths ce o' =
    (let d = (if ov_DataDir o' \<noteq> [] then Inr (ov_DataDir o')
              else if ce_getenv ce ''TAB_ROUTER_DATA_DIR'' \<noteq> [] then Inr (ce_getenv ce ''TAB_ROUTER_DATA_DIR'')
              else ce_dataDir ce)
     in case d of
          Inl e \<Rightarrow> Inl e
        | Inr dir \<Rightarrow> Inr (Defaults\<lparr>cg_DataDir := dir,
            cg_ConfigPath := (if ov_ConfigPath o' = [] then dir @ ''/config.toml'' else ov_ConfigPath o'),
            cg_RoutesPath := (if ov_RoutesPath o' = [] then dir @ ''/routes.toml'' else ov_RoutesPath o')\<rparr>))"

definition read_config :: "cfgenv \<Rightarrow> Overrides \<Rightarrow> config \<Rightarrow> gerr option \<times> config" where
  "read_config ce o' c = (case ce_read ce (cg_ConfigPath c) of
      Contents b \<Rightarrow> (case ce_toml ce b c of
          (Some e, c1) \<Rightarrow> (Some (cg_ConfigPath c1 @ '': '' @ e), c1)
        | (None, c1) \<Rightarrow> (None, c1))
    | ReadError e \<Rightarrow> (Some e, c)
    | NotExist \<Rightarrow> if ov_ConfigPath o' \<noteq> [] then (Some (''config file '' @ ov_ConfigPath o' @ '' not found''), c)
                 else (None, c))"

definition apply_overrides :: "Overrides \<Rightarrow> config \<Rightarrow> config" where
  "apply_overrides o' c = c\<lparr>cg_Identities := (if ov_Identities o' \<noteq> 0 then ov_Identities o' else cg_Identities c),
     cg_StartupURL := (if ov_URLSet o' then ov_URL o' else cg_StartupURL c),
     cg_Headless := (ov_Headless o' \<or> cg_Headless c), cg_Fresh := ov_Fresh o'\<rparr>"

definition Load :: "cfgenv \<Rightarrow> Overrides \<Rightarrow> gerr option \<times> config" where
  "Load ce o' = (case choose_paths ce o' of
      Inl e \<Rightarrow> (Some e, Defaults)
    | Inr c0 \<Rightarrow> (case read_config ce o' c0 of
        (Some e, c1) \<Rightarrow> (Some e, c1)
      | (None, c1) \<Rightarrow> (case applyEnv ce (apply_overrides o' c1) of
          (Some e, c2) \<Rightarrow> (Some e, c2)
        | (None, c2) \<Rightarrow> Config_Validate (ce_url ce) c2)))"

section \<open>Route definitions\<close>

datatype routes_err = ErrNoRoutes string | RErr gerr

fun check_routes :: "string \<Rightarrow> string list \<Rightarrow> RouteDef list \<Rightarrow> routes_err option" where
  "check_routes path seen [] = None"
| "check_routes path seen (d # ds) = (case RouteDef_Validate d of
      Some e \<Rightarrow> Some (RErr (path @ '': '' @ e))
    | None \<Rightarrow> if rd_ID d \<in> set seen then Some (RErr (path @ '': duplicate route id '' @ Quote (rd_ID d)))
             else check_routes path (rd_ID d # seen) ds)"

text \<open>\<open>stat\<close> and \<open>file\<close> are what \<open>os.Stat\<close> and \<open>os.ReadFile\<close> answer, \<open>priv\<close> what \<open>CheckFilePrivate\<close> does.\<close>

definition LoadRoutes ::
  "file_read \<Rightarrow> gerr option \<Rightarrow> string result \<Rightarrow> (string \<Rightarrow> RouteDef list result) \<Rightarrow> string \<Rightarrow> routes_err + RouteDef list" where
  "LoadRoutes stat priv file toml path = (case stat of
      NotExist \<Rightarrow> Inl (ErrNoRoutes path)
    | ReadError e \<Rightarrow> Inl (RErr e)
    | Contents _ \<Rightarrow> (case priv of
        Some e \<Rightarrow> Inl (RErr (''refusing to read route credentials: '' @ e))
      | None \<Rightarrow> (case file of
          Inl e \<Rightarrow> Inl (RErr e)
        | Inr b \<Rightarrow> (case toml b of
            Inl e \<Rightarrow> Inl (RErr (path @ '': '' @ e))
          | Inr ds \<Rightarrow> (case check_routes path [] ds of
              Some e \<Rightarrow> Inl e
            | None \<Rightarrow> Inr ds)))))"

section \<open>Properties\<close>

lemma Config_Validate_None:
  assumes "Config_Validate parse c = (None, c')"
  shows "1 \<le> cg_Identities c \<and> cg_Identities c \<le> 2 \<and> cg_FailClosed c \<and> startup_url_error parse c = None
    \<and> vc_IPEchoURL (cg_Verify c) \<noteq> []
    \<and> c' = c\<lparr>cg_Verify := fill_verify (cg_Verify c), cg_Health := fill_health (cg_Health c)\<rparr>"
  using assms by (auto simp: Config_Validate_def MaxIdentities_def split: if_splits option.splits)

lemma applyEnv_frame: "applyEnv ce c = (e, c') \<Longrightarrow> \<exists>r a. c' = c\<lparr>cg_Routing := r, cg_ActivationServer := a\<rparr>"
proof -
  assume r: "applyEnv ce c = (e, c')"
  have id: "c = c\<lparr>cg_Routing := cg_Routing c, cg_ActivationServer := cg_ActivationServer c\<rparr>"
    "c\<lparr>cg_Routing := x\<rparr> = c\<lparr>cg_Routing := x, cg_ActivationServer := cg_ActivationServer c\<rparr>"
    "c\<lparr>cg_ActivationServer := y\<rparr> = c\<lparr>cg_Routing := cg_Routing c, cg_ActivationServer := y\<rparr>" for x y by simp_all
  show ?thesis
    using r by (simp add: applyEnv_def Let_def split: if_splits option.splits) (use id in metis)+
qed

lemma applyEnv_server: "applyEnv ce c = (None, c') \<Longrightarrow>
    cg_ActivationServer c' = [] \<or> ValidateURL (ce_url ce) (cg_ActivationServer c') = None"
  by (auto simp: applyEnv_def Let_def split: if_splits option.splits)

text \<open>
  What \<open>Load\<close> accepts is safe to run: one or two identities, fail-closed, a non-empty echo URL, a
  startup URL that is empty or an absolute http(s) URL, an activation server likewise, and positive
  time-outs and intervals; the command line has the last word on what it sets.
\<close>

theorem config_load_sound:
  assumes "Load ce o' = (None, c)"
  shows "1 \<le> cg_Identities c \<and> cg_Identities c \<le> MaxIdentities \<and> cg_FailClosed c
    \<and> (cg_StartupURL c = [] \<or> ValidateURL (ce_url ce) (cg_StartupURL c) = None)
    \<and> (cg_ActivationServer c = [] \<or> ValidateURL (ce_url ce) (cg_ActivationServer c) = None)
    \<and> vc_IPEchoURL (cg_Verify c) \<noteq> [] \<and> vc_HostEchoURL (cg_Verify c) \<noteq> [] \<and> 0 < vc_TimeoutSeconds (cg_Verify c)
    \<and> 0 < hc_ProbeIntervalSeconds (cg_Health c) \<and> 0 < hc_IPCheckIntervalSeconds (cg_Health c)
    \<and> cg_Fresh c = ov_Fresh o' \<and> (ov_Identities o' \<noteq> 0 \<longrightarrow> cg_Identities c = ov_Identities o')
    \<and> (ov_URLSet o' \<longrightarrow> cg_StartupURL c = ov_URL o')"
proof -
  obtain c1 c2 where a: "applyEnv ce (apply_overrides o' c1) = (None, c2)" and v: "Config_Validate (ce_url ce) c2 = (None, c)"
    using assms by (auto simp: Load_def split: sum.splits prod.splits option.splits)
  obtain r s where c2: "c2 = (apply_overrides o' c1)\<lparr>cg_Routing := r, cg_ActivationServer := s\<rparr>"
    using applyEnv_frame [OF a] by blast
  have act: "s = [] \<or> ValidateURL (ce_url ce) s = None" using applyEnv_server [OF a] by (simp add: c2)
  note vn = Config_Validate_None [OF v]
  show ?thesis
    using vn act
    by (auto simp: c2 apply_overrides_def MaxIdentities_def startup_url_error_def fill_verify_def fill_health_def
        split: if_splits)
qed

definition sample_cfgenv :: cfgenv where
  "sample_cfgenv = \<lparr>ce_getenv = (\<lambda>_. []), ce_dataDir = Inr ''/data'', ce_read = (\<lambda>_. NotExist),
     ce_toml = (\<lambda>_ c. (None, c)), ce_url = (\<lambda>_. Inr (''https'', ''example.com''))\<rparr>"

definition sample_overrides :: Overrides where
  "sample_overrides = \<lparr>ov_Identities = 1, ov_URL = ''https://example.com'', ov_URLSet = True, ov_Fresh = False,
     ov_Headless = False, ov_DataDir = [], ov_ConfigPath = [], ov_RoutesPath = []\<rparr>"

theorem config_load_sound_witness:
  "\<exists>c. Load sample_cfgenv sample_overrides = (None, c) \<and> cg_Identities c = 1 \<and> 0 < vc_TimeoutSeconds (cg_Verify c)"
proof -
  have "fst (Load sample_cfgenv sample_overrides) = None" by code_simp
  then obtain c where l: "Load sample_cfgenv sample_overrides = (None, c)" by (metis prod.collapse)
  from config_load_sound [OF l] l show ?thesis by (auto simp: sample_overrides_def)
qed

text \<open>
  A configuration \<open>Load\<close> accepts can still have no environment: \<open>Validate\<close> does not look at the
  environment section, and a window it cannot parse makes \<open>EnvironmentFor\<close> fail for every identity.
\<close>

theorem config_environment_unchecked:
  "fst (Config_Validate parse (c\<lparr>cg_Environment := e\<rparr>)) = fst (Config_Validate parse c)
   \<and> isl (EnvironmentFor h (c\<lparr>cg_Environment := e\<lparr>ec_Window := ''wide''\<rparr>\<rparr>) i)"
proof -
  have w: "isl (parseWindow ''wide'')" by code_simp
  have "isl (EnvironmentFor h (c\<lparr>cg_Environment := e\<lparr>ec_Window := ''wide''\<rparr>\<rparr>) i)"
    using w by (cases "parseWindow ''wide''") (simp_all add: EnvironmentFor_def Let_def)
  then show ?thesis
    by (simp add: Config_Validate_def startup_url_error_def split: option.splits)
qed

lemma takeWhile_digits:
  assumes "list_all P ds" "rest = [] \<or> \<not> P (hd rest)"
  shows "takeWhile P (ds @ rest) = ds" "dropWhile P (ds @ rest) = rest"
  using assms by (induction ds) (auto, (cases rest; auto)+)

lemma scan_int_itoa:
  assumes "n < 2 ^ 63" "rest = [] \<or> \<not> (is_digit (hd rest) \<or> hd rest = CHR ''_'')"
  shows "scan_int (itoa_nat n @ rest) = Some (int n, rest)"
proof -
  let ?P = "\<lambda>c. is_digit c \<or> c = CHR ''_''"
  have d: "list_all ?P (itoa_nat n)" using itoa_nat_digits [of n] by (simp add: list_all_iff)
  have nu: "CHR ''_'' \<notin> set (itoa_nat n)" using itoa_nat_digit_set by (fastforce simp: is_digit_def)
  obtain c cs where c: "itoa_nat n = c # cs" by (cases "itoa_nat n") auto
  have dc: "is_digit c" using itoa_nat_digit_set [of c n] by (simp add: c)
  have sg: "scan_sign (dropWhile blank (itoa_nat n @ rest)) = (1, itoa_nat n @ rest)"
    using dc by (auto simp: c scan_sign_def blank_def is_digit_def is_space_def)
  have "int n < 2 ^ 63" using assms(1) by (metis of_nat_less_iff of_nat_numeral of_nat_power)
  then show ?thesis
    using takeWhile_digits [OF d assms(2)] nu by (simp add: scan_int_def sg Let_def)
qed

lemma ToLower_itoa: "ToLower (itoa_nat n) = itoa_nat n"
  unfolding ToLower_def by (rule map_idI) (auto dest!: itoa_nat_digit_set simp: lower_char_def is_digit_def)

text \<open>
  A window written the way it is printed is read back, with either case of the separator.
\<close>

theorem config_window_roundtrip:
  assumes "w < 2 ^ 63" "h < 2 ^ 63" "c \<in> {CHR ''x'', CHR ''X''}"
  shows "parseWindow (itoa_nat w @ [c] @ itoa_nat h) = Inr (int w, int h)"
proof -
  have lower_x: "lower_char (CHR ''x'') = CHR ''x''" "lower_char (CHR ''X'') = CHR ''x''" by code_simp+
  have x: "lower_char c = CHR ''x''" "\<not> (is_digit (CHR ''x'') \<or> CHR ''x'' = CHR ''_'')"
    using assms(3) lower_x by (auto simp: is_digit_def)
  have l: "ToLower (itoa_nat w @ [c] @ itoa_nat h) = itoa_nat w @ [CHR ''x''] @ itoa_nat h"
    using ToLower_itoa x(1) by (simp add: ToLower_def)
  have "scan_int (itoa_nat w @ [CHR ''x''] @ itoa_nat h) = Some (int w, CHR ''x'' # itoa_nat h)"
    using scan_int_itoa [OF assms(1), of "CHR ''x'' # itoa_nat h"] x(2) by simp
  moreover have "scan_int (itoa_nat h) = Some (int h, [])" using scan_int_itoa [OF assms(2), of "[]"] by simp
  ultimately show ?thesis by (simp add: parseWindow_def Let_def l [simplified])
qed

theorem config_window_roundtrip_witness: "parseWindow ''1280X860'' = Inr (1280, 860)"
proof -
  have "itoa_nat 1280 @ [CHR ''X''] @ itoa_nat 860 = ''1280X860''" by code_simp
  with config_window_roundtrip [of 1280 860 "CHR ''X''"] show ?thesis by simp
qed

lemma check_routes_None:
  "check_routes path seen ds = None \<longleftrightarrow> (\<forall>d \<in> set ds. RouteDef_Validate d = None \<and> rd_ID d \<notin> set seen) \<and> distinct (map rd_ID ds)"
proof (induction ds arbitrary: seen)
  case (Cons d ds)
  have "rd_ID d \<notin> rd_ID ` set ds \<longleftrightarrow> (\<forall>x \<in> set ds. rd_ID x \<noteq> rd_ID d)" by (metis image_iff)
  then show ?case using Cons [of "rd_ID d # seen"] by (cases "RouteDef_Validate d") (simp_all, blast)
qed simp


definition sample_route_def :: "string \<Rightarrow> RouteDef" where
  "sample_route_def ident = \<lparr>rd_ID = ident, rd_Type = ''http'', rd_Address = ''p:1'', rd_Username = [], rd_Password = [],
     rd_PasswordEnv = [], rd_PrivateKey = [], rd_PeerPublicKey = [], rd_LocalAddress = [], rd_LocalAddress6 = [],
     rd_DNS = [], rd_MTU = 0\<rparr>"


end
