(* ===== verification/Control.thy ===== *)
theory Control
  imports Startup Config
begin

text \<open>
  The running session (\<open>src/controller/startup/session.go\<close>, \<open>status.go\<close>, \<open>util.go\<close>): re-establishing a
  failed route, the control requests that stop and start a route or open a page, and the requests
  and monitor rounds as steps of one system.

  A monitor round and a request each run as one step; the goroutines of the monitor and of the control
  server interleave at that granularity.
\<close>

section \<open>Re-establishing a route\<close>

text \<open>The first other subject whose session address is \<open>a\<close>; \<open>k\<close> is the position of the list's head.\<close>

fun sharer :: "nat \<Rightarrow> nat \<Rightarrow> ip \<Rightarrow> subject list \<Rightarrow> subject option" where
  "sharer i k a [] = None"
| "sharer i k a (s # ss) =
    (if k \<noteq> i \<and> (case sb_RouteIP s of None \<Rightarrow> False | Some p \<Rightarrow> ip_Equal a p) then Some s
     else sharer i (Suc k) a ss)"

definition pin :: "nat \<Rightarrow> ip \<Rightarrow> world \<Rightarrow> world" where
  "pin i a w = (case sb_RouteIP (sub w i) of
     None \<Rightarrow> set_sub i ((sub w i)\<lparr>sb_RouteIP := Some a, sb_BrowserIP := Some a\<rparr>) w
   | Some _ \<Rightarrow> w)"

definition pinned_to_other :: "subject \<Rightarrow> ip \<Rightarrow> bool" where
  "pinned_to_other s a = (case sb_RouteIP s of None \<Rightarrow> False | Some p \<Rightarrow> \<not> ip_Equal a p)"

text \<open>From the probe of the started replacement on: what decides whether it is taken.\<close>

definition adopt :: "SConfig \<Rightarrow> env \<Rightarrow> nat \<Rightarrow> nat \<Rightarrow> world \<Rightarrow> gerr option \<times> world" where
  "adopt cfg env i ref w =
    (let s = sub w i; w1 = tick w in
     case route_PublicIP (ask env w) (se_routes w ref) (cf_IPEchoURL cfg) of
       Inl e \<Rightarrow> (Some e, stop_route ref w1)
     | Inr a \<Rightarrow>
        if pinned_to_other s a then
          (Some (''session IP is pinned at '' @ ip_opt_String (sb_RouteIP s) @ ''; got '' @ ip_String a), stop_route ref w1)
        else (case sharer i 0 a (se_subjects w) of
            Some other \<Rightarrow>
              (Some (''replacement shares egress '' @ ip_String a @ '' with '' @ subject_Label other), stop_route ref w1)
          | None \<Rightarrow>
              (None, stop_route (sb_Route s) (set_status ref StatusVerifying (pin i a (swap_route i ref w1))))))"

definition reestablish :: "SConfig \<Rightarrow> callback" where
  "reestablish cfg env i w =
    (case se_prov w of
       None \<Rightarrow> (Some ''no provisioner'', w)
     | Some p \<Rightarrow>
        (case prov_Reestablish env (id_RouteSlot (sb_Identity (sub w i))) p (on_gate i gate_Close w) of
           (Inl e, w1) \<Rightarrow> (Some e, w1)
         | (Inr r, w1) \<Rightarrow>
            (case alloc r w1 of (ref, w2) \<Rightarrow>
             (case start_route env ref w2 of
                (Some e, w3) \<Rightarrow> (Some e, stop_route ref w3)
              | (None, w3) \<Rightarrow> adopt cfg env i ref w3))))"

section \<open>Requests\<close>

text \<open>\<open>route.stop\<close> and \<open>route.start\<close>: the first subject on the slot.\<close>

definition start_forwarding :: "SConfig \<Rightarrow> env \<Rightarrow> nat \<Rightarrow> world \<Rightarrow> gerr option \<times> world" where
  "start_forwarding cfg env i w =
    (let ref = sb_Route (sub w i); w1 = set_status ref StatusVerifying w; w2 = tick w1 in
     case route_PublicIP (ask env w1) (se_routes w1 ref) (cf_IPEchoURL cfg) of
       Inl e \<Rightarrow> (Some e, set_status ref StatusDown w2)
     | Inr a \<Rightarrow>
        if pinned_to_other (sub w i) a then
          (Some (''egress changed '' @ ip_opt_String (sb_RouteIP (sub w i)) @ '' -> '' @ ip_String a @ ''; not reopening''),
           set_status ref StatusDown w2)
        else (None, on_gate i gate_Open (set_status ref StatusReady w2)))"

definition SetRouteEnabled :: "SConfig \<Rightarrow> env \<Rightarrow> int \<Rightarrow> bool \<Rightarrow> world \<Rightarrow> gerr option \<times> world" where
  "SetRouteEnabled cfg env slot enabled w =
    (case find_slot slot 0 (se_subjects w) of
       None \<Rightarrow> (Some (''no route '' @ fmt03d slot), w)
     | Some i \<Rightarrow>
        if \<not> enabled then (None, on_gate i gate_Close (set_status (sb_Route (sub w i)) StatusDown w))
        else start_forwarding cfg env i w)"

definition OpenURL ::
  "(string \<Rightarrow> (string \<times> string) result) \<Rightarrow> env \<Rightarrow> int \<Rightarrow> string \<Rightarrow> world \<Rightarrow> gerr option \<times> world" where
  "OpenURL parse env idx rawURL w =
    (case ValidateURL parse rawURL of
       Some e \<Rightarrow> (Some e, w)
     | None \<Rightarrow>
        (case find_index (\<lambda>s. id_Index (sb_Identity s) = idx) (se_subjects w) of
           None \<Rightarrow> (Some (''no identity '' @ fmt03d idx), w)
         | Some i \<Rightarrow>
            if route_Status (route_at w i) \<noteq> StatusReady then
              (Some (subject_Label (sub w i) @ '' route is '' @ RouteStatus_String (route_Status (route_at w i))
                 @ ''; refusing to navigate''), w)
            else
             (let e = ask env w; v = pe_nav e rawURL;
                  w1 = tick (set_sub i (browse (pe_net e) (se_routes w) v (sub w i)) w)
              in case nav_problem v of
                   Some t \<Rightarrow> (Some t, w1)
                 | None \<Rightarrow> (None, w1\<lparr>se_finalURL := (se_finalURL w1)(i := nr_FinalURL (nv_res v))\<rparr>))))"

section \<open>What re-establishing keeps\<close>

lemma sharer_Some: "sharer i k a ss = Some s \<Longrightarrow>
    \<exists>j < length ss. k + j \<noteq> i \<and> s = ss ! j \<and> (\<exists>p. sb_RouteIP s = Some p \<and> ip_Equal a p)"
proof (induction i k a ss rule: sharer.induct)
  case (2 i k a s' ss)
  show ?case
  proof (cases "k \<noteq> i \<and> (case sb_RouteIP s' of None \<Rightarrow> False | Some p \<Rightarrow> ip_Equal a p)")
    case True
    then show ?thesis using 2(2) by (intro exI [of _ 0]) (auto split: option.splits)
  next
    case False
    then obtain j where "j < length ss" "Suc k + j \<noteq> i" "s = ss ! j" "\<exists>p. sb_RouteIP s = Some p \<and> ip_Equal a p"
      using 2 by auto
    then show ?thesis by (intro exI [of _ "Suc j"]) auto
  qed
qed simp

lemma sharer_None: "sharer i k a ss = None \<Longrightarrow> j < length ss \<Longrightarrow> k + j \<noteq> i \<Longrightarrow>
    sb_RouteIP (ss ! j) = Some p \<Longrightarrow> \<not> ip_Equal a p"
proof (induction i k a ss arbitrary: j rule: sharer.induct)
  case (2 i k a s ss)
  show ?case
  proof (cases j)
    case 0
    then show ?thesis using 2(2-) by (auto split: if_splits)
  next
    case (Suc j')
    then show ?thesis using 2(1) [of j'] 2(2-) by (auto split: if_splits)
  qed
qed simp

text \<open>
  What \<open>reestablish\<close> does to its subject. \<open>replaced\<close>: the new route's egress has been probed, is the
  session address (or becomes it), is nobody else's, and the old route is stopped.
\<close>

definition replaced :: "SConfig \<Rightarrow> env \<Rightarrow> nat \<Rightarrow> world \<Rightarrow> world \<Rightarrow> bool" where
  "replaced cfg env i w w' \<longleftrightarrow> (\<exists>t r a. route_Def r = route_Def (route_at w' i)
     \<and> route_PublicIP (env t) r (cf_IPEchoURL cfg) = Inr a
     \<and> (case sb_RouteIP (sub w i) of
          None \<Rightarrow> sb_RouteIP (sub w' i) = Some a \<and> sb_BrowserIP (sub w' i) = Some a
        | Some p \<Rightarrow> ip_Equal a p \<and> sb_RouteIP (sub w' i) = Some p)
     \<and> (\<forall>j < length (se_subjects w). j \<noteq> i \<longrightarrow> (\<forall>p. sb_RouteIP (sub w j) = Some p \<longrightarrow> \<not> ip_Equal a p))
     \<and> route_Status (route_at w' i) = StatusVerifying
     \<and> sb_Route (sub w' i) \<noteq> sb_Route (sub w i)
     \<and> route_Status (se_routes w' (sb_Route (sub w i))) = StatusStopped)"

definition untouched :: "nat \<Rightarrow> world \<Rightarrow> world \<Rightarrow> bool" where
  "untouched i w w' \<longleftrightarrow> route_at w' i = route_at w i \<and> sb_Route (sub w' i) = sb_Route (sub w i)
     \<and> sb_RouteIP (sub w' i) = sb_RouteIP (sub w i) \<and> sb_BrowserIP (sub w' i) = sb_BrowserIP (sub w i)"

lemma pin_frame:
  assumes "i < length (se_subjects w)"
  shows "sb_Route (sub (pin i a w) i) = sb_Route (sub w i)" "sb_Gate (sub (pin i a w) i) = sb_Gate (sub w i)"
    "se_routes (pin i a w) = se_routes w" "world_ok w \<Longrightarrow> only i w (pin i a w)"
    "sb_RouteIP (sub (pin i a w) i) = (case sb_RouteIP (sub w i) of None \<Rightarrow> Some a | p \<Rightarrow> p)"
    "sb_RouteIP (sub w i) = None \<Longrightarrow> sb_BrowserIP (sub (pin i a w) i) = Some a"
  using assms by (auto simp: pin_def world_ok_def intro!: only_set_sub split: option.splits)

lemma adopt_ok:
  assumes ok: "world_ok w" and i: "i < length (se_subjects w)" and ref: "free_for i ref w" "ref < se_fresh w"
    "sb_Route (sub w i) \<noteq> ref" and r: "adopt cfg env i ref w = (e, w')"
  shows "only i w w' \<and> g_open (sb_Gate (sub w' i)) = g_open (sb_Gate (sub w i))
    \<and> (case e of None \<Rightarrow> replaced cfg env i w w' | Some _ \<Rightarrow> untouched i w w')"
proof -
  have o1: "only i w (tick w)" using only_tick [OF ok i] .
  have fr: "free_for i ref (tick w)" using ref(1) by (simp add: free_for_def)
  have st: "only i w (stop_route ref (tick w))" "untouched i w (stop_route ref (tick w))"
    using only_trans [OF o1 only_stop [OF only_ok [OF o1] fr]] ref(3) by (auto simp: untouched_def route_at_def)
  show ?thesis
  proof (cases e)
    case (Some x)
    then have "w' = stop_route ref (tick w)"
      using r by (auto simp: adopt_def Let_def split: sum.splits if_splits option.splits)
    then show ?thesis using st Some by simp
  next
    case None
    obtain a where a: "route_PublicIP (ask env w) (se_routes w ref) (cf_IPEchoURL cfg) = Inr a"
      "\<not> pinned_to_other (sub w i) a" "sharer i 0 a (se_subjects w) = None"
      and w': "w' = stop_route (sb_Route (sub w i)) (set_status ref StatusVerifying (pin i a (swap_route i ref (tick w))))"
      using r None by (auto simp: adopt_def Let_def split: sum.splits if_splits option.splits)
    define w2 where "w2 = swap_route i ref (tick w)"
    have it: "i < length (se_subjects (tick w))" using i by simp
    note sw = swap_route_sub [OF it, where ref = ref, folded w2_def]
    have o2: "only i w w2" using only_trans [OF o1 only_swap [OF only_ok [OF o1] it fr]] ref(2) by (simp add: w2_def)
    have i2: "i < length (se_subjects w2)" using only_length [OF o2] i by simp
    note pf = pin_frame [OF i2, of a]
    have o3: "only i w (pin i a w2)" using only_trans [OF o2 pf(4) [OF only_ok [OF o2]]] .
    have l3: "length (se_subjects (pin i a w2)) = length (se_subjects w)" using only_length [OF o3] .
    have i3: "i < length (se_subjects (pin i a w2))" using l3 i by simp
    have s3: "sb_Route (sub (pin i a w2) i) = ref" using pf(1) sw(1) by simp
    have o4: "only i w (set_status ref StatusVerifying (pin i a w2))"
      using only_trans [OF o3] only_set_status [OF only_ok [OF o3] i3] s3 by metis
    have "sb_Route (sub (pin i a w2) j) \<noteq> sb_Route (sub w i)" if "j < length (se_subjects w)" "j \<noteq> i" for j
      using that o3 free_for_own [OF ok i] by (auto simp: only_def loc_def free_for_def)
    then have "free_for i (sb_Route (sub w i)) (set_status ref StatusVerifying (pin i a w2))"
      by (simp add: free_for_def l3)
    then have o5: "only i w w'"
      using only_trans [OF o4 only_stop [OF only_ok [OF o4]]] by (simp add: w' w2_def)
    have "replaced cfg env i w w'"
      unfolding replaced_def
    proof (intro exI conjI)
      show "route_PublicIP (env (se_tick w)) (se_routes w ref) (cf_IPEchoURL cfg) = Inr a"
        using a(1) by (simp add: ask_def)
      show "\<forall>j<length (se_subjects w). j \<noteq> i \<longrightarrow> (\<forall>p. sb_RouteIP (sub w j) = Some p \<longrightarrow> \<not> ip_Equal a p)"
        using sharer_None [OF a(3)] by (simp add: sub_def)
    qed (use a(2) ref(3) sw pf in \<open>auto simp: w' w2_def [symmetric] route_at_def pinned_to_other_def split: option.splits\<close>)
    moreover have "g_open (sb_Gate (sub w' i)) = g_open (sb_Gate (sub w i))"
      using pf(2) sw(1) by (simp add: w' w2_def [symmetric] gate_SetRoute_def)
    ultimately show ?thesis using None o5 by simp
  qed
qed

lemma reestablish_ok:
  assumes ok: "world_ok w" and i: "i < length (se_subjects w)" and r: "reestablish cfg env i w = (e, w')"
  shows "only i w w' \<and> (se_prov w \<noteq> None \<longrightarrow> \<not> g_open (sb_Gate (sub w' i)))
    \<and> (g_open (sb_Gate (sub w' i)) \<longrightarrow> g_open (sb_Gate (sub w i)))
    \<and> (case e of None \<Rightarrow> replaced cfg env i w w' | Some _ \<Rightarrow> untouched i w w')"
proof (cases "se_prov w")
  case None
  then show ?thesis using r ok by (auto simp: reestablish_def untouched_def)
next
  case (Some p)
  define w0 where "w0 = on_gate i gate_Close w"
  have o0: "only i w w0" using ok i by (simp add: w0_def only_on_gate)
  have s0: "sub w0 i = with_gate gate_Close (sub w i)" "se_routes w0 = se_routes w"
    using i by (simp_all add: w0_def)
  obtain res w1 where pr: "prov_Reestablish env (id_RouteSlot (sb_Identity (sub w i))) p w0 = (res, w1)"
    by (metis prod.exhaust)
  note f1 = Reestablish_frame [OF pr]
  have o1: "only i w w1" using only_trans [OF o0 only_routes [OF only_ok [OF o0] f1(1) _ f1(4-6)]] f1(2,3) by simp
  have i1: "i < length (se_subjects w1)" using only_length [OF o1] i by simp
  have s1: "sub w1 j = sub w0 j" for j using f1(1) by (simp add: sub_def)
  have keep: "untouched i w w2" if "untouched i w1 w2" for w2
    using that s1 s0 f1(3) unfolding untouched_def route_at_def by auto
  show ?thesis
  proof (cases res)
    case (Inl x)
    then have "e = Some x \<and> w' = w1" using r Some pr by (simp add: reestablish_def w0_def)
    then show ?thesis using o1 keep [of w1] by (simp add: untouched_def s1 s0)
  next
    case (Inr rt)
    obtain ref w2 where al: "alloc rt w1 = (ref, w2)" by (metis prod.exhaust)
    obtain es w3 where st: "start_route env ref w2 = (es, w3)" by (metis prod.exhaust)
    note fr = fresh_route [OF only_ok [OF o1] i1 al st]
    have o3: "only i w w3" using only_trans [OF o1 fr(1)] .
    have i3: "i < length (se_subjects w3)" using only_length [OF o3] i by simp
    have s3: "sub w3 j = sub w0 j" for j using fr(4) s1 by (simp add: sub_def)
    have r3: "route_at w3 i = route_at w i" "sb_Route (sub w3 i) \<noteq> ref"
      using fr(7) [OF i1] s3 s1 s0 f1(3) by (simp_all add: route_at_def)
    have eq: "(e, w') = (case es of Some x \<Rightarrow> (Some x, stop_route ref w3) | None \<Rightarrow> adopt cfg env i ref w3)"
      using r Some pr Inr al st by (simp add: reestablish_def w0_def split: option.splits)
    show ?thesis
    proof (cases es)
      case (Some x)
      then have "only i w w'" "untouched i w w'"
        using eq only_trans [OF o3 only_stop [OF only_ok [OF o3] fr(2)]] r3 s3 s0
        by (auto simp: untouched_def route_at_def)
      then show ?thesis using eq Some by (simp add: s3 s0)
    next
      case None
      then have ad: "adopt cfg env i ref w3 = (e, w')" using eq by simp
      note A = adopt_ok [OF only_ok [OF o3] i3 fr(2,3) r3(2) ad]
      have "replaced cfg env i w w'" if "replaced cfg env i w3 w'"
      proof -
        have "sub w3 j = sub w j" if "j < length (se_subjects w)" "j \<noteq> i" for j
          using o3 that by (simp add: only_def loc_def)
        then show ?thesis
          using that only_length [OF o3] s0 s3 unfolding replaced_def by (auto split: option.splits)
      qed
      moreover have "untouched i w w'" if "untouched i w3 w'"
        using that r3 s3 s0 by (simp add: untouched_def)
      ultimately show ?thesis
        using A only_trans [OF o3] by (auto simp: s3 s0 split: option.splits)
    qed
  qed
qed

lemma replaced_status: "replaced cfg env i w w' \<Longrightarrow> route_Status (route_at w' i) = StatusVerifying"
  unfolding replaced_def by blast

lemma replaced_pin: "replaced cfg env i w w' \<Longrightarrow> sb_RouteIP (sub w i) = Some p \<Longrightarrow> sb_RouteIP (sub w' i) = Some p"
  by (auto simp: replaced_def)

interpretation re: reestablisher "reestablish cfg" for cfg
proof
  fix w i env e w' p
  assume a: "world_ok w" "i < length (se_subjects w)" "reestablish cfg env i w = (e, w')"
  note R = reestablish_ok [OF a]
  show "only i w w'" using R by blast
  show "\<not> g_open (sb_Gate (sub w i)) \<Longrightarrow> \<not> g_open (sb_Gate (sub w' i))" using R by blast
  show "route_Status (route_at w i) \<noteq> StatusReady \<Longrightarrow> route_Status (route_at w' i) \<noteq> StatusReady"
    using R by (auto simp: untouched_def dest: replaced_status split: option.splits)
  show "sb_RouteIP (sub w i) = Some p \<Longrightarrow> sb_RouteIP (sub w' i) = Some p"
    using R by (auto simp: untouched_def dest: replaced_pin split: option.splits)
qed

section \<open>The running session\<close>

text \<open>
  The state while a session runs: which browsers are known to have exited, the monitor, and the
  shared state. A step is one round of the monitor for one subject, \<open>route.stop\<close> or \<open>route.start\<close>, or
  \<open>identity.open_url\<close>. (\<open>diagnostics.run\<close> re-runs the verification suite and is not one of them.)
\<close>

type_synonym running = "(nat \<Rightarrow> bool) \<times> monitor \<times> world"

inductive control_step ::
  "SConfig \<Rightarrow> (string \<Rightarrow> (string \<times> string) result) \<Rightarrow> env \<Rightarrow> running \<Rightarrow> running \<Rightarrow> bool"
  for cfg parse env where
  round: "i < length (se_subjects w) \<Longrightarrow>
    loop_round (Some (reestablish cfg)) env i exited (gone i, m, w) = (g, m', w') \<Longrightarrow>
    control_step cfg parse env (gone, m, w) (gone(i := g), m', w')"
| enable: "SetRouteEnabled cfg env slot enabled w = (e, w') \<Longrightarrow>
    control_step cfg parse env (gone, m, w) (gone, m, w')"
| open_url: "OpenURL parse env idx url w = (e, w') \<Longrightarrow>
    control_step cfg parse env (gone, m, w) (gone, m, w')"

inductive_cases control_stepE: "control_step cfg parse env (gone, m, w) (gone', m', w')"

text \<open>A subject's traffic leaves the machine: its gate is open and its route takes connections.\<close>

definition forwarding :: "world \<Rightarrow> nat \<Rightarrow> bool" where
  "forwarding w i \<longleftrightarrow> g_open (sb_Gate (sub w i))
     \<and> (route_Status (route_at w i) = StatusReady \<or> route_Status (route_at w i) = StatusVerifying)"

text \<open>Some probe through the subject's route saw the session address.\<close>

definition probed :: "SConfig \<Rightarrow> env \<Rightarrow> world \<Rightarrow> nat \<Rightarrow> bool" where
  "probed cfg env w i \<longleftrightarrow> (\<exists>t r a. route_Def r = route_Def (route_at w i)
     \<and> route_PublicIP (env t) r (cf_IPEchoURL cfg) = Inr a
     \<and> (\<forall>p. sb_RouteIP (sub w i) = Some p \<longrightarrow> ip_Equal a p))"

text \<open>What every step keeps; \<open>i\<close> is the subject it concerns.\<close>

definition safe_step :: "SConfig \<Rightarrow> env \<Rightarrow> nat \<Rightarrow> world \<Rightarrow> world \<Rightarrow> bool" where
  "safe_step cfg env i w w' \<longleftrightarrow> only i w w'
     \<and> (\<forall>p. sb_RouteIP (sub w i) = Some p \<longrightarrow> sb_RouteIP (sub w' i) = Some p)
     \<and> (forwarding w' i \<longrightarrow> forwarding w i \<or> route_Status (route_at w' i) = StatusReady \<and> probed cfg env w' i)"

lemma forwarding_cong: "loc w' i = loc w i \<Longrightarrow> forwarding w' i = forwarding w i"
  by (simp add: loc_def forwarding_def)

lemma safe_step_after:
  assumes "only i w w1" "sb_RouteIP (sub w1 i) = sb_RouteIP (sub w i)" "forwarding w1 i \<longrightarrow> forwarding w i"
    "safe_step cfg env i w1 w2"
  shows "safe_step cfg env i w w2"
  using assms only_trans [of i w w1 w2] by (auto simp: safe_step_def)

lemma safe_step_tick: "safe_step cfg env i w w' \<Longrightarrow> i < length (se_subjects w) \<Longrightarrow> safe_step cfg env i w (tick w')"
  by (auto simp: safe_step_def forwarding_def probed_def route_at_def intro: only_then_tick)

lemma probe_safe:
  assumes ok: "world_ok w" and i: "i < length (se_subjects w)" and url: "mo_EchoURL (mn_opts m) = cf_IPEchoURL cfg"
    and r: "probe (Some (reestablish cfg)) env i (m, w) = (m', w')"
  shows "safe_step cfg env i w w' \<and> mn_opts m' = mn_opts m"
  using re.probe_outcome [OF ok i r]
proof (elim disjE conjE)
  assume "blocked i (m, w) (m', w')"
  then show ?thesis by (auto simp: blocked_def safe_step_def forwarding_def)
next
  assume v: "verified env i (m, w) (m', w')"
  then obtain t rt a where rs: "restored i a (m, w) (m', w')" "route_Def rt = route_Def (route_at w i)"
    "route_PublicIP (env t) rt (cf_IPEchoURL cfg) = Inr a" using url by (auto simp: verified_def)
  then show ?thesis by (fastforce simp: safe_step_def restored_def probed_def)
next
  assume "w' = tick w" "mn_opts m' = mn_opts m"
  then show ?thesis using only_tick [OF ok i] by (auto simp: safe_step_def forwarding_def route_at_def)
qed

lemma sampleLeaks_world: "sampleLeaks env i (m, w) = (m', w') \<Longrightarrow> w' = tick w \<and> mn_opts m' = mn_opts m"
  by (auto simp: sampleLeaks_def Let_def set_state_def emit_def split: sum.splits if_splits)

lemma round_safe:
  assumes ok: "world_ok w" and i: "i < length (se_subjects w)" and url: "mo_EchoURL (mn_opts m) = cf_IPEchoURL cfg"
    and r: "loop_round (Some (reestablish cfg)) env i exited (gone, m, w) = (g, m', w')"
  shows "safe_step cfg env i w w' \<and> mn_opts m' = mn_opts m"
proof -
  obtain m1 w1 where c: "(if exited \<and> \<not> gone then
      (emit \<lparr>he_At = pe_now (ask env w), he_Subject = i, he_Kind = BrowserExited, he_Detail = ''gate closed''\<rparr> m,
       on_gate i gate_Close w) else (m, w)) = (m1, w1)" by (metis prod.exhaust)
  have m1: "mn_opts m1 = mn_opts m" using c by (auto simp: emit_def split: if_splits)
  have w1: "only i w w1" "sb_RouteIP (sub w1 i) = sb_RouteIP (sub w i)" "forwarding w1 i \<longrightarrow> forwarding w i"
    using c ok i by (auto simp: forwarding_def only_on_gate split: if_splits)
  have i1: "i < length (se_subjects w1)" using only_length [OF w1(1)] i by simp
  obtain m2 w2 where p: "probe (Some (reestablish cfg)) env i (m1, w1) = (m2, w2)" by (metis prod.exhaust)
  have P: "safe_step cfg env i w1 w2" "mn_opts m2 = mn_opts m1"
    using probe_safe [OF only_ok [OF w1(1)] i1 _ p] url m1 by auto
  have "safe_step cfg env i w w2" by (rule safe_step_after [OF w1 P(1)])
  moreover have "(m', w') = (if gone \<or> exited then (m2, w2) else sampleLeaks env i (m2, w2))"
    using r c p by (simp add: loop_round_def Let_def split: if_splits)
  ultimately show ?thesis
    using sampleLeaks_world [of env i m2 w2 m' w'] P(2) m1 safe_step_tick [OF _ i] by (auto split: if_splits)
qed

lemma start_forwarding_safe:
  assumes ok: "world_ok w" and i: "i < length (se_subjects w)" and r: "start_forwarding cfg env i w = (e, w')"
  shows "safe_step cfg env i w w' \<and> (e = None \<longleftrightarrow> forwarding w' i)"
proof -
  let ?ref = "sb_Route (sub w i)"
  define w1 where "w1 = set_status ?ref StatusVerifying w"
  have o1: "only i w w1" using ok i by (simp add: w1_def only_set_status)
  have o2: "only i w (tick w1)" using only_then_tick [OF o1 i] .
  have s2: "sub (tick w1) i = sub w i" by (simp add: w1_def)
  have i2: "i < length (se_subjects (tick w1))" using only_length [OF o2] i by simp
  have o3: "only i w (set_status ?ref st (tick w1))" for st
    using only_trans [OF o2 only_set_status [OF only_ok [OF o2] i2]] s2 by simp
  have i3: "i < length (se_subjects (set_status ?ref st (tick w1)))" for st using only_length [OF o3] i by simp
  note o4 = only_trans [OF o3 only_on_gate [OF only_ok [OF o3] i3]]
  show ?thesis
  proof (cases e)
    case (Some x)
    then have "w' = set_status ?ref StatusDown (tick w1)"
      using r by (auto simp: start_forwarding_def Let_def w1_def split: sum.splits if_splits)
    then show ?thesis using o3 s2 Some by (simp add: safe_step_def forwarding_def route_at_def)
  next
    case None
    obtain a where a: "route_PublicIP (ask env w1) (se_routes w1 ?ref) (cf_IPEchoURL cfg) = Inr a"
      "\<not> pinned_to_other (sub w i) a" and w': "w' = on_gate i gate_Open (set_status ?ref StatusReady (tick w1))"
      using r None by (auto simp: start_forwarding_def Let_def w1_def split: sum.splits if_splits)
    have sub': "sub w' i = with_gate gate_Open (sub w i)" using i3 s2 by (simp add: w')
    have "probed cfg env w' i"
      unfolding probed_def
    proof (intro exI conjI)
      show "route_PublicIP (env (se_tick w1)) (se_routes w1 ?ref) (cf_IPEchoURL cfg) = Inr a"
        using a(1) by (simp add: ask_def)
    qed (use a(2) sub' in \<open>auto simp: route_at_def w' pinned_to_other_def split: option.splits\<close>)
    then show ?thesis
      using o4 [of gate_Open] None sub' by (simp add: safe_step_def forwarding_def route_at_def w')
  qed
qed

lemma SetRouteEnabled_safe:
  assumes ok: "world_ok w" and r: "SetRouteEnabled cfg env slot enabled w = (e, w')"
  shows "w' = w \<or> (\<exists>i < length (se_subjects w). safe_step cfg env i w w')"
proof (cases "find_slot slot 0 (se_subjects w)")
  case None
  then show ?thesis using r by (simp add: SetRouteEnabled_def)
next
  case (Some i)
  have i: "i < length (se_subjects w)" using find_slot_Some [OF Some] by simp
  show ?thesis
  proof (cases enabled)
    case True
    then show ?thesis using r Some start_forwarding_safe [OF ok i] i by (auto simp: SetRouteEnabled_def)
  next
    case False
    let ?w1 = "set_status (sb_Route (sub w i)) StatusDown w"
    have o1: "only i w ?w1" using ok i by (rule only_set_status)
    have "w' = on_gate i gate_Close ?w1" using r Some False by (simp add: SetRouteEnabled_def)
    then have "safe_step cfg env i w w'"
      using only_trans [OF o1 only_on_gate [OF only_ok [OF o1]]] i by (simp add: safe_step_def forwarding_def)
    then show ?thesis using i by blast
  qed
qed

lemma OpenURL_safe:
  assumes ok: "world_ok w" and r: "OpenURL parse env idx url w = (e, w')"
  shows "w' = w \<or> (\<exists>i < length (se_subjects w). safe_step cfg env i w w' \<and> (forwarding w' i \<longleftrightarrow> forwarding w i)
    \<and> route_Status (route_at w i) = StatusReady)"
proof (cases "w' = w")
  case False
  then obtain i where f: "find_index (\<lambda>s. id_Index (sb_Identity s) = idx) (se_subjects w) = Some i" "route_Status (route_at w i) = StatusReady"
    using r by (auto simp: OpenURL_def Let_def split: option.splits if_splits)
  define s where "s = browse (pe_net (ask env w)) (se_routes w) (pe_nav (ask env w) url) (sub w i)"
  have w': "w' = tick (set_sub i s w) \<or> (\<exists>u. w' = (tick (set_sub i s w))\<lparr>se_finalURL := u\<rparr>)"
    using r f False by (auto simp: OpenURL_def Let_def s_def split: option.splits if_splits)
  have i: "i < length (se_subjects w)" using find_index_Some [OF f(1)] by simp
  have b: "sb_Identity s = sb_Identity (sub w i)" "sb_Route s = sb_Route (sub w i)"
    "g_route (sb_Gate s) = g_route (sb_Gate (sub w i))" "g_open (sb_Gate s) = g_open (sb_Gate (sub w i))"
    "sb_RouteIP s = sb_RouteIP (sub w i)"
    by (simp_all add: s_def browse_def)
  have o: "only i w (tick (set_sub i s w))"
    using ok i b by (intro only_then_tick only_set_sub) (auto simp: world_ok_def)
  have "only i w w'" using w' o by (auto simp: only_def world_ok_def idents_def loc_def route_at_def sub_def)
  moreover have "sub w' i = s" "se_routes w' = se_routes w" using w' i by (auto simp: sub_def)
  ultimately have "safe_step cfg env i w w' \<and> (forwarding w' i \<longleftrightarrow> forwarding w i)"
    using b by (auto simp: safe_step_def forwarding_def route_at_def)
  then show ?thesis using i f(2) by blast
qed simp

text \<open>The monitor a successful \<open>Run\<close> hands over.\<close>

lemma Run_monitor: "Run env cfg ids prov w0 = (Inr m, w) \<Longrightarrow> m = session_monitor cfg"
  by (auto simp: Run_def run_routes_def run_browsers_def Let_def
      split: option.splits sum.splits prod.splits if_splits run_err.splits)

section \<open>Every step is safe\<close>

text \<open>What a step keeps of the whole session.\<close>

definition kept_session :: "world \<Rightarrow> world \<Rightarrow> bool" where
  "kept_session w w' \<longleftrightarrow> world_ok w' \<and> idents w' = idents w
     \<and> (\<forall>i < length (se_subjects w). \<forall>p. sb_RouteIP (sub w i) = Some p \<longrightarrow> sb_RouteIP (sub w' i) = Some p)"

lemma kept_session_length: "kept_session w w' \<Longrightarrow> length (se_subjects w') = length (se_subjects w)"
  unfolding kept_session_def by (metis length_idents)

lemma kept_session_refl: "world_ok w \<Longrightarrow> kept_session w w"
  by (simp add: kept_session_def)

lemma kept_session_trans: "kept_session w w1 \<Longrightarrow> kept_session w1 w2 \<Longrightarrow> kept_session w w2"
  using kept_session_length [of w w1] by (simp add: kept_session_def)

lemma safe_step_kept: "safe_step cfg env i w w' \<Longrightarrow> kept_session w w'"
  by (fastforce simp: safe_step_def kept_session_def only_def loc_def)

lemma control_step_safe:
  assumes "control_step cfg parse env (gone, m, w) (gone', m', w')" "world_ok w" "mo_EchoURL (mn_opts m) = cf_IPEchoURL cfg"
  shows "mn_opts m' = mn_opts m \<and> (w' = w \<or> (\<exists>i < length (se_subjects w). safe_step cfg env i w w'))"
  using assms(1)
proof (rule control_stepE, goal_cases)
  case (1 i exited g)
  then show ?case using round_safe [OF assms(2) _ assms(3)] by blast
next
  case (2 slot enabled e)
  then show ?case using SetRouteEnabled_safe [OF assms(2)] by blast
next
  case (3 idx url e)
  then show ?case using OpenURL_safe [OF assms(2)] by blast
qed

lemma control_steps_safe:
  assumes "(control_step cfg parse env)\<^sup>*\<^sup>* (gone, m, w) (gone', m', w')" "world_ok w" "mo_EchoURL (mn_opts m) = cf_IPEchoURL cfg"
  shows "mn_opts m' = mn_opts m \<and> kept_session w w'"
  using assms(1)
proof (induction "(gone', m', w')" arbitrary: gone' m' w' rule: rtranclp_induct)
  case base
  then show ?case using assms(2) by (simp add: kept_session_refl)
next
  case (step y)
  obtain g1 m1 w1 where y: "y = (g1, m1, w1)" by (metis prod.exhaust)
  have IH: "mn_opts m1 = mn_opts m" "kept_session w w1" using step.hyps(3) [OF y] by auto
  have "world_ok w1" using IH(2) by (simp add: kept_session_def)
  then have st: "mn_opts m' = mn_opts m1 \<and> (w' = w1 \<or> (\<exists>i < length (se_subjects w1). safe_step cfg env i w1 w'))"
    using control_step_safe [of cfg parse env g1 m1 w1 gone' m' w'] step.hyps(2) IH assms(3) by (simp add: y)
  then show ?case
    using IH kept_session_trans [OF IH(2)] by (auto dest: safe_step_kept)
qed


text \<open>
  C5: Re-establishing a route. The gate stays closed. If it succeeds, the subject has a new route
  whose egress was probed: it is the address the session is pinned to (or becomes it when there is
  none yet) and the address of no other identity; the old route is stopped and the new one waits in
  VERIFYING. If it fails, the subject keeps its route and its addresses. No other identity is touched.
\<close>

theorem session_reestablish:
  assumes "world_ok w" "i < length (se_subjects w)" "se_prov w \<noteq> None" "reestablish cfg env i w = (e, w')"
  shows "world_ok w' \<and> \<not> g_open (sb_Gate (sub w' i))
    \<and> (\<forall>j < length (se_subjects w). j \<noteq> i \<longrightarrow> sub w' j = sub w j \<and> route_at w' j = route_at w j)
    \<and> (case e of
         Some _ \<Rightarrow> sb_Route (sub w' i) = sb_Route (sub w i) \<and> route_at w' i = route_at w i
           \<and> sb_RouteIP (sub w' i) = sb_RouteIP (sub w i) \<and> sb_BrowserIP (sub w' i) = sb_BrowserIP (sub w i)
       | None \<Rightarrow> (\<exists>t r a. route_Def r = route_Def (route_at w' i) \<and> route_PublicIP (env t) r (cf_IPEchoURL cfg) = Inr a
           \<and> (case sb_RouteIP (sub w i) of
                None \<Rightarrow> sb_RouteIP (sub w' i) = Some a \<and> sb_BrowserIP (sub w' i) = Some a
              | Some p \<Rightarrow> ip_Equal a p \<and> sb_RouteIP (sub w' i) = Some p)
           \<and> (\<forall>j < length (se_subjects w). j \<noteq> i \<longrightarrow> (\<forall>p. sb_RouteIP (sub w j) = Some p \<longrightarrow> \<not> ip_Equal a p))
           \<and> route_Status (route_at w' i) = StatusVerifying \<and> sb_Route (sub w' i) \<noteq> sb_Route (sub w i)
           \<and> route_Status (se_routes w' (sb_Route (sub w i))) = StatusStopped))"
proof -
  note R = reestablish_ok [OF assms(1,2,4), unfolded replaced_def untouched_def]
  show ?thesis using R assms(3) by (cases e) (simp_all add: only_def loc_def)
qed

text \<open>A session running one identity, its route stopped and started again, and re-established.\<close>

definition sample_running :: world where
  "sample_running = sample_world\<lparr>se_fresh := 1, se_prov := Some (Static [sample_def]),
     se_routes := (\<lambda>_. UpstreamRoute \<lparr>u_def = sample_def, u_dial = HttpDial (upstream_dialer sample_def []),
        u_status = StatusReady, u_lastErr = None\<rparr>),
     se_subjects := [(new_subject (sample_ident 1) 0 (gate_Open (NewGate 0)))\<lparr>sb_Browser := True,
        sb_RouteIP := Some (v4InV6Prefix @ [1, 2, 3, 4]), sb_BrowserIP := Some (v4InV6Prefix @ [1, 2, 3, 4])\<rparr>],
     se_alive := (\<lambda>_. True)\<rparr>"

definition sample_stopped :: world where
  "sample_stopped = snd (SetRouteEnabled sample_cfg (\<lambda>_. sample_penv) 1 False sample_running)"

definition sample_restarted :: world where
  "sample_restarted = snd (SetRouteEnabled sample_cfg (\<lambda>_. sample_penv) 1 True sample_stopped)"

lemma sample_running_ok: "world_ok sample_running" "length (se_subjects sample_running) = 1" "se_prov sample_running \<noteq> None"
proof -
  show "world_ok sample_running" by code_simp
  show "length (se_subjects sample_running) = 1" by code_simp
  have "\<not> Option.is_none (se_prov sample_running)" by code_simp
  then show "se_prov sample_running \<noteq> None" by (simp add: Option.is_none_def)
qed


theorem session_reestablish_witness:
  "\<exists>w'. reestablish sample_cfg (\<lambda>_. sample_penv) 0 sample_running = (None, w')
     \<and> sb_Route (sub w' 0) \<noteq> sb_Route (sub sample_running 0) \<and> \<not> g_open (sb_Gate (sub w' 0))"
proof -
  have "Option.is_none (fst (reestablish sample_cfg (\<lambda>_. sample_penv) 0 sample_running))" by code_simp
  then obtain w' where r: "reestablish sample_cfg (\<lambda>_. sample_penv) 0 sample_running = (None, w')"
    by (metis Option.is_none_def prod.collapse)
  from session_reestablish [OF sample_running_ok(1) _ sample_running_ok(3) r] r show ?thesis
    by (auto simp: sample_running_ok(2))
qed

section \<open>What the monitor does in a round\<close>

lemma unreachable_blocked:
  assumes ok: "world_ok w" and i: "i < length (se_subjects w)"
    and u: "route_Reachable (pe_net (ask env w)) (route_at w i) = Some e"
    and r: "probe (Some (reestablish cfg)) env i (m, w) = p"
  shows "blocked i (m, w) p"
proof -
  let ?t = "pe_now (ask env w)"
  let ?m1 = "set_state i ((mn_state m i)\<lparr>ms_LastProbe := Some ?t\<rparr>) m"
  note o1 = only_tick [OF ok i]
  have i1: "i < length (se_subjects (tick w))" using i by simp
  have "blocked i (m, tick w) (markDown ?t i x (?m1, tick w))" for x
    using re.markDown_blocked [OF only_ok [OF o1] i1, of ?m1] unfolding re.blocked_state .
  then have b: "blocked i (m, w) (markDown ?t i x (?m1, tick w))" for x
    by (rule re.blocked_from [OF o1, rotated]) simp
  moreover have "p = maybeReestablish (Some (reestablish cfg)) env i (markDown ?t i (''upstream unreachable: '' @ e) (?m1, tick w))"
    using r u by (simp add: probe_def Let_def)
  ultimately show ?thesis
    using re.maybeReestablish_blocked i by (metis prod.exhaust snd_conv)
qed

text \<open>
  C6: One probe of the health monitor ends in one of three ways. Either the identity is blocked: gate
  closed, route not READY, recorded as down, the session address unchanged. Or its route is READY
  because a probe through it just saw the session address, it is recorded as up, and its gate is open
  if it was open or the route had been down. Or nothing was due and nothing changed. An unreachable
  upstream always blocks. No other identity is touched.
\<close>

theorem health_probe_verdict:
  assumes "world_ok w" "i < length (se_subjects w)" "probe (Some (reestablish cfg)) env i (m, w) = (m', w')"
  shows "(\<not> g_open (sb_Gate (sub w' i)) \<and> route_Status (route_at w' i) \<noteq> StatusReady \<and> ms_Down (mn_state m' i)
       \<and> (\<forall>p. sb_RouteIP (sub w i) = Some p \<longrightarrow> sb_RouteIP (sub w' i) = Some p)
     \<or> route_Status (route_at w' i) = StatusReady \<and> \<not> ms_Down (mn_state m' i)
       \<and> g_open (sb_Gate (sub w' i)) = (g_open (sb_Gate (sub w i)) \<or> ms_Down (mn_state m i))
       \<and> sb_RouteIP (sub w' i) = sb_RouteIP (sub w i)
       \<and> (\<exists>t r a. route_Def r = route_Def (route_at w i) \<and> route_PublicIP (env t) r (mo_EchoURL (mn_opts m)) = Inr a
            \<and> (\<forall>p. sb_RouteIP (sub w i) = Some p \<longrightarrow> ip_Equal a p))
     \<or> w' = tick w \<and> \<not> ms_Down (mn_state m i) \<and> \<not> ms_Down (mn_state m' i))
    \<and> (route_Reachable (pe_net (ask env w)) (route_at w i) \<noteq> None \<longrightarrow> \<not> g_open (sb_Gate (sub w' i)) \<and> ms_Down (mn_state m' i))
    \<and> (\<forall>j < length (se_subjects w). j \<noteq> i \<longrightarrow> sub w' j = sub w j \<and> route_at w' j = route_at w j)"
proof -
  have b: "route_Reachable (pe_net (ask env w)) (route_at w i) = None \<or> blocked i (m, w) (m', w')"
    using unreachable_blocked [OF assms(1,2) _ assms(3)] by fastforce
  from re.probe_outcome [OF assms] show ?thesis
  proof (elim disjE)
    assume "blocked i (m, w) (m', w')"
    then show ?thesis by (simp add: blocked_def only_def loc_def)
  next
    assume v: "verified env i (m, w) (m', w')"
    then obtain t r a where rs: "restored i a (m, w) (m', w')" and pr: "route_Def r = route_Def (route_at w i)"
      "route_PublicIP (env t) r (mo_EchoURL (mn_opts m)) = Inr a" by (auto simp: verified_def)
    have "\<exists>t r a. route_Def r = route_Def (route_at w i) \<and> route_PublicIP (env t) r (mo_EchoURL (mn_opts m)) = Inr a
        \<and> (\<forall>p. sb_RouteIP (sub w i) = Some p \<longrightarrow> ip_Equal a p)"
      using rs pr unfolding restored_def by blast
    moreover have "route_Reachable (pe_net (ask env w)) (route_at w i) = None"
      using b rs by (auto simp: blocked_def restored_def)
    ultimately show ?thesis using rs by (simp add: restored_def only_def loc_def)
  next
    assume u: "w' = tick w \<and> \<not> ms_Down (mn_state m i) \<and> \<not> ms_Down (mn_state m' i) \<and> mn_opts m' = mn_opts m"
    then have "route_Reachable (pe_net (ask env w)) (route_at w i) = None" using b by (auto simp: blocked_def)
    then show ?thesis using u by (simp add: route_at_def)
  qed
qed

theorem health_probe_verdict_witness:
  "\<exists>m' w'. probe (Some (reestablish sample_cfg)) (\<lambda>_. sample_penv) 0 (session_monitor sample_cfg, sample_running) = (m', w')
     \<and> route_Status (route_at w' 0) = StatusReady \<and> sb_RouteIP (sub w' 0) = sb_RouteIP (sub sample_running 0)"
proof -
  let ?r = "probe (Some (reestablish sample_cfg)) (\<lambda>_. sample_penv) 0 (session_monitor sample_cfg, sample_running)"
  obtain m' w' where r: "?r = (m', w')" by (metis prod.exhaust)
  have s: "route_Status (route_at (snd ?r) 0) = StatusReady" by code_simp
  have "sb_RouteIP (sub w' 0) = sb_RouteIP (sub sample_running 0)"
    using health_probe_verdict [OF sample_running_ok(1) _ r] s by (auto simp: sample_running_ok(2) r)
  then show ?thesis using r s by simp
qed

lemma emit_bounded [simp]: "length (mn_events (emit ev m)) \<le> 500"
  by (simp add: emit_def keep_last_def)

lemma set_state_events [simp]: "mn_events (set_state i st m) = mn_events m"
  by (simp add: set_state_def)

lemma markDown_events: "length (mn_events m) \<le> 500 \<Longrightarrow> length (mn_events (fst (markDown t i x (m, w)))) \<le> 500"
  by (simp add: markDown_def Let_def)

lemma maybeReestablish_events:
  "length (mn_events (fst p)) \<le> 500 \<Longrightarrow> length (mn_events (fst (maybeReestablish cb env i p))) \<le> 500"
  by (cases p) (auto simp: maybeReestablish_def Let_def split: option.splits prod.splits)

lemma egress_verdict_events:
  "length (mn_events m) \<le> 500 \<Longrightarrow> length (mn_events (fst (egress_verdict cb env i wasDown res (m, w)))) \<le> 500"
  by (auto simp: egress_verdict_def Let_def case_prod_beta markDown_events maybeReestablish_events
      split: sum.splits option.splits)

lemma probe_events: "length (mn_events (fst p)) \<le> 500 \<Longrightarrow> length (mn_events (fst (probe cb env i p))) \<le> 500"
  by (cases p) (auto simp: probe_def egress_check_def Let_def markDown_events maybeReestablish_events
      egress_verdict_events split: option.splits)

text \<open>
  The event log of the monitor never exceeds 500 entries. Each round keeps the bound, whatever
  happens in it, and a leak is recorded exactly when the sample holds
  an endpoint the previous sample did not.
\<close>

theorem health_log_bounded:
  assumes "length (mn_events m) \<le> 500"
  shows "length (mn_events (fst (snd (loop_round cb env i exited (gone, m, w))))) \<le> 500
    \<and> (\<forall>eps. pe_endpoints (ask env w) = Inr eps \<longrightarrow>
        (let leaks = map Endpoint_String (filter (\<lambda>ep. isLeak ep (gate_Addr (sb_Gate (sub w i)))) eps);
             m' = fst (sampleLeaks env i (m, w))
         in ms_Leaks (StateOf m' i) = leaks
          \<and> (if set leaks \<subseteq> set (ms_Leaks (StateOf m i)) then mn_events m' = mn_events m
             else he_Kind (List.last (mn_events m')) = Leak \<and> he_Subject (List.last (mn_events m')) = i)))"
proof -
  have s: "length (mn_events (fst p)) \<le> 500 \<Longrightarrow> length (mn_events (fst (sampleLeaks env i p))) \<le> 500" for p
    by (cases p) (simp add: sampleLeaks_def Let_def split: sum.splits)
  have 1: "length (mn_events (fst (snd (loop_round cb env i exited (gone, m, w))))) \<le> 500"
    using assms by (simp add: loop_round_def Let_def s probe_events)
  show ?thesis
    using 1 by (auto simp: sampleLeaks_def Let_def StateOf_def set_state_def emit_def keep_last_def diff_def
        filter_empty_conv last_drop)
qed

theorem health_log_bounded_witness:
  "length (mn_events (fst (snd (loop_round (Some (reestablish sample_cfg)) (\<lambda>_. sample_penv) 0 True
     (False, session_monitor sample_cfg, sample_running))))) \<le> 500"
  using health_log_bounded [of "session_monitor sample_cfg"] by (simp add: session_monitor_def health_New_def)

text \<open>
  A stopped route is announced READY again. After \<open>route.stop\<close> of an identity whose route was up, the
  next monitor round in which an address check is due and sees the session address sets the route's
  status back to READY although nobody started it; its gate stays closed.
\<close>

theorem session_stop_undone:
  assumes "find_slot slot 0 (se_subjects w) = Some i" "SetRouteEnabled cfg env slot False w = (e, w1)"
    and "\<not> ms_Down (mn_state m i)" "needIP (mn_opts m) False (pe_now (ask env w1)) (mn_state m i)"
    and "route_Reachable (pe_net (ask env w1)) (route_at w1 i) = None"
    and "route_PublicIP (env (Suc (se_tick w1))) (route_SetStatus StatusVerifying (route_at w1 i)) (mo_EchoURL (mn_opts m)) = Inr a"
    and "\<forall>p. sb_RouteIP (sub w1 i) = Some p \<longrightarrow> ip_Equal a p"
    and "probe cb env i (m, w1) = (m', w')"
  shows "e = None \<and> route_Status (route_at w1 i) = StatusDown \<and> \<not> g_open (sb_Gate (sub w1 i))
    \<and> route_Status (route_at w' i) = StatusReady \<and> \<not> g_open (sb_Gate (sub w' i))"
proof -
  have i: "i < length (se_subjects w)" using find_slot_Some [OF assms(1)] by simp
  have w1: "e = None" "w1 = on_gate i gate_Close (set_status (sb_Route (sub w i)) StatusDown w)"
    using assms(1,2) by (simp_all add: SetRouteEnabled_def)
  have s1: "sub w1 i = with_gate gate_Close (sub w i)" "route_Status (route_at w1 i) = StatusDown"
    using i by (simp_all add: w1(2) route_at_def)
  let ?w2 = "set_status (sb_Route (sub w1 i)) StatusVerifying (tick w1)"
  have q: "route_PublicIP (ask env ?w2) (se_routes ?w2 (sb_Route (sub w1 i))) (mo_EchoURL (mn_opts m)) = Inr a"
    using assms(6) by (simp add: ask_def set_status_def route_at_def tick_def)
  have "(m', w') = egress_check cb env i False (set_state i ((mn_state m i)\<lparr>ms_LastProbe := Some (pe_now (ask env w1))\<rparr>) m, tick w1)"
    using assms(3-5,8) by (simp add: probe_def Let_def)
  also have "snd \<dots> = set_status (sb_Route (sub w1 i)) StatusReady (tick ?w2)"
    using s1(2) q assms(7) by (auto simp: egress_check_def egress_verdict_def Let_def route_at_def set_state_def split: option.splits)
  finally have "w' = set_status (sb_Route (sub w1 i)) StatusReady (tick ?w2)" by simp
  then show ?thesis using w1(1) s1 by (simp add: route_at_def)
qed

theorem session_stop_undone_witness:
  "route_Status (route_at sample_stopped 0) = StatusDown
   \<and> route_Status (route_at (snd (probe (Some (reestablish sample_cfg)) (\<lambda>_. sample_penv) 0
       (session_monitor sample_cfg, sample_stopped))) 0) = StatusReady"
proof -
  let ?e = "\<lambda>_::nat. sample_penv" and ?m = "session_monitor sample_cfg"
  obtain m' w' where r: "probe (Some (reestablish sample_cfg)) ?e 0 (?m, sample_stopped) = (m', w')" by (metis prod.exhaust)
  have f: "find_slot 1 0 (se_subjects sample_running) = Some 0" by code_simp
  obtain e where e: "SetRouteEnabled sample_cfg ?e 1 False sample_running = (e, sample_stopped)"
    by (metis prod.collapse sample_stopped_def)
  have d: "\<not> ms_Down (mn_state ?m 0)" "needIP (mn_opts ?m) False (pe_now (ask ?e sample_stopped)) (mn_state ?m 0)"
    "route_Reachable (pe_net (ask ?e sample_stopped)) (route_at sample_stopped 0) = None"
    "route_PublicIP (?e (Suc (se_tick sample_stopped))) (route_SetStatus StatusVerifying (route_at sample_stopped 0))
       (mo_EchoURL (mn_opts ?m)) = Inr (v4InV6Prefix @ [1, 2, 3, 4])"
    "sb_RouteIP (sub sample_stopped 0) = Some (v4InV6Prefix @ [1, 2, 3, 4])"
    by code_simp+
  have "ip_Equal (v4InV6Prefix @ [1, 2, 3, 4]) (v4InV6Prefix @ [1, 2, 3, 4])" by code_simp
  with session_stop_undone [OF f e d(1-4) _ r] d(5) r show ?thesis by simp
qed

end
