(* ===== verification/Ipc.thy ===== *)
theory Ipc
  imports Control
begin

text \<open>
  The control channel (\<open>src/ipc/ipc.go\<close>) and the session behind it (\<open>src/controller/startup/status.go\<close>,
  \<open>util.go\<close>): the status document, the diagnostics run, the table of handlers, the server's treatment of
  a connection with its token, the client's call, and the run files.

  JSON encoding and decoding are parameters; so are the platform's listener, the clock's rendering and
  what the operating system says of the process.
\<close>

section \<open>The status document\<close>

record CheckStatus =
  cs_ID :: string
  cs_Name :: string
  cs_Passed :: bool
  cs_Detail :: string

record HealthStatus =
  hs_LastProbe :: "int option"
  hs_Down :: bool
  hs_DownSince :: "int option"
  hs_LastError :: string
  hs_Leaks :: "string list"

record IdentityStatus =
  is_Index :: int
  is_ID :: string
  is_Route :: string
  is_RouteType :: string
  is_RouteStatus :: string
  is_GateOpen :: bool
  is_GateAddr :: string
  is_BrowserPID :: int
  is_BrowserAlive :: bool
  is_EgressIP :: string
  is_CurrentURL :: string
  is_Verified :: bool
  is_Checks :: "CheckStatus list"
  is_Environment :: Environment
  is_Profile :: string
  is_Health :: HealthStatus

record Status =
  st_Version :: string
  st_PID :: int
  st_StartedAt :: int
  st_Chromium :: string
  st_Source :: string
  st_HostIPv4 :: string
  st_HostIPv6 :: string
  st_Identities :: "IdentityStatus list"
  st_Events :: "string list"

text \<open>What the session knows besides the shared state, and the library calls the document needs.\<close>

record session_info =
  si_Version :: string
  si_PID :: int
  si_Started :: int
  si_ChromeVer :: string
  si_Source :: string
  si_DataDir :: string
  si_browserPID :: "nat \<Rightarrow> int"
  si_rel :: "string \<Rightarrow> string \<Rightarrow> string result"
  si_rfc3339 :: "int \<Rightarrow> string"

definition zero_HealthStatus :: HealthStatus where
  "zero_HealthStatus = \<lparr>hs_LastProbe = None, hs_Down = False, hs_DownSince = None, hs_LastError = [], hs_Leaks = []\<rparr>"

definition ProfileRelPath :: "session_info \<Rightarrow> subject \<Rightarrow> string" where
  "ProfileRelPath si s = (case si_rel si (si_DataDir si) (id_Profile (sb_Identity s)) of
     Inl _ \<Rightarrow> id_Profile (sb_Identity s) | Inr rel \<Rightarrow> rel)"

definition check_status :: "Check \<Rightarrow> CheckStatus" where
  "check_status c = \<lparr>cs_ID = ck_ID c, cs_Name = ck_Name c, cs_Passed = ck_Passed c, cs_Detail = ck_Detail c\<rparr>"

definition health_status :: "State \<Rightarrow> HealthStatus" where
  "health_status h = \<lparr>hs_LastProbe = ms_LastProbe h, hs_Down = ms_Down h, hs_DownSince = ms_DownSince h,
     hs_LastError = ms_LastError h, hs_Leaks = ms_Leaks h\<rparr>"

definition identity_status :: "session_info \<Rightarrow> monitor option \<Rightarrow> world \<Rightarrow> nat \<Rightarrow> IdentityStatus" where
  "identity_status si mon w i =
    (let s = sub w i; r = route_at w i in
     \<lparr>is_Index = id_Index (sb_Identity s), is_ID = id_ID (sb_Identity s), is_Route = route_ID r,
      is_RouteType = rd_Type (route_Def r), is_RouteStatus = RouteStatus_String (route_Status r),
      is_GateOpen = g_open (sb_Gate s), is_GateAddr = gate_Addr (sb_Gate s),
      is_BrowserPID = (if sb_Browser s then si_browserPID si i else 0),
      is_BrowserAlive = (sb_Browser s \<and> se_alive w i),
      is_EgressIP = (case sb_BrowserIP s of None \<Rightarrow> [] | Some a \<Rightarrow> ip_String a),
      is_CurrentURL = se_finalURL w i,
      is_Verified = (\<not> Failed s \<and> sb_Results s \<noteq> []),
      is_Checks = map check_status (sb_Results s),
      is_Environment = id_Environment (sb_Identity s), is_Profile = ProfileRelPath si s,
      is_Health = (case mon of None \<Rightarrow> zero_HealthStatus | Some m \<Rightarrow> health_status (StateOf m i))\<rparr>)"

definition event_line :: "session_info \<Rightarrow> world \<Rightarrow> Event \<Rightarrow> string" where
  "event_line si w ev = si_rfc3339 si (he_At ev) @ '' '' @ subject_Label (sub w (he_Subject ev)) @ '' ''
     @ Kind_String (he_Kind ev) @ '': '' @ he_Detail ev"

definition Session_Status :: "session_info \<Rightarrow> monitor option \<Rightarrow> world \<Rightarrow> Status" where
  "Session_Status si mon w =
    \<lparr>st_Version = si_Version si, st_PID = si_PID si, st_StartedAt = si_Started si, st_Chromium = si_ChromeVer si,
     st_Source = si_Source si, st_HostIPv4 = se_hostIPv4 w, st_HostIPv6 = se_hostIPv6 w,
     st_Identities = map (identity_status si mon w) (indices w),
     st_Events = (case mon of None \<Rightarrow> [] | Some m \<Rightarrow> map (event_line si w) (keep_last 20 (mn_events m)))\<rparr>"

definition uniqueChecks :: "Check list \<Rightarrow> nat" where
  "uniqueChecks cs = length (remdups (map ck_ID cs))"

section \<open>Diagnostics\<close>

definition verifyOptions :: "SConfig \<Rightarrow> world \<Rightarrow> VOptions" where
  "verifyOptions cfg w = (base_options cfg)\<lparr>
     vo_HostIPv4 := (if se_hostIPv4 w \<noteq> [] then ParseIP (se_hostIPv4 w) else None),
     vo_HostIPv6 := (if se_hostIPv6 w \<noteq> [] then ParseIP (se_hostIPv6 w) else None)\<rparr>"

definition begin_one :: "env \<Rightarrow> nat \<Rightarrow> world \<Rightarrow> gerr option \<times> world" where
  "begin_one env i w =
    (let s = sub w i in
     if \<not> (sb_Browser s \<and> se_alive w i) then (Some (subject_Label s @ '' browser is not running''), w)
     else case Begin (pe_newPage (ask env w)) (s\<lparr>sb_Results := []\<rparr>) of
         (err, s') \<Rightarrow> (err, tick (set_sub i s' w)))"

fun begin_all :: "env \<Rightarrow> nat list \<Rightarrow> world \<Rightarrow> gerr option \<times> world" where
  "begin_all env [] w = (None, w)"
| "begin_all env (i # is) w =
    (case begin_one env i w of
       (Some e, w1) \<Rightarrow> (Some e, w1)
     | (None, w1) \<Rightarrow> begin_all env is w1)"

definition diagnose_routes :: "env \<Rightarrow> VOptions \<Rightarrow> nat \<Rightarrow> world \<Rightarrow> unit \<times> world" where
  "diagnose_routes env o' i w =
    ((), snd (check_step (V2_on o') env i (snd (V1 env o' i w))))"

definition diagnose_browser :: "env \<Rightarrow> VOptions \<Rightarrow> nat \<Rightarrow> world \<Rightarrow> unit \<times> world" where
  "diagnose_browser env o' i w =
    (let w1 = snd (check_step (V4_on o') env i w);
         w2 = snd (check_step (V5_on o') env i w1);
         w3 = (if length (se_subjects w2) > 1 then snd (V6 env i w2) else w2);
         w4 = snd (check_step (V7_on o') env i w3)
     in ((), snd (check_step V8_on env i w4)))"

text \<open>The result is computed before the deferred \<open>Finish\<close> of every subject.\<close>

definition Diagnostics ::
  "session_info \<Rightarrow> SConfig \<Rightarrow> env \<Rightarrow> monitor option \<Rightarrow> world \<Rightarrow> (gerr + Status) \<times> world" where
  "Diagnostics si cfg env mon w =
    (let o' = verifyOptions cfg w in
     case begin_all env (indices w) w of
       (Some e, w1) \<Rightarrow> (Inl e, w1)
     | (None, w1) \<Rightarrow>
        (let w2 = snd (over (diagnose_routes env o') (indices w1) w1);
             w3 = snd (V3 env o' w2);
             w4 = snd (over (diagnose_browser env o') (indices w3) w3)
         in (Inr (Session_Status si mon w4), finish_all w4)))"

section \<open>Handlers\<close>

record route_row =
  rr_ID :: string
  rr_Type :: string
  rr_Status :: string
  rr_Redacted :: string
  rr_Slot :: int

definition route_row_of :: "world \<Rightarrow> nat \<Rightarrow> route_row" where
  "route_row_of w i = (let r = route_at w i in \<lparr>rr_ID = route_ID r, rr_Type = rd_Type (route_Def r),
     rr_Status = RouteStatus_String (route_Status r), rr_Redacted = Redacted (route_Def r),
     rr_Slot = id_RouteSlot (sb_Identity (sub w i))\<rparr>)"

datatype answer = Nothing | AStatus Status | AIdentities "identity list" | ARoutes "route_row list" | AText string

record session_view =
  sv_info :: session_info
  sv_cfg :: SConfig
  sv_parse :: "string \<Rightarrow> (string \<times> string) result"
  sv_env :: env
  sv_monitor :: "monitor option"
  sv_slot :: "string \<Rightarrow> int result"
  sv_open :: "string \<Rightarrow> (int \<times> string) result"

text \<open>
  The state of the process the handlers reach: the session's, and whether \<open>requestStop\<close> was called.
  \<open>sv_slot\<close> and \<open>sv_open\<close> decode the parameters of a request.
\<close>

type_synonym handler = "string \<Rightarrow> world \<times> bool \<Rightarrow> (gerr + answer) \<times> world \<times> bool"

definition error_or_nothing :: "gerr option \<times> world \<Rightarrow> bool \<Rightarrow> (gerr + answer) \<times> world \<times> bool" where
  "error_or_nothing r stop = ((case fst r of Some e \<Rightarrow> Inl e | None \<Rightarrow> Inr Nothing), snd r, stop)"

definition route_handler :: "session_view \<Rightarrow> bool \<Rightarrow> handler" where
  "route_handler sv enabled params = (\<lambda>(w, stop). case sv_slot sv params of
     Inl e \<Rightarrow> (Inl e, w, stop)
   | Inr slot \<Rightarrow> error_or_nothing (SetRouteEnabled (sv_cfg sv) (sv_env sv) slot enabled w) stop)"

definition IPCHandlers :: "session_view \<Rightarrow> string \<Rightarrow> handler option" where
  "IPCHandlers sv name =
    (if name = ''status'' then Some (\<lambda>_ (w, stop). (Inr (AStatus (Session_Status (sv_info sv) (sv_monitor sv) w)), w, stop))
     else if name = ''identities.list'' then Some (\<lambda>_ (w, stop). (Inr (AIdentities (idents w)), w, stop))
     else if name = ''routes.list'' then Some (\<lambda>_ (w, stop). (Inr (ARoutes (map (route_row_of w) (indices w))), w, stop))
     else if name = ''route.stop'' then Some (route_handler sv False)
     else if name = ''route.start'' then Some (route_handler sv True)
     else if name = ''identity.open_url'' then Some (\<lambda>params (w, stop). case sv_open sv params of
         Inl e \<Rightarrow> (Inl e, w, stop)
       | Inr (idx, url) \<Rightarrow> error_or_nothing (OpenURL (sv_parse sv) (sv_env sv) idx url w) stop)
     else if name = ''diagnostics.run'' then Some (\<lambda>_ (w, stop).
       case Diagnostics (sv_info sv) (sv_cfg sv) (sv_env sv) (sv_monitor sv) w of
         (res, w') \<Rightarrow> (map_sum id AStatus res, w', stop))
     else if name = ''shutdown'' then Some (\<lambda>_ (w, stop). (Inr (AText ''stopping''), w, True))
     else None)"

section \<open>The channel\<close>

record Request =
  rq_Token :: string
  rq_Method :: string
  rq_Params :: string

record Response =
  rs_OK :: bool
  rs_Error :: string
  rs_Result :: string

record codec =
  co_request :: "string \<Rightarrow> Request option"
  co_marshal :: "Request \<Rightarrow> string"
  co_answer :: "answer \<Rightarrow> string result"
  co_response :: "Response \<Rightarrow> string"
  co_parse :: "string \<Rightarrow> Response result"

definition newline :: char where
  "newline = CHR 0x0A"

text \<open>\<open>bufio.Reader.ReadBytes\<close> up to a newline: the line with its newline, or the error of a stream that ends first.\<close>

definition ReadLine :: "string \<Rightarrow> string option" where
  "ReadLine input = (if newline \<in> set input then Some (takeWhile (\<lambda>c. c \<noteq> newline) input @ [newline]) else None)"

definition ConstantTimeCompare :: "string \<Rightarrow> string \<Rightarrow> nat" where
  "ConstantTimeCompare x y = (if length x \<noteq> length y then 0
     else if list_all (\<lambda>(a, b). a = b) (zip x y) then 1 else 0)"

definition writeResp :: "codec \<Rightarrow> Response \<Rightarrow> string" where
  "writeResp co r = co_response co r @ [newline]"

definition error_response :: "gerr \<Rightarrow> Response" where
  "error_response e = \<lparr>rs_OK = False, rs_Error = e, rs_Result = []\<rparr>"

definition answer_response :: "codec \<Rightarrow> gerr + answer \<Rightarrow> Response" where
  "answer_response co res =
    (case res of
       Inl e \<Rightarrow> error_response e
     | Inr a \<Rightarrow> (case co_answer co a of
         Inl e \<Rightarrow> error_response e
       | Inr b \<Rightarrow> \<lparr>rs_OK = True, rs_Error = [], rs_Result = b\<rparr>))"

text \<open>One connection: what is written back and the state afterwards.\<close>

definition serve ::
  "codec \<Rightarrow> string \<Rightarrow> (string \<Rightarrow> handler option) \<Rightarrow> string \<Rightarrow> world \<times> bool \<Rightarrow> string \<times> world \<times> bool" where
  "serve co token handlers input st =
    (case ReadLine input of
       None \<Rightarrow> ([], st)
     | Some line \<Rightarrow>
        (case co_request co line of
           None \<Rightarrow> (writeResp co (error_response ''bad request''), st)
         | Some req \<Rightarrow>
            if ConstantTimeCompare (rq_Token req) token \<noteq> 1 then (writeResp co (error_response ''unauthorized''), st)
            else (case handlers (rq_Method req) of
               None \<Rightarrow> (writeResp co (error_response (''unknown method '' @ rq_Method req)), st)
             | Some h \<Rightarrow>
                (case h (rq_Params req) st of (res, st') \<Rightarrow> (writeResp co (answer_response co res), st')))))"

definition ErrNotRunning :: gerr where
  "ErrNotRunning = ''no running tab-router session''"

record Client =
  cl_endpoint :: string
  cl_token :: string

text \<open>
  \<open>Call\<close> over a connection to a server: \<open>talk\<close> is the server's side, from the bytes written to the bytes
  that come back. \<open>params\<close> is the encoding of the parameters, empty for none. The result is the encoded
  answer that is decoded into \<open>out\<close>.
\<close>

definition Call :: "codec \<Rightarrow> Client \<Rightarrow> bool \<Rightarrow> (string \<Rightarrow> string \<times> 's) \<Rightarrow> string \<Rightarrow> string result \<Rightarrow> 's \<Rightarrow> string result \<times> 's" where
  "Call co cl reachable talk meth params st =
    (if \<not> reachable then (Inl ErrNotRunning, st)
     else case params of
        Inl e \<Rightarrow> (Inl e, st)
      | Inr ps \<Rightarrow>
         (case talk (co_marshal co \<lparr>rq_Token = cl_token cl, rq_Method = meth, rq_Params = ps\<rparr> @ [newline]) of
           (out, st') \<Rightarrow>
            ((case ReadLine out of
               None \<Rightarrow> Inl ''EOF''
             | Some line \<Rightarrow>
                (case co_parse co line of
                   Inl e \<Rightarrow> Inl e
                 | Inr resp \<Rightarrow> if \<not> rs_OK resp then Inl (rs_Error resp) else Inr (rs_Result resp))), st')))"

section \<open>Run files\<close>

type_synonym run_dir = "string \<rightharpoonup> string"

record ipc_env =
  ie_mkdir :: "gerr option"
  ie_pid :: int
  ie_listen :: "string result"
  ie_rand :: "byte list result"
  ie_write :: "string \<Rightarrow> gerr option"
  ie_secure :: "string \<Rightarrow> gerr option"
  ie_dial :: "string \<Rightarrow> bool"

record ipc_server =
  is_endpoint :: string
  is_token :: string
  is_closed :: bool

definition runningPID :: "ipc_env \<Rightarrow> run_dir \<Rightarrow> int option" where
  "runningPID e d =
    (case d ''pid'' of
       None \<Rightarrow> None
     | Some b \<Rightarrow>
        (case Atoi (TrimSpace b) of
           None \<Rightarrow> None
         | Some p \<Rightarrow>
            if p \<le> 0 \<or> p = ie_pid e then None
            else (case d ''endpoint'' of
               None \<Rightarrow> None
             | Some ep \<Rightarrow> if ie_dial e (TrimSpace ep) then Some p else None)))"

definition remove_files :: "run_dir \<Rightarrow> run_dir" where
  "remove_files d = d |` (- {''endpoint'', ''token'', ''pid'', ''control.sock''})"

definition ipc_Close :: "ipc_server \<times> run_dir \<Rightarrow> ipc_server \<times> run_dir" where
  "ipc_Close = (\<lambda>(s, d). if is_closed s then (s, d) else (s\<lparr>is_closed := True\<rparr>, remove_files d))"

definition file_content :: "ipc_env \<Rightarrow> ipc_server \<Rightarrow> string \<Rightarrow> string" where
  "file_content e s name =
    (if name = ''endpoint'' then is_endpoint s else if name = ''token'' then is_token s else Itoa (ie_pid e))"

fun write_files :: "ipc_env \<Rightarrow> ipc_server \<Rightarrow> string list \<Rightarrow> run_dir \<Rightarrow> gerr option \<times> run_dir" where
  "write_files e s [] d = (None, d)"
| "write_files e s (n # ns) d =
    (case ie_write e n of
       Some x \<Rightarrow> (Some x, d)
     | None \<Rightarrow>
        (let d1 = d(n \<mapsto> file_content e s n @ [newline]) in
         case ie_secure e n of Some x \<Rightarrow> (Some x, d1) | None \<Rightarrow> write_files e s ns d1))"

text \<open>\<open>order\<close> is the order in which the map of the three files is ranged over.\<close>

definition Listen :: "string list \<Rightarrow> ipc_env \<Rightarrow> run_dir \<Rightarrow> ipc_server result \<times> run_dir" where
  "Listen order e d =
    (case ie_mkdir e of
       Some x \<Rightarrow> (Inl x, d)
     | None \<Rightarrow>
        (case runningPID e d of
           Some p \<Rightarrow> (Inl (''tab-router is already running (pid '' @ Itoa p @ ''); use --stop first''), d)
         | None \<Rightarrow>
            (case ie_listen e of
               Inl x \<Rightarrow> (Inl x, d)
             | Inr ep \<Rightarrow>
                (case ie_rand e of
                   Inl x \<Rightarrow> (Inl x, d)
                 | Inr tok \<Rightarrow>
                    (let s = \<lparr>is_endpoint = ep, is_token = EncodeToString tok, is_closed = False\<rparr> in
                     case write_files e s order d of
                       (Some x, d1) \<Rightarrow> (Inl x, snd (ipc_Close (s, d1)))
                     | (None, d1) \<Rightarrow> (Inr s, d1))))))"

definition ipc_Dial :: "ipc_env \<Rightarrow> run_dir \<Rightarrow> Client result" where
  "ipc_Dial e d =
    (case d ''endpoint'' of
       None \<Rightarrow> Inl ErrNotRunning
     | Some ep \<Rightarrow>
        (case d ''token'' of
           None \<Rightarrow> Inl ErrNotRunning
         | Some tok \<Rightarrow>
            if ie_dial e (TrimSpace ep) then Inr \<lparr>cl_endpoint = TrimSpace ep, cl_token = TrimSpace tok\<rparr>
            else Inl ErrNotRunning))"

section \<open>The channel is authenticated\<close>

lemma ConstantTimeCompare_eq [simp]: "ConstantTimeCompare x y = (if x = y then 1 else 0)"
  by (auto simp: ConstantTimeCompare_def list_all_length intro: nth_equalityI)

lemma ReadLine_line: "newline \<notin> set s \<Longrightarrow> ReadLine (s @ [newline]) = Some (s @ [newline])"
proof -
  assume "newline \<notin> set s"
  then have "takeWhile (\<lambda>c. c \<noteq> newline) (s @ [newline]) = s" by (induction s) auto
  then show ?thesis by (simp add: ReadLine_def)
qed

text \<open>
  C36: Nothing happens without the token. Whatever bytes arrive on the control channel, the session is
  as before unless they hold a complete line that decodes to a request which carries the server's token and
  names a method of the table; then the state is what that handler made of it.
\<close>

theorem ipc_authenticated:
  "snd (serve co token handlers input st) = st
   \<or> (\<exists>line req h. ReadLine input = Some line \<and> co_request co line = Some req \<and> rq_Token req = token
        \<and> handlers (rq_Method req) = Some h \<and> snd (serve co token handlers input st) = snd (h (rq_Params req) st))"
  by (simp add: serve_def split: option.splits prod.splits)

text \<open>
  C37: A call is answered by its handler. When the codec reads back what it wrote for this request and for
  the responses to it, on one line each, \<open>Call\<close> of a client with the server's token returns the encoded
  result of the handler for the method, or its error, and leaves the state the handler left; a client with
  another token gets \<open>unauthorized\<close> and changes nothing.
\<close>

theorem ipc_call_roundtrip:
  assumes "req = \<lparr>rq_Token = cl_token cl, rq_Method = meth, rq_Params = ps\<rparr>"
    and "newline \<notin> set (co_marshal co req)" "co_request co (co_marshal co req @ [newline]) = Some req"
    and "\<forall>r \<in> {error_response ''unauthorized'', answer_response co res}.
      newline \<notin> set (co_response co r) \<and> co_parse co (co_response co r @ [newline]) = Inr r"
    and "handlers meth = Some h" "h ps st = (res, st')"
  shows "Call co cl True (\<lambda>input. serve co token handlers input st) meth (Inr ps) st =
    (if cl_token cl = token then
       ((case res of Inl e \<Rightarrow> Inl e | Inr a \<Rightarrow> co_answer co a), st')
     else (Inl ''unauthorized'', st))"
proof -
  have l: "ReadLine (co_marshal co req @ [newline]) = Some (co_marshal co req @ [newline])"
    using assms(2) by (rule ReadLine_line)
  have r: "ReadLine (writeResp co r) = Some (writeResp co r)" "co_parse co (writeResp co r) = Inr r"
    if "r \<in> {error_response ''unauthorized'', answer_response co res}" for r
    using assms(4) that ReadLine_line [of "co_response co r"] unfolding writeResp_def by blast+
  have "serve co token handlers (co_marshal co req @ [newline]) st =
      (if cl_token cl = token then (writeResp co (answer_response co res), st')
       else (writeResp co (error_response ''unauthorized''), st))"
    unfolding serve_def using l assms(3,5,6) by (simp add: assms(1))
  then show ?thesis
    unfolding Call_def using r assms(1) by (simp add: error_response_def answer_response_def split: sum.splits)
qed

definition sample_info :: session_info where
  "sample_info = \<lparr>si_Version = ''1'', si_PID = 1, si_Started = 0, si_ChromeVer = [], si_Source = [], si_DataDir = [],
     si_browserPID = (\<lambda>_. 0), si_rel = (\<lambda>_ p. Inr p), si_rfc3339 = (\<lambda>_. [])\<rparr>"

definition sample_view :: session_view where
  "sample_view = \<lparr>sv_info = sample_info, sv_cfg = sample_cfg, sv_parse = (\<lambda>_. Inl []), sv_env = (\<lambda>_. sample_penv),
     sv_monitor = None, sv_slot = (\<lambda>_. Inr 1), sv_open = (\<lambda>_. Inl [])\<rparr>"

definition sample_codec :: codec where
  "sample_codec = \<lparr>co_request = (\<lambda>_. Some \<lparr>rq_Token = ''t'', rq_Method = ''route.stop'', rq_Params = []\<rparr>),
     co_marshal = (\<lambda>_. ''{}''), co_answer = (\<lambda>_. Inr ''null''),
     co_response = (\<lambda>r. if rs_OK r then ''+'' else ''-''),
     co_parse = (\<lambda>s. Inr (if s = ''+'' @ [newline] then \<lparr>rs_OK = True, rs_Error = [], rs_Result = ''null''\<rparr>
        else error_response ''unauthorized''))\<rparr>"

theorem ipc_call_roundtrip_witness:
  "fst (Call sample_codec \<lparr>cl_endpoint = [], cl_token = ''t''\<rparr> True
     (\<lambda>input. serve sample_codec ''t'' (IPCHandlers sample_view) input (sample_running, False))
     ''route.stop'' (Inr []) (sample_running, False)) = Inr ''null''"
proof -
  have h: "IPCHandlers sample_view ''route.stop'' = Some (route_handler sample_view False)"
    by (simp add: IPCHandlers_def)
  have "find_slot 1 0 (se_subjects sample_running) = Some 0" by code_simp
  then have r: "route_handler sample_view False [] (sample_running, False) = (Inr Nothing, sample_stopped, False)"
    by (simp add: route_handler_def sample_view_def error_or_nothing_def SetRouteEnabled_def sample_stopped_def)
  have c: "\<forall>r \<in> {error_response ''unauthorized'', answer_response sample_codec (Inr Nothing)}.
      newline \<notin> set (co_response sample_codec r) \<and> co_parse sample_codec (co_response sample_codec r @ [newline]) = Inr r"
    by (simp add: sample_codec_def error_response_def answer_response_def newline_def)
  from ipc_call_roundtrip [where cl = "\<lparr>cl_endpoint = [], cl_token = ''t''\<rparr>" and token = "''t''" and co = sample_codec
    and handlers = "IPCHandlers sample_view" and meth = "''route.stop''" and ps = "[]" and h = "route_handler sample_view False",
    OF refl _ _ c h r]
  show ?thesis by (simp add: sample_codec_def newline_def)
qed

section \<open>Run files\<close>

lemma TrimSpace_newline: "(\<And>c. c \<in> set s \<Longrightarrow> \<not> is_space c) \<Longrightarrow> TrimSpace (s @ [newline]) = s"
proof -
  assume s: "\<And>c. c \<in> set s \<Longrightarrow> \<not> is_space c"
  have nl: "is_space newline" by (simp add: newline_def is_space_def)
  have "dropWhile is_space (s @ [newline]) = (if s = [] then [] else s @ [newline])"
    using s nl by (cases s) auto
  moreover have "rev (dropWhile is_space (rev s)) = s"
    using TrimSpace_id [OF s] s by (cases "rev s") (auto simp: TrimSpace_def dropWhile_eq_Nil_conv)
  ultimately show ?thesis using nl by (simp add: TrimSpace_def)
qed

lemma write_files_ok:
  "write_files e s ns d = (None, d') \<Longrightarrow> distinct ns \<Longrightarrow>
    (\<forall>n \<in> set ns. d' n = Some (file_content e s n @ [newline])) \<and> (\<forall>n. n \<notin> set ns \<longrightarrow> d' n = d n)"
proof (induction ns arbitrary: d)
  case (Cons n ns)
  have "write_files e s ns (d(n \<mapsto> file_content e s n @ [newline])) = (None, d')"
    using Cons.prems(1) by (auto simp: Let_def split: option.splits)
  note IH = Cons.IH [OF this]
  have "d' k = Some (file_content e s k @ [newline])" if "k \<in> set (n # ns)" for k
    using IH that Cons.prems(2) by (cases "k = n") simp_all
  moreover have "d' k = d k" if "k \<notin> set (n # ns)" for k
    using IH that Cons.prems(2) by simp
  ultimately show ?case by blast
qed simp

text \<open>
  The run files lead to the session. When \<open>Listen\<close> succeeds, with whatever order the three files are
  written in, a \<open>Dial\<close> in that directory that reaches the endpoint returns a client with the server's
  endpoint and token, and a second controller that reaches the endpoint is told that the first is running; once the server is
  closed, \<open>Dial\<close> reports that nothing runs and \<open>Listen\<close> finds no other controller. A \<open>Listen\<close> that fails after
  opening the endpoint leaves none of the files behind.
\<close>

theorem ipc_run_files:
  assumes "set order = {''endpoint'', ''token'', ''pid''}" "distinct order" "Listen order e d = (res, d')"
    and "0 < ie_pid e" "ie_pid e < 2 ^ 63"
  shows "case res of
      Inr s \<Rightarrow> (\<forall>e'. (\<forall>c \<in> set (is_endpoint s). \<not> is_space c) \<longrightarrow> ie_dial e' (is_endpoint s) \<longrightarrow>
          ipc_Dial e' d' = Inr \<lparr>cl_endpoint = is_endpoint s, cl_token = is_token s\<rparr>
          \<and> (ie_pid e' \<noteq> ie_pid e \<longrightarrow> runningPID e' d' = Some (ie_pid e)))
        \<and> (\<forall>e'. ipc_Dial e' (snd (ipc_Close (s, d'))) = Inl ErrNotRunning \<and> runningPID e' (snd (ipc_Close (s, d'))) = None)
    | Inl _ \<Rightarrow> d' = d \<or> (\<forall>n \<in> set order. d' n = None)"
proof (cases res)
  case (Inl x)
  have c: "snd (ipc_Close (s, d1)) n = None" if "\<not> is_closed s" "n \<in> set order" for s d1 n
  proof -
    have "n \<notin> - {''endpoint'', ''token'', ''pid'', ''control.sock''}" using that(2) unfolding assms(1) by blast
    then show ?thesis using that(1) by (simp add: ipc_Close_def remove_files_def del: Compl_iff)
  qed
  have "d' = d \<or> (\<exists>ep tok d1. d' = snd (ipc_Close (\<lparr>is_endpoint = ep, is_token = tok, is_closed = False\<rparr>, d1)))"
    using assms(3) Inl unfolding Listen_def Let_def by (auto split: option.splits sum.splits prod.splits)
  then show ?thesis using c Inl by fastforce
next
  case (Inr s)
  obtain tok where s: "is_token s = EncodeToString tok" "\<not> is_closed s" and w: "write_files e s order d = (None, d')"
    using assms(3) Inr unfolding Listen_def Let_def by (auto split: option.splits sum.splits prod.splits)
  have f: "d' ''endpoint'' = Some (is_endpoint s @ [newline])" "d' ''token'' = Some (is_token s @ [newline])"
    "d' ''pid'' = Some (Itoa (ie_pid e) @ [newline])"
    using write_files_ok [OF w assms(2)] assms(1) by (simp_all add: file_content_def)
  have t: "TrimSpace (is_token s @ [newline]) = is_token s"
    unfolding s(1) by (rule TrimSpace_newline) (auto dest: EncodeToString_alnum)
  have p: "Atoi (TrimSpace (Itoa (ie_pid e) @ [newline])) = Some (ie_pid e)"
  proof -
    have "TrimSpace (itoa_nat (nat (ie_pid e)) @ [newline]) = itoa_nat (nat (ie_pid e))"
      by (rule TrimSpace_newline) (auto dest!: itoa_nat_digit_set simp: is_digit_def is_space_def)
    then show ?thesis using assms(4,5) Atoi_itoa_nat [of "nat (ie_pid e)"] by (simp add: Itoa_nonneg)
  qed
  have closed: "ipc_Dial e' (snd (ipc_Close (s, d'))) = Inl ErrNotRunning \<and> runningPID e' (snd (ipc_Close (s, d'))) = None" for e'
    using s(2) by (simp add: ipc_Dial_def runningPID_def ipc_Close_def remove_files_def)
  have "ipc_Dial e' d' = Inr \<lparr>cl_endpoint = is_endpoint s, cl_token = is_token s\<rparr>
      \<and> (ie_pid e' \<noteq> ie_pid e \<longrightarrow> runningPID e' d' = Some (ie_pid e))"
    if "\<forall>c \<in> set (is_endpoint s). \<not> is_space c" "ie_dial e' (is_endpoint s)" for e'
    using f t p assms(4) that TrimSpace_newline [of "is_endpoint s"] by (simp add: ipc_Dial_def runningPID_def)
  then show ?thesis using closed by (simp add: Inr)
qed

definition sample_ipc :: ipc_env where
  "sample_ipc = \<lparr>ie_mkdir = None, ie_pid = 7, ie_listen = Inr ''sock'', ie_rand = Inr [1, 2], ie_write = (\<lambda>_. None),
     ie_secure = (\<lambda>_. None), ie_dial = (\<lambda>_. True)\<rparr>"

theorem ipc_run_files_witness:
  "\<exists>s d'. Listen [''pid'', ''token'', ''endpoint''] sample_ipc Map.empty = (Inr s, d')
     \<and> ipc_Dial sample_ipc d' = Inr \<lparr>cl_endpoint = ''sock'', cl_token = ''0102''\<rparr>"
proof -
  let ?o = "[''pid'', ''token'', ''endpoint'']"
  let ?l = "Listen ?o sample_ipc Map.empty"
  have "\<not> isl (fst ?l) \<and> is_endpoint (projr (fst ?l)) = ''sock'' \<and> is_token (projr (fst ?l)) = ''0102''" by code_simp
  then obtain s where s: "fst ?l = Inr s" "is_endpoint s = ''sock''" "is_token s = ''0102''"
    by (cases "fst ?l") auto
  then obtain d' where l: "?l = (Inr s, d')" by (metis prod.collapse)
  have o: "set ?o = {''endpoint'', ''token'', ''pid''}" "distinct ?o" by auto
  have sp: "\<forall>c \<in> set (is_endpoint s). \<not> is_space c" unfolding s(2) by code_simp
  have d: "ie_dial sample_ipc (is_endpoint s)" "0 < ie_pid sample_ipc" "ie_pid sample_ipc < 2 ^ 63"
    by (simp_all add: sample_ipc_def)
  from ipc_run_files [OF o l d(2,3)] sp d(1) show ?thesis using l s by auto
qed

section \<open>What the requests show\<close>

text \<open>The secrets of a route, replaced by others; whether there is a password at all is not one.\<close>

definition same_public :: "RouteDef \<Rightarrow> RouteDef \<Rightarrow> bool" where
  "same_public d d' \<longleftrightarrow> d\<lparr>rd_Password := [], rd_PrivateKey := []\<rparr> = d'\<lparr>rd_Password := [], rd_PrivateKey := []\<rparr>
     \<and> (rd_Password d = [] \<longleftrightarrow> rd_Password d' = [])"

lemma same_public_fields:
  assumes "same_public d d'"
  shows "rd_ID d = rd_ID d'" "rd_Type d = rd_Type d'" "Redacted d = Redacted d'"
proof -
  have eq: "d\<lparr>rd_Password := [], rd_PrivateKey := []\<rparr> = d'\<lparr>rd_Password := [], rd_PrivateKey := []\<rparr>"
    using assms by (simp add: same_public_def)
  note f = arg_cong [OF eq, of rd_ID] arg_cong [OF eq, of rd_Type] arg_cong [OF eq, of rd_Address]
    arg_cong [OF eq, of rd_Username] arg_cong [OF eq, of rd_PasswordEnv]
  show "rd_ID d = rd_ID d'" "rd_Type d = rd_Type d'" "Redacted d = Redacted d'"
    using f assms by (simp_all add: Redacted_def same_public_def)
qed

text \<open>
  No request reveals a secret. Two sessions that differ only in the passwords and private keys of their
  routes answer \<open>status\<close> and \<open>routes.list\<close> alike.
\<close>

theorem ipc_no_secrets:
  assumes "se_subjects w' = se_subjects w" "se_alive w' = se_alive w" "se_finalURL w' = se_finalURL w"
    "se_hostIPv4 w' = se_hostIPv4 w" "se_hostIPv6 w' = se_hostIPv6 w"
    and "\<forall>i < length (se_subjects w). same_public (route_Def (route_at w i)) (route_Def (route_at w' i))
       \<and> route_Status (route_at w' i) = route_Status (route_at w i)"
  shows "Session_Status si mon w' = Session_Status si mon w
    \<and> map (route_row_of w') (indices w') = map (route_row_of w) (indices w)"
proof -
  have s: "sub w' i = sub w i" "indices w' = indices w" for i using assms(1) by (simp_all add: sub_def indices_def)
  have r: "route_ID (route_at w' i) = route_ID (route_at w i) \<and> rd_Type (route_Def (route_at w' i)) = rd_Type (route_Def (route_at w i))
      \<and> route_Status (route_at w' i) = route_Status (route_at w i)
      \<and> Redacted (route_Def (route_at w' i)) = Redacted (route_Def (route_at w i))" if "i < length (se_subjects w)" for i
    using assms(6) that same_public_fields [of "route_Def (route_at w i)" "route_Def (route_at w' i)"]
    by (simp add: route_ID_def)
  have e: "event_line si w' = event_line si w" by (rule ext) (simp add: event_line_def s)
  have "identity_status si mon w' i = identity_status si mon w i" "route_row_of w' i = route_row_of w i"
    if "i \<in> set (indices w)" for i
    using r [of i] that assms(2,3) by (auto simp: identity_status_def route_row_of_def Let_def s indices_def)
  then show ?thesis using assms(4,5) by (simp add: Session_Status_def s e split: option.split cong: map_cong)
qed

definition sample_secret :: "string \<Rightarrow> world" where
  "sample_secret pw = sample_running\<lparr>se_routes := (\<lambda>_. UpstreamRoute \<lparr>u_def = sample_def\<lparr>rd_Password := pw\<rparr>,
     u_dial = HttpDial (upstream_dialer sample_def pw), u_status = StatusReady, u_lastErr = None\<rparr>)\<rparr>"

theorem ipc_no_secrets_witness:
  "Session_Status sample_info None (sample_secret ''a'') = Session_Status sample_info None (sample_secret ''b'')"
  using ipc_no_secrets [of "sample_secret ''a''" "sample_secret ''b''" sample_info None]
  by (simp add: sample_secret_def route_at_def same_public_def)

section \<open>Diagnostics and stopped routes\<close>

text \<open>No gate that was open is closed.\<close>

definition more_open :: "world \<Rightarrow> world \<Rightarrow> bool" where
  "more_open w w' \<longleftrightarrow> length (se_subjects w') = length (se_subjects w)
     \<and> (\<forall>j < length (se_subjects w). g_open (sb_Gate (sub w j)) \<longrightarrow> g_open (sb_Gate (sub w' j)))"

lemma more_open_trans: "more_open w w1 \<Longrightarrow> more_open w1 w2 \<Longrightarrow> more_open w w2"
  by (simp add: more_open_def)

lemma similar_more_open: "similar w w' \<Longrightarrow> more_open w w'"
  by (simp add: similar_def more_open_def like_def)

lemma check_step_similar:
  assumes "\<And>e routes s. like s (snd (f e routes s))" "i < length (se_subjects w)"
  shows "similar w (snd (check_step f env i w))"
  using set_sub_similar [OF assms(2)] assms(1) by (simp add: check_step_def case_prod_beta)

lemma V7_step:
  assumes "i < length (se_subjects w)"
  shows "more_open w (snd (check_step (V7_on o') env i w))" "g_open (sb_Gate (sub (snd (check_step (V7_on o') env i w)) i))"
proof -
  let ?s = "snd (V7_on o' (ask env w) (se_routes w) (sub w i))"
  have o: "g_open (sb_Gate ?s)"
    using V7_binding [of "pe_net (ask env w)" "se_routes w" o' "pe_failclosed (ask env w)" "sub w i"]
    by (simp add: V7_on_def binding_def)
  have w: "snd (check_step (V7_on o') env i w) = tick (set_sub i ?s w)" by (simp add: check_step_def case_prod_beta)
  show "more_open w (snd (check_step (V7_on o') env i w))" "g_open (sb_Gate (sub (snd (check_step (V7_on o') env i w)) i))"
    using assms o unfolding w by (simp_all add: more_open_def sub_set_sub_if del: set_sub_simps(10))
qed

lemma diagnose_browser_opens:
  assumes i: "i < length (se_subjects w)" and r: "diagnose_browser env o' i w = (u, w')"
  shows "more_open w w' \<and> g_open (sb_Gate (sub w' i))"
proof -
  define w1 where "w1 = snd (check_step (V4_on o') env i w)"
  define w2 where "w2 = snd (check_step (V5_on o') env i w1)"
  define w3 where "w3 = (if length (se_subjects w2) > 1 then snd (V6 env i w2) else w2)"
  define w4 where "w4 = snd (check_step (V7_on o') env i w3)"
  have w': "w' = snd (check_step V8_on env i w4)"
    using r unfolding w1_def w2_def w3_def w4_def by (auto simp: diagnose_browser_def Let_def)
  have s1: "similar w w1" unfolding w1_def by (rule check_step_similar [OF V4_like i])
  then have i1: "i < length (se_subjects w1)" using i by (simp add: similar_def)
  have s2: "similar w1 w2" unfolding w2_def by (rule check_step_similar [OF V5_like i1])
  then have i2: "i < length (se_subjects w2)" using i1 by (simp add: similar_def)
  have s3: "similar w2 w3" using V6_similar [of env i w2] i2 by (auto simp: w3_def) (metis prod.collapse)
  then have i3: "i < length (se_subjects w3)" using i2 by (simp add: similar_def)
  note v7 = V7_step [OF i3, of o' env, folded w4_def]
  have i4: "i < length (se_subjects w4)" using v7(1) i3 by (simp add: more_open_def)
  have s5: "similar w4 w'" unfolding w' by (rule check_step_similar [OF V8_like i4])
  have "more_open w w'"
    using s1 s2 s3 v7(1) s5 by (meson more_open_trans similar_more_open)
  moreover have "g_open (sb_Gate (sub w' i))"
    using similar_more_open [OF s5] v7(2) i4 by (simp add: more_open_def)
  ultimately show ?thesis by simp
qed

lemma over_opens:
  assumes "over (diagnose_browser env o') is w = (us, w')" "\<forall>i \<in> set is. i < length (se_subjects w)"
  shows "more_open w w' \<and> (\<forall>i \<in> set is. g_open (sb_Gate (sub w' i)))"
  using assms
proof (induction "is" arbitrary: w us)
  case Nil
  then show ?case by (simp add: more_open_def)
next
  case (Cons i "is")
  obtain u w1 where d: "diagnose_browser env o' i w = (u, w1)" by (metis prod.exhaust)
  obtain vs where o: "over (diagnose_browser env o') is w1 = (vs, w')"
    using Cons.prems(1) by (auto simp: d split: prod.splits)
  have i: "i < length (se_subjects w)" using Cons.prems(2) by simp
  have 1: "more_open w w1" "g_open (sb_Gate (sub w1 i))" using diagnose_browser_opens [OF i d] by auto
  have 2: "more_open w1 w'" "\<forall>i \<in> set is. g_open (sb_Gate (sub w' i))"
    using Cons.IH [OF o] Cons.prems(2) 1(1) by (auto simp: more_open_def)
  have "g_open (sb_Gate (sub w' i))" using 1 2(1) i by (simp add: more_open_def)
  then show ?case using more_open_trans [OF 1(1) 2(1)] 2(2) by auto
qed

text \<open>
  The diagnostics run opens every gate. Whenever \<open>Diagnostics\<close> gets as far as its checks, every gate is open
  when it returns, also the gate of an identity whose route was stopped by request or closed by the monitor.
\<close>

theorem ipc_diagnostics_reopens:
  assumes "Diagnostics si cfg env mon w = (Inr st, w')" "i < length (se_subjects w')"
  shows "g_open (sb_Gate (sub w' i))"
proof -
  define o' where "o' = verifyOptions cfg w"
  obtain w1 where b: "begin_all env (indices w) w = (None, w1)"
    using assms(1) by (auto simp: Diagnostics_def Let_def split: prod.splits option.splits)
  define w3 where "w3 = snd (V3 env o' (snd (over (diagnose_routes env o') (indices w1) w1)))"
  obtain us w4 where o: "over (diagnose_browser env o') (indices w3) w3 = (us, w4)" by (metis prod.exhaust)
  have w': "w' = finish_all w4"
    using assms(1) b o by (simp add: Diagnostics_def Let_def w3_def o'_def [symmetric])
  have O: "more_open w3 w4" "\<forall>i \<in> set (indices w3). g_open (sb_Gate (sub w4 i))"
    using over_opens [OF o] by (auto simp: indices_def)
  then have "g_open (sb_Gate (sub w4 i))"
    using assms(2) by (simp add: w' finish_all_def indices_def more_open_def)
  then show ?thesis using assms(2) by (simp add: w' finish_all_def sub_def Finish_def)
qed

theorem ipc_diagnostics_reopens_witness:
  "\<not> g_open (sb_Gate (sub sample_stopped 0))
   \<and> g_open (sb_Gate (sub (snd (Diagnostics sample_info sample_cfg (\<lambda>_. sample_penv) None sample_stopped)) 0))"
proof -
  let ?e = "\<lambda>_::nat. sample_penv" and ?o = "verifyOptions sample_cfg sample_stopped"
  let ?d = "Diagnostics sample_info sample_cfg ?e None sample_stopped"
  let ?w1 = "snd (begin_all ?e (indices sample_stopped) sample_stopped)"
  let ?w3 = "snd (V3 ?e ?o (snd (over (diagnose_routes ?e ?o) (indices ?w1) ?w1)))"
  let ?w4 = "snd (over (diagnose_browser ?e ?o) (indices ?w3) ?w3)"
  have "Option.is_none (fst (begin_all ?e (indices sample_stopped) sample_stopped))" by code_simp
  then have b: "begin_all ?e (indices sample_stopped) sample_stopped = (None, ?w1)"
    by (metis Option.is_none_def prod.collapse)
  have d: "?d = (Inr (Session_Status sample_info None ?w4), finish_all ?w4)"
    unfolding Diagnostics_def Let_def by (subst b) simp
  obtain us where o: "over (diagnose_browser ?e ?o) (indices ?w3) ?w3 = (us, ?w4)" by (metis prod.collapse)
  have "0 < length (se_subjects ?w3)" by code_simp
  then have "0 < length (se_subjects ?w4)" using over_opens [OF o] by (simp add: indices_def more_open_def)
  then have "g_open (sb_Gate (sub (snd ?d) 0))"
    using ipc_diagnostics_reopens [OF d, of 0] by (simp add: d finish_all_def)
  moreover have "\<not> g_open (sb_Gate (sub sample_stopped 0))" by code_simp
  ultimately show ?thesis by simp
qed

end
