(* ===== verification/Console.thy ===== *)
theory Console
  imports Control
begin

text \<open>
  The terminal (\<open>src/controller/startup/report.go\<close>, \<open>decodo_login.go\<close> and the event lines of \<open>session.go\<close>): the lines the
  reporter prints, and the sign-in for the proxy account. The reporter is the list of the lines printed so far; glyphs
  outside ASCII are given by their UTF-8 bytes.
\<close>

section \<open>The reporter\<close>

record Reporter =
  rp_lines :: "string list"
  rp_unicode :: bool

definition NewReporter :: "bool \<Rightarrow> Reporter" where
  "NewReporter unicode = \<lparr>rp_lines = [], rp_unicode = unicode\<rparr>"

definition ok_mark :: "Reporter \<Rightarrow> string" where
  "ok_mark r = (if rp_unicode r then [CHR 0xE2, CHR 0x9C, CHR 0x93] else ''OK'')"

definition bad_mark :: "Reporter \<Rightarrow> string" where
  "bad_mark r = (if rp_unicode r then [CHR 0xE2, CHR 0x9C, CHR 0x97] else ''FAILED'')"

definition Arrow :: "Reporter \<Rightarrow> string" where
  "Arrow r = (if rp_unicode r then [CHR 0xE2, CHR 0x86, CHR 0x92] else ''->'')"

definition Line :: "string \<Rightarrow> Reporter \<Rightarrow> Reporter" where
  "Line s r = r\<lparr>rp_lines := rp_lines r @ [s]\<rparr>"

definition report_Header :: "string \<Rightarrow> int \<Rightarrow> string \<Rightarrow> Reporter \<Rightarrow> Reporter" where
  "report_Header version n startupURL r =
    Line (''Identities: '' @ Itoa n @ ''   Startup URL: '' @ (if startupURL = [] then ''(none)'' else startupURL))
      (Line (''TAB ROUTER '' @ version) r)"

definition report_Result :: "string \<Rightarrow> string \<Rightarrow> string \<Rightarrow> bool \<Rightarrow> Reporter \<Rightarrow> Reporter" where
  "report_Result label what detail passed r =
    (let mark = (if passed then ok_mark r else bad_mark r) in
     if detail \<noteq> [] then Line (label @ '' '' @ Arrow r @ '' '' @ what @ '': '' @ detail @ '' '' @ mark) r
     else Line (label @ '' '' @ Arrow r @ '' '' @ what @ '' '' @ mark) r)"

definition report_Phase :: "string \<Rightarrow> bool \<Rightarrow> string list \<Rightarrow> Reporter \<Rightarrow> Reporter" where
  "report_Phase name passed details r =
    (if passed then
       Line (name @ '' '' @ ok_mark r @ (if details \<noteq> [] then '' ('' @ Join details ''; '' @ '')'' else [])) r
     else fold (\<lambda>d. Line (''  '' @ d)) details (Line (name @ '' '' @ bad_mark r) r))"

definition report_Banner :: "string \<Rightarrow> Reporter \<Rightarrow> Reporter" where
  "report_Banner title r = (let bar = replicate 32 (CHR ''='') in Line bar (Line title (Line bar r)))"

section \<open>Health events\<close>

definition routeLabel :: "world \<Rightarrow> nat \<Rightarrow> string" where
  "routeLabel w i = ''Route '' @ fmt03d (id_RouteSlot (sb_Identity (sub w i)))"

definition onHealthEvent :: "world \<Rightarrow> Event \<Rightarrow> Reporter \<Rightarrow> Reporter" where
  "onHealthEvent w ev r =
    (let label = subject_Label (sub w (he_Subject ev)); arrow = '' '' @ Arrow r @ '' ''; route = routeLabel w (he_Subject ev) in
     Line (case he_Kind ev of
         RouteDown \<Rightarrow> label @ arrow @ route @ arrow @ ''DOWN (traffic blocked): '' @ he_Detail ev
       | RouteRestored \<Rightarrow> label @ arrow @ route @ arrow @ ''READY: '' @ he_Detail ev
       | EgressChanged \<Rightarrow> label @ arrow @ route @ '': EGRESS CHANGED '' @ he_Detail ev @ '' (blocked; session IP is fixed)''
       | Leak \<Rightarrow> ''ALARM '' @ label @ '': non-gate network endpoint observed: '' @ he_Detail ev
       | BrowserExited \<Rightarrow> label @ '': browser closed; '' @ he_Detail ev) r)"

section \<open>Sign-in\<close>

definition ErrDecodoLogin :: gerr where
  "ErrDecodoLogin = ''Decodo username and password are required''"

text \<open>
  \<open>line\<close> is what reading up to a newline gives: the text read and the error, where \<open>io.EOF\<close> is no failure; \<open>password\<close> is the
  answer of the password reader. An absent reader is \<open>None\<close>.
\<close>

datatype read_err = ReadEOF | ReadFailed gerr

definition ReadDecodoLogin ::
  "string \<Rightarrow> string \<Rightarrow> bool \<Rightarrow> (string \<times> read_err option) option \<Rightarrow> string result option \<Rightarrow> (string \<times> string) result" where
  "ReadDecodoLogin envUser0 envPass interactive line password =
    (let envUser = TrimSpace envUser0 in
     if envUser \<noteq> [] \<and> envPass \<noteq> [] then Inr (envUser, envPass)
     else case (interactive, line, password) of
        (True, Some (text, err), Some pw) \<Rightarrow>
          (case err of
             Some (ReadFailed e) \<Rightarrow> Inl e
           | _ \<Rightarrow>
              (case pw of
                 Inl e \<Rightarrow> Inl e
               | Inr p \<Rightarrow>
                  (let user = TrimSpace text; pass = TrimRight p [CHR 0x0D, CHR 0x0A] in
                   if user = [] \<or> pass = [] then Inl ErrDecodoLogin else Inr (user, pass))))
      | _ \<Rightarrow> Inl ErrDecodoLogin)"

text \<open>
  Signing in. The environment's account is used when it is complete; otherwise the terminal is asked, if there is one. What
  is returned is never empty and its user name is trimmed; and when the sign-in fails on a password that was entered, the error is
  the same whatever the password was.
\<close>

theorem console_login:
  "(\<forall>u p. ReadDecodoLogin eu ep i line pw = Inr (u, p) \<longrightarrow> u \<noteq> [] \<and> p \<noteq> [] \<and> TrimSpace u = u)
   \<and> (TrimSpace eu \<noteq> [] \<and> ep \<noteq> [] \<longrightarrow> ReadDecodoLogin eu ep i line pw = Inr (TrimSpace eu, ep))
   \<and> (\<forall>x y a b. ReadDecodoLogin eu ep i line (Some (Inr x)) = Inl a \<longrightarrow> ReadDecodoLogin eu ep i line (Some (Inr y)) = Inl b \<longrightarrow> a = b)"
proof -
  have 1: "ReadDecodoLogin eu ep i line pw = Inr (u, p) \<Longrightarrow> u \<noteq> [] \<and> p \<noteq> [] \<and> TrimSpace u = u" for u p
    by (auto simp: ReadDecodoLogin_def Let_def split: if_splits bool.splits option.splits sum.splits read_err.splits)
  have 3: "ReadDecodoLogin eu ep i line (Some (Inr x)) = Inl a \<Longrightarrow> ReadDecodoLogin eu ep i line (Some (Inr y)) = Inl b \<Longrightarrow> a = b" for x y a b
    by (auto simp: ReadDecodoLogin_def Let_def split: if_splits bool.splits option.splits sum.splits read_err.splits)
  have 2: "TrimSpace eu \<noteq> [] \<and> ep \<noteq> [] \<longrightarrow> ReadDecodoLogin eu ep i line pw = Inr (TrimSpace eu, ep)"
    by (simp add: ReadDecodoLogin_def Let_def)
  show ?thesis using 1 2 3 by blast
qed

theorem console_login_witness:
  "ReadDecodoLogin '' bob '' ''pw'' False None None = Inr (''bob'', ''pw'')"
proof -
  have "TrimSpace '' bob '' = ''bob''" by code_simp
  then show ?thesis
    using conjunct1 [OF conjunct2 [OF console_login [of "'' bob ''" "''pw''" False None None]]] by simp
qed

end
