(* ===== verification/Activation.thy ===== *)
theory Activation
  imports Route
begin

text \<open>
  Activation: the license and installation store and the HTTP API of the backend
  (\<open>src/controller/activation/backend/store.go\<close>, \<open>server.go\<close>), the client that talks to it (\<open>activation.go\<close>) and
  the file the installation token is kept in (\<open>store.go\<close>).

  Parameters: the hash, the random bytes, the clock, the outcome of writing the store, JSON and the
  HTTP transport. The zero \<open>time.Time\<close> of a license that does not expire is \<open>None\<close>. Every operation of the
  store holds its mutex from beginning to end, so the operations are atomic.
\<close>

section \<open>The store\<close>

definition StatusActive :: string where "StatusActive = ''active''"
definition StatusRevoked :: string where "StatusRevoked = ''revoked''"

datatype backend_err = ErrInvalidKey | ErrInvalidTok | ErrExpired | ErrRevoked | ErrLimit | ErrNoProxy | OtherErr gerr

fun backend_text :: "backend_err \<Rightarrow> string" where
  "backend_text ErrInvalidKey = ''invalid_key''"
| "backend_text ErrInvalidTok = ''invalid_token''"
| "backend_text ErrExpired = ''expired''"
| "backend_text ErrRevoked = ''revoked''"
| "backend_text ErrLimit = ''installation_limit''"
| "backend_text ErrNoProxy = ''proxy_unconfigured''"
| "backend_text (OtherErr e) = e"

record ProxyAccess =
  px_Host :: string
  px_Port :: int
  px_Username :: string
  px_Password :: string
  px_Country :: string
  px_SessionMinutes :: int

record License =
  lc_ID :: string
  lc_KeyHash :: string
  lc_Status :: string
  lc_ExpiresAt :: "int option"
  lc_MaxInstallations :: int
  lc_ProxyUsername :: string
  lc_ProxyPassword :: string

record Installation =
  in_ID :: string
  in_LicenseID :: string
  in_TokenHash :: string
  in_CreatedAt :: int
  in_LastSeen :: int
  in_Status :: string

record fileData =
  fd_Licenses :: "License list"
  fd_Installations :: "Installation list"

text \<open>The store with what its file holds; \<open>so_path\<close> says whether it has a file.\<close>

record Store =
  so_path :: bool
  so_data :: fileData
  so_disk :: "fileData option"

text \<open>What one operation gets from outside: the hash, random bytes, the clock, the outcome of \<open>persist\<close>.\<close>

record benv =
  be_sha256 :: "string \<Rightarrow> byte list"
  be_key :: "byte list result"
  be_token :: "byte list result"
  be_id :: "byte list"
  be_now :: int
  be_seen :: int
  be_write :: "gerr option"

definition empty_data :: fileData where
  "empty_data = \<lparr>fd_Licenses = [], fd_Installations = []\<rparr>"

definition OpenStore ::
  "bool \<Rightarrow> string result option \<Rightarrow> (string \<Rightarrow> fileData result) \<Rightarrow> fileData option \<Rightarrow> Store result" where
  "OpenStore path content unmarshal disk =
    (let s = \<lparr>so_path = path, so_data = empty_data, so_disk = disk\<rparr> in
     if \<not> path then Inr s
     else case content of
         None \<Rightarrow> Inr s
       | Some (Inl e) \<Rightarrow> Inl e
       | Some (Inr b) \<Rightarrow>
          if TrimSpace b = [] then Inr s
          else (case unmarshal b of Inl e \<Rightarrow> Inl e | Inr d \<Rightarrow> Inr (s\<lparr>so_data := d\<rparr>)))"

definition normalizeKey :: "string \<Rightarrow> string" where
  "normalizeKey key = filter (\<lambda>c. c \<noteq> CHR ''-'') (filter (\<lambda>c. c \<noteq> CHR '' '') (ToUpper (TrimSpace key)))"

definition hashSecret :: "benv \<Rightarrow> string \<Rightarrow> string" where
  "hashSecret e secret = EncodeToString (be_sha256 e secret)"

definition newKey :: "benv \<Rightarrow> string result" where
  "newKey e = (case be_key e of
     Inl x \<Rightarrow> Inl x
   | Inr b \<Rightarrow> (let raw = ToUpper (EncodeToString b) in
       Inr (take 4 raw @ ''-'' @ take 4 (drop 4 raw) @ ''-'' @ take 4 (drop 8 raw) @ ''-'' @ take 4 (drop 12 raw))))"

definition newToken :: "benv \<Rightarrow> string result" where
  "newToken e = (case be_token e of Inl x \<Rightarrow> Inl x | Inr b \<Rightarrow> Inr (EncodeToString b))"

definition newID :: "benv \<Rightarrow> string" where
  "newID e = EncodeToString (be_id e)"

definition persist :: "benv \<Rightarrow> Store \<Rightarrow> backend_err option \<times> Store" where
  "persist e s = (if \<not> so_path s then (None, s)
     else case be_write e of Some x \<Rightarrow> (Some (OtherErr x), s) | None \<Rightarrow> (None, s\<lparr>so_disk := Some (so_data s)\<rparr>))"

definition licenses :: "Store \<Rightarrow> License list" where
  "licenses s = fd_Licenses (so_data s)"

definition installations :: "Store \<Rightarrow> Installation list" where
  "installations s = fd_Installations (so_data s)"

definition set_licenses :: "License list \<Rightarrow> Store \<Rightarrow> Store" where
  "set_licenses ls s = s\<lparr>so_data := (so_data s)\<lparr>fd_Licenses := ls\<rparr>\<rparr>"

definition set_installations :: "Installation list \<Rightarrow> Store \<Rightarrow> Store" where
  "set_installations xs s = s\<lparr>so_data := (so_data s)\<lparr>fd_Installations := xs\<rparr>\<rparr>"

definition Issue :: "benv \<Rightarrow> int \<Rightarrow> int option \<Rightarrow> string \<Rightarrow> string \<Rightarrow> Store \<Rightarrow> (string \<times> backend_err option) \<times> Store" where
  "Issue e mx expires proxyUser proxyPass s =
    (let mx' = (if mx < 1 then 1 else mx) in
     case newKey e of
       Inl x \<Rightarrow> (([], Some (OtherErr x)), s)
     | Inr key \<Rightarrow>
        (case persist e (set_licenses (licenses s @ [\<lparr>lc_ID = newID e, lc_KeyHash = hashSecret e (normalizeKey key),
             lc_Status = StatusActive, lc_ExpiresAt = expires, lc_MaxInstallations = mx',
             lc_ProxyUsername = proxyUser, lc_ProxyPassword = proxyPass\<rparr>]) s) of
           (err, s') \<Rightarrow> ((key, err), s')))"

definition Revoke :: "benv \<Rightarrow> string \<Rightarrow> Store \<Rightarrow> backend_err option \<times> Store" where
  "Revoke e keyOrID s =
    (let hash = hashSecret e (normalizeKey keyOrID);
         match = (\<lambda>l. lc_ID l = keyOrID \<or> lc_KeyHash l = hash) in
     if \<not> list_ex match (licenses s) then (Some ErrInvalidKey, s)
     else persist e (set_licenses (map (\<lambda>l. if match l then l\<lparr>lc_Status := StatusRevoked\<rparr> else l) (licenses s)) s))"

record Result =
  rt_InstallationID :: string
  rt_Token :: string
  rt_Status :: string
  rt_ExpiresAt :: "int option"
  rt_ProxyUser :: string
  rt_ProxyPassword :: string

definition license :: "string \<Rightarrow> Store \<Rightarrow> backend_err + License" where
  "license keyHash s = (case List.find (\<lambda>l. lc_KeyHash l = keyHash) (licenses s) of
     None \<Rightarrow> Inl ErrInvalidKey | Some l \<Rightarrow> Inr l)"

definition licenseByID :: "string \<Rightarrow> Store \<Rightarrow> License option" where
  "licenseByID i s = List.find (\<lambda>l. lc_ID l = i) (licenses s)"

definition installation :: "string \<Rightarrow> Store \<Rightarrow> nat option" where
  "installation i s = find_index (\<lambda>x. in_ID x = i) (installations s)"

definition usable :: "benv \<Rightarrow> License \<Rightarrow> backend_err option" where
  "usable e lic =
    (if lc_Status lic \<noteq> StatusActive then Some ErrRevoked
     else case lc_ExpiresAt lic of
        None \<Rightarrow> None
      | Some t \<Rightarrow> if \<not> be_now e < t then Some ErrExpired else None)"

definition active_for :: "string \<Rightarrow> Installation \<Rightarrow> bool" where
  "active_for i x \<longleftrightarrow> in_LicenseID x = i \<and> in_Status x = StatusActive"

definition activeCount :: "string \<Rightarrow> Store \<Rightarrow> int" where
  "activeCount i s = int (length (filter (active_for i) (installations s)))"

definition proxyCreds :: "License \<Rightarrow> ProxyAccess \<Rightarrow> backend_err + (string \<times> string)" where
  "proxyCreds lic fallback =
    (let user = (if lc_ProxyUsername lic = [] then px_Username fallback else lc_ProxyUsername lic);
         pass = (if lc_ProxyPassword lic = [] then px_Password fallback else lc_ProxyPassword lic)
     in if user = [] \<or> pass = [] then Inl ErrNoProxy else Inr (user, pass))"

text \<open>The end of \<open>Activate\<close> and of \<open>Validate\<close>: the credentials, the write and the result.\<close>

definition grant :: "benv \<Rightarrow> License \<Rightarrow> ProxyAccess \<Rightarrow> string \<Rightarrow> string \<Rightarrow> Store \<Rightarrow> (backend_err + Result) \<times> Store" where
  "grant e lic fallback i token s =
    (case proxyCreds lic fallback of
       Inl x \<Rightarrow> (Inl x, s)
     | Inr (user, pass) \<Rightarrow>
        (case persist e s of
           (Some x, s') \<Rightarrow> (Inl x, s')
         | (None, s') \<Rightarrow> (Inr \<lparr>rt_InstallationID = i, rt_Token = token, rt_Status = StatusActive,
              rt_ExpiresAt = lc_ExpiresAt lic, rt_ProxyUser = user, rt_ProxyPassword = pass\<rparr>, s')))"

definition touch :: "(Installation \<Rightarrow> Installation) \<Rightarrow> nat \<Rightarrow> Store \<Rightarrow> Store" where
  "touch f k s = set_installations ((installations s)[k := f (installations s ! k)]) s"

definition enroll :: "benv \<Rightarrow> License \<Rightarrow> string \<Rightarrow> Store \<Rightarrow> Store" where
  "enroll e lic token s = set_installations (installations s @ [\<lparr>in_ID = newID e, in_LicenseID = lc_ID lic,
     in_TokenHash = hashSecret e token, in_CreatedAt = be_seen e, in_LastSeen = be_seen e, in_Status = StatusActive\<rparr>]) s"

definition Activate :: "benv \<Rightarrow> string \<Rightarrow> string \<Rightarrow> ProxyAccess \<Rightarrow> Store \<Rightarrow> (backend_err + Result) \<times> Store" where
  "Activate e key installationID fallback s =
    (case license (hashSecret e (normalizeKey key)) s of
       Inl x \<Rightarrow> (Inl x, s)
     | Inr lic \<Rightarrow>
        (case usable e lic of
           Some x \<Rightarrow> (Inl x, s)
         | None \<Rightarrow>
            (case newToken e of
               Inl x \<Rightarrow> (Inl (OtherErr x), s)
             | Inr token \<Rightarrow>
                (case (if installationID = [] then None
                       else find_index (\<lambda>c. in_ID c = installationID \<and> active_for (lc_ID lic) c) (installations s)) of
                   None \<Rightarrow>
                     if activeCount (lc_ID lic) s \<ge> lc_MaxInstallations lic then (Inl ErrLimit, s)
                     else grant e lic fallback (newID e) token (enroll e lic token s)
                 | Some k \<Rightarrow>
                     grant e lic fallback (in_ID (installations s ! k)) token
                       (touch (\<lambda>x. x\<lparr>in_TokenHash := hashSecret e token, in_LastSeen := be_seen e\<rparr>) k s)))))"

definition store_Validate :: "benv \<Rightarrow> string \<Rightarrow> string \<Rightarrow> ProxyAccess \<Rightarrow> Store \<Rightarrow> (backend_err + Result) \<times> Store" where
  "store_Validate e installationID token fallback s =
    (case installation installationID s of
       None \<Rightarrow> (Inl ErrInvalidTok, s)
     | Some k \<Rightarrow>
        (let x = installations s ! k in
         if in_TokenHash x \<noteq> hashSecret e token then (Inl ErrInvalidTok, s)
         else if in_Status x \<noteq> StatusActive then (Inl ErrRevoked, s)
         else (case licenseByID (in_LicenseID x) s of
            None \<Rightarrow> (Inl ErrInvalidTok, s)
          | Some lic \<Rightarrow>
             (case usable e lic of
                Some err \<Rightarrow> (Inl err, s)
              | None \<Rightarrow> grant e lic fallback (in_ID x) token (touch (\<lambda>y. y\<lparr>in_LastSeen := be_seen e\<rparr>) k s)))))"

definition Deactivate :: "benv \<Rightarrow> string \<Rightarrow> string \<Rightarrow> Store \<Rightarrow> backend_err option \<times> Store" where
  "Deactivate e installationID token s =
    (case installation installationID s of
       None \<Rightarrow> (Some ErrInvalidTok, s)
     | Some k \<Rightarrow>
        if in_TokenHash (installations s ! k) \<noteq> hashSecret e token then (Some ErrInvalidTok, s)
        else persist e (touch (\<lambda>y. y\<lparr>in_Status := StatusRevoked, in_LastSeen := be_seen e\<rparr>) k s))"

section \<open>The invariant of the store\<close>

text \<open>
  Ids are unique, every installation belongs to a license, and no license has more active installations
  than it allows. It holds of the data in memory and of the data in the file.
\<close>

definition count_active :: "string \<Rightarrow> fileData \<Rightarrow> int" where
  "count_active i d = int (length (filter (active_for i) (fd_Installations d)))"

definition data_ok :: "fileData \<Rightarrow> bool" where
  "data_ok d \<longleftrightarrow> distinct (map lc_ID (fd_Licenses d)) \<and> distinct (map in_ID (fd_Installations d))
     \<and> (\<forall>x \<in> set (fd_Installations d). in_LicenseID x \<in> lc_ID ` set (fd_Licenses d))
     \<and> (\<forall>l \<in> set (fd_Licenses d). count_active (lc_ID l) d \<le> lc_MaxInstallations l)"

definition store_ok :: "Store \<Rightarrow> bool" where
  "store_ok s \<longleftrightarrow> data_ok (so_data s) \<and> (\<forall>d. so_disk s = Some d \<longrightarrow> data_ok d)"

lemma store_fields [simp]:
  "licenses (set_licenses ls s) = ls" "installations (set_licenses ls s) = installations s"
  "licenses (set_installations xs s) = licenses s" "installations (set_installations xs s) = xs"
  "so_disk (set_licenses ls s) = so_disk s" "so_disk (set_installations xs s) = so_disk s"
  by (simp_all add: licenses_def installations_def set_licenses_def set_installations_def)

lemma data_ok_iff: "data_ok (so_data s) \<longleftrightarrow> distinct (map lc_ID (licenses s)) \<and> distinct (map in_ID (installations s))
     \<and> (\<forall>x \<in> set (installations s). in_LicenseID x \<in> lc_ID ` set (licenses s))
     \<and> (\<forall>l \<in> set (licenses s). activeCount (lc_ID l) s \<le> lc_MaxInstallations l)"
  by (simp add: data_ok_def licenses_def installations_def activeCount_def count_active_def)

lemma persist_data [simp]: "so_data (snd (persist e s)) = so_data s"
  by (simp add: persist_def split: option.splits)

lemma persist_fields [simp]: "licenses (snd (persist e s)) = licenses s" "installations (snd (persist e s)) = installations s"
  by (simp_all add: licenses_def installations_def)

lemma persist_ok: "store_ok s \<Longrightarrow> store_ok (snd (persist e s))"
  by (auto simp: store_ok_def persist_def split: option.splits)

lemma grant_store: "snd (grant e lic fb i tok s) = s \<or> snd (grant e lic fb i tok s) = snd (persist e s)"
  by (auto simp: grant_def split: sum.splits prod.splits option.splits)

lemma grant_fields [simp]: "licenses (snd (grant e lic fb i tok s)) = licenses s"
  "installations (snd (grant e lic fb i tok s)) = installations s"
  using grant_store [of e lic fb i tok s] by auto

lemma grant_ok: "store_ok s \<Longrightarrow> store_ok (snd (grant e lic fb i tok s))"
  using grant_store [of e lic fb i tok s] persist_ok by auto

lemma grant_Inr: "fst (grant e lic fb i tok s) = Inr r \<Longrightarrow>
    rt_InstallationID r = i \<and> rt_Token r = tok \<and> rt_ExpiresAt r = lc_ExpiresAt lic
    \<and> proxyCreds lic fb = Inr (rt_ProxyUser r, rt_ProxyPassword r) \<and> rt_Status r = StatusActive"
  by (auto simp: grant_def split: sum.splits prod.splits option.splits)

text \<open>A change of one installation that keeps its id and license and does not make it active.\<close>

lemma touch_ok:
  assumes "store_ok s" "k < length (installations s)" "\<And>x. in_ID (f x) = in_ID x" "\<And>x. in_LicenseID (f x) = in_LicenseID x"
    "\<And>x. in_Status (f x) = StatusActive \<Longrightarrow> in_Status x = StatusActive"
  shows "store_ok (touch f k s)"
proof -
  let ?xs = "installations s"
  have split: "?xs = take k ?xs @ ?xs ! k # drop (Suc k) ?xs" using assms(2) by (rule id_take_nth_drop)
  have up: "?xs[k := y] = take k ?xs @ y # drop (Suc k) ?xs" for y using assms(2) by (rule upd_conv_take_nth_drop)
  have le: "length (filter P (?xs[k := f (?xs ! k)])) \<le> length (filter P ?xs)" if "\<And>x. P (f x) \<Longrightarrow> P x" for P
    by (subst (3) split, subst up) (use that in auto)
  have c: "activeCount i (touch f k s) \<le> activeCount i s" for i
    using le [of "active_for i"] assms(4,5) by (simp add: activeCount_def touch_def active_for_def)
  have ids: "map in_ID (?xs[k := f (?xs ! k)]) = map in_ID ?xs" "map in_LicenseID (?xs[k := f (?xs ! k)]) = map in_LicenseID ?xs"
    using assms(2-4) by (simp_all add: map_update list_update_same_conv)
  have lic: "in_LicenseID ` set (?xs[k := f (?xs ! k)]) = in_LicenseID ` set ?xs"
    using arg_cong [OF ids(2), of set] by simp
  have "data_ok (so_data (touch f k s))"
    unfolding data_ok_iff
  proof (intro conjI)
    have "in_LicenseID ` set ?xs \<subseteq> lc_ID ` set (licenses s)"
      using assms(1) unfolding store_ok_def data_ok_iff by blast
    then show "\<forall>x \<in> set (installations (touch f k s)). in_LicenseID x \<in> lc_ID ` set (licenses (touch f k s))"
      unfolding lic [symmetric] by (auto simp: touch_def)
    show "\<forall>l \<in> set (licenses (touch f k s)). activeCount (lc_ID l) (touch f k s) \<le> lc_MaxInstallations l"
      using assms(1) c order_trans unfolding store_ok_def data_ok_iff by (fastforce simp: touch_def)
  qed (use assms(1) ids(1) in \<open>auto simp: store_ok_def data_ok_iff touch_def\<close>)
  then show ?thesis using assms(1) by (simp add: store_ok_def touch_def)
qed

lemma activeCount_enroll:
  "activeCount i (enroll e lic tok s) = activeCount i s + (if i = lc_ID lic then 1 else 0)"
  by (simp add: activeCount_def enroll_def active_for_def)

lemma enroll_ok:
  assumes "store_ok s" "lic \<in> set (licenses s)" "activeCount (lc_ID lic) s < lc_MaxInstallations lic"
    "newID e \<notin> in_ID ` set (installations s)"
  shows "store_ok (enroll e lic tok s)"
proof -
  have d: "distinct (map lc_ID (licenses s))" "distinct (map in_ID (installations s))"
    "\<forall>x \<in> set (installations s). in_LicenseID x \<in> lc_ID ` set (licenses s)"
    "\<forall>l \<in> set (licenses s). activeCount (lc_ID l) s \<le> lc_MaxInstallations l"
    using assms(1) by (simp_all add: store_ok_def data_ok_iff)
  have "l = lic" if "l \<in> set (licenses s)" "lc_ID l = lc_ID lic" for l
    using d(1) that assms(2) by (simp add: distinct_map inj_on_def)
  then have "\<forall>l \<in> set (licenses s). activeCount (lc_ID l) (enroll e lic tok s) \<le> lc_MaxInstallations l"
    using d(4) assms(3) by (fastforce simp: activeCount_enroll)
  then have "data_ok (so_data (enroll e lic tok s))"
    using d assms(2,4) unfolding data_ok_iff by (auto simp: enroll_def)
  then show ?thesis using assms(1) by (simp add: store_ok_def enroll_def)
qed

lemma license_Inr: "license h s = Inr l \<Longrightarrow> l \<in> set (licenses s) \<and> lc_KeyHash l = h"
  by (auto simp: license_def find_Some_iff split: option.splits)

lemma Activate_ok:
  assumes "store_ok s" "newID e \<notin> in_ID ` set (installations s)"
  shows "store_ok (snd (Activate e key i fb s))"
proof (cases "license (hashSecret e (normalizeKey key)) s")
  case (Inr lic)
  have l: "lic \<in> set (licenses s)" using license_Inr [OF Inr] by simp
  have t: "store_ok (touch (\<lambda>x. x\<lparr>in_TokenHash := h, in_LastSeen := t\<rparr>) k s)"
    if "find_index P (installations s) = Some k" for P k h t
    using find_index_Some [OF that] assms(1) by (intro touch_ok) auto
  show ?thesis
    using assms enroll_ok [OF assms(1) l _ assms(2)] t
    by (auto simp: Activate_def Inr intro!: grant_ok split: option.splits sum.splits)
qed (use assms in \<open>simp add: Activate_def\<close>)

lemma Validate_ok: "store_ok s \<Longrightarrow> store_ok (snd (store_Validate e i tok fb s))"
  using find_index_Some [of "\<lambda>x. in_ID x = i" "installations s"]
  by (auto simp: store_Validate_def installation_def Let_def intro!: grant_ok touch_ok split: option.splits)

lemma Deactivate_ok: "store_ok s \<Longrightarrow> store_ok (snd (Deactivate e i tok s))"
  using find_index_Some [of "\<lambda>x. in_ID x = i" "installations s"]
  by (auto simp: Deactivate_def installation_def StatusActive_def StatusRevoked_def intro!: persist_ok touch_ok split: option.splits)

lemma Revoke_ok: "store_ok s \<Longrightarrow> store_ok (snd (Revoke e key s))"
proof -
  assume s: "store_ok s"
  define g :: "License \<Rightarrow> License" where "g l = (if lc_ID l = key \<or> lc_KeyHash l = hashSecret e (normalizeKey key)
    then l\<lparr>lc_Status := StatusRevoked\<rparr> else l)" for l
  have g: "lc_ID (g l) = lc_ID l" "lc_MaxInstallations (g l) = lc_MaxInstallations l" for l by (simp_all add: g_def)
  have "activeCount i (set_licenses ls s) = activeCount i s" for i ls by (simp add: activeCount_def)
  then have "store_ok (set_licenses (map g (licenses s)) s)"
    using s unfolding store_ok_def data_ok_iff by (auto simp: g comp_def image_image)
  then show ?thesis
    using s persist_ok unfolding Revoke_def Let_def g_def by auto
qed

lemma Issue_ok:
  assumes "store_ok s" "newID e \<notin> lc_ID ` set (licenses s)"
  shows "store_ok (snd (Issue e mx ex u p s))"
proof (cases "newKey e")
  case (Inr key)
  define lic where "lic = \<lparr>lc_ID = newID e, lc_KeyHash = hashSecret e (normalizeKey key), lc_Status = StatusActive,
    lc_ExpiresAt = ex, lc_MaxInstallations = (if mx < 1 then 1 else mx), lc_ProxyUsername = u, lc_ProxyPassword = p\<rparr>"
  have f: "lc_ID lic = newID e" "0 \<le> lc_MaxInstallations lic" by (simp_all add: lic_def)
  have c: "activeCount i (set_licenses ls s) = activeCount i s" for i ls by (simp add: activeCount_def)
  have "filter (active_for (newID e)) (installations s) = []"
    using assms unfolding store_ok_def data_ok_iff by (force simp: filter_empty_conv active_for_def)
  then have "activeCount (newID e) s = 0" by (simp add: activeCount_def)
  then have "store_ok (set_licenses (licenses s @ [lic]) s)"
    using assms f unfolding store_ok_def data_ok_iff c by (auto simp: c)
  then have "store_ok (snd (persist e (set_licenses (licenses s @ [lic]) s)))" by (rule persist_ok)
  then show ?thesis by (simp add: Issue_def Inr Let_def lic_def case_prod_beta)
qed (use assms in \<open>simp add: Issue_def\<close>)

text \<open>
  The life of a store: the operations of the API and of the operator, with ids that are new, and a restart
  that reads the file back.
\<close>

inductive store_step :: "Store \<Rightarrow> Store \<Rightarrow> bool" where
  issue: "newID e \<notin> lc_ID ` set (licenses s) \<Longrightarrow> store_step s (snd (Issue e mx ex u p s))"
| activate: "newID e \<notin> in_ID ` set (installations s) \<Longrightarrow> store_step s (snd (Activate e key i fb s))"
| validate: "store_step s (snd (store_Validate e i tok fb s))"
| deactivate: "store_step s (snd (Deactivate e i tok s))"
| revoke: "store_step s (snd (Revoke e key s))"
| restart: "so_disk s = Some d \<Longrightarrow> store_step s (s\<lparr>so_data := d\<rparr>)"

lemma store_step_ok: "store_step s s' \<Longrightarrow> store_ok s \<Longrightarrow> store_ok s'"
proof (induction rule: store_step.induct)
  case (restart s d)
  then show ?case by (simp add: store_ok_def)
qed (simp_all add: Issue_ok Activate_ok Validate_ok Deactivate_ok Revoke_ok)

text \<open>
  C15: No license is ever used by more installations than it allows. From a new store, after any
  sequence of issuing, activating, validating, deactivating, revoking and restarting from the file, every
  license has at most its number of active installations, ids are unique and every installation belongs to
  a license.
\<close>

theorem activation_limit:
  assumes "store_step\<^sup>*\<^sup>* \<lparr>so_path = p, so_data = empty_data, so_disk = None\<rparr> s"
  shows "(\<forall>l \<in> set (licenses s). activeCount (lc_ID l) s \<le> lc_MaxInstallations l)
    \<and> distinct (map lc_ID (licenses s)) \<and> distinct (map in_ID (installations s))
    \<and> (\<forall>x \<in> set (installations s). in_LicenseID x \<in> lc_ID ` set (licenses s))"
proof -
  have "store_ok s" using assms
  proof (induction rule: rtranclp_induct)
    case base
    show ?case by (simp add: store_ok_def data_ok_def empty_data_def)
  qed (rule store_step_ok)
  then show ?thesis by (simp add: store_ok_def data_ok_iff)
qed

section \<open>What an activation gives\<close>

lemma find_index_unique:
  assumes "distinct (map f xs)" "k < length xs" "f (xs ! k) = a"
  shows "find_index (\<lambda>x. f x = a) xs = Some k"
proof (cases "find_index (\<lambda>x. f x = a) xs")
  case None
  then show ?thesis using assms by (auto simp: find_index_None)
next
  case (Some j)
  then have "j < length xs" "f (xs ! j) = f (xs ! k)" using find_index_Some [OF Some] assms(3) by auto
  then show ?thesis using Some assms(1,2) by (metis nth_eq_iff_index_eq nth_map length_map)
qed

text \<open>The two ways an activation succeeds: a new installation, or a new token for an old one.\<close>

definition retoken :: "benv \<Rightarrow> string \<Rightarrow> Installation \<Rightarrow> Installation" where
  "retoken e token x = x\<lparr>in_TokenHash := hashSecret e token, in_LastSeen := be_seen e\<rparr>"

lemma Activate_shape:
  assumes r: "Activate e key i fb s = (Inr r, s')"
  obtains lic where "license (hashSecret e (normalizeKey key)) s = Inr lic" "usable e lic = None"
    "proxyCreds lic fb = Inr (rt_ProxyUser r, rt_ProxyPassword r)" "rt_ExpiresAt r = lc_ExpiresAt lic"
    "licenses s' = licenses s" "rt_Status r = StatusActive"
    "rt_InstallationID r = newID e \<and> installations s' = installations (enroll e lic (rt_Token r) s)
     \<or> (\<exists>k < length (installations s). active_for (lc_ID lic) (installations s ! k)
          \<and> rt_InstallationID r = in_ID (installations s ! k)
          \<and> installations s' = installations (touch (retoken e (rt_Token r)) k s))"
proof -
  obtain lic where lic: "license (hashSecret e (normalizeKey key)) s = Inr lic" "usable e lic = None"
    using r by (auto simp: Activate_def split: sum.splits option.splits)
  obtain tok where tok: "newToken e = Inr tok" using r lic by (auto simp: Activate_def split: sum.splits)
  define c where "c = (if i = [] then None else find_index (\<lambda>c. in_ID c = i \<and> active_for (lc_ID lic) c) (installations s))"
  define s1 where "s1 = (case c of None \<Rightarrow> enroll e lic tok s | Some k \<Rightarrow> touch (retoken e tok) k s)"
  define j where "j = (case c of None \<Rightarrow> newID e | Some k \<Rightarrow> in_ID (installations s ! k))"
  have g: "grant e lic fb j tok s1 = (Inr r, s')"
    using r lic tok by (auto simp: Activate_def c_def s1_def j_def retoken_def [abs_def] split: option.splits if_splits)
  have G: "rt_InstallationID r = j" "rt_Token r = tok" "rt_ExpiresAt r = lc_ExpiresAt lic"
    "proxyCreds lic fb = Inr (rt_ProxyUser r, rt_ProxyPassword r)" "rt_Status r = StatusActive"
    using grant_Inr [of e lic fb j tok s1 r] g by auto
  have s': "installations s' = installations s1" "licenses s' = licenses s1"
    using grant_fields [of e lic fb j tok s1] g by simp_all
  have ck: "k < length (installations s) \<and> active_for (lc_ID lic) (installations s ! k)" if "c = Some k" for k
    using that find_index_Some [of _ "installations s" k] by (auto simp: c_def split: if_splits)
  have "licenses s' = licenses s" using s'(2) by (simp add: s1_def enroll_def touch_def split: option.splits)
  then show ?thesis
    using that [OF lic G(4,3) _ G(5)] ck G(1,2) s'(1) by (auto simp: s1_def j_def split: option.splits)
qed

text \<open>After a success there is exactly one entry of the installation, active, with the token's hash.\<close>

lemma Activate_Inr:
  assumes ok: "store_ok s" and new: "newID e \<notin> in_ID ` set (installations s)" and r: "Activate e key i fb s = (Inr r, s')"
  obtains k lic where "license (hashSecret e (normalizeKey key)) s = Inr lic" "usable e lic = None"
    "installation (rt_InstallationID r) s' = Some k" "k < length (installations s')"
    "in_TokenHash (installations s' ! k) = hashSecret e (rt_Token r)"
    "active_for (lc_ID lic) (installations s' ! k)" "in_ID (installations s' ! k) = rt_InstallationID r"
    "proxyCreds lic fb = Inr (rt_ProxyUser r, rt_ProxyPassword r)" "rt_ExpiresAt r = lc_ExpiresAt lic"
    "licenses s' = licenses s" "rt_Status r = StatusActive"
proof -
  from r obtain lic where L: "license (hashSecret e (normalizeKey key)) s = Inr lic" "usable e lic = None"
    "proxyCreds lic fb = Inr (rt_ProxyUser r, rt_ProxyPassword r)" "rt_ExpiresAt r = lc_ExpiresAt lic"
    "licenses s' = licenses s" "rt_Status r = StatusActive"
    "rt_InstallationID r = newID e \<and> installations s' = installations (enroll e lic (rt_Token r) s)
     \<or> (\<exists>k < length (installations s). active_for (lc_ID lic) (installations s ! k)
          \<and> rt_InstallationID r = in_ID (installations s ! k)
          \<and> installations s' = installations (touch (retoken e (rt_Token r)) k s))"
    by (rule Activate_shape)
  obtain k where x: "k < length (installations s')" "in_TokenHash (installations s' ! k) = hashSecret e (rt_Token r)"
    "active_for (lc_ID lic) (installations s' ! k)" "in_ID (installations s' ! k) = rt_InstallationID r"
    using L(7)
  proof (elim disjE conjE exE)
    assume "rt_InstallationID r = newID e" "installations s' = installations (enroll e lic (rt_Token r) s)"
    then show ?thesis by (intro that [of "length (installations s)"]) (auto simp: enroll_def active_for_def)
  next
    fix k assume "k < length (installations s)" "active_for (lc_ID lic) (installations s ! k)"
      "rt_InstallationID r = in_ID (installations s ! k)" "installations s' = installations (touch (retoken e (rt_Token r)) k s)"
    then show ?thesis by (intro that [of k]) (auto simp: touch_def retoken_def active_for_def)
  qed
  have "store_ok s'" using Activate_ok [OF ok new, of key i fb] r by simp
  then have "installation (rt_InstallationID r) s' = Some k"
    using find_index_unique [of in_ID "installations s'" k "rt_InstallationID r"] x
    by (simp add: installation_def store_ok_def data_ok_iff)
  then show ?thesis using that [of lic k] L x by simp
qed

lemma license_unique: "store_ok s \<Longrightarrow> l \<in> set (licenses s) \<Longrightarrow> licenseByID (lc_ID l) s = Some l"
proof -
  assume s: "store_ok s" and l: "l \<in> set (licenses s)"
  obtain l' where l': "licenseByID (lc_ID l) s = Some l'"
    using l by (cases "licenseByID (lc_ID l) s") (auto simp: licenseByID_def find_None_iff)
  then have "l' \<in> set (licenses s)" "lc_ID l' = lc_ID l" by (auto simp: licenseByID_def find_Some_iff)
  then show ?thesis using s l l' by (auto simp: store_ok_def data_ok_iff distinct_map inj_on_def)
qed

lemma hashSecret_cong: "be_sha256 e' = be_sha256 e \<Longrightarrow> hashSecret e' x = hashSecret e x"
  by (simp add: hashSecret_def)

lemma Revoke_licenses:
  assumes "l \<in> set (licenses s)" "lc_KeyHash l = hashSecret e (normalizeKey key)"
  shows "licenses (snd (Revoke e key s)) = map (\<lambda>l. if lc_ID l = key \<or> lc_KeyHash l = hashSecret e (normalizeKey key)
      then l\<lparr>lc_Status := StatusRevoked\<rparr> else l) (licenses s)"
    "installations (snd (Revoke e key s)) = installations s"
proof -
  have "list_ex (\<lambda>l. lc_ID l = key \<or> lc_KeyHash l = hashSecret e (normalizeKey key)) (licenses s)"
    using assms by (auto simp: list_ex_iff)
  then show "licenses (snd (Revoke e key s)) = map (\<lambda>l. if lc_ID l = key \<or> lc_KeyHash l = hashSecret e (normalizeKey key)
      then l\<lparr>lc_Status := StatusRevoked\<rparr> else l) (licenses s)"
    "installations (snd (Revoke e key s)) = installations s"
    by (simp_all add: Revoke_def Let_def)
qed

lemma find_map_pres: "(\<And>x. P (g x) = P x) \<Longrightarrow> List.find P (map g xs) = map_option g (List.find P xs)"
  by (induction xs) auto

text \<open>The state a successful activation leaves: its license in force, and its entry with the token's hash.\<close>

definition activated :: "benv \<Rightarrow> License \<Rightarrow> nat \<Rightarrow> Result \<Rightarrow> Store \<Rightarrow> bool" where
  "activated e lic k r s \<longleftrightarrow> store_ok s \<and> lic \<in> set (licenses s) \<and> lc_Status lic = StatusActive
     \<and> installation (rt_InstallationID r) s = Some k \<and> k < length (installations s)
     \<and> in_ID (installations s ! k) = rt_InstallationID r \<and> in_TokenHash (installations s ! k) = hashSecret e (rt_Token r)
     \<and> active_for (lc_ID lic) (installations s ! k)"

lemma Activate_activated:
  assumes ok: "store_ok s" and new: "newID e \<notin> in_ID ` set (installations s)" and r: "Activate e key i fb s = (Inr r, s')"
  obtains k lic where "activated e lic k r s'" "license (hashSecret e (normalizeKey key)) s' = Inr lic"
    "proxyCreds lic fb = Inr (rt_ProxyUser r, rt_ProxyPassword r)" "rt_ExpiresAt r = lc_ExpiresAt lic" "rt_Status r = StatusActive"
proof -
  obtain k lic where A: "license (hashSecret e (normalizeKey key)) s = Inr lic" "usable e lic = None"
    "installation (rt_InstallationID r) s' = Some k" "k < length (installations s')"
    "in_TokenHash (installations s' ! k) = hashSecret e (rt_Token r)"
    "active_for (lc_ID lic) (installations s' ! k)" "in_ID (installations s' ! k) = rt_InstallationID r"
    "proxyCreds lic fb = Inr (rt_ProxyUser r, rt_ProxyPassword r)" "rt_ExpiresAt r = lc_ExpiresAt lic"
    "licenses s' = licenses s" "rt_Status r = StatusActive"
    using Activate_Inr [OF ok new r] by metis
  have "store_ok s'" using Activate_ok [OF ok new, of key i fb] r by simp
  then have "activated e lic k r s'"
    using A license_Inr [OF A(1)] by (auto simp: activated_def usable_def split: if_splits)
  moreover have "license (hashSecret e (normalizeKey key)) s' = Inr lic" using A(1,10) by (simp add: license_def)
  ultimately show ?thesis using that A(8,9,11) by blast
qed

lemma activated_validates:
  assumes a: "activated e lic k r s" and sha: "be_sha256 e' = be_sha256 e" and w: "be_write e' = None"
    and t: "case lc_ExpiresAt lic of None \<Rightarrow> True | Some t \<Rightarrow> be_now e' < t"
    and r: "proxyCreds lic fb = Inr (rt_ProxyUser r, rt_ProxyPassword r)" "rt_ExpiresAt r = lc_ExpiresAt lic" "rt_Status r = StatusActive"
  shows "fst (store_Validate e' (rt_InstallationID r) (rt_Token r) fb s) = Inr r"
proof -
  have "usable e' lic = None" using t a by (auto simp: usable_def activated_def split: option.splits)
  moreover have "licenseByID (lc_ID lic) s = Some lic" using a license_unique by (simp add: activated_def)
  moreover have "fst (grant e' lic fb (rt_InstallationID r) (rt_Token r) s2) = Inr r" for s2
  proof -
    have "fst (persist e' s2) = None" using w by (simp add: persist_def)
    then obtain b where "persist e' s2 = (None, b)" by (metis prod.collapse)
    then show ?thesis using r by (cases r) (simp add: grant_def)
  qed
  ultimately show ?thesis
    using a by (simp add: store_Validate_def Let_def hashSecret_cong [OF sha] activated_def active_for_def)
qed

lemma revoked_refused:
  assumes a: "activated e lic k r s" and l: "license (hashSecret e (normalizeKey key)) s = Inr lic"
    and sha: "be_sha256 e' = be_sha256 e" and n: "normalizeKey key' = normalizeKey key"
  shows "fst (store_Validate e' (rt_InstallationID r) (rt_Token r) fb (snd (Revoke e' key' s))) = Inl ErrRevoked
    \<and> fst (Activate e' key' i' fb (snd (Revoke e' key' s))) = Inl ErrRevoked"
proof -
  let ?s2 = "snd (Revoke e' key' s)"
  note h = hashSecret_cong [OF sha]
  define g :: "License \<Rightarrow> License" where "g l = (if lc_ID l = key' \<or> lc_KeyHash l = hashSecret e (normalizeKey key)
    then l\<lparr>lc_Status := StatusRevoked\<rparr> else l)" for l
  have lic: "lic \<in> set (licenses s)" "lc_KeyHash lic = hashSecret e (normalizeKey key)" using license_Inr [OF l] by auto
  have s2: "licenses ?s2 = map g (licenses s)" "installations ?s2 = installations s"
    using Revoke_licenses [OF lic(1), of e' key'] lic(2) n unfolding g_def h by auto
  have g: "lc_ID (g l) = lc_ID l" "lc_KeyHash (g l) = lc_KeyHash l" for l by (simp_all add: g_def)
  have rev: "lc_Status (g lic) \<noteq> StatusActive" using lic(2) by (simp add: g_def StatusActive_def StatusRevoked_def)
  have "licenseByID (lc_ID lic) ?s2 = Some (g lic)"
    using a license_unique [of s lic] find_map_pres [of "\<lambda>l. lc_ID l = lc_ID lic" g] g
    by (simp add: licenseByID_def s2 activated_def)
  moreover have "license (hashSecret e (normalizeKey key)) ?s2 = Inr (g lic)"
    using l find_map_pres [of "\<lambda>l. lc_KeyHash l = hashSecret e (normalizeKey key)" g] g
    by (simp add: license_def s2 split: option.splits)
  ultimately show ?thesis
    using a rev n
    by (simp add: store_Validate_def Activate_def Let_def h installation_def s2 usable_def activated_def active_for_def)
qed

lemma deactivated_refused:
  assumes a: "activated e lic k r s" and sha: "be_sha256 e' = be_sha256 e"
  shows "fst (store_Validate e' (rt_InstallationID r) (rt_Token r) fb
    (snd (Deactivate e' (rt_InstallationID r) (rt_Token r) s))) = Inl ErrRevoked"
proof -
  let ?f = "\<lambda>y::Installation. y\<lparr>in_Status := StatusRevoked, in_LastSeen := be_seen e'\<rparr>"
  let ?s2 = "snd (Deactivate e' (rt_InstallationID r) (rt_Token r) s)"
  note h = hashSecret_cong [OF sha]
  have i2: "installations ?s2 = (installations s)[k := ?f (installations s ! k)]"
    using a by (simp add: Deactivate_def h touch_def activated_def)
  have "store_ok ?s2" using Deactivate_ok a by (simp add: activated_def)
  then have "installation (rt_InstallationID r) ?s2 = Some k"
    using find_index_unique [of in_ID "installations ?s2" k "rt_InstallationID r"] a
    by (simp add: installation_def store_ok_def data_ok_iff i2 activated_def)
  then show ?thesis
    using a by (simp add: store_Validate_def Let_def i2 h activated_def StatusActive_def StatusRevoked_def)
qed


section \<open>What the store promises\<close>

text \<open>
  The contract: a set of grants (installation, hash of its token, license) and the set of licenses in force.
  Whoever holds a grant under a license in force may use the proxy.
\<close>

record authority =
  au_grants :: "(string \<times> string \<times> string) set"
  au_active :: "string set"

definition grant_of :: "Installation \<Rightarrow> string \<times> string \<times> string" where
  "grant_of x = (in_ID x, in_TokenHash x, in_LicenseID x)"

definition authority_of :: "Store \<Rightarrow> authority" where
  "authority_of s = \<lparr>au_grants = grant_of ` {x \<in> set (installations s). in_Status x = StatusActive},
     au_active = lc_ID ` {l \<in> set (licenses s). lc_Status l = StatusActive}\<rparr>"

definition may_use :: "authority \<Rightarrow> string \<Rightarrow> string \<Rightarrow> bool" where
  "may_use A i h \<longleftrightarrow> (\<exists>l. (i, h, l) \<in> au_grants A \<and> l \<in> au_active A)"

definition spec_activate :: "string \<Rightarrow> string \<Rightarrow> string \<Rightarrow> authority \<Rightarrow> authority" where
  "spec_activate l i h A = A\<lparr>au_grants := insert (i, h, l) {g \<in> au_grants A. fst g \<noteq> i}\<rparr>"

definition spec_deactivate :: "string \<Rightarrow> authority \<Rightarrow> authority" where
  "spec_deactivate i A = A\<lparr>au_grants := {g \<in> au_grants A. fst g \<noteq> i}\<rparr>"

definition spec_revoke :: "string set \<Rightarrow> authority \<Rightarrow> authority" where
  "spec_revoke ls A = A\<lparr>au_active := au_active A - ls\<rparr>"

lemma authority_cong: "licenses s' = licenses s \<Longrightarrow> installations s' = installations s \<Longrightarrow> authority_of s' = authority_of s"
  by (simp add: authority_of_def)

lemma authority_touch:
  assumes "store_ok s" "k < length (installations s)" "\<And>x. in_ID (f x) = in_ID x"
  shows "authority_of (touch f k s) = (authority_of s)\<lparr>au_grants :=
      (if in_Status (f (installations s ! k)) = StatusActive then {grant_of (f (installations s ! k))} else {})
      \<union> {g \<in> au_grants (authority_of s). fst g \<noteq> in_ID (installations s ! k)}\<rparr>"
proof -
  let ?xs = "installations s"
  have d: "distinct (map in_ID ?xs)" using assms(1) by (simp add: store_ok_def data_ok_iff)
  then have dx: "distinct ?xs" and inj: "inj_on in_ID (set ?xs)" by (simp_all add: distinct_map)
  have u: "set (?xs[k := f (?xs ! k)]) = insert (f (?xs ! k)) (set ?xs - {?xs ! k})"
    using assms(2) dx by (rule set_update_distinct [rotated])
  have "in_ID x = in_ID (?xs ! k) \<longleftrightarrow> x = ?xs ! k" if "x \<in> set ?xs" for x
    using inj that assms(2) by (meson inj_onD nth_mem)
  then have "{g \<in> grant_of ` {x \<in> set ?xs. in_Status x = StatusActive}. fst g \<noteq> in_ID (?xs ! k)}
      = grant_of ` {x \<in> set ?xs - {?xs ! k}. in_Status x = StatusActive}"
    by (auto simp: grant_of_def image_iff)
  then show ?thesis by (auto simp: authority_of_def touch_def u image_iff)
qed

lemma authority_touch_same:
  assumes "store_ok s" "k < length (installations s)" "grant_of (f (installations s ! k)) = grant_of (installations s ! k)"
    "in_Status (f (installations s ! k)) = in_Status (installations s ! k)"
  shows "authority_of (touch f k s) = authority_of s"
proof -
  let ?xs = "installations s"
  have "distinct ?xs" using assms(1) by (auto simp: store_ok_def data_ok_iff distinct_map)
  then have "set (?xs[k := f (?xs ! k)]) = insert (f (?xs ! k)) (set ?xs - {?xs ! k})"
    using assms(2) by (rule set_update_distinct)
  moreover have "?xs ! k \<in> set ?xs" using assms(2) by simp
  ultimately show ?thesis
    using assms(3,4) unfolding authority_of_def touch_def by (auto simp: image_iff) (metis+)
qed

lemma Activate_authority:
  assumes ok: "store_ok s" and new: "newID e \<notin> in_ID ` set (installations s)" and r: "Activate e key i fb s = (Inr r, s1)"
  shows "\<exists>l :: License. lc_ID l \<in> au_active (authority_of s) \<and> lc_KeyHash l = hashSecret e (normalizeKey key)
    \<and> authority_of s1 = spec_activate (lc_ID l) (rt_InstallationID r) (hashSecret e (rt_Token r)) (authority_of s)"
proof -
  from r obtain lic where L: "license (hashSecret e (normalizeKey key)) s = Inr lic" "usable e lic = None"
    "licenses s1 = licenses s"
    "rt_InstallationID r = newID e \<and> installations s1 = installations (enroll e lic (rt_Token r) s)
     \<or> (\<exists>k < length (installations s). active_for (lc_ID lic) (installations s ! k)
          \<and> rt_InstallationID r = in_ID (installations s ! k)
          \<and> installations s1 = installations (touch (retoken e (rt_Token r)) k s))"
    by (rule Activate_shape)
  have l: "lc_ID lic \<in> au_active (authority_of s)" "lc_KeyHash lic = hashSecret e (normalizeKey key)"
    using license_Inr [OF L(1)] L(2) by (auto simp: authority_of_def usable_def split: if_splits)
  from L(4) have "authority_of s1 = spec_activate (lc_ID lic) (rt_InstallationID r) (hashSecret e (rt_Token r)) (authority_of s)"
  proof (elim disjE conjE exE)
    assume a: "rt_InstallationID r = newID e" "installations s1 = installations (enroll e lic (rt_Token r) s)"
    have "{g \<in> au_grants (authority_of s). fst g \<noteq> newID e} = au_grants (authority_of s)"
      using new by (fastforce simp: authority_of_def grant_of_def image_iff)
    moreover have "authority_of s1 = (authority_of s)\<lparr>au_grants :=
        insert (newID e, hashSecret e (rt_Token r), lc_ID lic) (au_grants (authority_of s))\<rparr>"
      using a L(3) by (force simp: authority_of_def enroll_def grant_of_def)
    ultimately show ?thesis using a(1) by (simp add: spec_activate_def)
  next
    fix k assume k: "k < length (installations s)" "active_for (lc_ID lic) (installations s ! k)"
      "rt_InstallationID r = in_ID (installations s ! k)" "installations s1 = installations (touch (retoken e (rt_Token r)) k s)"
    have "authority_of s1 = authority_of (touch (retoken e (rt_Token r)) k s)"
      by (rule authority_cong) (use k(4) L(3) in \<open>simp_all add: touch_def\<close>)
    also have "\<dots> = spec_activate (lc_ID lic) (rt_InstallationID r) (hashSecret e (rt_Token r)) (authority_of s)"
      using authority_touch [OF ok k(1), of "retoken e (rt_Token r)"] k(2,3)
      by (simp add: retoken_def spec_activate_def grant_of_def active_for_def)
    finally show ?thesis .
  qed
  then show ?thesis using l by blast
qed

lemma Validate_authority:
  assumes ok: "store_ok s" and r: "store_Validate e j tok fb s = (res, s2)"
  shows "authority_of s2 = authority_of s \<and> (\<forall>x. res = Inr x \<longrightarrow> may_use (authority_of s) j (hashSecret e tok))"
proof (cases "installation j s")
  case (Some k)
  have k: "k < length (installations s)" "in_ID (installations s ! k) = j"
    using find_index_Some [OF Some [unfolded installation_def]] by auto
  let ?x = "installations s ! k"
  have t: "authority_of (touch (\<lambda>y. y\<lparr>in_LastSeen := be_seen e\<rparr>) k s) = authority_of s"
    by (rule authority_touch_same [OF ok k(1)]) (simp_all add: grant_of_def)
  have g: "authority_of (snd (grant e lic fb i tok (touch (\<lambda>y. y\<lparr>in_LastSeen := be_seen e\<rparr>) k s))) = authority_of s" for lic i
    using authority_cong [OF grant_fields] t by metis
  have 1: "authority_of s2 = authority_of s"
    using r Some g by (auto simp: store_Validate_def Let_def split: if_splits option.splits) (metis snd_conv)
  have "may_use (authority_of s) j (hashSecret e tok)" if "res = Inr x" for x
  proof -
    obtain lic where l: "in_TokenHash ?x = hashSecret e tok" "in_Status ?x = StatusActive"
      "licenseByID (in_LicenseID ?x) s = Some lic" "usable e lic = None"
      using r Some \<open>res = Inr x\<close> by (auto simp: store_Validate_def Let_def split: if_splits option.splits)
    then have "lic \<in> set (licenses s)" "lc_ID lic = in_LicenseID ?x" "lc_Status lic = StatusActive"
      by (auto simp: licenseByID_def find_Some_iff usable_def split: if_splits)
    moreover have "grant_of ?x = (j, hashSecret e tok, in_LicenseID ?x)" using k(2) l(1) by (simp add: grant_of_def)
    ultimately show ?thesis
      using k(1) l(2) unfolding may_use_def authority_of_def
      by (intro exI [of _ "in_LicenseID ?x"]) (force simp: image_iff)
  qed
  then show ?thesis using 1 by blast
qed (use r in \<open>auto simp: store_Validate_def\<close>)

lemma Deactivate_authority:
  assumes ok: "store_ok s" and r: "Deactivate e j tok s = (None, s3)"
  shows "authority_of s3 = spec_deactivate j (authority_of s)
    \<and> (\<exists>x \<in> set (installations s). in_ID x = j \<and> in_TokenHash x = hashSecret e tok)"
proof (cases "installation j s")
  case (Some k)
  have k: "k < length (installations s)" "in_ID (installations s ! k) = j"
    using find_index_Some [OF Some [unfolded installation_def]] by auto
  let ?f = "\<lambda>y::Installation. y\<lparr>in_Status := StatusRevoked, in_LastSeen := be_seen e\<rparr>"
  have d: "in_TokenHash (installations s ! k) = hashSecret e tok" "s3 = snd (persist e (touch ?f k s))"
    using r Some by (auto simp: Deactivate_def split: if_splits)
  have "authority_of s3 = authority_of (touch ?f k s)" unfolding d(2) by (rule authority_cong) simp_all
  also have "\<dots> = spec_deactivate j (authority_of s)"
    using authority_touch [OF ok k(1), of ?f] k(2) by (simp add: spec_deactivate_def StatusActive_def StatusRevoked_def)
  finally show ?thesis using d(1) k by (auto intro: nth_mem)
qed (use r in \<open>simp add: Deactivate_def\<close>)

lemma Revoke_authority:
  assumes ok: "store_ok s" and r: "Revoke e key s = (None, s4)"
  shows "authority_of s4 = spec_revoke
    {lc_ID l | l. l \<in> set (licenses s) \<and> (lc_ID l = key \<or> lc_KeyHash l = hashSecret e (normalizeKey key))} (authority_of s)"
proof -
  define m where "m l \<longleftrightarrow> lc_ID l = key \<or> lc_KeyHash l = hashSecret e (normalizeKey key)" for l :: License
  define g where "g l = (if m l then l\<lparr>lc_Status := StatusRevoked\<rparr> else l)" for l
  have s4: "s4 = snd (persist e (set_licenses (map g (licenses s)) s))"
    using r unfolding Revoke_def Let_def g_def m_def by (auto split: if_splits)
  have inj: "inj_on lc_ID (set (licenses s))" using ok by (simp add: store_ok_def data_ok_iff distinct_map)
  have "lc_ID ` {l \<in> set (map g (licenses s)). lc_Status l = StatusActive}
      = lc_ID ` {l \<in> set (licenses s). lc_Status l = StatusActive \<and> \<not> m l}"
    by (force simp: g_def StatusActive_def StatusRevoked_def image_iff)
  also have "\<dots> = lc_ID ` {l \<in> set (licenses s). lc_Status l = StatusActive} - {lc_ID l | l. l \<in> set (licenses s) \<and> m l}"
    using inj by (auto simp: inj_on_def image_iff)
  finally show ?thesis by (simp add: authority_of_def spec_revoke_def s4 m_def)
qed


section \<open>The API\<close>

datatype payload = PError string | PResult Result ProxyAccess | PStatus string | PText string

record api =
  ap_activate :: "string \<Rightarrow> (string \<times> string) result"
  ap_token :: "string \<Rightarrow> (string \<times> string) result"

definition writeErr :: "backend_err \<Rightarrow> int \<times> payload" where
  "writeErr err = (case err of
      ErrInvalidKey \<Rightarrow> (401, PError (backend_text err))
    | ErrInvalidTok \<Rightarrow> (401, PError (backend_text err))
    | ErrExpired \<Rightarrow> (403, PError (backend_text err))
    | ErrRevoked \<Rightarrow> (403, PError (backend_text err))
    | ErrLimit \<Rightarrow> (403, PError (backend_text err))
    | ErrNoProxy \<Rightarrow> (503, PError (backend_text err))
    | OtherErr _ \<Rightarrow> (502, PError ''unavailable''))"

definition respond :: "ProxyAccess \<Rightarrow> (backend_err + Result) \<times> Store \<Rightarrow> (int \<times> payload) \<times> Store" where
  "respond proxy = (\<lambda>(res, s). ((case res of Inl err \<Rightarrow> writeErr err | Inr r \<Rightarrow> (200, PResult r proxy)), s))"

definition api_activate :: "api \<Rightarrow> benv \<Rightarrow> ProxyAccess \<Rightarrow> string \<Rightarrow> string \<Rightarrow> Store \<Rightarrow> (int \<times> payload) \<times> Store" where
  "api_activate ap e proxy meth body s =
    (if meth \<noteq> ''POST'' then ((405, PText ''method''), s)
     else case ap_activate ap (LimitReader 65536 body) of
        Inl _ \<Rightarrow> ((400, PError ''invalid_request''), s)
      | Inr (key, i) \<Rightarrow> respond proxy (Activate e key i proxy s))"

definition api_validate :: "api \<Rightarrow> benv \<Rightarrow> ProxyAccess \<Rightarrow> string \<Rightarrow> string \<Rightarrow> Store \<Rightarrow> (int \<times> payload) \<times> Store" where
  "api_validate ap e proxy meth body s =
    (if meth \<noteq> ''POST'' then ((405, PText ''method''), s)
     else case ap_token ap (LimitReader 65536 body) of
        Inl _ \<Rightarrow> ((400, PError ''invalid_request''), s)
      | Inr (i, tok) \<Rightarrow> respond proxy (store_Validate e i tok proxy s))"

definition api_deactivate :: "api \<Rightarrow> benv \<Rightarrow> string \<Rightarrow> string \<Rightarrow> Store \<Rightarrow> (int \<times> payload) \<times> Store" where
  "api_deactivate ap e meth body s =
    (if meth \<noteq> ''POST'' then ((405, PText ''method''), s)
     else case ap_token ap (LimitReader 65536 body) of
        Inl _ \<Rightarrow> ((400, PError ''invalid_request''), s)
      | Inr (i, tok) \<Rightarrow> (case Deactivate e i tok s of
          (Some err, s') \<Rightarrow> (writeErr err, s')
        | (None, s') \<Rightarrow> ((200, PStatus StatusRevoked), s')))"

text \<open>The multiplexer: an unknown path is answered with 404.\<close>

definition api_Handler :: "api \<Rightarrow> benv \<Rightarrow> ProxyAccess \<Rightarrow> string \<Rightarrow> string \<Rightarrow> string \<Rightarrow> Store \<Rightarrow> (int \<times> payload) \<times> Store" where
  "api_Handler ap e proxy path meth body s =
    (if path = ''/v1/activate'' then api_activate ap e proxy meth body s
     else if path = ''/v1/validate'' then api_validate ap e proxy meth body s
     else if path = ''/v1/deactivate'' then api_deactivate ap e meth body s
     else ((404, PText ''404 page not found''), s))"

section \<open>The client\<close>

datatype client_err = CInvalidKey | CExpired | CRevoked | CLimit | CUnavailable | CNotActivated | CProxyMissing | COther gerr

record Proxy =
  pr_Host :: string
  pr_Port :: int
  pr_Username :: string
  pr_Password :: string
  pr_Country :: string
  pr_SessionMinutes :: int

record Activation =
  ac_InstallationID :: string
  ac_Token :: string
  ac_Status :: string
  ac_ExpiresAt :: "int option"
  ac_Server :: string
  ac_Proxy :: Proxy

text \<open>
  \<open>http\<close> is the transport: it gets the URL and the body of a POST and returns status and body, or fails; \<open>cc_new\<close>
  says whether \<open>http.NewRequest\<close> accepts the URL. \<open>cc_activate\<close> and \<open>cc_token\<close> encode the two kinds of request,
  \<open>cc_error\<close> and \<open>cc_out\<close> decode a response (\<open>cc_error\<close> gives the empty string for what is not an error document).
\<close>

record client_codec =
  cc_new :: "string \<Rightarrow> bool"
  cc_activate :: "string \<Rightarrow> string \<Rightarrow> string"
  cc_token :: "string \<Rightarrow> string \<Rightarrow> string"
  cc_error :: "string \<Rightarrow> string"
  cc_out :: "string \<Rightarrow> Activation result"

definition mapAPIError :: "int \<Rightarrow> string \<Rightarrow> client_err" where
  "mapAPIError status code =
    (if code = ''invalid_key'' \<or> code = ''invalid_token'' then CInvalidKey
     else if code = ''expired'' then CExpired
     else if code = ''revoked'' then CRevoked
     else if code = ''installation_limit'' then CLimit
     else if code = ''proxy_unconfigured'' then CProxyMissing
     else if status = 401 then CInvalidKey
     else if status = 403 then CRevoked
     else CUnavailable)"

definition post ::
  "client_codec \<Rightarrow> (string \<Rightarrow> string \<Rightarrow> 's \<Rightarrow> (int \<times> string) result \<times> 's) \<Rightarrow> string \<Rightarrow> string \<Rightarrow> string \<Rightarrow> 's
    \<Rightarrow> (client_err + Activation) \<times> 's" where
  "post cc http serverURL path body st =
    (let server = TrimRight (TrimSpace serverURL) ''/'' in
     if server = [] then (Inl CUnavailable, st)
     else if \<not> cc_new cc (server @ path) then (Inl CUnavailable, st)
     else case http (server @ path) body st of
        (Inl _, st') \<Rightarrow> (Inl CUnavailable, st')
      | (Inr (status, payload0), st') \<Rightarrow>
         (let payload = LimitReader 65536 payload0 in
          if status \<noteq> 200 then (Inl (mapAPIError status (cc_error cc payload)), st')
          else case cc_out cc payload of
             Inl _ \<Rightarrow> (Inl CUnavailable, st')
           | Inr out \<Rightarrow>
              (let act = out\<lparr>ac_Server := server\<rparr>; p = ac_Proxy act in
               if path \<noteq> ''/v1/deactivate'' \<and> (pr_Username p = [] \<or> pr_Password p = [] \<or> pr_Host p = [] \<or> pr_Port p = 0)
               then (Inl CProxyMissing, st') else (Inr act, st'))))"

definition client_Activate where
  "client_Activate cc http server key i = post cc http server ''/v1/activate'' (cc_activate cc (TrimSpace key) i)"

definition client_Validate where
  "client_Validate cc http server i tok = post cc http server ''/v1/validate'' (cc_token cc i tok)"

definition client_Deactivate where
  "client_Deactivate cc http server i tok st =
    (case post cc http server ''/v1/deactivate'' (cc_token cc i tok) st of
       (Inl err, st') \<Rightarrow> (if err \<noteq> CProxyMissing then Some err else None, st')
     | (Inr _, st') \<Rightarrow> (None, st'))"

section \<open>The token file\<close>

record Record =
  re_Server :: string
  re_InstallationID :: string
  re_Token :: string
  re_ExpiresAt :: "int option"

record fsenv =
  fe_marshal :: "Record \<Rightarrow> string result"
  fe_unmarshal :: "string \<Rightarrow> Record result"
  fe_mkdir :: "gerr option"
  fe_write :: "gerr option"
  fe_secure :: "gerr option"
  fe_rename :: "gerr option"
  fe_read :: "gerr option"
  fe_private :: "gerr option"
  fe_remove :: "gerr option"

text \<open>The state is the content of the file, if it exists.\<close>

definition file_Save :: "fsenv \<Rightarrow> string \<Rightarrow> Record \<Rightarrow> string option \<Rightarrow> client_err option \<times> string option" where
  "file_Save fe path rec f =
    (if path = [] then (Some (COther ''activation store path is empty''), f)
     else case fe_marshal fe rec of
        Inl e \<Rightarrow> (Some (COther e), f)
      | Inr b \<Rightarrow>
         (case first_error [fe_mkdir fe, fe_write fe, fe_secure fe, fe_rename fe] of
            Some e \<Rightarrow> (Some (COther e), f)
          | None \<Rightarrow> (None, Some (b @ [CHR 0x0A]))))"

definition file_Load :: "fsenv \<Rightarrow> string option \<Rightarrow> client_err + Record" where
  "file_Load fe f =
    (case f of
       None \<Rightarrow> Inl CNotActivated
     | Some b \<Rightarrow>
        (case fe_read fe of
           Some e \<Rightarrow> Inl (COther e)
         | None \<Rightarrow>
            (case fe_private fe of
               Some e \<Rightarrow> Inl (COther e)
             | None \<Rightarrow>
                (case fe_unmarshal fe b of
                   Inl e \<Rightarrow> Inl (COther e)
                 | Inr rec \<Rightarrow> if re_InstallationID rec = [] \<or> re_Token rec = [] then Inl CNotActivated else Inr rec))))"

definition file_Clear :: "fsenv \<Rightarrow> string option \<Rightarrow> client_err option \<times> string option" where
  "file_Clear fe f = (case f of
     None \<Rightarrow> (None, None)
   | Some _ \<Rightarrow> (case fe_remove fe of Some e \<Rightarrow> (Some (COther e), f) | None \<Rightarrow> (None, None)))"

section \<open>From the key to the token file\<close>

text \<open>The backend at \<open>base\<close>, as the transport of a client sees it; \<open>enc\<close> encodes its documents.\<close>

definition wire ::
  "api \<Rightarrow> benv \<Rightarrow> ProxyAccess \<Rightarrow> (payload \<Rightarrow> string) \<Rightarrow> string \<Rightarrow> string \<Rightarrow> string \<Rightarrow> Store \<Rightarrow> (int \<times> string) result \<times> Store" where
  "wire ap e proxy enc base url body s =
    (if take (length base) url = base then
       (case api_Handler ap e proxy (drop (length base) url) ''POST'' body s of
          ((code, doc), s') \<Rightarrow> (Inr (code, enc doc), s'))
     else (Inl ''no such host'', s))"

text \<open>What the client is told of an error of the backend.\<close>

fun client_error :: "backend_err \<Rightarrow> client_err" where
  "client_error ErrInvalidKey = CInvalidKey"
| "client_error ErrInvalidTok = CInvalidKey"
| "client_error ErrExpired = CExpired"
| "client_error ErrRevoked = CRevoked"
| "client_error ErrLimit = CLimit"
| "client_error ErrNoProxy = CProxyMissing"
| "client_error (OtherErr _) = CUnavailable"

definition activation_of :: "string \<Rightarrow> ProxyAccess \<Rightarrow> Result \<Rightarrow> Activation" where
  "activation_of server proxy r = \<lparr>ac_InstallationID = rt_InstallationID r, ac_Token = rt_Token r, ac_Status = rt_Status r,
     ac_ExpiresAt = rt_ExpiresAt r, ac_Server = server,
     ac_Proxy = \<lparr>pr_Host = px_Host proxy, pr_Port = px_Port proxy, pr_Username = rt_ProxyUser r,
       pr_Password = rt_ProxyPassword r, pr_Country = px_Country proxy, pr_SessionMinutes = px_SessionMinutes proxy\<rparr>\<rparr>"

lemma LimitReader_short: "int (length s) \<le> n \<Longrightarrow> LimitReader n s = s"
  by (induction s arbitrary: n) auto

lemma mapAPIError_writeErr: "writeErr err = (code, PError c) \<Longrightarrow> code \<noteq> 200 \<and> mapAPIError code c = client_error err"
  by (cases err) (auto simp: writeErr_def mapAPIError_def)

lemma writeErr_PError: "\<exists>code c. writeErr err = (code, PError c)"
  by (cases err) (auto simp: writeErr_def)

lemma proxyCreds_nonempty: "proxyCreds lic fb = Inr (u, p) \<Longrightarrow> u \<noteq> [] \<and> p \<noteq> []"
  by (auto simp: proxyCreds_def Let_def split: if_splits)


text \<open>
  The token file. A record that names an installation and a token is read back as it was saved, and after
  \<open>Clear\<close> the store says that nothing is activated; a failed \<open>Save\<close> leaves the file as it was.
\<close>

theorem activation_file_roundtrip:
  assumes "file_Save fe path rec f = (err, f')" "fe_read fe' = None" "fe_private fe' = None" "fe_remove fe' = None"
    and "\<And>b. fe_marshal fe rec = Inr b \<Longrightarrow> fe_unmarshal fe' (b @ [CHR 0x0A]) = Inr rec"
    and "re_InstallationID rec \<noteq> []" "re_Token rec \<noteq> []"
  shows "(case err of None \<Rightarrow> file_Load fe' f' = Inr rec | Some _ \<Rightarrow> f' = f)
    \<and> file_Load fe' (snd (file_Clear fe' f')) = Inl CNotActivated"
  using assms by (auto simp: file_Save_def file_Load_def file_Clear_def split: if_splits sum.splits option.splits)

section \<open>Examples\<close>

definition sample_benv :: benv where
  "sample_benv = \<lparr>be_sha256 = bytes_of, be_key = Inr [1, 2, 3, 4, 5, 6, 7, 8], be_token = Inr [9], be_id = [7], be_now = 0,
     be_seen = 0, be_write = None\<rparr>"

definition sample_proxy :: ProxyAccess where
  "sample_proxy = \<lparr>px_Host = ''h'', px_Port = 1, px_Username = ''u'', px_Password = ''p'', px_Country = [], px_SessionMinutes = 0\<rparr>"

definition sample_new :: Store where
  "sample_new = \<lparr>so_path = True, so_data = empty_data, so_disk = None\<rparr>"

definition sample_issued :: Store where
  "sample_issued = snd (Issue sample_benv 1 None [] [] sample_new)"

definition sample_key :: string where
  "sample_key = ''0102-0304-0506-0708''"

definition sample_activated :: "(backend_err + Result) \<times> Store" where
  "sample_activated = Activate sample_benv sample_key [] sample_proxy sample_issued"

lemma sample_steps: "store_step\<^sup>*\<^sup>* sample_new (snd sample_activated)" "store_ok sample_issued"
  "newID sample_benv \<notin> in_ID ` set (installations sample_issued)" "\<not> isl (fst sample_activated)"
proof -
  have n: "newID sample_benv \<notin> lc_ID ` set (licenses sample_new)" by code_simp
  show i: "newID sample_benv \<notin> in_ID ` set (installations sample_issued)" by code_simp
  have "store_step sample_new sample_issued" unfolding sample_issued_def by (rule store_step.issue [OF n])
  moreover have "store_step sample_issued (snd sample_activated)" unfolding sample_activated_def by (rule store_step.activate [OF i])
  ultimately show "store_step\<^sup>*\<^sup>* sample_new (snd sample_activated)" by (meson converse_rtranclp_into_rtranclp r_into_rtranclp)
  have "store_ok sample_new" by (simp add: sample_new_def store_ok_def data_ok_def empty_data_def)
  then show "store_ok sample_issued" unfolding sample_issued_def by (rule Issue_ok [OF _ n])
  show "\<not> isl (fst sample_activated)" by code_simp
qed

theorem activation_limit_witness:
  "\<exists>l \<in> set (licenses (snd sample_activated)). activeCount (lc_ID l) (snd sample_activated) = 1 \<and> lc_MaxInstallations l = 1"
proof -
  have "map (\<lambda>l. (activeCount (lc_ID l) (snd sample_activated), lc_MaxInstallations l)) (licenses (snd sample_activated)) = [(1, 1)]"
    by code_simp
  then show ?thesis
    using activation_limit [OF sample_steps(1) [unfolded sample_new_def]] by (cases "licenses (snd sample_activated)") auto
qed



definition sample_api :: api where
  "sample_api = \<lparr>ap_activate = (\<lambda>_. Inr (sample_key, [])), ap_token = (\<lambda>_. Inl [])\<rparr>"

definition sample_cc :: "Result \<Rightarrow> client_codec" where
  "sample_cc r = \<lparr>cc_new = (\<lambda>_. True), cc_activate = (\<lambda>_ _. ''{}''), cc_token = (\<lambda>_ _. []), cc_error = (\<lambda>_. []),
     cc_out = (\<lambda>_. Inr (activation_of [] sample_proxy r))\<rparr>"


definition sample_record :: Record where
  "sample_record = \<lparr>re_Server = ''s'', re_InstallationID = ''i'', re_Token = ''t'', re_ExpiresAt = None\<rparr>"

definition sample_fs :: fsenv where
  "sample_fs = \<lparr>fe_marshal = (\<lambda>_. Inr ''{}''), fe_unmarshal = (\<lambda>_. Inr sample_record), fe_mkdir = None, fe_write = None,
     fe_secure = None, fe_rename = None, fe_read = None, fe_private = None, fe_remove = None\<rparr>"

theorem activation_file_roundtrip_witness:
  "file_Load sample_fs (snd (file_Save sample_fs ''f'' sample_record None)) = Inr sample_record"
proof -
  have s: "file_Save sample_fs ''f'' sample_record None = (None, Some (''{}'' @ [CHR 0x0A]))"
    by (simp add: file_Save_def sample_fs_def)
  from activation_file_roundtrip [OF s, of sample_fs] show ?thesis
    by (simp add: s) (simp add: sample_fs_def sample_record_def)
qed

text \<open>
  An activation that is refused because no proxy is configured has already taken its place: the installation is in the
  store, without anybody having its token, and counts against the limit.
\<close>

theorem activation_refused_counts:
  assumes "license (hashSecret e (normalizeKey key)) s = Inr lic" "usable e lic = None" "newToken e = Inr tok"
    and "activeCount (lc_ID lic) s < lc_MaxInstallations lic" "proxyCreds lic fb = Inl ErrNoProxy"
    and "Activate e key [] fb s = (res, s')"
  shows "res = Inl ErrNoProxy \<and> activeCount (lc_ID lic) s' = activeCount (lc_ID lic) s + 1"
  using assms by (auto simp: Activate_def grant_def activeCount_enroll)

end
