(* ===== verification/Identity_Set.thy ===== *)
theory Identity_Set
  imports Environment
begin

text \<open>
  Identity sets (\<open>src/controller/identity/identity.go\<close>): the pointer to the current set, loading and
  creating identities, and the lock that keeps two controllers from opening the same profiles.

  The directory tree under \<open>identities\<close> is \<open>iroot\<close>: the pointer file and, per set, the identity
  files and the lock file. An identity file is what \<open>json\<close> reads from it: an identity, or an error.
  The system calls fail as \<open>io\<close> says. The lock is also a step relation, one step per system call, so
  that several processes interleave.
\<close>

section \<open>The directory tree\<close>

datatype idfile = Decoded identity | Undecodable gerr

record setdir =
  sd_ident :: "int \<Rightarrow> idfile option"
  sd_lock :: "string option"

record iroot =
  ir_current :: "string option"
  ir_sets :: "string \<Rightarrow> setdir option"

datatype fsop =
    ReadCurrent | StatSet string | MkRoot | MkSet string | WriteTmp | RenameTmp
  | ReadIdent int | MkProfile int | MkDownloads int | WriteIdent int

type_synonym io = "fsop \<Rightarrow> gerr option"

datatype ierr = ErrNoCurrentSet | IErr gerr

section \<open>The current set\<close>

definition Current :: "io \<Rightarrow> iroot \<Rightarrow> ierr + string" where
  "Current io r = (case io ReadCurrent of
      Some e \<Rightarrow> Inl (IErr e)
    | None \<Rightarrow> (case ir_current r of
        None \<Rightarrow> Inl ErrNoCurrentSet
      | Some b \<Rightarrow>
         (let name = TrimSpace b in
          if name = [] \<or> CHR ''/'' \<in> set name \<or> CHR 0x5C \<in> set name then
            Inl (IErr (''identities/current is corrupt: '' @ Quote name))
          else if io (StatSet name) \<noteq> None \<or> ir_sets r name = None then
            Inl (IErr (''current identity set '' @ name @ '' is missing''))
          else Inr name)))"

text \<open>
  The loop of \<open>CreateFresh\<close>: the first of \<open>name\<close>, \<open>name-1\<close>, \<open>name-2\<close>, ... that does not exist. It stops
  only on \<open>IsNotExist\<close>, so a \<open>Stat\<close> that fails otherwise counts as taken; \<open>fuel\<close> bounds the attempts.
\<close>

definition set_taken :: "io \<Rightarrow> iroot \<Rightarrow> string \<Rightarrow> bool" where
  "set_taken io r n = (io (StatSet n) \<noteq> None \<or> ir_sets r n \<noteq> None)"

fun fresh_name :: "io \<Rightarrow> iroot \<Rightarrow> string \<Rightarrow> nat \<Rightarrow> nat \<Rightarrow> string \<Rightarrow> string option" where
  "fresh_name io r name i 0 cand = None"
| "fresh_name io r name i (Suc fuel) cand =
    (if \<not> set_taken io r cand then Some cand
     else fresh_name io r name (Suc i) fuel (name @ ''-'' @ itoa_nat i))"

definition empty_set :: setdir where
  "empty_set = \<lparr>sd_ident = (\<lambda>_. None), sd_lock = None\<rparr>"

definition CreateFresh :: "io \<Rightarrow> string \<Rightarrow> nat \<Rightarrow> iroot \<Rightarrow> ((ierr + string) \<times> iroot) option" where
  "CreateFresh io stamp fuel r = (case io MkRoot of
      Some e \<Rightarrow> Some (Inl (IErr e), r)
    | None \<Rightarrow> (case fresh_name io r (''set-'' @ stamp) 1 fuel (''set-'' @ stamp) of
        None \<Rightarrow> None
      | Some d \<Rightarrow> (case io (MkSet d) of
          Some e \<Rightarrow> Some (Inl (IErr e), r)
        | None \<Rightarrow>
           (let r1 = r\<lparr>ir_sets := (ir_sets r)(d \<mapsto> empty_set)\<rparr> in
            case io WriteTmp of
              Some e \<Rightarrow> Some (Inl (IErr e), r1)
            | None \<Rightarrow> (case io RenameTmp of
                Some e \<Rightarrow> Some (Inl (IErr e), r1)
              | None \<Rightarrow> Some (Inr d, r1\<lparr>ir_current := Some (d @ [CHR 0x0A])\<rparr>))))))"

definition Manager_Open :: "io \<Rightarrow> string \<Rightarrow> nat \<Rightarrow> bool \<Rightarrow> iroot \<Rightarrow> ((ierr + string) \<times> iroot) option" where
  "Manager_Open io stamp fuel fresh r =
    (if fresh then CreateFresh io stamp fuel r
     else case Current io r of
        Inl ErrNoCurrentSet \<Rightarrow> CreateFresh io stamp fuel r
      | x \<Rightarrow> Some (x, r))"

section \<open>Identities\<close>

definition dirFor :: "string \<Rightarrow> int \<Rightarrow> string" where
  "dirFor sdir i = sdir @ ''/identity-'' @ fmt03d i"

text \<open>\<open>load\<close>; the flag of an error says whether it is \<open>os.IsNotExist\<close>.\<close>

definition load_identity :: "hostenv \<Rightarrow> io \<Rightarrow> string \<Rightarrow> int \<Rightarrow> setdir \<Rightarrow> (bool \<times> gerr) + identity" where
  "load_identity h io sdir i s = (case io (ReadIdent i) of
      Some e \<Rightarrow> Inl (False, e)
    | None \<Rightarrow> (case sd_ident s i of
        None \<Rightarrow> Inl (True, ''no such file or directory'')
      | Some (Undecodable e) \<Rightarrow> Inl (False, dirFor sdir i @ ''/identity.json: '' @ e)
      | Some (Decoded ident) \<Rightarrow>
          if id_Index ident \<noteq> i then
            Inl (False, dirFor sdir i @ ''/identity.json: index '' @ Itoa (id_Index ident) @ '' does not match directory'')
          else (case Environment_Validate h (id_Environment ident) of
              Some e \<Rightarrow> Inl (False, dirFor sdir i @ ''/identity.json: '' @ e)
            | None \<Rightarrow> Inr (ident\<lparr>id_Dir := dirFor sdir i, id_Profile := dirFor sdir i @ ''/profile''\<rparr>))))"

text \<open>
  What \<open>json.MarshalIndent\<close> writes: the tagged fields; a NaN or infinite factor is not representable,
  and its error is dropped, so the file is empty.
\<close>

definition stored :: "identity \<Rightarrow> identity" where
  "stored ident = ident\<lparr>id_Dir := [], id_Profile := [], id_JustCreated := False\<rparr>"

definition json_finite :: "identity \<Rightarrow> bool" where
  "json_finite ident = (case ev_DeviceScaleFactor (id_Environment ident) of Dyadic _ _ \<Rightarrow> True | _ \<Rightarrow> False)"

definition marshal_identity :: "identity \<Rightarrow> idfile" where
  "marshal_identity ident =
    (if json_finite ident then Decoded (stored ident) else Undecodable ''unexpected end of JSON input'')"

definition new_identity :: "int \<Rightarrow> Environment \<Rightarrow> int \<Rightarrow> identity" where
  "new_identity t env i = \<lparr>id_ID = ''identity-'' @ fmt03d i, id_Index = i, id_RouteSlot = i, id_Created = t,
     id_Environment = env, id_Dir = [], id_Profile = [], id_JustCreated = False\<rparr>"

definition loadOrCreate ::
  "hostenv \<Rightarrow> io \<Rightarrow> string \<Rightarrow> int \<Rightarrow> (int \<Rightarrow> Environment) \<Rightarrow> int \<Rightarrow> setdir \<Rightarrow> identity result \<times> setdir" where
  "loadOrCreate h io sdir t envFor i s = (case load_identity h io sdir i s of
      Inr ident \<Rightarrow> (Inr ident, s)
    | Inl (False, e) \<Rightarrow> (Inl e, s)
    | Inl (True, _) \<Rightarrow>
       (let env = envFor i in
        case Environment_Validate h env of
          Some e \<Rightarrow> (Inl e, s)
        | None \<Rightarrow> (case io (MkProfile i) of
            Some e \<Rightarrow> (Inl e, s)
          | None \<Rightarrow> (case io (MkDownloads i) of
              Some e \<Rightarrow> (Inl e, s)
            | None \<Rightarrow>
               (let ident = new_identity t env i in
                case io (WriteIdent i) of
                  Some e \<Rightarrow> (Inl e, s)
                | None \<Rightarrow> (Inr (ident\<lparr>id_Dir := dirFor sdir i, id_Profile := dirFor sdir i @ ''/profile'',
                               id_JustCreated := True\<rparr>),
                           s\<lparr>sd_ident := (sd_ident s)(i \<mapsto> marshal_identity ident)\<rparr>))))))"

fun ensure_loop ::
  "hostenv \<Rightarrow> io \<Rightarrow> string \<Rightarrow> int \<Rightarrow> (int \<Rightarrow> Environment) \<Rightarrow> int list \<Rightarrow> setdir \<Rightarrow> identity list result \<times> setdir" where
  "ensure_loop h io sdir t envFor [] s = (Inr [], s)"
| "ensure_loop h io sdir t envFor (i # is) s =
    (case loadOrCreate h io sdir t envFor i s of
       (Inl e, s1) \<Rightarrow> (Inl e, s1)
     | (Inr ident, s1) \<Rightarrow> (case ensure_loop h io sdir t envFor is s1 of
         (Inl e, s2) \<Rightarrow> (Inl e, s2)
       | (Inr ids, s2) \<Rightarrow> (Inr (ident # ids), s2)))"

definition Ensure ::
  "hostenv \<Rightarrow> io \<Rightarrow> string \<Rightarrow> int \<Rightarrow> (int \<Rightarrow> Environment) \<Rightarrow> int \<Rightarrow> setdir \<Rightarrow> identity list result \<times> setdir" where
  "Ensure h io sdir t envFor n s =
    (if n < 1 then (Inl ''identity count must be >= 1'', s)
     else ensure_loop h io sdir t envFor [1..n] s)"

section \<open>The lock\<close>

text \<open>
  One call of \<open>Lock\<close> is, per attempt, an exclusive create, then the writing of the process number, or
  (when the file exists) a read, the liveness test of the process named in it, and a removal. The
  file is the process that created it with the number written so far, 0 while it is empty; a write
  to a file that has been removed meanwhile has no effect on the directory.
\<close>

datatype lock_pc =
    LIdle
  | LCreate nat        \<comment> \<open>about to create the file, attempt \<open>0\<close> or \<open>1\<close>\<close>
  | LWrite             \<comment> \<open>created it: about to write the process number\<close>
  | LRead nat          \<comment> \<open>the file exists: about to read it\<close>
  | LCheck nat nat     \<comment> \<open>read this process number\<close>
  | LRemove nat        \<comment> \<open>found it stale: about to remove the file\<close>
  | LHeld
  | LFailed

record lstate =
  ls_file :: "(nat \<times> nat) option"
  ls_pc :: "nat \<Rightarrow> lock_pc"
  ls_alive :: "nat \<Rightarrow> bool"

definition at_pc :: "nat \<Rightarrow> lock_pc \<Rightarrow> lstate \<Rightarrow> lstate" where
  "at_pc p c s = s\<lparr>ls_pc := (ls_pc s)(p := c)\<rparr>"

definition write_pid :: "nat \<Rightarrow> lstate \<Rightarrow> lstate" where
  "write_pid p s = (case ls_file s of
      Some (q, _) \<Rightarrow> if q = p then s\<lparr>ls_file := Some (p, p)\<rparr> else s
    | None \<Rightarrow> s)"

definition next_attempt :: "nat \<Rightarrow> lock_pc" where
  "next_attempt k = (if k = 0 then LCreate 1 else LFailed)"

definition in_use :: "nat \<Rightarrow> lstate \<Rightarrow> bool" where
  "in_use pid s = (0 < pid \<and> ls_alive s pid)"

inductive lock_step :: "nat \<Rightarrow> lstate \<Rightarrow> lstate \<Rightarrow> bool" where
  Call: "ls_pc s p = LIdle \<Longrightarrow> lock_step p s (at_pc p (LCreate 0) s)"
| Created: "ls_pc s p = LCreate k \<Longrightarrow> ls_file s = None \<Longrightarrow>
    lock_step p s (at_pc p LWrite (s\<lparr>ls_file := Some (p, 0)\<rparr>))"
| Written: "ls_pc s p = LWrite \<Longrightarrow> lock_step p s (at_pc p LHeld (write_pid p s))"
| Exists: "ls_pc s p = LCreate k \<Longrightarrow> ls_file s \<noteq> None \<Longrightarrow> lock_step p s (at_pc p (LRead k) s)"
| ReadOk: "ls_pc s p = LRead k \<Longrightarrow> ls_file s = Some (q, pid) \<Longrightarrow> lock_step p s (at_pc p (LCheck k pid) s)"
| ReadGone: "ls_pc s p = LRead k \<Longrightarrow> ls_file s = None \<Longrightarrow> lock_step p s (at_pc p LFailed s)"
| InUse: "ls_pc s p = LCheck k pid \<Longrightarrow> in_use pid s \<Longrightarrow> lock_step p s (at_pc p LFailed s)"
| Stale: "ls_pc s p = LCheck k pid \<Longrightarrow> \<not> in_use pid s \<Longrightarrow> lock_step p s (at_pc p (LRemove k) s)"
| Remove: "ls_pc s p = LRemove k \<Longrightarrow> lock_step p s (at_pc p (next_attempt k) (s\<lparr>ls_file := None\<rparr>))"
| Unlocked: "ls_pc s p = LHeld \<Longrightarrow> lock_step p s (at_pc p LIdle (s\<lparr>ls_file := None\<rparr>))"

inductive_cases lock_stepE: "lock_step p s s'"

lemma at_pc_simps [simp]:
  "ls_file (at_pc p c s) = ls_file s" "ls_alive (at_pc p c s) = ls_alive s"
  "ls_pc (at_pc p c s) q = (if q = p then c else ls_pc s q)"
  by (simp_all add: at_pc_def)

text \<open>A process holds the lock, its number is in the file, and nobody is past the point of having read
  anything else.\<close>

definition lock_inv :: "nat \<Rightarrow> lstate \<Rightarrow> bool" where
  "lock_inv p s \<longleftrightarrow> ls_file s = Some (p, p) \<and> in_use p s \<and> ls_pc s p = LHeld \<and>
     (\<forall>q. q \<noteq> p \<longrightarrow> (case ls_pc s q of LWrite \<Rightarrow> False | LHeld \<Rightarrow> False | LRemove _ \<Rightarrow> False
        | LCheck _ pid \<Rightarrow> pid = p | _ \<Rightarrow> True))"

lemma lock_inv_step:
  assumes "lock_step q s s'" "q \<noteq> p" "lock_inv p s"
  shows "lock_inv p s'"
proof -
  have q: "case ls_pc s q of LWrite \<Rightarrow> False | LHeld \<Rightarrow> False | LRemove _ \<Rightarrow> False | LCheck _ pid \<Rightarrow> pid = p | _ \<Rightarrow> True"
    using assms(2,3) by (simp add: lock_inv_def)
  have f: "ls_file s = Some (p, p)" "in_use p s" "ls_pc s p = LHeld" using assms(3) by (simp_all add: lock_inv_def)
  have keep: "lock_inv p (at_pc q c s)" if "case c of LWrite \<Rightarrow> False | LHeld \<Rightarrow> False | LRemove _ \<Rightarrow> False
      | LCheck _ pid \<Rightarrow> pid = p | _ \<Rightarrow> True" for c
    using assms(2,3) that by (auto simp: lock_inv_def in_use_def)
  show ?thesis
    using assms(1)
  proof (cases rule: lock_step.cases)
    case Call then show ?thesis using keep by simp
  next
    case Exists then show ?thesis using keep by simp
  next
    case (ReadOk k r pid) then show ?thesis using keep f by simp
  next
    case (InUse k pid) then show ?thesis using keep by simp
  qed (use q f in auto)
qed

section \<open>What the set keeps\<close>

lemma loadOrCreate_cases:
  assumes "loadOrCreate h io sdir t envFor i s = (Inr ident, s')"
  shows "(load_identity h io sdir i s = Inr ident \<and> s' = s)
    \<or> (sd_ident s i = None \<and> Environment_Validate h (envFor i) = None
       \<and> ident = (new_identity t (envFor i) i)\<lparr>id_Dir := dirFor sdir i, id_Profile := dirFor sdir i @ ''/profile'', id_JustCreated := True\<rparr>
       \<and> s' = s\<lparr>sd_ident := (sd_ident s)(i \<mapsto> marshal_identity (new_identity t (envFor i) i))\<rparr>)"
proof (cases "load_identity h io sdir i s")
  case (Inr x)
  then show ?thesis using assms by (simp add: loadOrCreate_def)
next
  case (Inl p)
  have "fst p \<Longrightarrow> sd_ident s i = None"
    using Inl by (auto simp: load_identity_def split: option.splits idfile.splits if_splits)
  then show ?thesis
    using assms Inl
    by (cases p; cases "fst p") (auto simp: loadOrCreate_def Let_def split: option.splits)
qed

lemma load_identity_index:
  "load_identity h io sdir i s = Inr ident \<Longrightarrow> id_Index ident = i \<and>
     (\<exists>d. sd_ident s i = Some (Decoded d) \<and> id_RouteSlot ident = id_RouteSlot d)"
  by (auto simp: load_identity_def split: option.splits idfile.splits if_splits)

text \<open>
  Every identity file of the set pins the slot of its own index, and has no value for the fields
  that are not stored.
\<close>

definition set_pinned :: "setdir \<Rightarrow> bool" where
  "set_pinned s \<longleftrightarrow> (\<forall>i d. sd_ident s i = Some (Decoded d) \<longrightarrow> id_RouteSlot d = id_Index d \<and> d = stored d)"

lemma loadOrCreate_pinned:
  assumes "loadOrCreate h io sdir t envFor i s = (res, s')" "set_pinned s"
  shows "set_pinned s'" "res = Inr ident \<Longrightarrow> id_Index ident = i \<and> id_RouteSlot ident = i"
    "sd_ident s j = Some f \<Longrightarrow> sd_ident s' j = Some f"
proof -
  have err: "s' = s" if "isl res"
    using assms(1) that by (auto simp: loadOrCreate_def Let_def split: sum.splits option.splits bool.splits prod.splits)
  have ok: "set_pinned s' \<and> id_Index x = i \<and> id_RouteSlot x = i \<and> (sd_ident s j = Some f \<longrightarrow> sd_ident s' j = Some f)"
    if "res = Inr x" for x
    using loadOrCreate_cases [OF assms(1) [unfolded that]]
  proof (elim disjE)
    assume "load_identity h io sdir i s = Inr x \<and> s' = s"
    then show ?thesis using load_identity_index [of h io sdir i s x] assms(2) by (auto simp: set_pinned_def load_identity_def
          split: option.splits idfile.splits if_splits)
  qed (use assms(2) in \<open>auto simp: new_identity_def set_pinned_def marshal_identity_def stored_def split: if_splits\<close>)
  show "set_pinned s'" using err ok assms(2) by (cases res) auto
  show "res = Inr ident \<Longrightarrow> id_Index ident = i \<and> id_RouteSlot ident = i" using ok by blast
  show "sd_ident s j = Some f \<Longrightarrow> sd_ident s' j = Some f" using err ok by (cases res) auto
qed

lemma ensure_loop_pinned:
  assumes "ensure_loop h io sdir t envFor is s = (res, s')" "set_pinned s"
  shows "set_pinned s' \<and> (\<forall>ids. res = Inr ids \<longrightarrow> map id_Index ids = is \<and> map id_RouteSlot ids = is)
    \<and> (\<forall>j f. sd_ident s j = Some f \<longrightarrow> sd_ident s' j = Some f)"
  using assms
proof (induction "is" arbitrary: s res s')
  case (Cons i "is")
  obtain r1 s1 where l: "loadOrCreate h io sdir t envFor i s = (r1, s1)" by (metis prod.exhaust)
  note p = loadOrCreate_pinned [OF l Cons.prems(2)]
  show ?case
  proof (cases r1)
    case (Inl e)
    then show ?thesis using Cons.prems(1) l p by auto
  next
    case (Inr x)
    obtain r2 s2 where r: "ensure_loop h io sdir t envFor is s1 = (r2, s2)" by (metis prod.exhaust)
    have "s' = s2" "res = (case r2 of Inl e \<Rightarrow> Inl e | Inr ids \<Rightarrow> Inr (x # ids))"
      using Cons.prems(1) l Inr r by (auto split: sum.splits)
    then show ?thesis using Cons.IH [OF r p(1)] p Inr by (auto split: sum.splits)
  qed
qed simp

lemma load_identity_again:
  assumes "loadOrCreate h io sdir t envFor i s = (Inr ident, s')" "set_pinned s" "json_finite ident" "io' (ReadIdent i) = None"
    and "sd_ident s'' i = sd_ident s' i"
  shows "load_identity h io' sdir i s'' = Inr (ident\<lparr>id_JustCreated := False\<rparr>)"
  using loadOrCreate_cases [OF assms(1)]
proof (elim disjE)
  assume l: "load_identity h io sdir i s = Inr ident \<and> s' = s"
  then obtain d where d: "sd_ident s i = Some (Decoded d)" "ident = d\<lparr>id_Dir := dirFor sdir i, id_Profile := dirFor sdir i @ ''/profile''\<rparr>"
    by (auto simp: load_identity_def split: option.splits idfile.splits if_splits)
  have "d = stored d" using assms(2) d(1) by (auto simp: set_pinned_def)
  then have "\<not> id_JustCreated d" by (metis identity.select_convs(8) identity.surjective identity.update_convs(8) stored_def)
  then have "ident\<lparr>id_JustCreated := False\<rparr> = ident" using d(2) by simp
  then show ?thesis using l d assms(4,5) by (auto simp: load_identity_def split: option.splits if_splits)
next
  assume c: "sd_ident s i = None \<and> Environment_Validate h (envFor i) = None
       \<and> ident = (new_identity t (envFor i) i)\<lparr>id_Dir := dirFor sdir i, id_Profile := dirFor sdir i @ ''/profile'', id_JustCreated := True\<rparr>
       \<and> s' = s\<lparr>sd_ident := (sd_ident s)(i \<mapsto> marshal_identity (new_identity t (envFor i) i))\<rparr>"
  have "json_finite (new_identity t (envFor i) i)" using assms(3) c by (simp add: json_finite_def)
  then show ?thesis
    using c assms(4,5) by (simp add: load_identity_def marshal_identity_def stored_def new_identity_def)
qed

lemma ensure_loop_again:
  assumes "ensure_loop h io sdir t envFor is s = (Inr ids, s')" "set_pinned s" "list_all json_finite ids"
    and "\<forall>i \<in> set is. io' (ReadIdent i) = None" "\<forall>i \<in> set is. sd_ident s'' i = sd_ident s' i"
  shows "ensure_loop h io' sdir t' envFor' is s'' = (Inr (map (\<lambda>x. x\<lparr>id_JustCreated := False\<rparr>) ids), s'')"
  using assms
proof (induction "is" arbitrary: s ids)
  case (Cons i "is")
  obtain x s1 ids' where l: "loadOrCreate h io sdir t envFor i s = (Inr x, s1)"
    and r: "ensure_loop h io sdir t envFor is s1 = (Inr ids', s')" "ids = x # ids'"
    using Cons.prems(1) by (auto split: prod.splits sum.splits)
  note p = loadOrCreate_pinned [OF l Cons.prems(2)]
  have "\<exists>f. sd_ident s1 i = Some f"
    using loadOrCreate_cases [OF l] load_identity_index [of h io sdir i s x] by auto
  then have "sd_ident s'' i = sd_ident s1 i"
    using ensure_loop_pinned [OF r(1) p(1)] Cons.prems(5) by auto
  then have "load_identity h io' sdir i s'' = Inr (x\<lparr>id_JustCreated := False\<rparr>)"
    using load_identity_again [OF l Cons.prems(2)] Cons.prems(3,4) r(2) by simp
  then show ?case
    using Cons.IH [OF r(1) p(1)] Cons.prems(3-5) r(2) by (simp add: loadOrCreate_def)
qed simp

section \<open>Properties\<close>

text \<open>
  \<open>Ensure\<close> pins slots for life. In a set whose files each name the slot of their own index (an
  empty set, or one only \<open>Ensure\<close> has written), a successful \<open>Ensure n\<close> returns the identities 1 to n in
  order, each on the slot of its index; whatever it returns, no existing identity file is touched and
  the set stays such a set.
\<close>

theorem identity_slots_pinned:
  assumes "set_pinned s" "Ensure h io sdir t envFor n s = (res, s')"
  shows "set_pinned s' \<and> (\<forall>j f. sd_ident s j = Some f \<longrightarrow> sd_ident s' j = Some f)
    \<and> (\<forall>ids. res = Inr ids \<longrightarrow> 1 \<le> n \<and> map id_Index ids = [1..n] \<and> map id_RouteSlot ids = [1..n])"
  using assms ensure_loop_pinned [of h io sdir t envFor "[1..n]" s res s'] by (auto simp: Ensure_def split: if_splits)

text \<open>
  Identities persist. After a successful \<open>Ensure n\<close> whose environments JSON can represent, a later
  \<open>Ensure n\<close> (at another time, with other defaults, as long as the files can be read) returns the same
  identities, none of them marked as just created, and writes nothing.
\<close>

theorem identity_ensure_again:
  assumes "set_pinned s" "Ensure h io sdir t envFor n s = (Inr ids, s')" "list_all json_finite ids"
    and "\<forall>i \<in> {1..n}. io' (ReadIdent i) = None"
  shows "Ensure h io' sdir t' envFor' n s' = (Inr (map (\<lambda>x. x\<lparr>id_JustCreated := False\<rparr>) ids), s')"
  using assms ensure_loop_again [of h io sdir t envFor "[1..n]" s ids s' io' s' t' envFor']
  by (auto simp: Ensure_def split: if_splits)

definition no_io_error :: io where
  "no_io_error = (\<lambda>_. None)"

definition sample_ids :: "identity list" where
  "sample_ids = map (\<lambda>i. (new_identity 0 sample_environment i)\<lparr>id_Dir := dirFor ''set'' i,
     id_Profile := dirFor ''set'' i @ ''/profile'', id_JustCreated := True\<rparr>) [1, 2]"

lemma sample_ensure:
  "\<exists>s'. Ensure sample_host no_io_error ''set'' 0 (\<lambda>_. sample_environment) 2 empty_set = (Inr sample_ids, s')"
  using sample_environment_valid
  by (simp add: Ensure_def sample_ids_def loadOrCreate_def load_identity_def no_io_error_def empty_set_def Let_def
      upto.simps)

lemma empty_set_pinned: "set_pinned empty_set"
  by (simp add: set_pinned_def empty_set_def)

theorem identity_slots_pinned_witness:
  "\<exists>s'. Ensure sample_host no_io_error ''set'' 0 (\<lambda>_. sample_environment) 2 empty_set = (Inr sample_ids, s')
     \<and> map id_RouteSlot sample_ids = [1..2]"
proof -
  obtain s' where "Ensure sample_host no_io_error ''set'' 0 (\<lambda>_. sample_environment) 2 empty_set = (Inr sample_ids, s')"
    using sample_ensure by blast
  with identity_slots_pinned [OF empty_set_pinned this] show ?thesis by blast
qed

theorem identity_ensure_again_witness:
  "\<exists>s' ids'. Ensure sample_host no_io_error ''set'' 7 (\<lambda>_. sample_environment\<lparr>ev_Locale := ''de-DE''\<rparr>) 2 s' = (Inr ids', s')
     \<and> map id_Created ids' = [0, 0]"
proof -
  obtain s' where e: "Ensure sample_host no_io_error ''set'' 0 (\<lambda>_. sample_environment) 2 empty_set = (Inr sample_ids, s')"
    using sample_ensure by blast
  have "list_all json_finite sample_ids"
    by (simp add: sample_ids_def json_finite_def new_identity_def sample_environment_def)
  then have "Ensure sample_host no_io_error ''set'' 7 (\<lambda>_. sample_environment\<lparr>ev_Locale := ''de-DE''\<rparr>) 2 s'
      = (Inr (map (\<lambda>x. x\<lparr>id_JustCreated := False\<rparr>) sample_ids), s')"
    by (intro identity_ensure_again [OF empty_set_pinned e]) (simp_all add: no_io_error_def)
  moreover have "map id_Created (map (\<lambda>x. x\<lparr>id_JustCreated := False\<rparr>) sample_ids) = [0, 0]"
    by (simp add: sample_ids_def new_identity_def)
  ultimately show ?thesis by (intro exI conjI)
qed

text \<open>
  A NaN scale factor makes the set unusable. The identity is created without an error, its file
  comes out empty because the error of \<open>json.MarshalIndent\<close> is dropped, and every later load of it fails.
\<close>

theorem identity_nan_unusable:
  assumes "sd_ident s i = None" "Environment_Validate h env = None" "ev_DeviceScaleFactor env = NaN"
    and "\<And>oper. io oper = None"
  shows "\<exists>ident s' e. loadOrCreate h io sdir t (\<lambda>_. env) i s = (Inr ident, s')
    \<and> loadOrCreate h io sdir t' envFor' i s' = (Inl e, s')"
  using assms by (simp add: loadOrCreate_def load_identity_def Let_def marshal_identity_def json_finite_def new_identity_def)

theorem identity_nan_unusable_witness:
  "\<exists>ident s' e. loadOrCreate sample_host no_io_error ''set'' 0 (\<lambda>_. sample_environment\<lparr>ev_DeviceScaleFactor := NaN\<rparr>) 1 empty_set
       = (Inr ident, s')
     \<and> loadOrCreate sample_host no_io_error ''set'' 1 (\<lambda>_. sample_environment) 1 s' = (Inl e, s')"
  by (rule identity_nan_unusable)
    (use sample_environment_valid in \<open>auto simp: empty_set_def no_io_error_def Validate_None_iff\<close>)

text \<open>
  C35: A held lock keeps latecomers out. Once a live process holds the lock with its number in the file,
  and nobody else is past reading anything else from it, then however the other processes interleave,
  none of them gets the lock, the file is not replaced, and the holder keeps it.
\<close>

theorem identity_lock_excludes:
  assumes "lock_inv p s" "rtranclp (\<lambda>s s'. \<exists>q. q \<noteq> p \<and> lock_step q s s') s s'"
  shows "lock_inv p s' \<and> ls_file s' = Some (p, p) \<and> (\<forall>q. ls_pc s' q = LHeld \<longleftrightarrow> q = p)"
proof -
  have "lock_inv p s'" using assms(2,1) by (induction rule: rtranclp_induct) (auto intro: lock_inv_step)
  then show ?thesis by (auto simp: lock_inv_def)
qed

definition lock_start :: "nat option \<Rightarrow> lstate" where
  "lock_start f = \<lparr>ls_file = map_option (\<lambda>p. (p, p)) f, ls_pc = (\<lambda>_. LIdle), ls_alive = (\<lambda>p. p \<in> {1, 2})\<rparr>"

theorem identity_lock_excludes_witness:
  "lock_inv 1 (at_pc 1 LHeld (lock_start (Some 1)))
   \<and> lock_inv 1 (at_pc 2 (LCreate 0) (at_pc 1 LHeld (lock_start (Some 1))))"
proof -
  have i: "lock_inv 1 (at_pc 1 LHeld (lock_start (Some 1)))" by (auto simp: lock_inv_def lock_start_def in_use_def)
  have "lock_step 2 (at_pc 1 LHeld (lock_start (Some 1))) (at_pc 2 (LCreate 0) (at_pc 1 LHeld (lock_start (Some 1))))"
    by (rule Call) (simp add: lock_start_def)
  then have "rtranclp (\<lambda>s s'. \<exists>q. q \<noteq> 1 \<and> lock_step q s s') (at_pc 1 LHeld (lock_start (Some 1)))
      (at_pc 2 (LCreate 0) (at_pc 1 LHeld (lock_start (Some 1))))" by (intro r_into_rtranclp exI [of _ 2]) simp
  with identity_lock_excludes [OF i] i show ?thesis by blast
qed

definition any_step :: "lstate \<Rightarrow> lstate \<Rightarrow> bool" where
  "any_step s s' \<longleftrightarrow> (\<exists>p. lock_step p s s')"

text \<open>
  Two live controllers can both take the lock, from a state with no lock file at all: between the
  creation of the file and the writing of the process number, another process reads an empty file,
  takes it for stale, removes it and creates its own.
\<close>

theorem identity_lock_race:
  "\<exists>s. rtranclp any_step (lock_start None) s \<and> ls_pc s 1 = LHeld \<and> ls_pc s 2 = LHeld \<and> ls_alive s 1 \<and> ls_alive s 2"
proof -
  let ?s0 = "lock_start None"
  let ?s1 = "at_pc 1 (LCreate 0) ?s0"
  let ?s2 = "at_pc 1 LWrite (?s1\<lparr>ls_file := Some (1, 0)\<rparr>)"
  let ?s3 = "at_pc 2 (LCreate 0) ?s2"
  let ?s4 = "at_pc 2 (LRead 0) ?s3"
  let ?s5 = "at_pc 2 (LCheck 0 0) ?s4"
  let ?s6 = "at_pc 2 (LRemove 0) ?s5"
  let ?s7 = "at_pc 2 (next_attempt 0) (?s6\<lparr>ls_file := None\<rparr>)"
  let ?s8 = "at_pc 2 LWrite (?s7\<lparr>ls_file := Some (2, 0)\<rparr>)"
  let ?s9 = "at_pc 2 LHeld (write_pid 2 ?s8)"
  let ?s10 = "at_pc 1 LHeld (write_pid 1 ?s9)"
  have "any_step ?s0 ?s1" unfolding any_step_def by (rule exI [of _ 1], rule Call) (simp add: lock_start_def)
  moreover have "any_step ?s1 ?s2" unfolding any_step_def by (rule exI [of _ 1], rule Created) (auto simp: lock_start_def)
  moreover have "any_step ?s2 ?s3" unfolding any_step_def by (rule exI [of _ 2], rule Call) (simp add: at_pc_def lock_start_def)
  moreover have "any_step ?s3 ?s4" unfolding any_step_def by (rule exI [of _ 2], rule Exists) (auto simp: at_pc_def)
  moreover have "any_step ?s4 ?s5" unfolding any_step_def by (rule exI [of _ 2], rule ReadOk) (auto simp: at_pc_def)
  moreover have "any_step ?s5 ?s6" unfolding any_step_def by (rule exI [of _ 2], rule Stale) (auto simp: at_pc_def in_use_def)
  moreover have "any_step ?s6 ?s7" unfolding any_step_def by (rule exI [of _ 2], rule Remove) (simp add: at_pc_def)
  moreover have "any_step ?s7 ?s8" unfolding any_step_def by (rule exI [of _ 2], rule Created) (auto simp: at_pc_def next_attempt_def)
  moreover have "any_step ?s8 ?s9" unfolding any_step_def by (rule exI [of _ 2], rule Written) (simp add: at_pc_def)
  moreover have "any_step ?s9 ?s10" unfolding any_step_def
    by (rule exI [of _ 1], rule Written) (simp add: at_pc_def write_pid_def next_attempt_def)
  ultimately have "rtranclp any_step ?s0 ?s10" by (meson rtranclp.rtrancl_into_rtrancl rtranclp.rtrancl_refl)
  moreover have "ls_pc ?s10 2 = LHeld" "ls_alive ?s10 1" "ls_alive ?s10 2"
    by (simp_all add: at_pc_def write_pid_def lock_start_def)
  ultimately show ?thesis by (intro exI [of _ ?s10]) simp
qed

fun candidate :: "string \<Rightarrow> nat \<Rightarrow> string" where
  "candidate name 0 = name"
| "candidate name (Suc k) = name @ ''-'' @ itoa_nat (Suc k)"

lemma candidate_inj: "candidate name j = candidate name k \<Longrightarrow> j = k"
  by (cases j; cases k) auto

lemma fresh_name_candidates:
  "fresh_name io r name (Suc k) fuel (candidate name k) = res \<Longrightarrow>
    (case res of None \<Rightarrow> \<forall>j < fuel. set_taken io r (candidate name (k + j))
     | Some d \<Rightarrow> \<not> set_taken io r d \<and> (\<exists>j. d = candidate name j))"
proof (induction fuel arbitrary: k)
  case (Suc fuel)
  show ?case
  proof (cases "set_taken io r (candidate name k)")
    case True
    then have "fresh_name io r name (Suc (Suc k)) fuel (candidate name (Suc k)) = res" using Suc.prems by simp
    from Suc.IH [OF this] True show ?thesis
      by (auto simp: less_Suc_eq_0_disj split: option.splits)
  qed (use Suc.prems in auto)
qed auto

lemma fresh_name_found:
  assumes "finite (dom (ir_sets r))" "\<And>n. io (StatSet n) = None"
  shows "\<exists>j. fresh_name io r name 1 (Suc (card (dom (ir_sets r)))) name = Some (candidate name j)
    \<and> ir_sets r (candidate name j) = None"
proof -
  let ?n = "Suc (card (dom (ir_sets r)))"
  note fc = fresh_name_candidates [of io r name 0 ?n, OF refl]
  have "\<not> (\<forall>j < ?n. set_taken io r (candidate name j))"
  proof
    assume "\<forall>j < ?n. set_taken io r (candidate name j)"
    then have "candidate name ` {..<?n} \<subseteq> dom (ir_sets r)" using assms(2) by (auto simp: set_taken_def)
    then have "card (candidate name ` {..<?n}) \<le> card (dom (ir_sets r))" using assms(1) by (rule card_mono [rotated])
    moreover have "inj_on (candidate name) {..<?n}" by (auto intro: inj_onI candidate_inj)
    ultimately show False by (simp add: card_image)
  qed
  then obtain d where "fresh_name io r name 1 ?n name = Some d" "\<not> set_taken io r d" "\<exists>j. d = candidate name j"
    using fc by (cases "fresh_name io r name 1 ?n name") auto
  then show ?thesis by (auto simp: set_taken_def)
qed

definition plain_name :: "string \<Rightarrow> bool" where
  "plain_name s \<longleftrightarrow> (\<forall>c \<in> set s. \<not> is_space c \<and> c \<noteq> CHR ''/'' \<and> c \<noteq> CHR 0x5C)"

lemma candidate_plain: "plain_name name \<Longrightarrow> plain_name (candidate name k)"
proof (cases k)
  case (Suc k')
  assume "plain_name name"
  moreover have "\<not> is_space c \<and> c \<noteq> CHR ''/'' \<and> c \<noteq> CHR 0x5C" if "c \<in> set (itoa_nat n)" for c n
    using itoa_nat_digit_set [OF that] by (auto simp: is_digit_def is_space_def)
  ultimately show ?thesis using Suc by (auto simp: plain_name_def is_space_def)
qed simp

lemma TrimSpace_line: "plain_name s \<Longrightarrow> TrimSpace (s @ [CHR 0x0A]) = s"
proof -
  assume s: "plain_name s"
  have d: "dropWhile is_space t = t" if "set t \<subseteq> set s" for t
    using s that by (cases t) (auto simp: plain_name_def)
  show ?thesis
  proof (cases s)
    case Nil
    then show ?thesis by (simp add: TrimSpace_def is_space_def)
  next
    case (Cons c cs)
    then have "dropWhile is_space (s @ [CHR 0x0A]) = s @ [CHR 0x0A]" using s by (simp add: plain_name_def)
    moreover have "dropWhile is_space (rev (s @ [CHR 0x0A])) = rev s" using d [of "rev s"] by (simp add: is_space_def)
    ultimately show ?thesis by (simp add: TrimSpace_def)
  qed
qed

text \<open>
  C34: A fresh set is found and becomes the current one. When the system calls succeed, \<open>CreateFresh\<close>
  ends within one attempt more than there are sets, with a set that did not exist, which is empty and
  which \<open>Current\<close> returns from then on; every older set is untouched.
\<close>

theorem identity_fresh_set:
  assumes "finite (dom (ir_sets r))" "\<And>oper. io oper = None" "plain_name stamp"
  shows "\<exists>d r'. CreateFresh io stamp (Suc (card (dom (ir_sets r)))) r = Some (Inr d, r')
    \<and> ir_sets r d = None \<and> ir_sets r' = (ir_sets r)(d \<mapsto> empty_set) \<and> Current io r' = Inr d"
proof -
  let ?name = "''set-'' @ stamp"
  obtain j where j: "fresh_name io r ?name 1 (Suc (card (dom (ir_sets r)))) ?name = Some (candidate ?name j)"
      "ir_sets r (candidate ?name j) = None"
    using fresh_name_found [OF assms(1)] assms(2) by blast
  have pl: "plain_name (candidate ?name j)"
    using assms(3) by (intro candidate_plain) (auto simp: plain_name_def is_space_def)
  have ne: "candidate ?name j \<noteq> []" by (cases j) auto
  show ?thesis
    using j pl ne TrimSpace_line [OF pl] assms(2)
    by (auto simp: CreateFresh_def Let_def Current_def plain_name_def)
qed

theorem identity_fresh_set_witness:
  "\<exists>d r'. CreateFresh no_io_error ''t'' 1 \<lparr>ir_current = None, ir_sets = Map.empty\<rparr> = Some (Inr d, r') \<and> Current no_io_error r' = Inr d"
proof -
  have "plain_name ''t''" by (simp add: plain_name_def is_space_def)
  with identity_fresh_set [of "\<lparr>ir_current = None, ir_sets = Map.empty\<rparr>" no_io_error "''t''"]
  show ?thesis by (auto simp: no_io_error_def)
qed

text \<open>
  When \<open>Stat\<close> fails for another reason than a missing file (a directory without search
  permission, say), the search for a fresh name never ends: no number of attempts suffices.
\<close>

theorem identity_fresh_hangs:
  assumes "io MkRoot = None" "\<And>n. io (StatSet n) \<noteq> None"
  shows "\<forall>fuel. CreateFresh io stamp fuel r = None"
proof -
  have "fresh_name io r name i fuel cand = None" for name i fuel cand
    by (induction fuel arbitrary: i cand) (use assms(2) in \<open>auto simp: set_taken_def\<close>)
  then show ?thesis using assms(1) by (simp add: CreateFresh_def)
qed

theorem identity_fresh_hangs_witness:
  "CreateFresh (\<lambda>oper. case oper of StatSet _ \<Rightarrow> Some ''permission denied'' | _ \<Rightarrow> None) ''t'' 100
     \<lparr>ir_current = None, ir_sets = Map.empty\<rparr> = None"
  using identity_fresh_hangs [of "\<lambda>oper. case oper of StatSet _ \<Rightarrow> Some ''permission denied'' | _ \<Rightarrow> None"
      "''t''" "\<lparr>ir_current = None, ir_sets = Map.empty\<rparr>"] by simp

end
