(* ===== verification/Mullvad.thy ===== *)
theory Mullvad
  imports Verify Config "HOL-Library.Char_ord" "HOL-Library.List_Lexorder" "HOL-Library.Product_Lexorder"
begin

text \<open>
  The optional Mullvad provisioner of \<open>src/routing/manager/mullvad.go\<close>: the provider file, the
  account's devices (one per slot), the choice of relays and the routes built from both.

  The API of the account (\<open>me_auth\<close>, \<open>me_register\<close>, \<open>me_list\<close>), the decoding of its answers, the TOML
  codec, Curve25519 and the random bytes are parameters. A world (\<open>mworld\<close>) holds the provider file, its
  temporary sibling, and the public keys the account has accepted. \<open>n\<close> is never negative.
\<close>

section \<open>The provider file\<close>

record Device =
  dv_Slot :: int
  dv_ID :: string
  dv_Name :: string
  dv_PrivateKey :: string
  dv_IPv4 :: string
  dv_IPv6 :: string

record File =
  pf_Type :: string
  pf_Account :: string
  pf_Device :: "Device list"

record Relay =
  rl_Hostname :: string
  rl_Country :: string
  rl_City :: string
  rl_Active :: bool
  rl_IPv4 :: string
  rl_PubKey :: string
  rl_SOCKSName :: string

record apiDevice =
  ad_ID :: string
  ad_Name :: string
  ad_IPv4 :: string
  ad_IPv6 :: string

record mworld =
  mw_file :: "string option"
  mw_tmp :: "string option"
  mw_registered :: "string list"

record menv =
  me_path :: string
  me_stat :: "gerr option"
  me_private :: "gerr option"
  me_read :: "gerr option"
  me_decode :: "string \<Rightarrow> File result"
  me_encode :: "File \<Rightarrow> string result"
  me_mkdir :: "gerr option"
  me_write :: "gerr option"
  me_secure :: "gerr option"
  me_rename :: "gerr option"
  me_remove :: "gerr option"
  me_random :: "int \<Rightarrow> key result"
  me_public :: "key \<Rightarrow> key"
  me_request :: "string \<Rightarrow> gerr option"
  me_auth :: "string \<Rightarrow> string \<Rightarrow> gerr + (int \<times> string)"
  me_token :: "string \<Rightarrow> string option"
  me_register :: "string \<Rightarrow> string \<Rightarrow> string \<Rightarrow> gerr + (int \<times> string)"
  me_device :: "string \<Rightarrow> apiDevice result"
  me_list :: "string \<Rightarrow> gerr + (int \<times> string)"
  me_relays :: "string \<Rightarrow> Relay list result"
  me_getenv :: "string \<Rightarrow> string option"

text \<open>What \<open>os.IsNotExist\<close> tells apart.\<close>

datatype mull_err = FileMissing | MullErr gerr

definition provider_Path :: "string \<Rightarrow> string" where
  "provider_Path dataDir = dataDir @ ''/provider.toml''"

definition LoadFile :: "menv \<Rightarrow> mworld \<Rightarrow> mull_err + File" where
  "LoadFile e w = (case mw_file w of
      None \<Rightarrow> Inl FileMissing
    | Some text \<Rightarrow>
        (case me_stat e of Some x \<Rightarrow> Inl (MullErr x)
         | None \<Rightarrow> (case me_private e of
             Some x \<Rightarrow> Inl (MullErr (''refusing to read provider credentials: '' @ x))
           | None \<Rightarrow> (case me_read e of Some x \<Rightarrow> Inl (MullErr x)
             | None \<Rightarrow> (case me_decode e text of
                 Inl x \<Rightarrow> Inl (MullErr (me_path e @ '': '' @ x)) | Inr f \<Rightarrow> Inr f)))))"

definition SaveFile :: "menv \<Rightarrow> File \<Rightarrow> mworld \<Rightarrow> gerr option \<times> mworld" where
  "SaveFile e f w = (case me_mkdir e of
      Some x \<Rightarrow> (Some x, w)
    | None \<Rightarrow> (case me_encode e f of
        Inl x \<Rightarrow> (Some x, w)
      | Inr text \<Rightarrow> (case me_write e of
          Some x \<Rightarrow> (Some x, w)
        | None \<Rightarrow>
           (let w1 = w\<lparr>mw_tmp := Some text\<rparr> in
            case me_secure e of
              Some x \<Rightarrow> (Some x, w1\<lparr>mw_tmp := None\<rparr>)
            | None \<Rightarrow> (case me_rename e of
                Some x \<Rightarrow> (Some x, w1)
              | None \<Rightarrow> (None, w1\<lparr>mw_file := Some text, mw_tmp := None\<rparr>))))))"

definition Logout :: "menv \<Rightarrow> mworld \<Rightarrow> gerr option \<times> mworld" where
  "Logout e w = (case mw_file w of
      None \<Rightarrow> (None, w)
    | Some _ \<Rightarrow> (case me_remove e of Some x \<Rightarrow> (Some x, w) | None \<Rightarrow> (None, w\<lparr>mw_file := None\<rparr>)))"

definition digits_of :: "string \<Rightarrow> string" where
  "digits_of s = filter is_digit s"

definition RedactAccount :: "string \<Rightarrow> string" where
  "RedactAccount s0 = (let s = digits_of s0 in
     if length s < 4 then ''****''
     else replicate (length s - 4) (CHR ''*'') @ drop (length s - 4) s)"

definition mull_truncate :: "string \<Rightarrow> nat \<Rightarrow> string" where
  "mull_truncate s0 n = (let s = map (\<lambda>c. if c = CHR 0x0A then CHR '' '' else c) s0 in
     if length s > n then take n s @ ellipsis else s)"

definition stripCIDR :: "string \<Rightarrow> string" where
  "stripCIDR s0 = (let s = TrimSpace s0 in case IndexByte s (CHR ''/'') of Some i \<Rightarrow> take i s | None \<Rightarrow> s)"

section \<open>The provisioner\<close>

definition mullvadDNS :: string where "mullvadDNS = ''10.64.0.1''"
definition mullvadPort :: string where "mullvadPort = ''51820''"

text \<open>\<open>used\<close> is the set of IPv4 addresses assigned in this session; the URLs are empty but in tests.\<close>

record Mullvad =
  mv_file :: File
  mv_authURL :: string
  mv_devicesURL :: string
  mv_relaysURL :: string
  mv_relays :: "Relay list"
  mv_used :: "string list"

definition mv_endpoint :: "string \<Rightarrow> Mullvad \<Rightarrow> string" where
  "mv_endpoint kind m =
    (if kind = ''auth'' then
       (if mv_authURL m \<noteq> [] then mv_authURL m else ''https://api.mullvad.net/auth/v1/token'')
     else if kind = ''devices'' then
       (if mv_devicesURL m \<noteq> [] then mv_devicesURL m else ''https://api.mullvad.net/accounts/v1/devices'')
     else (if mv_relaysURL m \<noteq> [] then mv_relaysURL m else ''https://api.mullvad.net/www/relays/wireguard''))"

definition netJoin :: "string \<Rightarrow> string \<Rightarrow> string" where
  "netJoin host port =
    (if CHR '':'' \<in> set host \<and> \<not> HasPrefix host ''['' then ''['' @ host @ '']:'' @ port
     else host @ '':'' @ port)"

definition mv_device :: "int \<Rightarrow> File \<Rightarrow> Device option" where
  "mv_device slot f = List.find (\<lambda>d. dv_Slot d = slot) (pf_Device f)"

definition mv_def :: "int \<Rightarrow> Device \<Rightarrow> Relay \<Rightarrow> RouteDef" where
  "mv_def slot dev rel =
    \<lparr>rd_ID = ''route-'' @ fmt03d slot, rd_Type = ''wireguard'', rd_Address = netJoin (rl_IPv4 rel) mullvadPort,
     rd_Username = [], rd_Password = [], rd_PasswordEnv = [], rd_PrivateKey = dv_PrivateKey dev,
     rd_PeerPublicKey = rl_PubKey rel, rd_LocalAddress = stripCIDR (dv_IPv4 dev),
     rd_LocalAddress6 = stripCIDR (dv_IPv6 dev), rd_DNS = mullvadDNS, rd_MTU = 0\<rparr>"

definition mv_token :: "menv \<Rightarrow> Mullvad \<Rightarrow> string result" where
  "mv_token e m = (let url = mv_endpoint ''auth'' m in
     case me_request e url of Some x \<Rightarrow> Inl x
     | None \<Rightarrow> (case me_auth e url (TrimSpace (pf_Account (mv_file m))) of
         Inl x \<Rightarrow> Inl (''mullvad: auth: '' @ x)
       | Inr (code, body) \<Rightarrow>
           if code \<noteq> 200 then
             (if code = 401 \<or> code = 403 then Inl ''mullvad: account number was rejected''
              else Inl (''mullvad: auth HTTP '' @ Itoa code))
           else (case me_token e (LimitReader (2 ^ 20) body) of
               None \<Rightarrow> Inl ''mullvad: auth: malformed response''
             | Some t \<Rightarrow> if t = [] then Inl ''mullvad: auth: malformed response'' else Inr t)))"

definition createDevice :: "menv \<Rightarrow> Mullvad \<Rightarrow> string \<Rightarrow> string \<Rightarrow> mworld \<Rightarrow> apiDevice result \<times> mworld" where
  "createDevice e m tok pubkey w = (let url = mv_endpoint ''devices'' m in
     case me_request e url of Some x \<Rightarrow> (Inl x, w)
     | None \<Rightarrow> (case me_register e url tok pubkey of
         Inl x \<Rightarrow> (Inl x, w)
       | Inr (code, body) \<Rightarrow>
          (let b = LimitReader (2 ^ 20) body in
           if code div 100 \<noteq> 2 then
             (if code = 400 \<or> code = 429 then
                (Inl (''mullvad: could not register a device (HTTP '' @ Itoa code @ ''). The account may be at its device limit ''
                   @ [CHR 0xE2, CHR 0x80, CHR 0x94] @ '' remove unused devices at https://mullvad.net/account. '' @ mull_truncate b 80), w)
              else (Inl (''HTTP '' @ Itoa code @ '': '' @ mull_truncate b 120), w))
           else let w1 = w\<lparr>mw_registered := mw_registered w @ [pubkey]\<rparr> in
             (case me_device e b of
                Inl x \<Rightarrow> (Inl x, w1)
              | Inr d \<Rightarrow> if ad_IPv4 d = [] then (Inl ''device response missing ipv4_address'', w1) else (Inr d, w1)))))"

text \<open>
  The devices of slots \<open>1..n\<close>. A failure of a later slot returns at once; only a complete run is saved.
\<close>

definition new_device :: "int \<Rightarrow> key \<Rightarrow> apiDevice \<Rightarrow> Device" where
  "new_device slot priv d =
    \<lparr>dv_Slot = slot, dv_ID = ad_ID d, dv_Name = ad_Name d, dv_PrivateKey = Key_Base64 priv,
     dv_IPv4 = stripCIDR (ad_IPv4 d), dv_IPv6 = stripCIDR (ad_IPv6 d)\<rparr>"

definition add_device :: "Device \<Rightarrow> Mullvad \<Rightarrow> Mullvad" where
  "add_device d m = m\<lparr>mv_file := (mv_file m)\<lparr>pf_Device := pf_Device (mv_file m) @ [d]\<rparr>\<rparr>"

fun device_loop :: "menv \<Rightarrow> string \<Rightarrow> int list \<Rightarrow> bool \<Rightarrow> Mullvad \<times> mworld \<Rightarrow> (gerr + bool) \<times> Mullvad \<times> mworld" where
  "device_loop e tok [] changed (m, w) = (Inr changed, m, w)"
| "device_loop e tok (slot # slots) changed (m, w) =
    (case mv_device slot (mv_file m) of
       Some _ \<Rightarrow> device_loop e tok slots changed (m, w)
     | None \<Rightarrow> (case me_random e slot of
         Inl x \<Rightarrow> (Inl x, m, w)
       | Inr k \<Rightarrow>
          (let priv = GeneratePrivateKey k in
           case createDevice e m tok (Key_Base64 (me_public e priv)) w of
             (Inl x, w1) \<Rightarrow> (Inl (''mullvad: create device for slot '' @ Itoa slot @ '': '' @ x), m, w1)
           | (Inr d, w1) \<Rightarrow> device_loop e tok slots True (add_device (new_device slot priv d) m, w1))))"

definition ensureDevices :: "menv \<Rightarrow> nat \<Rightarrow> Mullvad \<times> mworld \<Rightarrow> gerr option \<times> Mullvad \<times> mworld" where
  "ensureDevices e n s =
    (let m = fst s in
     if \<forall>slot \<in> set [1..int n]. mv_device slot (mv_file m) \<noteq> None then (None, s)
     else case mv_token e m of
        Inl x \<Rightarrow> (Some x, s)
      | Inr tok \<Rightarrow> (case device_loop e tok [1..int n] False s of
          (Inl x, s1) \<Rightarrow> (Some x, s1)
        | (Inr changed, m1, w1) \<Rightarrow>
            if changed then (case SaveFile e (mv_file m1) w1 of (x, w2) \<Rightarrow> (x, m1, w2))
            else (None, m1, w1)))"

definition new_Mullvad :: "File \<Rightarrow> Mullvad" where
  "new_Mullvad f = \<lparr>mv_file = f, mv_authURL = [], mv_devicesURL = [], mv_relaysURL = [], mv_relays = [], mv_used = []\<rparr>"

definition OpenMullvad :: "menv \<Rightarrow> nat \<Rightarrow> mworld \<Rightarrow> (mull_err + Mullvad) \<times> mworld" where
  "OpenMullvad e n w = (case LoadFile e w of
      Inl x \<Rightarrow> (Inl x, w)
    | Inr f \<Rightarrow>
        if \<not> EqualFold (pf_Type f) ''mullvad'' then
          (Inl (MullErr (''provider type '' @ Quote (pf_Type f) @ '' is not mullvad'')), w)
        else if TrimSpace (pf_Account f) = [] then (Inl (MullErr ''provider.toml: account is empty''), w)
        else (case ensureDevices e n (new_Mullvad f, w) of
            (Some x, _, w1) \<Rightarrow> (Inl (MullErr x), w1)
          | (None, m, w1) \<Rightarrow> (Inr m, w1)))"

definition Login :: "menv \<Rightarrow> string \<Rightarrow> nat \<Rightarrow> mworld \<Rightarrow> mull_err option \<times> mworld" where
  "Login e account0 n w =
    (let account = digits_of account0 in
     if length account < 10 then (Some (MullErr ''mullvad account number looks too short''), w)
     else let f0 = \<lparr>pf_Type = ''mullvad'', pf_Account = account, pf_Device = []\<rparr>;
              f = (case LoadFile e w of
                  Inl _ \<Rightarrow> f0
                | Inr ex \<Rightarrow> if EqualFold (pf_Type ex) ''mullvad'' \<and> pf_Account ex = account
                            then f0\<lparr>pf_Device := pf_Device ex\<rparr> else f0) in
       (case SaveFile e f w of
          (Some x, w1) \<Rightarrow> (Some (MullErr x), w1)
        | (None, w1) \<Rightarrow> (case OpenMullvad e n w1 of
            (Inl x, w2) \<Rightarrow> (Some x, w2) | (Inr _, w2) \<Rightarrow> (None, w2))))"

section \<open>Choosing relays\<close>

definition listRelays :: "menv \<Rightarrow> Mullvad \<Rightarrow> Relay list result \<times> Mullvad" where
  "listRelays e m =
    (if mv_relays m \<noteq> [] then (Inr (mv_relays m), m)
     else let url = mv_endpoint ''relays'' m in
       (case me_request e url of Some x \<Rightarrow> (Inl x, m)
        | None \<Rightarrow> (case me_list e url of
            Inl x \<Rightarrow> (Inl (''mullvad: relays: '' @ x), m)
          | Inr (code, body) \<Rightarrow>
              if code \<noteq> 200 then (Inl (''mullvad: relays HTTP '' @ Itoa code), m)
              else (case me_relays e (LimitReader (2 ^ 22) body) of
                  Inl x \<Rightarrow> (Inl (''mullvad: relays: '' @ x), m)
                | Inr rs \<Rightarrow> (Inr rs, m\<lparr>mv_relays := rs\<rparr>)))))"

definition candidates :: "string list \<Rightarrow> Relay list \<Rightarrow> Relay list" where
  "candidates used rs = filter (\<lambda>r. rl_Active r \<and> rl_IPv4 r \<noteq> [] \<and> rl_PubKey r \<noteq> [] \<and> rl_IPv4 r \<notin> set used) rs"

text \<open>\<open>sort.SliceStable\<close> by country, then host name; Go compares strings by bytes.\<close>

definition relay_order :: "Relay list \<Rightarrow> Relay list" where
  "relay_order rs = sort_key (\<lambda>r. (rl_Country r, rl_Hostname r)) rs"

record picker =
  pk_out :: "Relay list"
  pk_seenC :: "string list"
  pk_seenIP :: "string list"
  pk_used :: "string list"

definition accept :: "Relay \<Rightarrow> picker \<Rightarrow> picker" where
  "accept r p = p\<lparr>pk_out := pk_out p @ [r], pk_seenC := rl_Country r # pk_seenC p,
     pk_seenIP := rl_IPv4 r # pk_seenIP p, pk_used := rl_IPv4 r # pk_used p\<rparr>"

fun take_relays :: "nat \<Rightarrow> bool \<Rightarrow> Relay list \<Rightarrow> picker \<Rightarrow> picker" where
  "take_relays n filterCountry [] p = p"
| "take_relays n filterCountry (c # cs) p =
    (if length (pk_out p) \<ge> n then p
     else if rl_IPv4 c \<in> set (pk_seenIP p) then take_relays n filterCountry cs p
     else if filterCountry \<and> rl_Country c \<in> set (pk_seenC p) then take_relays n filterCountry cs p
     else take_relays n filterCountry cs (accept c p))"

definition pick :: "menv \<Rightarrow> nat \<Rightarrow> Mullvad \<Rightarrow> Relay list result \<times> Mullvad" where
  "pick e n m = (case listRelays e m of
      (Inl x, m1) \<Rightarrow> (Inl x, m1)
    | (Inr rs, m1) \<Rightarrow>
       (let cs = candidates (mv_used m1) rs in
        if length cs < n then
          (Inl (''mullvad: only '' @ itoa_nat (length cs) @ '' unused relays, need '' @ itoa_nat n), m1)
        else let cs' = relay_order cs;
                 p = take_relays n False cs' (take_relays n True cs'
                       \<lparr>pk_out = [], pk_seenC = [], pk_seenIP = [], pk_used = mv_used m1\<rparr>);
                 m2 = m1\<lparr>mv_used := pk_used p\<rparr> in
          if length (pk_out p) < n then
            (Inl (''mullvad: could not pick '' @ itoa_nat n @ '' distinct relays''), m2)
          else (Inr (take n (pk_out p)), m2)))"

definition no_device :: "int \<Rightarrow> gerr" where
  "no_device slot = ''mullvad: no device for slot '' @ Itoa slot"

fun slot_routes :: "menv \<Rightarrow> Mullvad \<Rightarrow> int \<Rightarrow> Relay list \<Rightarrow> route list result" where
  "slot_routes e m slot [] = Inr []"
| "slot_routes e m slot (rel # rels) = (case mv_device slot (mv_file m) of
      None \<Rightarrow> Inl (no_device slot)
    | Some dev \<Rightarrow> (case New (me_getenv e) registered (mv_def slot dev rel) of
        Inl x \<Rightarrow> Inl x
      | Inr r \<Rightarrow> (case slot_routes e m (slot + 1) rels of Inl x \<Rightarrow> Inl x | Inr rs \<Rightarrow> Inr (r # rs))))"

definition mullvad_Provision :: "menv \<Rightarrow> nat \<Rightarrow> Mullvad \<Rightarrow> route list result \<times> Mullvad" where
  "mullvad_Provision e n m = (case pick e n m of
      (Inl x, m1) \<Rightarrow> (Inl x, m1)
    | (Inr rels, m1) \<Rightarrow> (slot_routes e m1 1 rels, m1))"

definition mark_failed :: "route option \<Rightarrow> Mullvad \<Rightarrow> Mullvad" where
  "mark_failed failed m = (case failed of
      None \<Rightarrow> m
    | Some r \<Rightarrow> (let ip = hd (Split (rd_Address (route_Def r)) (CHR '':'')) in
        if ip \<noteq> [] then m\<lparr>mv_used := ip # mv_used m\<rparr> else m))"

definition mullvad_Reestablish :: "menv \<Rightarrow> int \<Rightarrow> route option \<Rightarrow> Mullvad \<Rightarrow> route result \<times> Mullvad" where
  "mullvad_Reestablish e slot failed m = (case pick e 1 (mark_failed failed m) of
      (Inl x, m1) \<Rightarrow> (Inl x, m1)
    | (Inr rels, m1) \<Rightarrow> (case mv_device slot (mv_file m1) of
        None \<Rightarrow> (Inl (no_device slot), m1)
      | Some dev \<Rightarrow> (New (me_getenv e) registered (mv_def slot dev (hd rels)), m1)))"

section \<open>The choice of relays\<close>

text \<open>What the picker's maps hold, given the addresses used before.\<close>

definition picker_ok :: "string list \<Rightarrow> picker \<Rightarrow> bool" where
  "picker_ok used p \<longleftrightarrow> set (pk_seenC p) = rl_Country ` set (pk_out p) \<and> set (pk_seenIP p) = rl_IPv4 ` set (pk_out p)
     \<and> set (pk_used p) = set used \<union> rl_IPv4 ` set (pk_out p) \<and> distinct (map rl_IPv4 (pk_out p))"

lemma take_relays_ok:
  "picker_ok used p \<Longrightarrow> picker_ok used (take_relays n b cs p)
     \<and> set (pk_out p) \<subseteq> set (pk_out (take_relays n b cs p))
     \<and> set (pk_out (take_relays n b cs p)) \<subseteq> set (pk_out p) \<union> set cs
     \<and> length (pk_out (take_relays n b cs p)) \<le> max n (length (pk_out p))"
proof (induction n b cs p rule: take_relays.induct)
  case (2 n b c cs p)
  show ?case
  proof (cases "length (pk_out p) \<ge> n \<or> rl_IPv4 c \<in> set (pk_seenIP p) \<or> b \<and> rl_Country c \<in> set (pk_seenC p)")
    case True
    then consider "length (pk_out p) \<ge> n" | "\<not> length (pk_out p) \<ge> n" "rl_IPv4 c \<in> set (pk_seenIP p)"
      | "\<not> length (pk_out p) \<ge> n" "rl_IPv4 c \<notin> set (pk_seenIP p)" "b \<and> rl_Country c \<in> set (pk_seenC p)" by blast
    then show ?thesis using 2(1,2,4) by cases auto
  next
    case False
    then have "picker_ok used (accept c p)" using 2(4) by (auto simp: picker_ok_def accept_def)
    then show ?thesis using 2(3) False by (auto simp: accept_def)
  qed
qed simp

text \<open>The unfiltered pass ends with \<open>n\<close> relays or with every address of the list.\<close>

lemma take_relays_all:
  "picker_ok used p \<Longrightarrow> length (pk_out (take_relays n False cs p)) \<ge> n
     \<or> rl_IPv4 ` set cs \<subseteq> rl_IPv4 ` set (pk_out (take_relays n False cs p))"
proof (induction n False cs p rule: take_relays.induct)
  case (2 n c cs p)
  show ?case
  proof (cases "length (pk_out p) \<ge> n")
    case False
    have k: "picker_ok used (if rl_IPv4 c \<in> set (pk_seenIP p) then p else accept c p)"
      using 2(4) by (auto simp: picker_ok_def accept_def)
    have "rl_IPv4 c \<in> rl_IPv4 ` set (pk_out (if rl_IPv4 c \<in> set (pk_seenIP p) then p else accept c p))"
      using 2(4) by (auto simp: picker_ok_def accept_def)
    then show ?thesis
      using 2 False k take_relays_ok [OF k, of n False cs] by (auto split: if_splits)
  qed simp
qed simp

text \<open>The filtered pass takes one relay per country, and no country is left out while there is room.\<close>

lemma take_relays_spread:
  "picker_ok used p \<Longrightarrow> distinct (map rl_Country (pk_out p)) \<Longrightarrow> distinct (map rl_IPv4 cs)
     \<Longrightarrow> rl_IPv4 ` set cs \<inter> rl_IPv4 ` set (pk_out p) = {}
     \<Longrightarrow> distinct (map rl_Country (pk_out (take_relays n True cs p)))
       \<and> (length (pk_out (take_relays n True cs p)) \<ge> n
          \<or> rl_Country ` set cs \<subseteq> rl_Country ` set (pk_out (take_relays n True cs p)))"
proof (induction n True cs p rule: take_relays.induct)
  case (2 n c cs p)
  show ?case
  proof (cases "length (pk_out p) \<ge> n")
    case False
    define q where "q = (if rl_Country c \<in> set (pk_seenC p) then p else accept c p)"
    have new: "rl_IPv4 c \<notin> set (pk_seenIP p)" using 2(4,7) by (auto simp: picker_ok_def)
    have t: "take_relays n True (c # cs) p = take_relays n True cs q" using False new by (simp add: q_def)
    have k: "picker_ok used q" and d: "distinct (map rl_Country (pk_out q))"
      and c: "rl_Country c \<in> rl_Country ` set (pk_out q)"
      and i: "distinct (map rl_IPv4 cs)" "rl_IPv4 ` set cs \<inter> rl_IPv4 ` set (pk_out q) = {}"
      using 2(4-7) new by (auto simp: q_def picker_ok_def accept_def)
    have "distinct (map rl_Country (pk_out (take_relays n True cs q)))
       \<and> (length (pk_out (take_relays n True cs q)) \<ge> n
          \<or> rl_Country ` set cs \<subseteq> rl_Country ` set (pk_out (take_relays n True cs q)))"
      using 2(2) [OF False] 2(3) [OF False new] new k d i False by (auto simp: q_def split: if_splits)
    then show ?thesis using take_relays_ok [OF k, of n True cs] c unfolding t by auto
  qed (use 2 in simp)
qed simp

lemma set_relay_order [simp]: "set (relay_order rs) = set rs"
  by (simp add: relay_order_def)

lemma listRelays_frame:
  "listRelays e m = (x, m1) \<Longrightarrow> mv_file m1 = mv_file m \<and> mv_used m1 = mv_used m
     \<and> (mv_relays m1 = mv_relays m \<or> x = Inr (mv_relays m1))"
  by (auto simp: listRelays_def Let_def split: if_splits option.splits sum.splits)

definition start_picker :: "string list \<Rightarrow> picker" where
  "start_picker used = \<lparr>pk_out = [], pk_seenC = [], pk_seenIP = [], pk_used = used\<rparr>"

lemma start_picker_ok [simp]: "picker_ok used (start_picker used)" "pk_out (start_picker used) = []"
  by (simp_all add: picker_ok_def start_picker_def)

lemma both_passes:
  fixes n used cs
  defines "p1 \<equiv> take_relays n True cs (start_picker used)"
  shows "picker_ok used p1" "picker_ok used (take_relays n False cs p1)"
    "set (pk_out (take_relays n False cs p1)) \<subseteq> set cs" "length (pk_out (take_relays n False cs p1)) \<le> n"
    "set (pk_out p1) \<subseteq> set (pk_out (take_relays n False cs p1))"
proof -
  note a = take_relays_ok [OF start_picker_ok(1), of used n True cs, folded p1_def]
  note b = take_relays_ok [of used p1 n False cs]
  show "picker_ok used p1" "picker_ok used (take_relays n False cs p1)" using a b by auto
  show "set (pk_out (take_relays n False cs p1)) \<subseteq> set cs" using a b by auto
  show "length (pk_out (take_relays n False cs p1)) \<le> n" using a b by auto
  show "set (pk_out p1) \<subseteq> set (pk_out (take_relays n False cs p1))" using a b by auto
qed

text \<open>What a call of \<open>pick\<close> does, whether it succeeds or not.\<close>

lemma pick_cases:
  assumes "pick e n m = (x, m')"
  obtains (listing) er where "x = Inl er" "mv_used m' = mv_used m" "mv_file m' = mv_file m"
  | (picking) rs m1 where "listRelays e m = (Inr rs, m1)" "n \<le> length (candidates (mv_used m) rs)"
      "m' = m1\<lparr>mv_used := pk_used (take_relays n False (relay_order (candidates (mv_used m) rs))
         (take_relays n True (relay_order (candidates (mv_used m) rs)) (start_picker (mv_used m))))\<rparr>"
      "x = (let out = pk_out (take_relays n False (relay_order (candidates (mv_used m) rs))
         (take_relays n True (relay_order (candidates (mv_used m) rs)) (start_picker (mv_used m)))) in
         if length out < n then Inl (''mullvad: could not pick '' @ itoa_nat n @ '' distinct relays'') else Inr out)"
proof -
  obtain y m1 where l: "listRelays e m = (y, m1)" by fastforce
  note f = listRelays_frame [OF l]
  show ?thesis
  proof (cases y)
    case (Inl er)
    then show ?thesis using assms l f by (intro listing [of er]) (auto simp: pick_def)
  next
    case (Inr rs)
    show ?thesis
    proof (cases "length (candidates (mv_used m) rs) < n")
      case True
      then show ?thesis using assms l f Inr listing by (auto simp: pick_def Let_def)
    next
      case False
      then show ?thesis
        using assms l f Inr both_passes(4) [where used = "mv_used m" and n = n and cs = "relay_order (candidates (mv_used m) rs)"]
        by (intro picking [of rs m1]) (auto simp: pick_def Let_def start_picker_def split: if_splits)
    qed
  qed
qed

lemma pick_frame:
  assumes "pick e n m = (x, m')"
  shows "mv_file m' = mv_file m \<and> set (mv_used m) \<subseteq> set (mv_used m')"
  using assms
proof (cases rule: pick_cases)
  case (picking rs m1)
  then show ?thesis
    using both_passes(2) [where used = "mv_used m" and n = n and cs = "relay_order (candidates (mv_used m) rs)"]
      listRelays_frame [OF picking(1)] by (auto simp: picker_ok_def)
qed simp

lemma pick_ok:
  assumes "pick e n m = (Inr rels, m')"
  shows "length rels = n" "distinct (map rl_IPv4 rels)"
    "set (mv_used m') = set (mv_used m) \<union> rl_IPv4 ` set rels"
    "\<exists>rs. fst (listRelays e m) = Inr rs \<and> set rels \<subseteq> set (candidates (mv_used m) rs)"
proof -
  from assms have "length rels = n \<and> distinct (map rl_IPv4 rels)
    \<and> set (mv_used m') = set (mv_used m) \<union> rl_IPv4 ` set rels
    \<and> (\<exists>rs. fst (listRelays e m) = Inr rs \<and> set rels \<subseteq> set (candidates (mv_used m) rs))"
  proof (cases rule: pick_cases)
    case (picking rs m1)
    let ?cs = "relay_order (candidates (mv_used m) rs)"
    note b = both_passes [where used = "mv_used m" and n = n and cs = ?cs]
    have "rels = pk_out (take_relays n False ?cs (take_relays n True ?cs (start_picker (mv_used m))))"
      and "\<not> length rels < n"
      using picking(4) by (auto simp: Let_def split: if_splits)
    then show ?thesis using b(2-4) picking(1,3) by (auto simp: picker_ok_def)
  qed simp
  then show "length rels = n" "distinct (map rl_IPv4 rels)"
    "set (mv_used m') = set (mv_used m) \<union> rl_IPv4 ` set rels"
    "\<exists>rs. fst (listRelays e m) = Inr rs \<and> set rels \<subseteq> set (candidates (mv_used m) rs)" by auto
qed

text \<open>When no two relays share an address, enough candidates are enough, and they come from as many countries as possible.\<close>

lemma pick_spread:
  assumes "listRelays e m = (Inr rs, m1)" "distinct (map rl_IPv4 (candidates (mv_used m) rs))"
    and "n \<le> length (candidates (mv_used m) rs)"
  shows "\<exists>rels. fst (pick e n m) = Inr rels
     \<and> card (rl_Country ` set rels) = min n (card (rl_Country ` set (candidates (mv_used m) rs)))"
proof -
  let ?c = "candidates (mv_used m) rs"
  let ?cs = "relay_order ?c"
  let ?p1 = "take_relays n True ?cs (start_picker (mv_used m))"
  let ?p = "take_relays n False ?cs ?p1"
  have d: "distinct (map rl_IPv4 ?cs)"
    using assms(2) by (simp add: relay_order_def distinct_map inj_on_def)
  have l: "length ?cs = length ?c" by (simp add: relay_order_def)
  note b = both_passes [where used = "mv_used m" and n = n and cs = ?cs]
  have "rl_IPv4 ` set ?cs \<subseteq> rl_IPv4 ` set (pk_out ?p) \<Longrightarrow> length (pk_out ?p) \<ge> n"
    using card_mono [of "rl_IPv4 ` set (pk_out ?p)" "rl_IPv4 ` set ?cs"] distinct_card [OF d] assms(3) l
      card_length [of "map rl_IPv4 (pk_out ?p)"] by simp
  then have n: "length (pk_out ?p) = n" using take_relays_all [OF b(1), of n ?cs] b(4) by auto
  have s: "distinct (map rl_Country (pk_out ?p1))"
    "length (pk_out ?p1) \<ge> n \<or> rl_Country ` set ?cs \<subseteq> rl_Country ` set (pk_out ?p1)"
    using take_relays_spread [OF start_picker_ok(1), of "mv_used m" ?cs n] d by auto
  have sub: "rl_Country ` set (pk_out ?p) \<subseteq> rl_Country ` set ?c"
    and sup: "rl_Country ` set (pk_out ?p1) \<subseteq> rl_Country ` set (pk_out ?p)"
    using b(3,5) by auto
  have le: "card (rl_Country ` set (pk_out ?p)) \<le> n" using card_length [of "map rl_Country (pk_out ?p)"] n by simp
  have "card (rl_Country ` set (pk_out ?p)) = min n (card (rl_Country ` set ?c))"
  proof (cases "length (pk_out ?p1) \<ge> n")
    case True
    then have "n \<le> card (rl_Country ` set (pk_out ?p1))" using distinct_card [OF s(1)] by simp
    then have "n \<le> card (rl_Country ` set (pk_out ?p))" using card_mono [OF _ sup] by simp
    then show ?thesis using le card_mono [OF _ sub] by simp
  next
    case False
    then have "rl_Country ` set (pk_out ?p) = rl_Country ` set ?c" using s(2) sub sup by auto
    then show ?thesis using le by simp
  qed
  moreover have "fst (pick e n m) = Inr (pk_out ?p)"
    using assms(1,3) n listRelays_frame [OF assms(1)] by (simp add: pick_def Let_def start_picker_def)
  ultimately show ?thesis by blast
qed

section \<open>Routes\<close>

abbreviation address_of :: "route \<Rightarrow> string" where
  "address_of r \<equiv> rd_Address (route_Def r)"

lemma slot_routes_ok:
  "slot_routes e m k rels = Inr rs \<Longrightarrow> length rs = length rels \<and>
     (\<forall>i < length rels. \<exists>dev. mv_device (k + int i) (mv_file m) = Some dev
        \<and> route_Def (rs ! i) = mv_def (k + int i) dev (rels ! i) \<and> route_Status (rs ! i) = StatusCreated)"
proof (induction e m k rels arbitrary: rs rule: slot_routes.induct)
  case (2 e m k rel rels)
  then obtain dev r rs' where d: "mv_device k (mv_file m) = Some dev" "New (me_getenv e) registered (mv_def k dev rel) = Inr r"
    "slot_routes e m (k + 1) rels = Inr rs'" "rs = r # rs'"
    by (auto split: option.splits sum.splits)
  note ih = 2(1) [OF d(1,2,3)]
  show ?case
  proof (intro conjI allI impI)
    show "length rs = length (rel # rels)" using ih d(4) by simp
    fix i assume i: "i < length (rel # rels)"
    show "\<exists>dev. mv_device (k + int i) (mv_file m) = Some dev
        \<and> route_Def (rs ! i) = mv_def (k + int i) dev ((rel # rels) ! i) \<and> route_Status (rs ! i) = StatusCreated"
    proof (cases i)
      case 0
      then show ?thesis using d New_fresh [OF d(2)] by simp
    next
      case (Suc j)
      then have "j < length rels" using i by simp
      with ih have "\<exists>dev. mv_device (k + 1 + int j) (mv_file m) = Some dev
        \<and> route_Def (rs' ! j) = mv_def (k + 1 + int j) dev (rels ! j) \<and> route_Status (rs' ! j) = StatusCreated" by blast
      then show ?thesis by (simp add: Suc d(4) algebra_simps)
    qed
  qed
qed simp

lemma slot_routes_addresses:
  assumes "slot_routes e m k rels = Inr rs"
  shows "map address_of rs = map (\<lambda>r. netJoin (rl_IPv4 r) mullvadPort) rels"
  using slot_routes_ok [OF assms] by (auto simp: list_eq_iff_nth_eq mv_def_def)

text \<open>The API's \<open>ipv4_addr_in\<close> holds no colon.\<close>

definition plain_relay :: "Relay \<Rightarrow> bool" where
  "plain_relay r \<longleftrightarrow> CHR '':'' \<notin> set (rl_IPv4 r)"

definition plain_relays :: "menv \<Rightarrow> bool" where
  "plain_relays e \<longleftrightarrow> (\<forall>body rs. me_relays e body = Inr rs \<longrightarrow> list_all plain_relay rs)"

lemma netJoin_plain: "CHR '':'' \<notin> set h \<Longrightarrow> netJoin h p = h @ CHR '':'' # p"
  by (simp add: netJoin_def)

lemma netJoin_inj:
  "CHR '':'' \<notin> set h \<Longrightarrow> CHR '':'' \<notin> set h' \<Longrightarrow> netJoin h p = netJoin h' p \<longleftrightarrow> h = h'"
  by (simp add: netJoin_plain)

text \<open>A call of the provisioner's interface, and the routes a sequence of calls hands out.\<close>

datatype mv_call = CallProvision nat | CallReestablish int "route option"

fun mv_serve :: "menv \<Rightarrow> mv_call \<Rightarrow> Mullvad \<Rightarrow> route list result \<times> Mullvad" where
  "mv_serve e (CallProvision n) m = mullvad_Provision e n m"
| "mv_serve e (CallReestablish slot failed) m = (case mullvad_Reestablish e slot failed m of
     (Inl x, m1) \<Rightarrow> (Inl x, m1) | (Inr r, m1) \<Rightarrow> (Inr [r], m1))"

fun mv_calls :: "(menv \<times> mv_call) list \<Rightarrow> Mullvad \<Rightarrow> route list \<times> Mullvad" where
  "mv_calls [] m = ([], m)"
| "mv_calls ((e, c) # cs) m = (case mv_serve e c m of
     (x, m1) \<Rightarrow> (case mv_calls cs m1 of (rs, m2) \<Rightarrow> ((case x of Inl _ \<Rightarrow> [] | Inr r \<Rightarrow> r) @ rs, m2)))"

text \<open>What one call hands out was not in use and is in use afterwards.\<close>

definition fresh_routes :: "Mullvad \<Rightarrow> Mullvad \<Rightarrow> route list \<Rightarrow> bool" where
  "fresh_routes m m' rs \<longleftrightarrow> (\<exists>ips. map address_of rs = map (\<lambda>h. netJoin h mullvadPort) ips \<and> distinct ips
     \<and> (\<forall>h \<in> set ips. CHR '':'' \<notin> set h) \<and> set ips \<inter> set (mv_used m) = {} \<and> set ips \<subseteq> set (mv_used m')
     \<and> set (mv_used m) \<subseteq> set (mv_used m'))"

lemma listRelays_plain:
  assumes "plain_relays e" "list_all plain_relay (mv_relays m)" "listRelays e m = (x, m1)"
  shows "list_all plain_relay (mv_relays m1) \<and> (\<forall>rs. x = Inr rs \<longrightarrow> list_all plain_relay rs)"
  using assms
  by (auto simp: listRelays_def Let_def plain_relays_def split: if_splits option.splits sum.splits)

lemma pick_plain:
  assumes "plain_relays e" "list_all plain_relay (mv_relays m)" "pick e n m = (x, m')"
  shows "list_all plain_relay (mv_relays m') \<and> (\<forall>rels. x = Inr rels \<longrightarrow> list_all plain_relay rels)"
proof -
  obtain y m1 where l: "listRelays e m = (y, m1)" by fastforce
  have r: "mv_relays m' = mv_relays m1"
    using assms(3) by (auto simp: pick_def l Let_def split: sum.splits if_splits)
  have "list_all plain_relay rels" if "x = Inr rels" for rels
    using pick_ok(4) [of e n m rels m'] assms(3) that listRelays_plain [OF assms(1,2) l] l
    by (force simp: candidates_def list_all_iff)
  then show ?thesis using listRelays_plain [OF assms(1,2) l] r by simp
qed

lemma pick_fresh:
  assumes "plain_relays e" "list_all plain_relay (mv_relays m)" "pick e n m = (Inr rels, m')"
    and "map address_of rs = map (\<lambda>r. netJoin (rl_IPv4 r) mullvadPort) rels"
  shows "fresh_routes m m' rs"
proof -
  note p = pick_ok [OF assms(3)]
  have "list_all plain_relay rels" using pick_plain [OF assms(1-3)] by simp
  then show ?thesis
    using p assms(4) unfolding fresh_routes_def
    by (intro exI [of _ "map rl_IPv4 rels"]) (auto simp: comp_def list_all_iff plain_relay_def candidates_def)
qed

lemma fresh_none: "set (mv_used m) \<subseteq> set (mv_used m') \<Longrightarrow> fresh_routes m m' []"
  by (auto simp: fresh_routes_def)

lemma mark_failed_frame [simp]:
  "mv_relays (mark_failed f m) = mv_relays m" "mv_file (mark_failed f m) = mv_file m"
  "set (mv_used m) \<subseteq> set (mv_used (mark_failed f m))"
  by (auto simp: mark_failed_def Let_def split: option.splits)

lemma fresh_weaken:
  "fresh_routes m1 m' rs \<Longrightarrow> set (mv_used m) \<subseteq> set (mv_used m1) \<Longrightarrow> fresh_routes m m' rs"
  unfolding fresh_routes_def by (elim exE, intro exI) auto

lemma mv_serve_fresh:
  assumes "plain_relays e" "list_all plain_relay (mv_relays m)" "mv_serve e c m = (x, m')"
  shows "fresh_routes m m' (case x of Inl _ \<Rightarrow> [] | Inr r \<Rightarrow> r) \<and> list_all plain_relay (mv_relays m')"
proof (cases c)
  case (CallProvision n)
  obtain y m1 where p: "pick e n m = (y, m1)" by fastforce
  have m: "m' = m1" using assms(3) p by (auto simp: CallProvision mullvad_Provision_def split: sum.splits)
  have "fresh_routes m m' (case x of Inl _ \<Rightarrow> [] | Inr r \<Rightarrow> r)"
    using assms(3) p pick_frame [OF p] pick_fresh [OF assms(1,2), of n _ m1]
    by (auto simp: CallProvision mullvad_Provision_def fresh_none dest: slot_routes_addresses split: sum.splits)
  then show ?thesis using pick_plain [OF assms(1,2) p] m by simp
next
  case (CallReestablish slot failed)
  let ?m = "mark_failed failed m"
  obtain y m1 where p: "pick e 1 ?m = (y, m1)" by fastforce
  have m: "m' = m1"
    using assms(3) p by (auto simp: CallReestablish mullvad_Reestablish_def split: sum.splits option.splits prod.splits)
  have f: "fresh_routes ?m m' (case x of Inl _ \<Rightarrow> [] | Inr r \<Rightarrow> r)"
  proof (cases x)
    case (Inl er)
    then show ?thesis using pick_frame [OF p] m by (simp add: fresh_none)
  next
    case (Inr rs)
    then obtain rels dev r where y: "y = Inr rels" "New (me_getenv e) registered (mv_def slot dev (hd rels)) = Inr r" "rs = [r]"
      using assms(3) p
      by (auto simp: CallReestablish mullvad_Reestablish_def split: sum.splits option.splits prod.splits)
    have "length rels = 1" using pick_ok(1) p y(1) by blast
    then obtain rel where rel: "rels = [rel]" by (cases rels) auto
    have "address_of r = netJoin (rl_IPv4 rel) mullvadPort" using New_fresh [OF y(2)] by (simp add: mv_def_def rel)
    then have "map address_of rs = map (\<lambda>r. netJoin (rl_IPv4 r) mullvadPort) rels" by (simp add: y(3) rel)
    then show ?thesis
      using pick_fresh [OF assms(1), of ?m 1 rels m1 rs] assms(2) p y(1) Inr m by simp
  qed
  have "list_all plain_relay (mv_relays ?m)" using assms(2) by simp
  then have "list_all plain_relay (mv_relays m1)" using pick_plain [OF assms(1) _ p] by blast
  then show ?thesis using m fresh_weaken [OF f mark_failed_frame(3)] by blast
qed

lemma fresh_append:
  assumes "fresh_routes m m1 a" "fresh_routes m1 m2 b"
  shows "fresh_routes m m2 (a @ b)"
proof -
  obtain x where x: "map address_of a = map (\<lambda>h. netJoin h mullvadPort) x" "distinct x" "\<forall>h \<in> set x. CHR '':'' \<notin> set h"
    "set x \<inter> set (mv_used m) = {}" "set x \<subseteq> set (mv_used m1)" "set (mv_used m) \<subseteq> set (mv_used m1)"
    using assms(1) unfolding fresh_routes_def by blast
  obtain y where y: "map address_of b = map (\<lambda>h. netJoin h mullvadPort) y" "distinct y" "\<forall>h \<in> set y. CHR '':'' \<notin> set h"
    "set y \<inter> set (mv_used m1) = {}" "set y \<subseteq> set (mv_used m2)" "set (mv_used m1) \<subseteq> set (mv_used m2)"
    using assms(2) unfolding fresh_routes_def by blast
  have "distinct (x @ y)" using x(2,5) y(2,4) by auto
  moreover have "set (x @ y) \<inter> set (mv_used m) = {}" using x(4,6) y(4) by auto
  moreover have "set (x @ y) \<subseteq> set (mv_used m2)" "set (mv_used m) \<subseteq> set (mv_used m2)" using x(5,6) y(5,6) by auto
  moreover have "map address_of (a @ b) = map (\<lambda>h. netJoin h mullvadPort) (x @ y)" using x(1) y(1) by simp
  moreover have "\<forall>h \<in> set (x @ y). CHR '':'' \<notin> set h" using x(3) y(3) by auto
  ultimately show ?thesis unfolding fresh_routes_def by blast
qed

lemma mv_calls_fresh:
  "(\<forall>(e, c) \<in> set cs. plain_relays e) \<Longrightarrow> list_all plain_relay (mv_relays m) \<Longrightarrow> mv_calls cs m = (rs, m')
     \<Longrightarrow> fresh_routes m m' rs"
proof (induction cs arbitrary: m rs)
  case (Cons ec cs)
  obtain e c where ec: "ec = (e, c)" by fastforce
  obtain x m1 where s: "mv_serve e c m = (x, m1)" by fastforce
  obtain rs1 where r: "mv_calls cs m1 = (rs1, m')" and rs: "rs = (case x of Inl _ \<Rightarrow> [] | Inr r \<Rightarrow> r) @ rs1"
    using Cons(4) s by (auto simp: ec split: prod.splits)
  note a = mv_serve_fresh [OF _ Cons(3) s]
  have "fresh_routes m1 m' rs1" using Cons(1) [OF _ _ r] Cons(2) a by (auto simp: ec)
  moreover have "fresh_routes m m1 (case x of Inl _ \<Rightarrow> [] | Inr r \<Rightarrow> r)" using a Cons(2) by (auto simp: ec)
  ultimately show ?case unfolding rs by (rule fresh_append [rotated])
qed (simp add: fresh_none)

section \<open>Devices\<close>

lemma mv_device_None: "mv_device slot f = None \<longleftrightarrow> slot \<notin> dv_Slot ` set (pf_Device f)"
  by (auto simp: mv_device_def find_None_iff)

lemma mv_device_Some: "mv_device slot f = Some d \<Longrightarrow> d \<in> set (pf_Device f) \<and> dv_Slot d = slot"
  by (auto simp: mv_device_def find_Some_iff)

lemma createDevice_frame:
  "createDevice e m tok k w = (x, w') \<Longrightarrow> mw_file w' = mw_file w \<and> mw_tmp w' = mw_tmp w
     \<and> (mw_registered w' = mw_registered w @ [k] \<or> mw_registered w' = mw_registered w \<and> (\<exists>er. x = Inl er))"
  by (auto simp: createDevice_def Let_def split: option.splits sum.splits if_splits)

text \<open>What a run of the loop has added when it ends or fails: devices in memory, keys at the account.\<close>

definition added :: "Mullvad \<times> mworld \<Rightarrow> Mullvad \<times> mworld \<Rightarrow> Device list \<Rightarrow> string list \<Rightarrow> bool" where
  "added s s' ds ks \<longleftrightarrow> fst s' = (fst s)\<lparr>mv_file := (mv_file (fst s))\<lparr>pf_Device := pf_Device (mv_file (fst s)) @ ds\<rparr>\<rparr>
     \<and> mw_file (snd s') = mw_file (snd s) \<and> mw_tmp (snd s') = mw_tmp (snd s)
     \<and> mw_registered (snd s') = mw_registered (snd s) @ ks \<and> length ds \<le> length ks"

lemma added_refl: "added s s [] []"
  by (simp add: added_def)

lemma device_loop_adds:
  "device_loop e tok slots ch s = (r, s') \<Longrightarrow> distinct slots \<Longrightarrow> distinct (map dv_Slot (pf_Device (mv_file (fst s)))) \<Longrightarrow>
     \<exists>ds ks. added s s' ds ks \<and> distinct (map dv_Slot (pf_Device (mv_file (fst s)) @ ds)) \<and> dv_Slot ` set ds \<subseteq> set slots
       \<and> (\<forall>c. r = Inr c \<longrightarrow> c = (ch \<or> ds \<noteq> []) \<and> (\<forall>i \<in> set slots. mv_device i (mv_file (fst s')) \<noteq> None))"
proof (induction e tok slots ch s rule: device_loop.induct)
  case (1 e tok ch m w)
  then show ?case by (intro exI [of _ "[]"]) (auto simp: added_refl)
next
  case (2 e tok slot slots ch m w)
  show ?case
  proof (cases "mv_device slot (mv_file m)")
    case (Some d)
    then have "device_loop e tok slots ch (m, w) = (r, s')" using 2(3) by simp
    from 2(2) [OF Some this] 2(4,5) obtain ds ks where IH: "added (m, w) s' ds ks"
      "distinct (map dv_Slot (pf_Device (mv_file m) @ ds))" "dv_Slot ` set ds \<subseteq> set slots"
      "\<forall>c. r = Inr c \<longrightarrow> c = (ch \<or> ds \<noteq> []) \<and> (\<forall>i \<in> set slots. mv_device i (mv_file (fst s')) \<noteq> None)" by auto
    moreover have "mv_device slot (mv_file (fst s')) \<noteq> None"
      using Some IH(1) by (auto simp: added_def mv_device_None dest: mv_device_Some)
    ultimately show ?thesis by (intro exI [of _ ds] exI [of _ ks]) auto
  next
    case None
    show ?thesis
    proof (cases "me_random e slot")
      case (Inl er)
      then show ?thesis using 2(3,4,5) None by (intro exI [of _ "[]"]) (auto simp: added_refl)
    next
      case (Inr k)
      let ?priv = "GeneratePrivateKey k"
      obtain x w1 where c: "createDevice e m tok (Key_Base64 (me_public e ?priv)) w = (x, w1)" by fastforce
      note f = createDevice_frame [OF c]
      show ?thesis
      proof (cases x)
        case (Inl er)
        then have "added (m, w) s' [] (drop (length (mw_registered w)) (mw_registered w1))"
          using 2(3) None Inr c f by (auto simp: added_def Let_def)
        then show ?thesis using 2(3,4,5) None Inr c Inl by (intro exI [of _ "[]"] exI) (auto simp: Let_def)
      next
        case (Inr d)
        let ?d = "new_device slot ?priv d"
        have d: "dv_Slot ?d = slot" by (simp add: new_device_def)
        have l: "device_loop e tok slots True (add_device ?d m, w1) = (r, s')"
          using 2(3) None \<open>me_random e slot = Inr k\<close> c Inr by (simp add: Let_def)
        have "distinct (map dv_Slot (pf_Device (mv_file (add_device ?d m))))"
          using 2(5) None d by (auto simp: add_device_def mv_device_None)
        from 2(1) [OF None \<open>me_random e slot = Inr k\<close> refl c [symmetric] Inr l] this 2(4) obtain ds ks where
          IH: "added (add_device ?d m, w1) s' ds ks" "distinct (map dv_Slot (pf_Device (mv_file m) @ ?d # ds))"
          "dv_Slot ` set ds \<subseteq> set slots"
          "\<forall>c. r = Inr c \<longrightarrow> c \<and> (\<forall>i \<in> set slots. mv_device i (mv_file (fst s')) \<noteq> None)"
          by (auto simp: add_device_def)
        have a: "added (m, w) s' (?d # ds) (Key_Base64 (me_public e ?priv) # ks)"
          using IH(1) f Inr by (auto simp: added_def add_device_def)
        moreover have "mv_device slot (mv_file (fst s')) \<noteq> None" using a d by (auto simp: added_def mv_device_None)
        ultimately show ?thesis
          using IH d by (intro exI [of _ "?d # ds"] exI [of _ "Key_Base64 (me_public e ?priv) # ks"]) auto
      qed
    qed
  qed
qed

lemma SaveFile_cases:
  assumes "SaveFile e f w = (x, w')"
  shows "mw_registered w' = mw_registered w \<and>
    (x = None \<and> (\<exists>t. me_encode e f = Inr t \<and> mw_file w' = Some t \<and> mw_tmp w' = None) \<or> x \<noteq> None \<and> mw_file w' = mw_file w)"
  using assms by (auto simp: SaveFile_def Let_def split: option.splits sum.splits)

section \<open>What the provisioner guarantees\<close>

definition sample_relay :: "string \<Rightarrow> string \<Rightarrow> string \<Rightarrow> Relay" where
  "sample_relay name country ip = \<lparr>rl_Hostname = name, rl_Country = country, rl_City = [], rl_Active = True,
     rl_IPv4 = ip, rl_PubKey = ''k'', rl_SOCKSName = []\<rparr>"

definition sample_relays :: "Relay list" where
  "sample_relays = [sample_relay ''se2'' ''se'' ''1.0.0.2'', sample_relay ''se1'' ''se'' ''1.0.0.1'',
     sample_relay ''de1'' ''de'' ''1.0.0.3'']"

definition sample_account :: File where
  "sample_account = \<lparr>pf_Type = ''mullvad'', pf_Account = ''1234567890'', pf_Device = []\<rparr>"

text \<open>An API that has room for one device only.\<close>

definition sample_menv :: menv where
  "sample_menv = \<lparr>me_path = ''/d/provider.toml'', me_stat = None, me_private = None, me_read = None,
     me_decode = (\<lambda>_. Inr sample_account), me_encode = (\<lambda>f. Inr (pf_Account f)), me_mkdir = None, me_write = None,
     me_secure = None, me_rename = None, me_remove = None, me_random = (\<lambda>slot. Inr (replicate 32 (word_of_int (8 * slot)))),
     me_public = take 1, me_request = (\<lambda>_. None), me_auth = (\<lambda>_ _. Inr (200, ''t'')), me_token = Some,
     me_register = (\<lambda>_ _ k. if k = ''CA=='' then Inr (201, ''10.64.0.1/32'')
        else Inr (400, ''limit'')),
     me_device = (\<lambda>b. Inr \<lparr>ad_ID = ''d'', ad_Name = ''n'', ad_IPv4 = b, ad_IPv6 = []\<rparr>),
     me_list = (\<lambda>_. Inr (200, [])), me_relays = (\<lambda>_. Inr sample_relays), me_getenv = (\<lambda>_. None)\<rparr>"

definition sample_mworld :: mworld where
  "sample_mworld = \<lparr>mw_file = Some ''f'', mw_tmp = None, mw_registered = []\<rparr>"

definition sample_mullvad :: Mullvad where
  "sample_mullvad = new_Mullvad (sample_account\<lparr>pf_Device :=
     [\<lparr>dv_Slot = 1, dv_ID = ''d'', dv_Name = ''n'', dv_PrivateKey = ''p'', dv_IPv4 = ''10.64.0.1'', dv_IPv6 = []\<rparr>]\<rparr>)"

text \<open>
  C33: No relay is handed out twice. Whatever calls of \<open>Provision\<close> and \<open>Reestablish\<close> a session makes, with
  whatever answers of the API, the routes it gets go to pairwise different relays, none of which was in use
  before. In particular a re-established route never leaves through the relay of the route it replaces.
\<close>

theorem mullvad_relays_never_shared:
  assumes "\<forall>(e, c) \<in> set cs. plain_relays e" "list_all plain_relay (mv_relays m)" "mv_calls cs m = (rs, m')"
  shows "distinct (map address_of rs)
    \<and> (\<forall>r \<in> set rs. \<forall>h \<in> set (mv_used m). CHR '':'' \<notin> set h \<longrightarrow> address_of r \<noteq> netJoin h mullvadPort)"
proof -
  obtain ips where a: "map address_of rs = map (\<lambda>h. netJoin h mullvadPort) ips" "distinct ips"
    "\<forall>h \<in> set ips. CHR '':'' \<notin> set h" "set ips \<inter> set (mv_used m) = {}"
    using mv_calls_fresh [OF assms] unfolding fresh_routes_def by blast
  have "inj_on (\<lambda>h. netJoin h mullvadPort) (set ips)" using a(3) netJoin_inj by (auto simp: inj_on_def)
  then have "distinct (map address_of rs)" using a(1,2) by (simp add: distinct_map)
  moreover have "address_of r \<noteq> netJoin h mullvadPort"
    if "r \<in> set rs" "h \<in> set (mv_used m)" "CHR '':'' \<notin> set h" for r h
  proof -
    have "address_of r \<in> set (map (\<lambda>h. netJoin h mullvadPort) ips)" using that(1) a(1) [symmetric] by simp
    then show ?thesis using that(2,3) a(3,4) netJoin_inj by auto
  qed
  ultimately show ?thesis by blast
qed

theorem mullvad_relays_never_shared_witness:
  "\<exists>r r'. fst (mv_calls [(sample_menv, CallProvision 1), (sample_menv, CallReestablish 1 None)] sample_mullvad) = [r, r']
     \<and> address_of r \<noteq> address_of r'"
proof -
  let ?cs = "[(sample_menv, CallProvision 1), (sample_menv, CallReestablish 1 None)]"
  obtain rs m' where r: "mv_calls ?cs sample_mullvad = (rs, m')" by fastforce
  have p: "\<forall>(e, c) \<in> set ?cs. plain_relays e"
    by (simp add: plain_relays_def sample_menv_def sample_relays_def sample_relay_def plain_relay_def)
  have m: "list_all plain_relay (mv_relays sample_mullvad)" by code_simp
  have "length (fst (mv_calls ?cs sample_mullvad)) = 2" by code_simp
  then obtain a b where "rs = [a, b]" using r by (auto simp: length_Suc_conv numeral_2_eq_2)
  then show ?thesis using mullvad_relays_never_shared [OF p m r] r by simp
qed

text \<open>
  Relays are spread over countries. When no two usable relays share an address and there are \<open>n\<close> of them,
  \<open>pick\<close> succeeds and its choice comes from as many countries as \<open>n\<close> relays can; whenever it succeeds, it
  returns exactly \<open>n\<close> active, unused relays with pairwise different addresses, and records them as used.
\<close>

theorem mullvad_pick_spread:
  assumes "listRelays e m = (Inr rs, m1)"
  shows "(distinct (map rl_IPv4 (candidates (mv_used m) rs)) \<and> n \<le> length (candidates (mv_used m) rs) \<longrightarrow>
      (\<exists>rels. fst (pick e n m) = Inr rels
         \<and> card (rl_Country ` set rels) = min n (card (rl_Country ` set (candidates (mv_used m) rs)))))
    \<and> (\<forall>rels m'. pick e n m = (Inr rels, m') \<longrightarrow> length rels = n \<and> distinct (map rl_IPv4 rels)
         \<and> (\<forall>r \<in> set rels. r \<in> set rs \<and> rl_Active r \<and> rl_PubKey r \<noteq> [] \<and> rl_IPv4 r \<notin> set (mv_used m) \<and> rl_IPv4 r \<in> set (mv_used m')))"
  using pick_spread [OF assms] pick_ok [of e n m] assms by (fastforce simp: candidates_def)

theorem mullvad_pick_spread_witness:
  "\<exists>rels. fst (pick sample_menv 2 sample_mullvad) = Inr rels \<and> card (rl_Country ` set rels) = 2"
proof -
  have l: "listRelays sample_menv sample_mullvad = (Inr sample_relays, snd (listRelays sample_menv sample_mullvad))" by code_simp
  have d: "distinct (map rl_IPv4 (candidates (mv_used sample_mullvad) sample_relays))"
    "2 \<le> length (candidates (mv_used sample_mullvad) sample_relays)" by code_simp+
  have "card (rl_Country ` set (candidates (mv_used sample_mullvad) sample_relays)) = 2" by code_simp
  with mullvad_pick_spread [OF l, of 2] d show ?thesis by auto
qed

text \<open>
  Devices. When \<open>ensureDevices\<close> succeeds, every slot has a device, the ones that were there are kept, slots stay
  unique, whatever was added is in the provider file, and a second call does nothing. When it fails, the provider file is
  as before, although the account may already have accepted keys whose private halves are then lost.
\<close>

theorem mullvad_devices:
  assumes "distinct (map dv_Slot (pf_Device (mv_file m)))" "ensureDevices e n (m, w) = (x, m', w')"
  shows "(x = None \<longrightarrow> (\<forall>slot. 1 \<le> slot \<and> slot \<le> int n \<longrightarrow> mv_device slot (mv_file m') \<noteq> None)
        \<and> (\<exists>ds. pf_Device (mv_file m') = pf_Device (mv_file m) @ ds \<and> distinct (map dv_Slot (pf_Device (mv_file m')))
             \<and> (ds \<noteq> [] \<longrightarrow> (\<exists>t. me_encode e (mv_file m') = Inr t \<and> mw_file w' = Some t)))
        \<and> (\<forall>e'. ensureDevices e' n (m', w') = (None, m', w')))
    \<and> (x \<noteq> None \<longrightarrow> mw_file w' = mw_file w)
    \<and> (\<exists>ks. mw_registered w' = mw_registered w @ ks)"
proof (cases "(\<forall>slot \<in> set [1..int n]. mv_device slot (mv_file m) \<noteq> None) \<or> (\<exists>er. mv_token e m = Inl er)")
  case True
  then show ?thesis
    using assms by (auto simp: ensureDevices_def Let_def split: sum.splits if_splits)
next
  case False
  then obtain tok where t: "mv_token e m = Inr tok" by (cases "mv_token e m") auto
  obtain r m1 w1 where l: "device_loop e tok [1..int n] False (m, w) = (r, m1, w1)" by (metis prod_cases3)
  obtain ds ks where a: "added (m, w) (m1, w1) ds ks" "distinct (map dv_Slot (pf_Device (mv_file m) @ ds))"
    "\<forall>c. r = Inr c \<longrightarrow> c = (ds \<noteq> []) \<and> (\<forall>i \<in> set [1..int n]. mv_device i (mv_file m1) \<noteq> None)"
    using device_loop_adds [OF l] assms(1) by auto
  have "\<not> (\<forall>slot \<in> set [1..int n]. mv_device slot (mv_file m) \<noteq> None)" using False by blast
  then have eq: "(x, m', w') = (case r of Inl er \<Rightarrow> (Some er, m1, w1)
      | Inr changed \<Rightarrow> if changed then (case SaveFile e (mv_file m1) w1 of (x, w2) \<Rightarrow> (x, m1, w2)) else (None, m1, w1))"
    using assms(2) t l by (simp only: ensureDevices_def Let_def fst_conv if_False sum.case prod.case)
  show ?thesis
  proof (cases "r = Inr True")
    case True
    then obtain w2 where s: "SaveFile e (mv_file m1) w1 = (x, w2)" "m' = m1" "w' = w2"
      using eq by (auto split: prod.splits)
    have d: "pf_Device (mv_file m1) = pf_Device (mv_file m) @ ds" using a(1) by (simp add: added_def)
    have r: "mw_registered w' = mw_registered w @ ks \<and> (x \<noteq> None \<longrightarrow> mw_file w' = mw_file w)"
      using a(1) SaveFile_cases [OF s(1)] s(3) by (auto simp: added_def)
    have "\<exists>t. me_encode e (mv_file m') = Inr t \<and> mw_file w' = Some t" if "x = None"
      using that SaveFile_cases [OF s(1)] s(2,3) by auto
    moreover have "\<forall>i \<in> set [1..int n]. mv_device i (mv_file m') \<noteq> None" using a(3) True s(2) by blast
    ultimately show ?thesis using d a(2) s(2) r by (auto simp: ensureDevices_def)
  next
    case no: False
    then show ?thesis
      using eq a by (cases r) (auto simp: ensureDevices_def added_def)
  qed
qed

theorem mullvad_devices_witness:
  "\<exists>er m' w'. ensureDevices sample_menv 2 (new_Mullvad sample_account, sample_mworld) = (Some er, m', w')
      \<and> mw_file w' = Some ''f'' \<and> length (mw_registered w') = 1"
proof -
  obtain x m' w' where r: "ensureDevices sample_menv 2 (new_Mullvad sample_account, sample_mworld) = (x, m', w')"
    by (metis prod_cases3)
  have "(\<lambda>(x, m, w). x \<noteq> None \<and> length (mw_registered w) = 1)
      (ensureDevices sample_menv 2 (new_Mullvad sample_account, sample_mworld))" by code_simp
  moreover have "x \<noteq> None \<longrightarrow> mw_file w' = mw_file sample_mworld"
    using mullvad_devices [OF _ r] by (simp add: new_Mullvad_def sample_account_def)
  ultimately show ?thesis using r by (auto simp: sample_mworld_def)
qed

text \<open>
  A login that is rejected still replaces the provider file. When the stored file belongs to another account and
  the new number is long enough, \<open>Login\<close> writes a file for the new number without devices before the API has seen the
  number; if the API then rejects it, \<open>Login\<close> fails and the devices and private keys of the old account are gone.
\<close>

theorem mullvad_login_replaces:
  assumes "10 \<le> length (digits_of acc)" "LoadFile e w = Inr old" "pf_Account old \<noteq> digits_of acc" "1 \<le> n"
    and "f = \<lparr>pf_Type = ''mullvad'', pf_Account = digits_of acc, pf_Device = []\<rparr>"
    and "SaveFile e f w = (None, w1)" "me_encode e f = Inr t" "me_decode e t = Inr f"
    and "mv_token e (new_Mullvad f) = Inl er"
  shows "Login e acc n w = (Some (MullErr er), w1) \<and> mw_file w1 = Some t \<and> LoadFile e w1 = Inr f \<and> pf_Device f = []"
proof -
  have w1: "mw_file w1 = Some t" using SaveFile_cases [OF assms(6)] assms(7) by auto
  have l: "LoadFile e w1 = Inr f"
    using assms(2,8) w1 by (auto simp: LoadFile_def split: option.splits sum.splits)
  have "\<forall>c \<in> set (digits_of acc). \<not> is_space c" by (auto simp: digits_of_def)
  then have a: "TrimSpace (digits_of acc) = digits_of acc" by (intro TrimSpace_id) auto
  have "digits_of acc \<noteq> []" using assms(1) by auto
  moreover have "ensureDevices e n (new_Mullvad f, w1) = (Some er, new_Mullvad f, w1)"
  proof -
    have "\<not> (\<forall>slot \<in> set [1..int n]. mv_device slot f \<noteq> None)" using assms(4) by (force simp: assms(5) mv_device_def)
    moreover have "mv_file (new_Mullvad f) = f" by (simp add: new_Mullvad_def)
    ultimately show ?thesis using assms(9) by (simp only: ensureDevices_def Let_def fst_conv if_False sum.case)
  qed
  ultimately have "OpenMullvad e n w1 = (Inl (MullErr er), w1)"
    using l a assms(5) by (simp add: OpenMullvad_def)
  then show ?thesis using assms(1-3,5,6) w1 l by (simp add: Login_def Let_def)
qed

theorem mullvad_login_replaces_witness:
  "\<exists>w1. Login (sample_menv\<lparr>me_auth := (\<lambda>_ _. Inr (401, [])),
      me_decode := (\<lambda>t. Inr (if t = ''0987654321'' then sample_account\<lparr>pf_Account := t\<rparr> else sample_account))\<rparr>) ''0987654321'' 1 sample_mworld
    = (Some (MullErr ''mullvad: account number was rejected''), w1) \<and> mw_file w1 = Some ''0987654321''"
proof -
  let ?e = "sample_menv\<lparr>me_auth := (\<lambda>_ _. Inr (401, [])),
      me_decode := (\<lambda>t. Inr (if t = ''0987654321'' then sample_account\<lparr>pf_Account := t\<rparr> else sample_account))\<rparr>"
  let ?f = "sample_account\<lparr>pf_Account := ''0987654321''\<rparr>"
  have d: "digits_of ''0987654321'' = ''0987654321''" by (simp add: digits_of_def is_digit_def)
  have l: "LoadFile ?e sample_mworld = Inr sample_account"
    by (simp add: LoadFile_def sample_menv_def sample_mworld_def)
  obtain w1 where s: "SaveFile ?e ?f sample_mworld = (None, w1)"
    by (simp add: SaveFile_def sample_menv_def sample_account_def)
  have t: "mv_token ?e (new_Mullvad ?f) = Inl ''mullvad: account number was rejected''"
    by (simp add: mv_token_def sample_menv_def Let_def)
  show ?thesis
    using mullvad_login_replaces [where n = 1, OF _ l _ _ _ s _ _ t, of "''0987654321''" "''0987654321''"] d
    by (simp add: sample_account_def sample_menv_def)
qed

end
