(* ===== verification/Go_Regexp.thy ===== *)
theory Go_Regexp
  imports Go_Net
begin

text \<open>
  What the program uses of Go's \<open>regexp\<close> (leftmost matches of a few fixed patterns, each written as a
  matcher at a position), and of \<open>strings.Fields\<close> and \<open>strings.Trim\<close>.
\<close>

section \<open>Leftmost matches\<close>

text \<open>A matcher looks at a suffix of the text; \<open>scan\<close> is the first suffix it accepts.\<close>

fun scan :: "(string \<Rightarrow> 'a option) \<Rightarrow> string \<Rightarrow> 'a option" where
  "scan m [] = m []"
| "scan m (c # cs) = (case m (c # cs) of Some x \<Rightarrow> Some x | None \<Rightarrow> scan m cs)"

text \<open>
  \<open>FindAll\<close>: the matches from left to right, each starting after the end of the one before. A match is
  its value and its length; \<open>skip\<close> is what is left of the last match.
\<close>

fun scan_all :: "(string \<Rightarrow> ('a \<times> nat) option) \<Rightarrow> nat \<Rightarrow> string \<Rightarrow> 'a list" where
  "scan_all m skip [] = []"
| "scan_all m (Suc k) (c # cs) = scan_all m k cs"
| "scan_all m 0 (c # cs) = (case m (c # cs) of
     None \<Rightarrow> scan_all m 0 cs
   | Some (x, n) \<Rightarrow> x # scan_all m (n - 1) cs)"

lemma scan_Some: "scan m s = Some x \<Longrightarrow> \<exists>p t. s = p @ t \<and> m t = Some x"
proof (induction s)
  case (Cons c cs)
  show ?case
  proof (cases "m (c # cs)")
    case None
    with Cons obtain p t where "cs = p @ t" "m t = Some x" by auto
    then show ?thesis by (intro exI [of _ "c # p"] exI [of _ t]) auto
  next
    case (Some y)
    with Cons(2) show ?thesis by (intro exI [of _ "[]"] exI [of _ "c # cs"]) auto
  qed
qed auto

lemma scan_all_mem: "x \<in> set (scan_all m k s) \<Longrightarrow> \<exists>p t n. s = p @ t \<and> m t = Some (x, n)"
proof (induction m k s rule: scan_all.induct)
  case (2 m k c cs)
  then obtain p t n where "cs = p @ t" "m t = Some (x, n)" by auto
  then show ?case by (intro exI [of _ "c # p"] exI [of _ t]) auto
next
  case (3 m c cs)
  show ?case
  proof (cases "m (c # cs)")
    case None
    with 3 obtain p t n where "cs = p @ t" "m t = Some (x, n)" by auto
    then show ?thesis by (intro exI [of _ "c # p"] exI [of _ t]) auto
  next
    case (Some yn)
    obtain y n where yn: "yn = (y, n)" by fastforce
    show ?thesis
    proof (cases "x = y")
      case True
      then show ?thesis using Some yn by (intro exI [of _ "[]"] exI [of _ "c # cs"]) auto
    next
      case False
      then have "x \<in> set (scan_all m (n - 1) cs)" using 3(3) Some yn by simp
      then obtain p t n' where "cs = p @ t" "m t = Some (x, n')" using 3(2) [OF Some yn [symmetric]] by auto
      then show ?thesis by (intro exI [of _ "c # p"] exI [of _ t]) auto
    qed
  qed
qed simp

section \<open>Fields and trimming\<close>

text \<open>\<open>strings.Fields\<close>: \<open>w\<close> is the field being read.\<close>

fun fields_from :: "string \<Rightarrow> string \<Rightarrow> string list" where
  "fields_from w [] = (if w = [] then [] else [w])"
| "fields_from w (c # cs) =
    (if is_space c then (if w = [] then fields_from [] cs else w # fields_from [] cs)
     else fields_from (w @ [c]) cs)"

definition Fields :: "string \<Rightarrow> string list" where
  "Fields s = fields_from [] s"

definition Trim :: "string \<Rightarrow> string \<Rightarrow> string" where
  "Trim s cutset = TrimRight (dropWhile (\<lambda>c. c \<in> set cutset) s) cutset"

definition TrimSuffix :: "string \<Rightarrow> string \<Rightarrow> string" where
  "TrimSuffix s t = (if length t \<le> length s \<and> drop (length s - length t) s = t then take (length s - length t) s else s)"

definition HasSuffix :: "string \<Rightarrow> string \<Rightarrow> bool" where
  "HasSuffix s t = (length t \<le> length s \<and> drop (length s - length t) s = t)"

lemma fields_from_plain:
  "(\<forall>c \<in> set u. \<not> is_space c) \<Longrightarrow> fields_from w (u @ s) = fields_from (w @ u) s"
  by (induction u arbitrary: w) auto

lemma Fields_word:
  assumes "\<forall>c \<in> set u. \<not> is_space c" "u \<noteq> []" "is_space c"
  shows "Fields (u @ c # s) = u # Fields s"
  using assms by (simp add: Fields_def fields_from_plain)

lemma Fields_last: "\<forall>c \<in> set u. \<not> is_space c \<Longrightarrow> u \<noteq> [] \<Longrightarrow> Fields u = [u]"
  using fields_from_plain [of u "[]" "[]"] by (simp add: Fields_def)

text \<open>Splitting a text into lines and joining the lines again.\<close>

lemma Split_append: "c \<notin> set u \<Longrightarrow> Split (u @ c # s) c = u # Split s c"
  by (induction u) auto

lemma Split_none: "c \<notin> set u \<Longrightarrow> Split u c = [u]"
  by (induction u) auto

end
