(* ===== verification/Tor_Control.thy ===== *)
theory Tor_Control
  imports Go_Regexp Go_Encoding
begin

text \<open>
  The control protocol of \<open>src/routing/tor/daemon.go\<close>: reading replies, and what the daemon reads out of
  them (the cookie file, the SOCKS listener, the exit of the circuit that carried a SOCKS user).

  The reader's input is the list of the lines the peer has written, line ends included; a read past the
  end of the list is one that times out.
\<close>

section \<open>Replies\<close>

abbreviation crlf :: string where
  "crlf \<equiv> [CHR 0x0D, CHR 0x0A]"

definition chomp :: "string \<Rightarrow> string" where
  "chomp s = TrimRight s crlf"

definition line_end :: string where
  "line_end = [CHR 0x0A]"

definition timeout_err :: gerr where
  "timeout_err = ''i/o timeout''"

text \<open>\<open>controlCmd\<close> after the command is written; \<open>data\<close> is true inside a \<open>250+\<close> block.\<close>

fun read_reply :: "bool \<Rightarrow> string list \<Rightarrow> string \<Rightarrow> string result \<times> string list" where
  "read_reply data [] b = (Inl timeout_err, [])"
| "read_reply True (raw # rest) b =
    (let body = chomp raw in
     if body = ''.'' then read_reply False rest b else read_reply True rest (b @ body @ line_end))"
| "read_reply False (raw # rest) b =
    (let line = chomp raw in
     if HasPrefix line ''250+'' then
       (let val = (case IndexByte (TrimPrefix line ''250+'') (CHR ''='') of
            Some i \<Rightarrow> drop (Suc i) (TrimPrefix line ''250+'') | None \<Rightarrow> []) in
        read_reply True rest (if val \<noteq> [] then b @ val @ line_end else b))
     else if HasPrefix line ''250-'' then read_reply False rest (b @ TrimPrefix line ''250-'' @ line_end)
     else if HasPrefix line ''250 '' then
       (let r = TrimPrefix line ''250 '' in (Inr (if r \<noteq> ''OK'' then b @ r else b), rest))
     else if length line \<ge> 3 \<and> 52 \<le> (of_char (hd line) :: nat) \<and> (of_char (hd line) :: nat) \<le> 54 then (Inl line, rest)
     else read_reply False rest b)"

text \<open>
  A control connection: the commands sent so far and the lines not yet read. The peer, a tor process,
  is a function from the commands sent to the lines it writes in answer to the last one.
\<close>

record conn =
  cn_sent :: "string list"
  cn_pending :: "string list"

type_synonym peer = "string list \<Rightarrow> gerr + string list"

definition controlCmd :: "peer \<Rightarrow> string \<Rightarrow> conn \<Rightarrow> string result \<times> conn" where
  "controlCmd tor cmd c =
    (let sent = cn_sent c @ [cmd] in
     case tor sent of
       Inl e \<Rightarrow> (Inl e, c)
     | Inr lines \<Rightarrow> (case read_reply False (cn_pending c @ lines) [] of
         (r, rest) \<Rightarrow> (r, \<lparr>cn_sent = sent, cn_pending = rest\<rparr>)))"

section \<open>Reading the answers\<close>

definition quote :: char where "quote = CHR 0x22"

text \<open>\<open>COOKIEFILE="([^"]+)"\<close>\<close>

definition cookieFileRe :: "string \<Rightarrow> string option" where
  "cookieFileRe s =
    (if HasPrefix s (''COOKIEFILE='' @ [quote]) then
       (let t = drop 12 s; v = takeWhile (\<lambda>c. c \<noteq> quote) t in
        if v \<noteq> [] \<and> length v < length t then Some v else None)
     else None)"

definition parseCookieFile :: "string \<Rightarrow> string" where
  "parseCookieFile info = (case scan cookieFileRe info of None \<Rightarrow> [] | Some v \<Rightarrow> v)"

text \<open>\<open>(?:127\.0\.0\.1|\[::1\]):(\d+)\<close>\<close>

definition socksListenerRe :: "string \<Rightarrow> (string \<times> nat) option" where
  "socksListenerRe s =
    (let h = (if HasPrefix s ''127.0.0.1:'' then ''127.0.0.1:'' else if HasPrefix s ''[::1]:'' then ''[::1]:'' else []);
         d = takeWhile is_digit (drop (length h) s) in
     if h \<noteq> [] \<and> d \<noteq> [] then Some (h @ d, length (h @ d)) else None)"

definition parseSocksListeners :: "string \<Rightarrow> string list" where
  "parseSocksListeners info = scan_all socksListenerRe 0 info"

definition parseSocksListener :: "string \<Rightarrow> string result" where
  "parseSocksListener info = (case parseSocksListeners info of
      [] \<Rightarrow> Inl ''no 127.0.0.1 listener'' | a # _ \<Rightarrow> Inr a)"

definition authCookieMismatch :: "gerr \<Rightarrow> bool" where
  "authCookieMismatch e = (let s = ToLower e in Contains s ''515'' \<or> Contains s ''cookie'')"

text \<open>\<open>\$([0-9A-Fa-f]{40})\<close>\<close>

definition hopFingerprintRe :: "string \<Rightarrow> (string \<times> nat) option" where
  "hopFingerprintRe s =
    (if s \<noteq> [] \<and> hd s = CHR ''$'' \<and> length (tl s) \<ge> 40 \<and> list_all is_hex (take 40 (tl s))
     then Some (take 40 (tl s), 41) else None)"

text \<open>\<open>SOCKS_USERNAME="([^"]*)"\<close> and \<open>SOCKS_USERNAME=(\S+)\<close>; the white space of \<open>\S\<close> has no vertical tab.\<close>

definition re_space :: "char \<Rightarrow> bool" where
  "re_space c = (c \<in> set [CHR 0x09, CHR 0x0A, CHR 0x0C, CHR 0x0D, CHR 0x20])"

definition socksUserQuoted :: "string \<Rightarrow> string option" where
  "socksUserQuoted s =
    (if HasPrefix s (''SOCKS_USERNAME='' @ [quote]) then
       (let t = drop 16 s; v = takeWhile (\<lambda>c. c \<noteq> quote) t in if length v < length t then Some v else None)
     else None)"

definition socksUserBare :: "string \<Rightarrow> string option" where
  "socksUserBare s =
    (if HasPrefix s ''SOCKS_USERNAME='' then
       (let v = takeWhile (\<lambda>c. \<not> re_space c) (drop 15 s) in if v \<noteq> [] then Some v else None)
     else None)"

definition stripInfoKey :: "string \<Rightarrow> string \<Rightarrow> string" where
  "stripInfoKey line0 key = (let line = TrimSpace line0; prefix = key @ ''='' in
     if HasPrefix line prefix then drop (length prefix) line else line)"

definition lastHopFingerprint :: "string \<Rightarrow> string" where
  "lastHopFingerprint line = (let hops = scan_all hopFingerprintRe 0 line in
     if hops = [] then [] else ToUpper (last hops))"

definition circuitSOCKSUser :: "string \<Rightarrow> string" where
  "circuitSOCKSUser line = (case scan socksUserQuoted line of
      Some v \<Rightarrow> v
    | None \<Rightarrow> (case scan socksUserBare line of Some v \<Rightarrow> Trim v [quote] | None \<Rightarrow> []))"

definition stream_uses :: "string \<Rightarrow> string \<Rightarrow> bool" where
  "stream_uses user line \<longleftrightarrow> circuitSOCKSUser line = user \<or> Contains line user"

fun stream_lines :: "string \<Rightarrow> string list \<Rightarrow> string \<Rightarrow> string" where
  "stream_lines user [] circ = circ"
| "stream_lines user (raw # rest) circ =
    (let line = stripInfoKey raw ''stream-status''; fields = Fields line in
     if line = [] \<or> \<not> stream_uses user line \<or> length fields < 3 \<or> fields ! 2 = ''0'' then stream_lines user rest circ
     else if fields ! 1 \<in> set [''SUCCEEDED'', ''CLOSED'', ''FAILED'', ''DETACHED'', ''SENTCONNECT''] then
       stream_lines user rest (fields ! 2)
     else stream_lines user rest circ)"

definition parseStreamCircuit :: "string \<Rightarrow> string \<Rightarrow> string" where
  "parseStreamCircuit status user = (if user = [] then [] else stream_lines user (Split status (CHR 0x0A)) [])"

fun circuit_by_id :: "string \<Rightarrow> string list \<Rightarrow> string option" where
  "circuit_by_id cid [] = None"
| "circuit_by_id cid (raw # rest) =
    (let line = stripInfoKey raw ''circuit-status''; fields = Fields line; fp = lastHopFingerprint line in
     if length fields < 2 \<or> fields ! 0 \<noteq> cid \<or> fields ! 1 \<noteq> ''BUILT'' then circuit_by_id cid rest
     else if fp \<noteq> [] then Some fp else circuit_by_id cid rest)"

definition parseCircuitExitByID :: "string \<Rightarrow> string \<Rightarrow> string result" where
  "parseCircuitExitByID status cid =
    (if cid = [] then Inl ''no circuit id''
     else case circuit_by_id cid (Split status (CHR 0x0A)) of
        Some fp \<Rightarrow> Inr fp | None \<Rightarrow> Inl (''no BUILT circuit '' @ cid))"

definition parseGeneralCircuitIDs :: "string \<Rightarrow> string list" where
  "parseGeneralCircuitIDs status =
    concat (map (\<lambda>raw. let line = stripInfoKey raw ''circuit-status''; fields = Fields line in
        if \<not> Contains line ''BUILT'' \<or> Contains line ''PURPOSE=HS_'' then []
        else if length fields \<ge> 2 \<and> fields ! 1 = ''BUILT'' then [fields ! 0] else [])
      (Split status (CHR 0x0A)))"

text \<open>The loop of \<open>parseCircuitExit\<close> with its two variables \<open>general\<close> and \<open>any\<close>.\<close>

fun circuit_lines :: "string \<Rightarrow> string list \<Rightarrow> string \<times> string \<Rightarrow> string \<times> string" where
  "circuit_lines user [] acc = acc"
| "circuit_lines user (raw # rest) acc =
    (let line = stripInfoKey raw ''circuit-status''; fp = lastHopFingerprint line in
     if line = [] \<or> \<not> Contains line ''BUILT'' \<or> circuitSOCKSUser line \<noteq> user \<or> fp = [] then circuit_lines user rest acc
     else circuit_lines user rest
       (if Contains line ''PURPOSE=GENERAL'' \<or> \<not> Contains line ''PURPOSE='' then fp else fst acc, fp))"

definition parseCircuitExit :: "string \<Rightarrow> string \<Rightarrow> string result" where
  "parseCircuitExit status user =
    (if user = [] then Inl ''no SOCKS username''
     else case circuit_lines user (Split status (CHR 0x0A)) ([], []) of
        (general, any) \<Rightarrow> if general \<noteq> [] then Inr general else if any \<noteq> [] then Inr any
          else Inl ''no BUILT circuit for SOCKS user'')"

definition exitForSOCKSUser :: "string \<Rightarrow> string \<Rightarrow> string \<Rightarrow> string result" where
  "exitForSOCKSUser streams circs user =
    (let cid = parseStreamCircuit streams user in
     case (if cid \<noteq> [] then parseCircuitExitByID circs cid else Inl []) of
       Inr fp \<Rightarrow> Inr fp
     | Inl _ \<Rightarrow> parseCircuitExit circs user)"

section \<open>Framing\<close>

text \<open>What tor writes: middle lines and data blocks, then the end line.\<close>

datatype item = Mid string | Data string "string list"

fun render_item :: "item \<Rightarrow> string list" where
  "render_item (Mid t) = [''250-'' @ t @ crlf]"
| "render_item (Data key ls) = (''250+'' @ key @ ''='' @ crlf) # map (\<lambda>l. l @ crlf) ls @ [''.'' @ crlf]"

fun item_text :: "item \<Rightarrow> string" where
  "item_text (Mid t) = t @ line_end"
| "item_text (Data key ls) = concat (map (\<lambda>l. l @ line_end) ls)"

definition no_break :: "string \<Rightarrow> bool" where
  "no_break s \<longleftrightarrow> set s \<inter> set crlf = {}"

fun item_ok :: "item \<Rightarrow> bool" where
  "item_ok (Mid t) \<longleftrightarrow> no_break t"
| "item_ok (Data key ls) \<longleftrightarrow> no_break key \<and> CHR ''='' \<notin> set key \<and> (\<forall>l \<in> set ls. no_break l \<and> l \<noteq> ''.'')"

definition render_reply :: "item list \<Rightarrow> string list" where
  "render_reply items = concat (map render_item items) @ [''250 OK'' @ crlf]"

definition reply_text :: "item list \<Rightarrow> string" where
  "reply_text items = concat (map item_text items)"

lemma TrimRight_end: "set s \<inter> set cs = {} \<Longrightarrow> set t \<subseteq> set cs \<Longrightarrow> TrimRight (s @ t) cs = s"
proof -
  assume s: "set s \<inter> set cs = {}" and t: "set t \<subseteq> set cs"
  have "dropWhile (\<lambda>c. c \<in> set cs) (rev t @ rev s) = dropWhile (\<lambda>c. c \<in> set cs) (rev s)"
    using t by (auto simp: dropWhile_append)
  moreover have "dropWhile (\<lambda>c. c \<in> set cs) (rev s) = rev s"
    using s by (intro dropWhile_id) (metis disjoint_iff hd_in_set set_rev)
  ultimately show ?thesis by (simp add: TrimRight_def)
qed

lemma chomp_crlf [simp]: "no_break s \<Longrightarrow> chomp (s @ crlf) = s"
  unfolding chomp_def no_break_def by (rule TrimRight_end) simp_all

lemma no_break_append [simp]: "no_break (s @ t) \<longleftrightarrow> no_break s \<and> no_break t"
  by (auto simp: no_break_def)

lemma no_break_Cons [simp]: "no_break (c # s) \<longleftrightarrow> c \<noteq> CHR 0x0D \<and> c \<noteq> CHR 0x0A \<and> no_break s" "no_break []"
  by (auto simp: no_break_def)

text \<open>The lines of a reply, in the form the simplifier gives them.\<close>

lemmas chomp_line [simp] =
  chomp_crlf [of "''250-'' @ t" for t, simplified] chomp_crlf [of "''250+'' @ t @ ''=''" for t, simplified]
  chomp_crlf [of "''.''", simplified] chomp_crlf [of "''250 OK''", simplified]

lemma read_data:
  "\<forall>l \<in> set ls. no_break l \<and> l \<noteq> ''.'' \<Longrightarrow>
     read_reply True (map (\<lambda>l. l @ crlf) ls @ (''.'' @ crlf) # rest) b
       = read_reply False rest (b @ concat (map (\<lambda>l. l @ line_end) ls))"
proof (induction ls arbitrary: b)
  case Nil
  have "chomp (''.'' @ crlf) = ''.''" by (rule chomp_crlf) simp
  then show ?case by (simp add: Let_def)
next
  case (Cons l ls)
  have "chomp (l @ crlf) = l" using Cons(2) by (intro chomp_crlf) simp
  then show ?case using Cons by (simp add: Let_def)
qed

lemma IndexByte_first: "c \<notin> set s \<Longrightarrow> IndexByte (s @ c # t) c = Some (length s)"
  unfolding IndexByte_def by (subst find_index_append) auto

lemma read_item:
  assumes "item_ok it"
  shows "read_reply False (render_item it @ rest) b = read_reply False rest (b @ item_text it)"
proof (cases it)
  case (Mid t)
  then show ?thesis using assms by (simp add: Let_def TrimPrefix_def HasPrefix_def)
next
  case (Data key ls)
  have "chomp (''250+'' @ key @ ''='' @ crlf) = ''250+'' @ key @ ''=''" using assms Data by simp
  moreover have "IndexByte (key @ ''='') (CHR ''='') = Some (length key)" using assms Data by (intro IndexByte_first) simp
  ultimately show ?thesis
    using assms Data read_data [of ls rest b] by (simp add: Let_def TrimPrefix_def HasPrefix_def)
qed

lemma read_items:
  "list_all item_ok items \<Longrightarrow>
     read_reply False (render_reply items @ rest) b = (Inr (b @ reply_text items), rest)"
proof (induction items arbitrary: b)
  case Nil
  have "chomp (''250 OK'' @ crlf) = ''250 OK''" by (rule chomp_crlf) simp
  then show ?case by (simp add: render_reply_def reply_text_def Let_def TrimPrefix_def HasPrefix_def)
next
  case (Cons it items)
  have "render_reply (it # items) @ rest = render_item it @ render_reply items @ rest" by (simp add: render_reply_def)
  then show ?case using Cons read_item [of it "render_reply items @ rest" b] by (simp add: reply_text_def)
qed

section \<open>The exit of a SOCKS user, declaratively\<close>

definition info_lines :: "string \<Rightarrow> string \<Rightarrow> string list" where
  "info_lines key status = map (\<lambda>raw. stripInfoKey raw key) (Split status (CHR 0x0A))"

text \<open>A stream of the user that is or was attached to a circuit.\<close>

definition carries :: "string \<Rightarrow> string \<Rightarrow> bool" where
  "carries user l \<longleftrightarrow> l \<noteq> [] \<and> stream_uses user l \<and> 3 \<le> length (Fields l) \<and> Fields l ! 2 \<noteq> ''0''
     \<and> Fields l ! 1 \<in> set [''SUCCEEDED'', ''CLOSED'', ''FAILED'', ''DETACHED'', ''SENTCONNECT'']"

definition built_id :: "string \<Rightarrow> string \<Rightarrow> bool" where
  "built_id cid l \<longleftrightarrow> 2 \<le> length (Fields l) \<and> Fields l ! 0 = cid \<and> Fields l ! 1 = ''BUILT'' \<and> lastHopFingerprint l \<noteq> []"

definition built_for :: "string \<Rightarrow> string \<Rightarrow> bool" where
  "built_for user l \<longleftrightarrow> l \<noteq> [] \<and> Contains l ''BUILT'' \<and> circuitSOCKSUser l = user \<and> lastHopFingerprint l \<noteq> []"

definition general_purpose :: "string \<Rightarrow> bool" where
  "general_purpose l \<longleftrightarrow> Contains l ''PURPOSE=GENERAL'' \<or> \<not> Contains l ''PURPOSE=''"

lemma stream_lines_last:
  "stream_lines user raws c = last (c # map (\<lambda>l. Fields l ! 2) (filter (carries user) (map (\<lambda>r. stripInfoKey r ''stream-status'') raws)))"
  by (induction user raws c rule: stream_lines.induct) (auto simp: Let_def carries_def)

lemma circuit_by_id_first:
  "circuit_by_id cid raws = (case filter (built_id cid) (map (\<lambda>r. stripInfoKey r ''circuit-status'') raws) of
     [] \<Rightarrow> None | l # _ \<Rightarrow> Some (lastHopFingerprint l))"
  by (induction cid raws rule: circuit_by_id.induct) (auto simp: Let_def built_id_def)

lemma circuit_lines_last:
  "circuit_lines user raws (g, a) =
     (let ls = filter (built_for user) (map (\<lambda>r. stripInfoKey r ''circuit-status'') raws) in
      (last (g # map lastHopFingerprint (filter general_purpose ls)), last (a # map lastHopFingerprint ls)))"
proof (induction raws arbitrary: g a)
  case (Cons raw rest)
  let ?l = "stripInfoKey raw ''circuit-status''"
  have "circuit_lines user (raw # rest) (g, a) = (if built_for user ?l
      then circuit_lines user rest (if general_purpose ?l then lastHopFingerprint ?l else g, lastHopFingerprint ?l)
      else circuit_lines user rest (g, a))"
    unfolding built_for_def general_purpose_def by (simp only: circuit_lines.simps Let_def fst_conv split: if_split) blast
  then show ?case
    by (cases "built_for user ?l"; cases "general_purpose ?l") (simp_all only: Cons if_True if_False Let_def filter.simps list.map last.simps, simp_all)
qed simp

lemma hop_shape: "hopFingerprintRe s = Some (v, n) \<Longrightarrow> length v = 40 \<and> list_all is_hex v"
  by (auto simp: hopFingerprintRe_def split: if_splits)

lemma lastHop_shape:
  assumes "lastHopFingerprint l \<noteq> []"
  shows "length (lastHopFingerprint l) = 40"
proof -
  let ?h = "scan_all hopFingerprintRe 0 l"
  have n: "?h \<noteq> []" using assms by (auto simp: lastHopFingerprint_def Let_def)
  then have "last ?h \<in> set ?h" by simp
  from scan_all_mem [OF this] obtain t k where "hopFingerprintRe t = Some (last ?h, k)" by blast
  then have "length (last ?h) = 40" using hop_shape by blast
  then show ?thesis using n by (simp add: lastHopFingerprint_def Let_def ToUpper_def)
qed

lemma exit_is_hop:
  assumes "exitForSOCKSUser streams circs user = Inr fp"
  obtains l where "fp = lastHopFingerprint l" "fp \<noteq> []"
proof -
  let ?ls = "map (\<lambda>r. stripInfoKey r ''circuit-status'') (Split circs (CHR 0x0A))"
  consider cid where "circuit_by_id cid (Split circs (CHR 0x0A)) = Some fp" | "parseCircuitExit circs user = Inr fp"
    using assms by (auto simp: exitForSOCKSUser_def Let_def parseCircuitExitByID_def split: sum.splits option.splits if_splits)
  then show ?thesis
  proof cases
    case 1
    then obtain l ls where l: "filter (built_id cid) ?ls = l # ls" "fp = lastHopFingerprint l"
      by (auto simp: circuit_by_id_first split: list.splits)
    then have "l \<in> set (filter (built_id cid) ?ls)" by simp
    then show ?thesis using that l(2) by (auto simp: built_id_def)
  next
    case 2
    let ?h = "map lastHopFingerprint (filter (built_for user) ?ls)"
    let ?g = "map lastHopFingerprint (filter general_purpose (filter (built_for user) ?ls))"
    have "(fp = last ([] # ?g) \<or> fp = last ([] # ?h)) \<and> fp \<noteq> []"
      using 2 by (auto simp: parseCircuitExit_def circuit_lines_last Let_def split: if_splits)
    moreover have "last ([] # xs) \<in> set xs" if "last ([] # xs) \<noteq> []" for xs :: "string list"
      using that by (cases xs) auto
    ultimately have "fp \<in> set ?g \<or> fp \<in> set ?h" by metis
    then show ?thesis using that \<open>_ \<and> fp \<noteq> []\<close> by auto
  qed
qed

lemma lastHop_upper: "ToUpper (lastHopFingerprint l) = lastHopFingerprint l"
  by (simp add: lastHopFingerprint_def Let_def) (simp add: ToUpper_def)

lemma is_hex_upper: "is_hex c \<Longrightarrow> is_hex (upper_char c)"
  by (auto simp: is_hex_def upper_char_def Let_def)

lemma lastHop_hex:
  assumes "lastHopFingerprint l \<noteq> []"
  shows "list_all is_hex (lastHopFingerprint l)"
proof -
  let ?h = "scan_all hopFingerprintRe 0 l"
  have n: "?h \<noteq> []" using assms by (auto simp: lastHopFingerprint_def Let_def)
  then have "last ?h \<in> set ?h" by simp
  from scan_all_mem [OF this] obtain t k where "hopFingerprintRe t = Some (last ?h, k)" by blast
  then have "list_all is_hex (last ?h)" using hop_shape by blast
  then show ?thesis using n by (auto simp: lastHopFingerprint_def Let_def ToUpper_def list_all_iff is_hex_upper)
qed

lemma is_hex_plain: "is_hex c \<Longrightarrow> \<not> is_space c" "is_hex c \<Longrightarrow> c \<noteq> CHR ''$''"
  by (auto simp: is_hex_def is_space_def)

section \<open>Properties\<close>



text \<open>
  Which exit a session is pinned to. \<open>exitForSOCKSUser\<close> takes the first BUILT circuit with the number of the
  last attached stream of the user, if there is one; otherwise the last general-purpose BUILT circuit of the user, then the
  last of any purpose; an exit is always a fingerprint of 40 digits.
\<close>

theorem tor_exit_choice:
  "exitForSOCKSUser streams circs user =
    (let used = map (\<lambda>l. Fields l ! 2) (filter (carries user) (info_lines ''stream-status'' streams));
         ls = info_lines ''circuit-status'' circs;
         byid = (if used = [] \<or> last used = [] then [] else filter (built_id (last used)) ls);
         mine = filter (built_for user) ls;
         gen = filter general_purpose mine in
     if user = [] then Inl ''no SOCKS username''
     else if byid \<noteq> [] then Inr (lastHopFingerprint (hd byid))
     else if gen \<noteq> [] then Inr (lastHopFingerprint (last gen))
     else if mine \<noteq> [] then Inr (lastHopFingerprint (last mine))
     else Inl ''no BUILT circuit for SOCKS user'')
   \<and> (\<forall>fp. exitForSOCKSUser streams circs user = Inr fp \<longrightarrow> length fp = 40)"
proof -
  define used where "used = map (\<lambda>l. Fields l ! 2) (filter (carries user) (info_lines ''stream-status'' streams))"
  define ls where "ls = info_lines ''circuit-status'' circs"
  define mine where "mine = filter (built_for user) ls"
  define gen where "gen = filter general_purpose mine"
  define byid where "byid = (if used = [] \<or> last used = [] then [] else filter (built_id (last used)) ls)"
  have u: "parseStreamCircuit streams user = (if user = [] then [] else last ([] # used))"
    by (simp add: parseStreamCircuit_def stream_lines_last info_lines_def used_def)
  have b: "parseCircuitExitByID circs cid = (if cid = [] then Inl ''no circuit id'' else case filter (built_id cid) ls of
      [] \<Rightarrow> Inl (''no BUILT circuit '' @ cid) | l # _ \<Rightarrow> Inr (lastHopFingerprint l))" for cid
    by (simp add: parseCircuitExitByID_def circuit_by_id_first info_lines_def ls_def split: list.splits)
  have ne: "lastHopFingerprint (last mine) \<noteq> []" if "mine \<noteq> []"
    using last_in_set [OF that] by (auto simp: built_for_def mine_def)
  have neg: "lastHopFingerprint (last gen) \<noteq> []" if "gen \<noteq> []"
    using last_in_set [OF that] by (auto simp: built_for_def mine_def gen_def)
  have neb: "lastHopFingerprint (hd byid) \<noteq> []" if "byid \<noteq> []"
    using hd_in_set [OF that] by (auto simp: built_id_def byid_def split: if_splits)
  have "circuit_lines user (Split circs (CHR 0x0A)) ([], [])
      = (last ([] # map lastHopFingerprint gen), last ([] # map lastHopFingerprint mine))"
    by (simp add: circuit_lines_last Let_def gen_def mine_def ls_def info_lines_def)
  then have c: "parseCircuitExit circs user = (if user = [] then Inl ''no SOCKS username''
      else if gen \<noteq> [] then Inr (lastHopFingerprint (last gen)) else if mine \<noteq> [] then Inr (lastHopFingerprint (last mine))
      else Inl ''no BUILT circuit for SOCKS user'')"
    using ne neg by (simp add: parseCircuitExit_def last_map)
  have eq: "exitForSOCKSUser streams circs user =
    (if user = [] then Inl ''no SOCKS username'' else if byid \<noteq> [] then Inr (lastHopFingerprint (hd byid))
     else if gen \<noteq> [] then Inr (lastHopFingerprint (last gen)) else if mine \<noteq> [] then Inr (lastHopFingerprint (last mine))
     else Inl ''no BUILT circuit for SOCKS user'')"
  proof (cases "user = [] \<or> used = [] \<or> last used = []")
    case True
    moreover have "parseCircuitExit circs [] = Inl ''no SOCKS username''" "parseStreamCircuit streams [] = []"
      by (simp_all add: parseCircuitExit_def parseStreamCircuit_def)
    ultimately show ?thesis by (cases "user = []") (auto simp: exitForSOCKSUser_def u c byid_def Let_def)
  next
    case False
    then have "byid = filter (built_id (last used)) ls" by (simp add: byid_def)
    with False have "parseCircuitExitByID circs (last used) = (case byid of
        [] \<Rightarrow> Inl (''no BUILT circuit '' @ last used) | l # _ \<Rightarrow> Inr (lastHopFingerprint l))" by (simp add: b)
    then show ?thesis using False by (cases byid) (simp_all add: exitForSOCKSUser_def u c Let_def)
  qed
  have "length fp = 40" if "exitForSOCKSUser streams circs user = Inr fp" for fp
    using that lastHop_shape ne neg neb unfolding eq by (auto split: if_splits)
  then show ?thesis
    using eq by (simp only: Let_def used_def [symmetric] ls_def [symmetric] mine_def [symmetric] gen_def [symmetric]
        byid_def [symmetric]) simp
qed

end
