(* ===== verification/Tor_Daemon.thy ===== *)
theory Tor_Daemon
  imports Tor_Control
begin

text \<open>
  One local tor process: \<open>Daemon\<close> of \<open>src/routing/tor/daemon.go\<close>. Starting it (session directory, torrc,
  control connection, authentication, bootstrap), pinning its exit, and stopping it.

  What the machine answers is a parameter of each call: the loops that wait read one observation per turn
  (the context's error, whether the process has exited, what a dial or a read returned), and the end of the
  list is the deadline of the loop. Log lines are left out.
\<close>

section \<open>Waiting\<close>

text \<open>One turn of \<open>dialControl\<close>: the dial of the socket or of the port in the port file.\<close>

record dial_try =
  dt_ctx :: "gerr option"
  dt_exited :: "gerr option"
  dt_dial :: "gerr + peer"

fun dialControl :: "dial_try list \<Rightarrow> gerr option \<Rightarrow> gerr + peer" where
  "dialControl [] prev = Inl (case prev of None \<Rightarrow> ''timed out'' | Some e \<Rightarrow> e)"
| "dialControl (t # ts) prev =
    (case dt_ctx t of Some e \<Rightarrow> Inl e
     | None \<Rightarrow> (case dt_exited t of Some e \<Rightarrow> Inl e
       | None \<Rightarrow> (case dt_dial t of Inr p \<Rightarrow> Inr p | Inl e \<Rightarrow> dialControl ts (Some e))))"

text \<open>\<open>readControlPortFile\<close> (Windows), given the bytes of the file.\<close>

definition readControlPortFile :: "string result \<Rightarrow> string result" where
  "readControlPortFile file = (case file of Inl e \<Rightarrow> Inl e
     | Inr b \<Rightarrow> (case SplitHostPort (TrimSpace (TrimPrefix (TrimSpace b) ''PORT='')) of
         Inl e \<Rightarrow> Inl e
       | Inr (host, port) \<Rightarrow>
           if host \<noteq> ''127.0.0.1'' \<and> host \<noteq> ''::1'' then Inl (''unexpected control host '' @ host) else Inr port))"

definition cookieLen :: nat where "cookieLen = 32"

text \<open>One turn of \<open>waitAuthCookie\<close>: the file read twice, 50 ms apart.\<close>

record cookie_read =
  cr_ctx :: "gerr option"
  cr_first :: "byte list result"
  cr_second :: "byte list result"

fun waitAuthCookie :: "cookie_read list \<Rightarrow> gerr option \<Rightarrow> byte list result" where
  "waitAuthCookie [] prev = Inl (case prev of None \<Rightarrow> ''timed out'' | Some e \<Rightarrow> e)"
| "waitAuthCookie (r # rs) prev =
    (case cr_ctx r of Some e \<Rightarrow> Inl e
     | None \<Rightarrow> (case cr_first r of
         Inl e \<Rightarrow> waitAuthCookie rs (Some e)
       | Inr b \<Rightarrow>
          if length b \<noteq> cookieLen then
            waitAuthCookie rs (Some (''cookie length '' @ itoa_nat (length b) @ '', want '' @ itoa_nat cookieLen))
          else if cr_second r = Inr b then Inr b
          else waitAuthCookie rs (Some ''control cookie still being written'')))"

section \<open>The daemon\<close>

record Daemon =
  dm_Binary :: string
  dm_DataDir :: string
  dm_SocksAddr :: string
  dm_cmd :: bool
  dm_running :: bool
  dm_ctrl :: "(peer \<times> conn) option"
  dm_stopped :: bool
  dm_pinned :: string

text \<open>One attempt to authenticate, and one look at the bootstrap.\<close>

record attempt =
  at_exited :: "gerr option"
  at_dials :: "dial_try list"
  at_cookie :: "string \<Rightarrow> cookie_read list"
  at_exitedThen :: "gerr option"

record poll =
  po_ctx :: "gerr option"
  po_exited :: "gerr option"
  po_done :: "gerr option"

record tenv =
  te_reset :: "gerr option"
  te_writeTorrc :: "gerr option"
  te_openLog :: "gerr option"
  te_prepare :: "gerr option"
  te_start :: "gerr option"
  te_attempt :: "nat \<Rightarrow> attempt"
  te_polls :: "poll list"
  te_deadline :: gerr
  te_stderr :: string
  te_windows :: bool
  te_pid :: int
  te_geoip :: "string option"
  te_geoip6 :: "string option"

definition slash :: "string \<Rightarrow> string" where
  "slash p = map (\<lambda>c. if c = CHR 0x5C then CHR ''/'' else c) p"

definition quotePath :: "bool \<Rightarrow> string \<Rightarrow> string" where
  "quotePath windows p = quote # (if windows then slash p else p) @ [quote]"

definition session_dir :: "Daemon \<Rightarrow> string" where
  "session_dir d = dm_DataDir d @ ''/session''"

definition torrc :: "tenv \<Rightarrow> string \<Rightarrow> string list" where
  "torrc e session =
    (let q = quotePath (te_windows e) in
     [''DataDirectory '' @ q session,
      ''SocksPort auto IsolateSOCKSAuth KeepAliveIsolateSOCKSAuth NoIsolateDestAddr NoIsolateDestPort NoIsolateClientAddr'',
      ''MaxCircuitDirtiness 2592000'', ''CircuitIdleTimeout 2592000'', ''CookieAuthentication 1'',
      ''CookieAuthFile '' @ q (session @ ''/control_auth_cookie''), ''AvoidDiskWrites 1'', ''SafeLogging 1'',
      ''Log notice stdout'', ''__OwningControllerProcess '' @ Itoa (te_pid e)]
     @ (if te_windows e then [''ControlPort auto'', ''ControlPortWriteToFile '' @ q (session @ ''/control.port'')]
        else [''ControlPort unix:'' @ q (session @ ''/control'')])
     @ (case te_geoip e of None \<Rightarrow> [] | Some p \<Rightarrow> [''GeoIPFile '' @ q p])
     @ (case te_geoip6 e of None \<Rightarrow> [] | Some p \<Rightarrow> [''GeoIPv6File '' @ q p]))"

definition withLibPath :: "string \<Rightarrow> string list \<Rightarrow> string \<Rightarrow> string list" where
  "withLibPath sep env dir =
    (let ld = ''LD_LIBRARY_PATH=''; dy = ''DYLD_LIBRARY_PATH='' in
     map (\<lambda>e. if HasPrefix e ld then ld @ dir @ sep @ TrimPrefix e ld
              else if HasPrefix e dy then dy @ dir @ sep @ TrimPrefix e dy else e) env
     @ (if list_ex (\<lambda>e. HasPrefix e ld) env then [] else [ld @ dir])
     @ (if list_ex (\<lambda>e. HasPrefix e dy) env then [] else [dy @ dir])
     @ [''DYLD_FALLBACK_LIBRARY_PATH='' @ dir])"

definition tailFile :: "string \<Rightarrow> nat \<Rightarrow> string" where
  "tailFile b n = TrimSpace (if length b > n then drop (length b - n) b else b)"

definition daemon_fail :: "tenv \<Rightarrow> string \<Rightarrow> gerr" where
  "daemon_fail e msg = (let tail = tailFile (te_stderr e) 2048 in if tail \<noteq> [] then msg @ line_end @ tail else msg)"

definition new_conn :: conn where
  "new_conn = \<lparr>cn_sent = [], cn_pending = []\<rparr>"

definition cookie_path :: "string \<Rightarrow> string result \<Rightarrow> string" where
  "cookie_path fallback info = (case info of Inl _ \<Rightarrow> fallback
     | Inr i \<Rightarrow> if parseCookieFile i \<noteq> [] then parseCookieFile i else fallback)"

definition authenticate :: "byte list \<Rightarrow> string" where
  "authenticate cookie = ''AUTHENTICATE '' @ EncodeToString cookie"

text \<open>The authentication loop of \<open>waitBootstrap\<close>: a fatal message, or the connection, if any, and the latest error.\<close>

fun auth_loop :: "string \<Rightarrow> attempt list \<Rightarrow> gerr option \<Rightarrow> gerr + ((peer \<times> conn) option \<times> gerr option)" where
  "auth_loop fallback [] prev = Inr (None, prev)"
| "auth_loop fallback (a # as) prev =
    (case at_exited a of Some x \<Rightarrow> Inl (''tor exited before control cookie appeared: '' @ x)
     | None \<Rightarrow> (case dialControl (at_dials a) None of
         Inl x \<Rightarrow> Inl (''tor control port did not open: '' @ x)
       | Inr tor \<Rightarrow>
          (case controlCmd tor ''PROTOCOLINFO 1'' new_conn of (info, c1) \<Rightarrow>
           (case waitAuthCookie (at_cookie a (cookie_path fallback info)) None of
              Inl x \<Rightarrow> (case at_exitedThen a of
                  Some y \<Rightarrow> Inl (''tor exited before control cookie appeared: '' @ y)
                | None \<Rightarrow> auth_loop fallback as (Some x))
            | Inr cookie \<Rightarrow>
               (case controlCmd tor (authenticate cookie) c1 of
                  (Inl x, _) \<Rightarrow> if \<not> authCookieMismatch x then Inl (''tor authenticate: '' @ x)
                                else auth_loop fallback as (Some x)
                | (Inr _, c2) \<Rightarrow> Inr (Some (tor, c2), None))))))"

fun bootstrap_loop :: "poll list \<Rightarrow> gerr \<Rightarrow> peer \<Rightarrow> conn \<Rightarrow> gerr option \<times> conn" where
  "bootstrap_loop [] deadline tor c = (Some (''tor bootstrap: '' @ deadline), c)"
| "bootstrap_loop (p # ps) deadline tor c =
    (case po_ctx p of Some x \<Rightarrow> (Some (''tor bootstrap: '' @ x), c)
     | None \<Rightarrow> (case po_exited p of Some x \<Rightarrow> (Some (''tor exited during bootstrap: '' @ x), c)
       | None \<Rightarrow> (case controlCmd tor ''GETINFO status/bootstrap-phase'' c of
           (Inl x, c1) \<Rightarrow> (Some (''tor bootstrap: '' @ x), c1)
         | (Inr out, c1) \<Rightarrow>
             if Contains out ''PROGRESS=100'' then (None, c1)
             else (case po_done p of Some x \<Rightarrow> (Some (''tor bootstrap: '' @ x), c1)
               | None \<Rightarrow> bootstrap_loop ps deadline tor c1))))"

definition authAttempts :: nat where "authAttempts = 8"

definition set_ctrl :: "peer \<Rightarrow> conn \<Rightarrow> Daemon \<Rightarrow> Daemon" where
  "set_ctrl tor c d = d\<lparr>dm_ctrl := Some (tor, c)\<rparr>"

definition waitBootstrap :: "tenv \<Rightarrow> Daemon \<Rightarrow> gerr option \<times> Daemon" where
  "waitBootstrap e d =
    (case auth_loop (session_dir d @ ''/control_auth_cookie'') (map (te_attempt e) [0..<authAttempts]) None of
       Inl x \<Rightarrow> (Some (daemon_fail e x), d)
     | Inr (got, prev) \<Rightarrow>
        (let d1 = (case got of None \<Rightarrow> d | Some (tor, c) \<Rightarrow> set_ctrl tor c d) in
         case dm_ctrl d1 of
           None \<Rightarrow> (Some (daemon_fail e (''tor authenticate: '' @ (case prev of None \<Rightarrow> ''no control connection'' | Some x \<Rightarrow> x))), d1)
         | Some (tor, c) \<Rightarrow>
            (case controlCmd tor ''GETINFO net/listeners/socks'' c of
               (Inl x, c1) \<Rightarrow> (Some (daemon_fail e (''tor socks listener: '' @ x)), set_ctrl tor c1 d1)
             | (Inr socks, c1) \<Rightarrow> (case parseSocksListener socks of
                   Inl x \<Rightarrow> (Some (daemon_fail e (''tor socks listener: '' @ x @ '' (got '' @ Quote socks @ '')'')), set_ctrl tor c1 d1)
                 | Inr addr \<Rightarrow> (case bootstrap_loop (te_polls e) (te_deadline e) tor c1 of
                     (res, c2) \<Rightarrow> (map_option (daemon_fail e) res, (set_ctrl tor c2 d1)\<lparr>dm_SocksAddr := addr\<rparr>))))))"

definition daemon_Start :: "tenv \<Rightarrow> Daemon \<Rightarrow> gerr option \<times> Daemon" where
  "daemon_Start e d =
    (if dm_cmd d then (None, d)
     else case te_reset e of Some x \<Rightarrow> (Some x, d)
     | None \<Rightarrow> (case te_writeTorrc e of Some x \<Rightarrow> (Some x, d)
     | None \<Rightarrow> (case te_openLog e of Some x \<Rightarrow> (Some x, d)
     | None \<Rightarrow> (case te_prepare e of Some x \<Rightarrow> (Some (''prepare tor: '' @ x), d)
     | None \<Rightarrow> (case te_start e of Some x \<Rightarrow> (Some (''start tor: '' @ x), d)
     | None \<Rightarrow> (case waitBootstrap e (d\<lparr>dm_cmd := True, dm_running := True\<rparr>) of
           (Some x, d1) \<Rightarrow> (Some x, d1\<lparr>dm_cmd := False, dm_running := False\<rparr>)
         | (None, d1) \<Rightarrow> (None, d1)))))))"

section \<open>Pinning the exit\<close>

definition control_down :: gerr where "control_down = ''tor control connection is down''"

text \<open>A command on the daemon's connection, which must be there.\<close>

definition daemon_cmd :: "string \<Rightarrow> Daemon \<Rightarrow> string result \<times> Daemon" where
  "daemon_cmd cmd d = (case dm_ctrl d of
      None \<Rightarrow> (Inl control_down, d)
    | Some (tor, c) \<Rightarrow> (case controlCmd tor cmd c of (r, c1) \<Rightarrow> (r, set_ctrl tor c1 d)))"

definition Newnym :: "Daemon \<Rightarrow> gerr option \<times> Daemon" where
  "Newnym d = (case daemon_cmd ''SIGNAL NEWNYM'' d of (Inl x, d1) \<Rightarrow> (Some x, d1) | (Inr _, d1) \<Rightarrow> (None, d1))"

definition norm_fp :: "string \<Rightarrow> string" where
  "norm_fp fp = TrimPrefix (ToUpper (TrimSpace fp)) ''$''"

definition setconf :: "string \<Rightarrow> string" where
  "setconf fp = ''SETCONF ExitNodes='' @ [quote] @ ''$'' @ fp @ [quote] @ '' StrictNodes=1''"

definition applyExitPin :: "string \<Rightarrow> Daemon \<Rightarrow> gerr option \<times> Daemon" where
  "applyExitPin fp0 d =
    (let fp = norm_fp fp0 in
     if fp = [] then (Some ''empty exit fingerprint'', d)
     else case daemon_cmd (setconf fp) d of
       (Inl x, d1) \<Rightarrow> (Some x, d1)
     | (Inr _, d1) \<Rightarrow> (case daemon_cmd ''GETCONF ExitNodes'' d1 of
         (Inl x, d2) \<Rightarrow> (Some x, d2)
       | (Inr got, d2) \<Rightarrow>
           if \<not> Contains (ToUpper got) fp then
             (Some (''exit pin did not stick (got '' @ Quote (TrimSpace got) @ '')''), d2)
           else (None, d2\<lparr>dm_pinned := fp\<rparr>)))"

definition setPinned :: "string \<Rightarrow> Daemon \<Rightarrow> gerr option \<times> Daemon" where
  "setPinned fp0 d =
    (let fp = norm_fp fp0; d1 = d\<lparr>dm_pinned := fp\<rparr> in
     if fp = [] then (None, d1)
     else if dm_ctrl d1 = None then (Some control_down, d1)
     else applyExitPin fp d1)"

definition ReapplyPin :: "Daemon \<Rightarrow> gerr option \<times> Daemon" where
  "ReapplyPin d = setPinned (dm_pinned d) d"

definition SetPinnedExit :: "string \<Rightarrow> Daemon \<Rightarrow> gerr option \<times> Daemon" where
  "SetPinnedExit fp d = setPinned fp d"

definition pinSOCKSUserOnce :: "string \<Rightarrow> Daemon \<Rightarrow> gerr option \<times> Daemon" where
  "pinSOCKSUserOnce user d = (case daemon_cmd ''GETINFO stream-status'' d of
      (Inl x, d1) \<Rightarrow> (Some x, d1)
    | (Inr streams, d1) \<Rightarrow> (case daemon_cmd ''GETINFO circuit-status'' d1 of
        (Inl x, d2) \<Rightarrow> (Some x, d2)
      | (Inr circs, d2) \<Rightarrow> (case exitForSOCKSUser streams circs user of
          Inl x \<Rightarrow> (Some x, d2)
        | Inr fp \<Rightarrow> applyExitPin fp d2)))"

text \<open>The turns of \<open>PinSOCKSUser\<close>; each sees the context before the attempt and in the wait after it.\<close>

fun pin_loop :: "(gerr option \<times> gerr option) list \<Rightarrow> string \<Rightarrow> gerr option \<Rightarrow> Daemon \<Rightarrow> gerr option \<times> Daemon" where
  "pin_loop [] user prev d = (prev, d)"
| "pin_loop ((before, after) # obs) user prev d =
    (case before of Some x \<Rightarrow> (Some x, d)
     | None \<Rightarrow> (case pinSOCKSUserOnce user d of
         (None, d1) \<Rightarrow> (None, d1)
       | (Some x, d1) \<Rightarrow> (case after of Some y \<Rightarrow> (Some y, d1) | None \<Rightarrow> pin_loop obs user (Some x) d1)))"

definition pinAttempts :: nat where "pinAttempts = 8"

definition PinSOCKSUser :: "(nat \<Rightarrow> gerr option \<times> gerr option) \<Rightarrow> string \<Rightarrow> Daemon \<Rightarrow> gerr option \<times> Daemon" where
  "PinSOCKSUser ctx user d =
    (if user = [] then (Some ''pin exit: empty SOCKS username'', d)
     else pin_loop (map ctx [0..<pinAttempts]) user None d)"

definition daemon_Stop :: "Daemon \<Rightarrow> Daemon" where
  "daemon_Stop d =
    (if dm_stopped d then d
     else let d1 = d\<lparr>dm_stopped := True\<rparr>;
              d2 = (snd (daemon_cmd ''SIGNAL SHUTDOWN'' d1))\<lparr>dm_ctrl := None\<rparr> in
          if dm_cmd d2 then d2\<lparr>dm_running := False\<rparr> else d2)"

section \<open>Starting\<close>

lemma waitAuthCookie_ok:
  "waitAuthCookie rs prev = Inr b \<Longrightarrow> length b = cookieLen \<and> (\<exists>r \<in> set rs. cr_first r = Inr b \<and> cr_second r = Inr b)"
  by (induction rs arbitrary: prev) (auto split: option.splits sum.splits if_splits)

lemma controlCmd_sent: "controlCmd tor cmd c = (Inr x, c') \<Longrightarrow> cn_sent c' = cn_sent c @ [cmd]"
  by (auto simp: controlCmd_def Let_def split: sum.splits prod.splits)

lemma controlCmd_mono: "controlCmd tor cmd c = (r, c') \<Longrightarrow> set (cn_sent c) \<subseteq> set (cn_sent c')"
  by (auto simp: controlCmd_def Let_def split: sum.splits prod.splits)

definition authenticated :: "conn \<Rightarrow> bool" where
  "authenticated c \<longleftrightarrow> (\<exists>cookie. length cookie = cookieLen \<and> authenticate cookie \<in> set (cn_sent c))"

lemma authenticatedI: "length cookie = cookieLen \<Longrightarrow> controlCmd tor (authenticate cookie) c = (Inr x, c') \<Longrightarrow> authenticated c'"
  using controlCmd_sent unfolding authenticated_def by fastforce

lemma authenticated_mono: "authenticated c \<Longrightarrow> controlCmd tor cmd c = (r, c') \<Longrightarrow> authenticated c'"
  using controlCmd_mono unfolding authenticated_def by blast

lemma auth_loop_ok: "auth_loop fb as prev = Inr (Some (tor, c), l) \<Longrightarrow> authenticated c"
proof (induction as arbitrary: prev)
  case (Cons a as)
  then show ?case
    by (auto split: option.splits sum.splits prod.splits if_splits dest: waitAuthCookie_ok intro: authenticatedI)
qed simp

lemma bootstrap_loop_ok:
  "bootstrap_loop ps dl tor c = (r, c') \<Longrightarrow> authenticated c \<Longrightarrow> authenticated c'
     \<and> (r = None \<longrightarrow> (\<exists>c1 out. controlCmd tor ''GETINFO status/bootstrap-phase'' c1 = (Inr out, c') \<and> Contains out ''PROGRESS=100''))"
proof (induction ps arbitrary: c)
  case (Cons p ps)
  obtain x c1 where q: "controlCmd tor ''GETINFO status/bootstrap-phase'' c = (x, c1)" by fastforce
  have a: "authenticated c1" using authenticated_mono [OF Cons(3) q] .
  consider "(\<exists>y. po_ctx p = Some y) \<or> po_ctx p = None \<and> (\<exists>y. po_exited p = Some y)"
    | y where "po_ctx p = None" "po_exited p = None" "x = Inl y"
    | out where "po_ctx p = None" "po_exited p = None" "x = Inr out" "Contains out ''PROGRESS=100''"
    | out y where "po_ctx p = None" "po_exited p = None" "x = Inr out" "\<not> Contains out ''PROGRESS=100''" "po_done p = Some y"
    | out where "po_ctx p = None" "po_exited p = None" "x = Inr out" "\<not> Contains out ''PROGRESS=100''" "po_done p = None"
    by (cases "po_ctx p"; cases "po_exited p"; cases x; cases "po_done p") auto
  then show ?case
  proof cases
    case 5
    then show ?thesis using Cons(1) [of c1] Cons(2) q a by simp
  qed (use Cons(2,3) q a in auto)
qed auto

text \<open>The addresses \<open>parseSocksListener\<close> can return.\<close>

definition loopback :: "string \<Rightarrow> bool" where
  "loopback a \<longleftrightarrow> (\<exists>ds. ds \<noteq> [] \<and> list_all is_digit ds \<and> (a = ''127.0.0.1:'' @ ds \<or> a = ''[::1]:'' @ ds))"

lemma parseSocksListener_loopback:
  assumes "parseSocksListener info = Inr a"
  shows "loopback a"
proof -
  have "a \<in> set (parseSocksListeners info)" using assms by (auto simp: parseSocksListener_def split: list.splits)
  then obtain p t n where "socksListenerRe t = Some (a, n)"
    using scan_all_mem [of a socksListenerRe 0 info] unfolding parseSocksListeners_def by blast
  moreover have "list_all is_digit (takeWhile is_digit u)" for u
    by (auto simp: list_all_iff dest: set_takeWhileD)
  ultimately show ?thesis by (auto simp: socksListenerRe_def loopback_def Let_def split: if_splits)
qed

lemma waitBootstrap_ok:
  assumes "waitBootstrap e d = (r, d')" "dm_ctrl d = None"
  shows "dm_pinned d' = dm_pinned d \<and> dm_cmd d' = dm_cmd d \<and> dm_running d' = dm_running d \<and> dm_stopped d' = dm_stopped d
    \<and> (r = None \<longrightarrow> loopback (dm_SocksAddr d') \<and> (\<exists>tor c c1 out. dm_ctrl d' = Some (tor, c) \<and> authenticated c
         \<and> controlCmd tor ''GETINFO status/bootstrap-phase'' c1 = (Inr out, c) \<and> Contains out ''PROGRESS=100''))"
proof (cases "auth_loop (session_dir d @ ''/control_auth_cookie'') (map (te_attempt e) [0..<authAttempts]) None")
  case (Inl x)
  then show ?thesis using assms by (auto simp: waitBootstrap_def)
next
  case (Inr gl)
  obtain got l where gl: "gl = (got, l)" by fastforce
  show ?thesis
  proof (cases got)
    case None
    then show ?thesis using assms Inr gl by (auto simp: waitBootstrap_def)
  next
    case (Some tc)
    obtain tor c where tc: "tc = (tor, c)" by fastforce
    have au: "authenticated c" using auth_loop_ok Inr gl Some tc by blast
    obtain s c1 where g: "controlCmd tor ''GETINFO net/listeners/socks'' c = (s, c1)" by fastforce
    have au1: "authenticated c1" using authenticated_mono [OF au g] .
    show ?thesis
    proof (cases s)
      case (Inl x)
      then show ?thesis using assms Inr gl Some tc g by (auto simp: waitBootstrap_def set_ctrl_def)
    next
      case socks: (Inr socks)
      show ?thesis
      proof (cases "parseSocksListener socks")
        case (Inl x)
        then show ?thesis using assms Inr gl Some tc g socks by (auto simp: waitBootstrap_def set_ctrl_def)
      next
        case addr: (Inr addr)
        obtain res c2 where b: "bootstrap_loop (te_polls e) (te_deadline e) tor c1 = (res, c2)" by fastforce
        have "r = map_option (daemon_fail e) res" "d' = (set_ctrl tor c2 (set_ctrl tor c d))\<lparr>dm_SocksAddr := addr\<rparr>"
          using assms Inr gl Some tc g socks addr b by (auto simp: waitBootstrap_def set_ctrl_def Let_def)
        then show ?thesis
          using bootstrap_loop_ok [OF b au1] parseSocksListener_loopback [OF addr] by (auto simp: set_ctrl_def)
      qed
    qed
  qed
qed

lemma daemon_Start_cases:
  assumes "daemon_Start e d = (r, d')" "\<not> dm_cmd d"
  shows "(\<exists>x. r = Some x \<and> d' = d) \<or> (\<exists>d1. waitBootstrap e (d\<lparr>dm_cmd := True, dm_running := True\<rparr>) = (r, d1)
      \<and> d' = (if r = None then d1 else d1\<lparr>dm_cmd := False, dm_running := False\<rparr>))"
  using assms by (auto simp: daemon_Start_def split: option.splits prod.splits)

section \<open>Pinning\<close>

lemma daemon_cmd_ok:
  "daemon_cmd cmd d = (Inr x, d') \<Longrightarrow> \<exists>tor c c'. dm_ctrl d = Some (tor, c) \<and> d' = set_ctrl tor c' d \<and> controlCmd tor cmd c = (Inr x, c')"
  by (auto simp: daemon_cmd_def split: option.splits prod.splits)

lemma daemon_cmd_frame:
  "daemon_cmd cmd d = (r, d') \<Longrightarrow> d' = d\<lparr>dm_ctrl := dm_ctrl d'\<rparr>"
  by (auto simp: daemon_cmd_def set_ctrl_def split: option.splits prod.splits)

text \<open>A sequence of commands on one connection, all of which tor accepts.\<close>

fun dialog :: "peer \<Rightarrow> conn \<Rightarrow> (string \<times> string) list \<Rightarrow> conn \<Rightarrow> bool" where
  "dialog tor c [] c' \<longleftrightarrow> c = c'"
| "dialog tor c ((cmd, answer) # rest) c' \<longleftrightarrow> (\<exists>c1. controlCmd tor cmd c = (Inr answer, c1) \<and> dialog tor c1 rest c')"

lemma applyExitPin_ok:
  assumes "applyExitPin fp0 d = (None, d')"
  shows "\<exists>tor c c' ack got. dm_ctrl d = Some (tor, c) \<and> d' = (set_ctrl tor c' d)\<lparr>dm_pinned := norm_fp fp0\<rparr> \<and> norm_fp fp0 \<noteq> []
    \<and> dialog tor c [(setconf (norm_fp fp0), ack), (''GETCONF ExitNodes'', got)] c' \<and> Contains (ToUpper got) (norm_fp fp0)"
proof -
  let ?f = "norm_fp fp0"
  obtain ack d1 got d2 where s: "?f \<noteq> []" "daemon_cmd (setconf ?f) d = (Inr ack, d1)" "daemon_cmd ''GETCONF ExitNodes'' d1 = (Inr got, d2)"
    "Contains (ToUpper got) ?f" "d' = d2\<lparr>dm_pinned := ?f\<rparr>"
    using assms by (auto simp: applyExitPin_def Let_def split: sum.splits prod.splits if_splits)
  obtain tor c c1 where a: "dm_ctrl d = Some (tor, c)" "d1 = set_ctrl tor c1 d" "controlCmd tor (setconf ?f) c = (Inr ack, c1)"
    using daemon_cmd_ok [OF s(2)] by blast
  obtain c2 where b: "d2 = set_ctrl tor c2 d1" "controlCmd tor ''GETCONF ExitNodes'' c1 = (Inr got, c2)"
    using daemon_cmd_ok [OF s(3)] a(2) by (auto simp: set_ctrl_def)
  show ?thesis using s a b by (auto simp: set_ctrl_def)
qed

lemma applyExitPin_fails: "applyExitPin fp d = (Some x, d') \<Longrightarrow> d' = d\<lparr>dm_ctrl := dm_ctrl d'\<rparr>"
  by (auto simp: applyExitPin_def Let_def split: sum.splits prod.splits if_splits dest!: daemon_cmd_frame)
    (metis Daemon.surjective Daemon.update_convs(6))+

lemma dialog_append:
  "dialog tor c (xs @ ys) c' \<longleftrightarrow> (\<exists>c1. dialog tor c xs c1 \<and> dialog tor c1 ys c')"
  by (induction xs arbitrary: c) fastforce+

lemma pinOnce_ok:
  assumes "pinSOCKSUserOnce user d = (None, d')"
  shows "\<exists>tor c c' streams circs fp ack got. dm_ctrl d = Some (tor, c) \<and> exitForSOCKSUser streams circs user = Inr fp
    \<and> d' = (set_ctrl tor c' d)\<lparr>dm_pinned := norm_fp fp\<rparr> \<and> Contains (ToUpper got) (norm_fp fp)
    \<and> dialog tor c [(''GETINFO stream-status'', streams), (''GETINFO circuit-status'', circs), (setconf (norm_fp fp), ack),
         (''GETCONF ExitNodes'', got)] c'"
proof -
  obtain streams d1 circs d2 fp where s: "daemon_cmd ''GETINFO stream-status'' d = (Inr streams, d1)"
    "daemon_cmd ''GETINFO circuit-status'' d1 = (Inr circs, d2)" "exitForSOCKSUser streams circs user = Inr fp"
    "applyExitPin fp d2 = (None, d')"
    using assms by (auto simp: pinSOCKSUserOnce_def split: sum.splits prod.splits)
  obtain tor c c1 where a: "dm_ctrl d = Some (tor, c)" "d1 = set_ctrl tor c1 d"
    "controlCmd tor ''GETINFO stream-status'' c = (Inr streams, c1)"
    using daemon_cmd_ok [OF s(1)] by blast
  obtain c2 where b: "d2 = set_ctrl tor c2 d" "controlCmd tor ''GETINFO circuit-status'' c1 = (Inr circs, c2)"
    using daemon_cmd_ok [OF s(2)] a(2) by (auto simp: set_ctrl_def)
  obtain ack c3 got where c: "d' = (set_ctrl tor c3 d2)\<lparr>dm_pinned := norm_fp fp\<rparr>"
    "dialog tor c2 [(setconf (norm_fp fp), ack), (''GETCONF ExitNodes'', got)] c3" "Contains (ToUpper got) (norm_fp fp)"
    using applyExitPin_ok [OF s(4)] b(1) by (auto simp: set_ctrl_def)
  have "dialog tor c ([(''GETINFO stream-status'', streams), (''GETINFO circuit-status'', circs)]
      @ [(setconf (norm_fp fp), ack), (''GETCONF ExitNodes'', got)]) c3"
    unfolding dialog_append using a(3) b(2) c(2) by (intro exI [of _ c2]) simp
  then have "dialog tor c [(''GETINFO stream-status'', streams), (''GETINFO circuit-status'', circs),
      (setconf (norm_fp fp), ack), (''GETCONF ExitNodes'', got)] c3" by (simp del: dialog.simps)
  moreover have "d' = (set_ctrl tor c3 d)\<lparr>dm_pinned := norm_fp fp\<rparr>" using c(1) b(1) by (simp add: set_ctrl_def)
  ultimately show ?thesis using a(1) c(3) s(3) by blast
qed

lemma pinOnce_fails: "pinSOCKSUserOnce user d = (Some x, d') \<Longrightarrow> dm_pinned d' = dm_pinned d"
  by (auto simp: pinSOCKSUserOnce_def split: sum.splits prod.splits dest!: daemon_cmd_frame applyExitPin_fails)
    (metis Daemon.ext_inject Daemon.surjective Daemon.update_convs(6))+

lemma norm_fp_exit:
  assumes "exitForSOCKSUser streams circs user = Inr fp"
  shows "norm_fp fp = fp"
proof -
  obtain l where l: "fp = lastHopFingerprint l" "fp \<noteq> []" using exit_is_hop [OF assms] .
  have h: "list_all is_hex fp" using lastHop_hex l by simp
  have "TrimSpace fp = fp" using h is_hex_plain by (intro TrimSpace_id) (auto simp: list_all_iff)
  moreover have "ToUpper fp = fp" using lastHop_upper l by simp
  moreover have "\<not> HasPrefix fp ''$''" using h l(2) is_hex_plain by (cases fp) auto
  ultimately show ?thesis by (simp add: norm_fp_def TrimPrefix_def)
qed

text \<open>The four commands of a pin that sticks, as one dialog.\<close>

definition pinned_dialog :: "string \<Rightarrow> Daemon \<Rightarrow> Daemon \<Rightarrow> bool" where
  "pinned_dialog user d d' \<longleftrightarrow> (\<exists>tor c c' streams circs ack got. dm_ctrl d = Some (tor, c) \<and> dm_ctrl d' = Some (tor, c')
     \<and> exitForSOCKSUser streams circs user = Inr (dm_pinned d') \<and> Contains (ToUpper got) (dm_pinned d')
     \<and> dialog tor c [(''GETINFO stream-status'', streams), (''GETINFO circuit-status'', circs), (setconf (dm_pinned d'), ack),
          (''GETCONF ExitNodes'', got)] c')"

lemma pin_loop_cases:
  "pin_loop obs user prev d = (r, d') \<Longrightarrow> prev \<noteq> None \<or> obs \<noteq> [] \<Longrightarrow>
     (if r = None then \<exists>d0. dm_pinned d0 = dm_pinned d \<and> pinned_dialog user d0 d' else dm_pinned d' = dm_pinned d)"
proof (induction obs arbitrary: prev d)
  case (Cons ba obs)
  obtain before after where ba: "ba = (before, after)" by fastforce
  show ?case
  proof (cases before)
    case (Some x)
    then show ?thesis using Cons(2) ba by auto
  next
    case None
    obtain q d1 where p: "pinSOCKSUserOnce user d = (q, d1)" by fastforce
    show ?thesis
    proof (cases q)
      case None
      then have d': "r = None" "d' = d1" using Cons(2) ba p \<open>before = None\<close> by auto
      have "pinned_dialog user d d1"
        using pinOnce_ok [of user d d1] p None norm_fp_exit unfolding pinned_dialog_def
        by (auto simp: set_ctrl_def simp del: dialog.simps) metis
      then show ?thesis using d' by auto
    next
      case (Some x)
      have s: "dm_pinned d1 = dm_pinned d" using pinOnce_fails p Some by blast
      then show ?thesis
        using Cons(1) [of "Some x" d1] Cons(2) ba p \<open>before = None\<close> Some by (cases after) auto
    qed
  qed
qed auto

section \<open>Properties\<close>

definition sample_fp :: string where
  "sample_fp = replicate 40 (CHR ''A'')"

definition sample_tor :: peer where
  "sample_tor sent = Inr (let cmd = last sent in
     if cmd = ''PROTOCOLINFO 1'' then render_reply [Mid ''PROTOCOLINFO 1'']
     else if cmd = ''GETINFO net/listeners/socks'' then render_reply [Mid (''net/listeners/socks='' @ [quote] @ ''127.0.0.1:9050'' @ [quote])]
     else if cmd = ''GETINFO status/bootstrap-phase'' then render_reply [Mid ''status/bootstrap-phase=NOTICE BOOTSTRAP PROGRESS=100'']
     else if cmd = ''GETINFO stream-status'' then render_reply [Mid ''stream-status=1 SUCCEEDED 7 h:443 SOCKS_USERNAME=u'']
     else if cmd = ''GETINFO circuit-status'' then render_reply [Mid (''circuit-status=7 BUILT $'' @ sample_fp)]
     else if cmd = ''GETCONF ExitNodes'' then [''250 ExitNodes=$'' @ sample_fp @ crlf]
     else render_reply [])"

definition sample_tenv :: tenv where
  "sample_tenv = \<lparr>te_reset = None, te_writeTorrc = None, te_openLog = None, te_prepare = None, te_start = None,
     te_attempt = (\<lambda>_. \<lparr>at_exited = None, at_dials = [\<lparr>dt_ctx = None, dt_exited = None, dt_dial = Inr sample_tor\<rparr>],
        at_cookie = (\<lambda>_. [\<lparr>cr_ctx = None, cr_first = Inr (replicate 32 7), cr_second = Inr (replicate 32 7)\<rparr>]), at_exitedThen = None\<rparr>),
     te_polls = [\<lparr>po_ctx = None, po_exited = None, po_done = None\<rparr>], te_deadline = ''deadline'', te_stderr = [],
     te_windows = False, te_pid = 1, te_geoip = None, te_geoip6 = None\<rparr>"

definition new_Daemon :: "string \<Rightarrow> string \<Rightarrow> Daemon" where
  "new_Daemon binary dir = \<lparr>dm_Binary = binary, dm_DataDir = dir, dm_SocksAddr = [], dm_cmd = False, dm_running = False,
     dm_ctrl = None, dm_stopped = False, dm_pinned = []\<rparr>"



text \<open>
  A pin sticks. When \<open>PinSOCKSUser\<close> succeeds, the recorded exit is the exit of the user in the circuits tor reported,
  tor accepted it as the only exit node, strictly, and a query afterwards named it; when it fails, the recorded exit is
  the one before.
\<close>

theorem tor_pin_sticks:
  assumes "PinSOCKSUser ctx user d = (r, d')"
  shows "(r = None \<longrightarrow> (\<exists>d0. dm_pinned d0 = dm_pinned d \<and> pinned_dialog user d0 d')) \<and> (r \<noteq> None \<longrightarrow> dm_pinned d' = dm_pinned d)"
  using assms pin_loop_cases [of "map ctx [0..<pinAttempts]" user None d r d']
  by (auto simp: PinSOCKSUser_def pinAttempts_def split: if_splits)

theorem tor_pin_sticks_witness:
  "\<exists>d'. PinSOCKSUser (\<lambda>_. (None, None)) ''u'' (set_ctrl sample_tor new_conn (new_Daemon ''tor'' ''/d'')) = (None, d')
     \<and> (\<exists>d0. pinned_dialog ''u'' d0 d')"
proof -
  let ?d = "set_ctrl sample_tor new_conn (new_Daemon ''tor'' ''/d'')"
  obtain r d' where s: "PinSOCKSUser (\<lambda>_. (None, None)) ''u'' ?d = (r, d')" by fastforce
  have "fst (PinSOCKSUser (\<lambda>_. (None, None)) ''u'' ?d) = None" by code_simp
  then show ?thesis using s tor_pin_sticks [OF s] by auto
qed

end
