(* ===== verification/Local_Exits.thy ===== *)
theory Local_Exits
  imports Tor_Daemon Decodo
begin

text \<open>
  The local provisioner: \<open>src/routing/manager/local.go\<close>. One tor process per identity; \<open>Provision\<close> starts
  them all, \<open>Reestablish\<close> confirms the pinned exit or replaces the process, and the credentials of a slot
  (which select its circuit) never change.

  The state is the provisioner together with the processes it has given up, each in its final state: the list
  is what a process table would show of them. What the machine answers to one call is a \<open>local_env\<close>.
\<close>

section \<open>State and environment\<close>

record localSlot =
  sl_daemon :: Daemon
  sl_def :: RouteDef

record Local =
  lo_DataDir :: string
  lo_Binary :: string
  lo_slots :: "(int \<times> localSlot) list"

type_synonym lstate = "Local \<times> Daemon list"

text \<open>\<open>le_arrival\<close> orders the goroutines of \<open>Provision\<close>: the turn in which each slot delivers its outcome.\<close>

record local_env =
  le_getenv :: "string \<Rightarrow> string option"
  le_install :: "string result"
  le_prepare :: "gerr option"
  le_boot :: "int \<Rightarrow> tenv"
  le_rand :: "int \<Rightarrow> nat \<Rightarrow> (nat \<Rightarrow> byte) option"
  le_arrival :: "int \<Rightarrow> nat"

section \<open>Operations\<close>

definition torRoot :: "string \<Rightarrow> string" where
  "torRoot dataDir = dataDir @ ''/tor''"

definition nonce :: "local_env \<Rightarrow> int \<Rightarrow> nat \<Rightarrow> string" where
  "nonce e slot n = (case le_rand e slot n of None \<Rightarrow> itoa_nat n | Some b \<Rightarrow> EncodeToString (map b [0..<n]))"

definition sessionRouteDef :: "local_env \<Rightarrow> int \<Rightarrow> string \<Rightarrow> RouteDef" where
  "sessionRouteDef e slot socksAddr =
    \<lparr>rd_ID = ''route-'' @ fmt03d slot, rd_Type = ''socks5'', rd_Address = socksAddr,
     rd_Username = ''identity-'' @ fmt03d slot @ ''-'' @ nonce e slot 6, rd_Password = nonce e slot 8,
     rd_PasswordEnv = [], rd_PrivateKey = [], rd_PeerPublicKey = [],
     rd_LocalAddress = [], rd_LocalAddress6 = [], rd_DNS = [], rd_MTU = 0\<rparr>"

definition ensureBinary :: "local_env \<Rightarrow> Local \<Rightarrow> gerr option \<times> Local" where
  "ensureBinary e l =
    (case (if lo_Binary l = [] then map_sum id (\<lambda>bin. l\<lparr>lo_Binary := bin\<rparr>) (le_install e) else Inr l) of
       Inl x \<Rightarrow> (Some (''local exits: '' @ x), l)
     | Inr l1 \<Rightarrow> (case le_prepare e of Some x \<Rightarrow> (Some (''local exits: '' @ x), l1) | None \<Rightarrow> (None, l1)))"

text \<open>\<open>bootSlot\<close>: the slot and its route, or the error and the final state of the process it started.\<close>

definition bootSlot :: "local_env \<Rightarrow> Local \<Rightarrow> int \<Rightarrow> (gerr \<times> Daemon) + (localSlot \<times> route)" where
  "bootSlot e l slot =
    (case daemon_Start (le_boot e slot) (new_Daemon (lo_Binary l) (torRoot (lo_DataDir l) @ ''/id-'' @ fmt03d slot)) of
       (Some x, d) \<Rightarrow> Inl (''local exits: '' @ x, d)
     | (None, d) \<Rightarrow>
        (let df = sessionRouteDef e slot (dm_SocksAddr d) in
         case New (le_getenv e) registered df of
           Inl x \<Rightarrow> Inl (x, daemon_Stop d)
         | Inr r \<Rightarrow> Inr (\<lparr>sl_daemon = d, sl_def = df\<rparr>, r)))"

text \<open>The outcomes \<open>Provision\<close> has collected: slots, routes, first error, processes given up.\<close>

type_synonym collected = "(int \<times> localSlot) list \<times> route option list \<times> gerr option \<times> Daemon list"

definition collect_step :: "(int \<Rightarrow> (gerr \<times> Daemon) + (localSlot \<times> route)) \<Rightarrow> collected \<Rightarrow> int \<Rightarrow> collected" where
  "collect_step boot acc i = (case acc of (slots, routes, firstErr, dead) \<Rightarrow>
    (case boot i of
       Inl (x, d) \<Rightarrow> (slots, routes, (if firstErr = None then Some x else firstErr), dead @ [d])
     | Inr (sl, r) \<Rightarrow> (AList.update i sl slots, routes[nat (i - 1) := Some r], firstErr, dead)))"

definition local_Close :: "lstate \<Rightarrow> lstate" where
  "local_Close s = ((fst s)\<lparr>lo_slots := []\<rparr>, snd s @ map (\<lambda>(i, sl). daemon_Stop (sl_daemon sl)) (lo_slots (fst s)))"

definition local_Provision :: "local_env \<Rightarrow> int \<Rightarrow> lstate \<Rightarrow> route list result \<times> lstate" where
  "local_Provision e n s =
    (if n < 1 then (Inl ''provision: need at least 1 route'', s)
     else case ensureBinary e (fst s) of
       (Some x, l) \<Rightarrow> (Inl x, l, snd s)
     | (None, l) \<Rightarrow>
        (case foldl (collect_step (bootSlot e l)) ([], replicate (nat n) None, None, [])
               (sort_key (le_arrival e) [1..n]) of
           (slots, routes, firstErr, dead) \<Rightarrow>
             (let s1 = (l\<lparr>lo_slots := slots\<rparr>, snd s @ map (\<lambda>(i, sl). sl_daemon sl) (lo_slots l) @ dead) in
              case firstErr of Some x \<Rightarrow> (Inl x, local_Close s1) | None \<Rightarrow> (Inr (map the routes), s1))))"

definition set_slot :: "int \<Rightarrow> localSlot \<Rightarrow> Local \<Rightarrow> Local" where
  "set_slot slot sl l = l\<lparr>lo_slots := AList.update slot sl (lo_slots l)\<rparr>"

definition local_PinExit :: "(nat \<Rightarrow> gerr option \<times> gerr option) \<Rightarrow> int \<Rightarrow> string \<Rightarrow> lstate \<Rightarrow> gerr option \<times> lstate" where
  "local_PinExit ctx slot socksUser s =
    (case map_of (lo_slots (fst s)) slot of
       None \<Rightarrow> (Some (''pin exit: no tor daemon for slot '' @ Itoa slot), s)
     | Some sl \<Rightarrow>
        (case PinSOCKSUser ctx (if socksUser = [] then rd_Username (sl_def sl) else socksUser) (sl_daemon sl) of
           (r, d) \<Rightarrow> (r, set_slot slot (sl\<lparr>sl_daemon := d\<rparr>) (fst s), snd s)))"

definition with_credentials :: "localSlot \<Rightarrow> localSlot \<Rightarrow> localSlot" where
  "with_credentials old sl =
    sl\<lparr>sl_def := (sl_def sl)\<lparr>rd_Username := rd_Username (sl_def old), rd_Password := rd_Password (sl_def old)\<rparr>\<rparr>"

definition restartPinned :: "local_env \<Rightarrow> int \<Rightarrow> localSlot \<Rightarrow> lstate \<Rightarrow> route result \<times> lstate" where
  "restartPinned e slot sl s =
    (let old = daemon_Stop (sl_daemon sl); l = set_slot slot (sl\<lparr>sl_daemon := old\<rparr>) (fst s) in
     case bootSlot e l slot of
       Inl (x, d) \<Rightarrow> (Inl x, l, snd s @ [d])
     | Inr (next0, r0) \<Rightarrow>
        (let keep = rd_Username (sl_def sl) \<noteq> []; next = (if keep then with_credentials sl next0 else next0) in
         case (if keep then New (le_getenv e) registered (sl_def next) else Inr r0) of
           Inl x \<Rightarrow> (Inl x, l, snd s @ [daemon_Stop (sl_daemon next)])
         | Inr r \<Rightarrow>
            (case (if dm_pinned old \<noteq> [] then SetPinnedExit (dm_pinned old) (sl_daemon next) else (None, sl_daemon next)) of
               (Some x, d) \<Rightarrow> (Inl x, l, snd s @ [daemon_Stop d])
             | (None, d) \<Rightarrow> (Inr r, set_slot slot (next\<lparr>sl_daemon := d\<rparr>) l, snd s @ [old]))))"

definition with_address :: "localSlot \<Rightarrow> localSlot" where
  "with_address sl =
    (if dm_SocksAddr (sl_daemon sl) \<noteq> [] then sl\<lparr>sl_def := (sl_def sl)\<lparr>rd_Address := dm_SocksAddr (sl_daemon sl)\<rparr>\<rparr> else sl)"

definition local_Reestablish :: "local_env \<Rightarrow> int \<Rightarrow> lstate \<Rightarrow> route result \<times> lstate" where
  "local_Reestablish e slot s =
    (if slot < 1 then (Inl (''provision: no route for slot '' @ Itoa slot), s)
     else case map_of (lo_slots (fst s)) slot of
       None \<Rightarrow> (case bootSlot e (fst s) slot of
           Inl (x, d) \<Rightarrow> (Inl x, fst s, snd s @ [d])
         | Inr (sl, r) \<Rightarrow> (Inr r, set_slot slot sl (fst s), snd s))
     | Some sl \<Rightarrow> (case ReapplyPin (sl_daemon sl) of
           (Some _, d) \<Rightarrow> restartPinned e slot (sl\<lparr>sl_daemon := d\<rparr>) s
         | (None, d) \<Rightarrow> (let sl1 = with_address (sl\<lparr>sl_daemon := d\<rparr>) in
             (New (le_getenv e) registered (sl_def sl1), set_slot slot sl1 (fst s), snd s))))"

section \<open>What the operations of a daemon leave alone\<close>

definition live :: "Daemon \<Rightarrow> bool" where
  "live d \<longleftrightarrow> (dm_running d \<longrightarrow> dm_cmd d) \<and> (dm_stopped d \<longrightarrow> \<not> dm_running d)"

definition same_process :: "Daemon \<Rightarrow> Daemon \<Rightarrow> bool" where
  "same_process d d' \<longleftrightarrow> dm_running d' = dm_running d \<and> dm_cmd d' = dm_cmd d \<and> dm_stopped d' = dm_stopped d \<and> dm_SocksAddr d' = dm_SocksAddr d"

lemma same_process_refl [simp]: "same_process d d"
  by (simp add: same_process_def)

lemma same_process_trans: "same_process d d1 \<Longrightarrow> same_process d1 d2 \<Longrightarrow> same_process d d2"
  by (simp add: same_process_def)

lemma same_process_live: "same_process d d' \<Longrightarrow> live d' = live d"
  by (simp add: same_process_def live_def)

lemma daemon_cmd_same: "daemon_cmd cmd d = (r, d') \<Longrightarrow> same_process d d' \<and> dm_pinned d' = dm_pinned d"
  by (auto simp: daemon_cmd_def set_ctrl_def same_process_def split: option.splits prod.splits)

lemma applyExitPin_same:
  "applyExitPin fp d = (r, d') \<Longrightarrow> same_process d d' \<and> dm_pinned d' = (if r = None then norm_fp fp else dm_pinned d)"
  by (auto simp: applyExitPin_def Let_def same_process_def split: sum.splits prod.splits if_splits
      dest!: daemon_cmd_same)

lemma setPinned_same:
  assumes "setPinned fp d = (r, d')" "norm_fp fp = fp"
  shows "same_process d d' \<and> dm_pinned d' = fp"
proof -
  have "same_process (d\<lparr>dm_pinned := fp\<rparr>) x \<Longrightarrow> same_process d x" for x by (simp add: same_process_def)
  then show ?thesis
    using assms by (auto simp: setPinned_def Let_def same_process_def split: if_splits dest!: applyExitPin_same)
qed

text \<open>The last thing tor was told on the daemon's connection is the exit, and it named it when asked.\<close>

definition exit_confirmed :: "string \<Rightarrow> Daemon \<Rightarrow> bool" where
  "exit_confirmed fp d \<longleftrightarrow> (\<exists>tor c c' ack got. dm_ctrl d = Some (tor, c') \<and> Contains (ToUpper got) fp
     \<and> dialog tor c [(setconf fp, ack), (''GETCONF ExitNodes'', got)] c')"

lemma setPinned_confirms:
  assumes "setPinned fp d = (None, d')" "norm_fp fp = fp" "fp \<noteq> []"
  shows "exit_confirmed fp d'"
proof -
  have "applyExitPin fp (d\<lparr>dm_pinned := fp\<rparr>) = (None, d')"
    using assms by (auto simp: setPinned_def Let_def split: if_splits)
  from applyExitPin_ok [OF this] show ?thesis
    using assms(2) by (auto simp: exit_confirmed_def set_ctrl_def simp del: dialog.simps) blast
qed

lemma pinOnce_same: "pinSOCKSUserOnce user d = (r, d') \<Longrightarrow> same_process d d'"
  by (auto simp: pinSOCKSUserOnce_def split: sum.splits prod.splits dest!: daemon_cmd_same applyExitPin_same
      intro: same_process_trans)

lemma pin_loop_same:
  "pin_loop obs user prev d = (r, d') \<Longrightarrow> norm_fp (dm_pinned d) = dm_pinned d \<Longrightarrow>
     same_process d d' \<and> norm_fp (dm_pinned d') = dm_pinned d'"
proof (induction obs arbitrary: prev d)
  case (Cons ba obs)
  obtain before after q d1 where ba: "ba = (before, after)" and p: "pinSOCKSUserOnce user d = (q, d1)" by fastforce
  have n: "same_process d d1" using pinOnce_same [OF p] .
  have m: "norm_fp (dm_pinned d1) = dm_pinned d1"
  proof (cases q)
    case None
    then show ?thesis using pinOnce_ok [of user d d1] p norm_fp_exit by auto
  next
    case (Some x)
    then show ?thesis using pinOnce_fails [of user d x d1] p Cons(3) by simp
  qed
  show ?case
    using Cons(1) [of q d1] Cons(2,3) n m ba p
    by (cases before; cases q; cases after) (auto intro: same_process_trans)
qed auto

lemma PinSOCKSUser_same:
  "PinSOCKSUser ctx user d = (r, d') \<Longrightarrow> norm_fp (dm_pinned d) = dm_pinned d \<Longrightarrow>
     same_process d d' \<and> norm_fp (dm_pinned d') = dm_pinned d'"
  using pin_loop_same [of "map ctx [0..<pinAttempts]" user None d r d']
  by (auto simp: PinSOCKSUser_def split: if_splits)

lemma daemon_Stop_dead [simp]: "live d \<Longrightarrow> \<not> dm_running (daemon_Stop d)"
  by (cases "daemon_cmd ''SIGNAL SHUTDOWN'' (d\<lparr>dm_stopped := True\<rparr>)")
    (auto simp: daemon_Stop_def Let_def live_def same_process_def dest: daemon_cmd_same)

lemma daemon_Stop_keeps [simp]: "dm_pinned (daemon_Stop d) = dm_pinned d" "live d \<Longrightarrow> live (daemon_Stop d)"
  by (cases "daemon_cmd ''SIGNAL SHUTDOWN'' (d\<lparr>dm_stopped := True\<rparr>)",
      auto simp: daemon_Stop_def Let_def live_def same_process_def dest: daemon_cmd_same)+

section \<open>Booting a slot\<close>

lemma norm_fp_Nil [simp]: "norm_fp [] = []"
  by code_simp

lemma bootSlot_ok:
  assumes "bootSlot e l i = Inr (sl, r)"
  shows "sl_def sl = sessionRouteDef e i (dm_SocksAddr (sl_daemon sl)) \<and> route_Def r = sl_def sl \<and> route_Status r = StatusCreated
    \<and> dm_pinned (sl_daemon sl) = [] \<and> live (sl_daemon sl) \<and> dm_running (sl_daemon sl) \<and> loopback (dm_SocksAddr (sl_daemon sl))"
proof -
  let ?d = "new_Daemon (lo_Binary l) (torRoot (lo_DataDir l) @ ''/id-'' @ fmt03d i)"
  obtain d where d: "daemon_Start (le_boot e i) ?d = (None, d)"
    and s: "sl = \<lparr>sl_daemon = d, sl_def = sessionRouteDef e i (dm_SocksAddr d)\<rparr>"
    and r: "New (le_getenv e) registered (sessionRouteDef e i (dm_SocksAddr d)) = Inr r"
    using assms by (auto simp: bootSlot_def Let_def split: option.splits prod.splits sum.splits)
  have "waitBootstrap (le_boot e i) (?d\<lparr>dm_cmd := True, dm_running := True\<rparr>) = (None, d)"
    using daemon_Start_cases [OF d] by (auto simp: new_Daemon_def)
  from waitBootstrap_ok [OF this] show ?thesis
    using s New_fresh [OF r] by (simp add: new_Daemon_def live_def)
qed

lemma bootSlot_fails:
  assumes "bootSlot e l i = Inl (x, d)"
  shows "\<not> dm_running d"
proof -
  let ?d = "new_Daemon (lo_Binary l) (torRoot (lo_DataDir l) @ ''/id-'' @ fmt03d i)"
  obtain q d1 where s: "daemon_Start (le_boot e i) ?d = (q, d1)" by fastforce
  have c: "\<not> dm_cmd ?d" "dm_ctrl ?d = None" "\<not> dm_running ?d" by (simp_all add: new_Daemon_def)
  show ?thesis
  proof (cases q)
    case None
    obtain w where w: "waitBootstrap (le_boot e i) (?d\<lparr>dm_cmd := True, dm_running := True\<rparr>) = (None, w)" "d1 = w"
      using daemon_Start_cases [OF s c(1)] None by auto
    have "live d1" using waitBootstrap_ok [OF w(1)] w(2) by (simp add: new_Daemon_def live_def)
    then show ?thesis using assms s None by (auto simp: bootSlot_def Let_def split: sum.splits)
  next
    case (Some y)
    then have "d = d1" using assms s by (auto simp: bootSlot_def)
    then show ?thesis using daemon_Start_cases [OF s c(1)] Some c(3) by auto
  qed
qed

section \<open>Collecting the outcomes of Provision\<close>

lemma set_update_subset: "set (AList.update k v al) \<subseteq> insert (k, v) (set al)"
  by (induction al) auto

definition collected :: "(int \<Rightarrow> (gerr \<times> Daemon) + (localSlot \<times> route)) \<Rightarrow> nat \<Rightarrow> int list \<Rightarrow> collected" where
  "collected boot n xs = foldl (collect_step boot) ([], replicate n None, None, []) xs"

lemma collected_spec:
  assumes "distinct xs" "\<forall>i \<in> set xs. 1 \<le> i \<and> i \<le> int n" "collected boot n xs = (slots, routes, err, dead)"
  shows "length routes = n \<and> (err = None \<longrightarrow> (\<forall>i \<in> set xs. \<exists>sl r. boot i = Inr (sl, r)))
    \<and> (\<forall>i \<in> set xs. \<forall>sl r. boot i = Inr (sl, r) \<longrightarrow> map_of slots i = Some sl \<and> routes ! nat (i - 1) = Some r)
    \<and> (\<forall>(i, sl) \<in> set slots. i \<in> set xs \<and> (\<exists>r. boot i = Inr (sl, r))) \<and> (\<forall>d \<in> set dead. \<exists>i x. boot i = Inl (x, d))"
  using assms
proof (induction xs arbitrary: slots routes err dead rule: rev_induct)
  case Nil
  then show ?case by (auto simp: collected_def)
next
  case (snoc j xs)
  obtain slots0 routes0 err0 dead0 where c: "collected boot n xs = (slots0, routes0, err0, dead0)"
    by (metis prod_cases4)
  have step: "collect_step boot (slots0, routes0, err0, dead0) j = (slots, routes, err, dead)"
    using snoc.prems(3) c by (simp add: collected_def)
  have j: "j \<notin> set xs" "1 \<le> j" "j \<le> int n" using snoc.prems(1,2) by auto
  note IH = snoc.IH [OF _ _ c]
  show ?case
  proof (cases "boot j")
    case (Inl xd)
    then show ?thesis using IH step j snoc.prems(1,2)
      by (cases xd) (auto simp: collect_step_def split: if_splits, blast+)
  next
    case (Inr slr)
    obtain sl r where b: "boot j = Inr (sl, r)" using Inr by (cases slr) auto
    have e: "slots = AList.update j sl slots0" "routes = routes0[nat (j - 1) := Some r]" "err = err0" "dead = dead0"
      using step b by (auto simp: collect_step_def)
    have other: "nat (i - 1) \<noteq> nat (j - 1)" if "i \<in> set xs" for i
      using that j snoc.prems(2) by (auto simp: eq_nat_nat_iff)
    have "set slots \<subseteq> insert (j, sl) (set slots0)" using set_update_subset e(1) by metis
    then show ?thesis using IH snoc.prems(1,2) j b other
      unfolding e by (auto simp: update_conv' nth_list_update)
  qed
qed

section \<open>The invariant, and the contract of a provisioner\<close>

definition slot_ok :: "int \<Rightarrow> localSlot \<Rightarrow> bool" where
  "slot_ok i sl \<longleftrightarrow> rd_ID (sl_def sl) = ''route-'' @ fmt03d i \<and> rd_Username (sl_def sl) \<noteq> []
     \<and> norm_fp (dm_pinned (sl_daemon sl)) = dm_pinned (sl_daemon sl) \<and> live (sl_daemon sl)"

definition slots_ok :: "Local \<Rightarrow> bool" where
  "slots_ok l \<longleftrightarrow> (\<forall>(i, sl) \<in> set (lo_slots l). slot_ok i sl)"

definition local_ok :: "lstate \<Rightarrow> bool" where
  "local_ok s \<longleftrightarrow> slots_ok (fst s)"

text \<open>What makes a route of this provisioner the session path of its slot: its name and its credentials.\<close>

definition local_key :: "RouteDef \<Rightarrow> string \<times> string \<times> string" where
  "local_key d = (rd_ID d, rd_Username d, rd_Password d)"

definition local_view :: "lstate \<Rightarrow> int \<Rightarrow> (string \<times> string \<times> string) option" where
  "local_view s slot = map_option (\<lambda>sl. local_key (sl_def sl)) (map_of (lo_slots (fst s)) slot)"

lemma slots_okD: "slots_ok l \<Longrightarrow> map_of (lo_slots l) i = Some sl \<Longrightarrow> slot_ok i sl"
  by (auto simp: slots_ok_def dest: map_of_SomeD)

lemma set_slot_simps [simp]:
  "map_of (lo_slots (set_slot i sl l)) = (map_of (lo_slots l))(i \<mapsto> sl)" "lo_DataDir (set_slot i sl l) = lo_DataDir l"
  "lo_Binary (set_slot i sl l) = lo_Binary l"
  by (auto simp: set_slot_def update_conv')

lemma set_slot_ok: "slots_ok l \<Longrightarrow> slot_ok i sl \<Longrightarrow> slots_ok (set_slot i sl l)"
  using set_update_subset [of i sl "lo_slots l"] by (fastforce simp: slots_ok_def set_slot_def)

lemma bootSlot_slot_ok: "bootSlot e l i = Inr (sl, r) \<Longrightarrow> slot_ok i sl"
  by (drule bootSlot_ok) (simp add: slot_ok_def sessionRouteDef_def)

lemma ensureBinary_slots: "ensureBinary e l = (x, l') \<Longrightarrow> lo_slots l' = lo_slots l"
  by (cases "le_install e") (auto simp: ensureBinary_def split: if_splits option.splits)

lemma ensureBinary_snd [simp]: "lo_slots (snd (ensureBinary e l)) = lo_slots l"
  by (metis ensureBinary_slots prod.collapse)

text \<open>One provisioning, by cases: refused before a process was started, or the outcomes collected.\<close>

lemma local_Provision_cases:
  assumes "local_Provision e n s = (r, s')"
  obtains x where "r = Inl x" "lo_slots (fst s') = lo_slots (fst s)" "snd s' = snd s"
  | l slots routes err dead s1 where "1 \<le> n" "lo_slots l = lo_slots (fst s)"
      "collected (bootSlot e l) (nat n) (sort_key (le_arrival e) [1..n]) = (slots, routes, err, dead)"
      "s1 = (l\<lparr>lo_slots := slots\<rparr>, snd s @ map (\<lambda>(i, sl). sl_daemon sl) (lo_slots l) @ dead)"
      "(r, s') = (case err of Some x \<Rightarrow> (Inl x, local_Close s1) | None \<Rightarrow> (Inr (map the routes), s1))"
proof (cases "n < 1 \<or> fst (ensureBinary e (fst s)) \<noteq> None")
  case True
  obtain x l where b: "ensureBinary e (fst s) = (x, l)" by fastforce
  have "\<exists>y. r = Inl y \<and> lo_slots (fst s') = lo_slots (fst s) \<and> snd s' = snd s"
    using assms True b ensureBinary_slots [OF b] by (auto simp: local_Provision_def split: if_splits)
  then show ?thesis using that(1) by blast
next
  case False
  then obtain l where l: "ensureBinary e (fst s) = (None, l)" by (metis prod.collapse)
  obtain slots routes err dead where
    c: "collected (bootSlot e l) (nat n) (sort_key (le_arrival e) [1..n]) = (slots, routes, err, dead)"
    by (metis prod_cases4)
  show ?thesis
    using that(2) [OF _ ensureBinary_slots [OF l] c refl] assms False l c
    by (auto simp: local_Provision_def collected_def Let_def)
qed

lemma arrivals: "distinct (sort_key f [1..n])" "set (sort_key f [1..n]) = {1..n}"
  by simp_all

text \<open>Reestablishing, by cases: refused, a slot booted for the first time, confirmed, or replaced.\<close>

lemma restartPinned_ok:
  assumes "restartPinned e slot sl s = (r, s')" "slots_ok (fst s)" "slot_ok slot sl"
  shows "(\<exists>sl'. fst s' = set_slot slot sl' (set_slot slot (sl\<lparr>sl_daemon := daemon_Stop (sl_daemon sl)\<rparr>) (fst s)) \<and> slot_ok slot sl' \<and> dm_pinned (sl_daemon sl') = dm_pinned (sl_daemon sl)
        \<and> local_key (sl_def sl') = local_key (sl_def sl) \<and> (\<forall>x. r = Inr x \<longrightarrow> route_Def x = sl_def sl' \<and> route_Status x = StatusCreated
          \<and> (dm_pinned (sl_daemon sl) \<noteq> [] \<longrightarrow> exit_confirmed (dm_pinned (sl_daemon sl)) (sl_daemon sl'))))
     \<and> (\<exists>gone. snd s' = snd s @ gone \<and> (\<forall>d \<in> set gone. \<not> dm_running d))"
proof -
  let ?old = "daemon_Stop (sl_daemon sl)"
  let ?slo = "sl\<lparr>sl_daemon := ?old\<rparr>"
  let ?l = "set_slot slot ?slo (fst s)"
  have old: "slot_ok slot ?slo" using assms(3) by (simp add: slot_ok_def)
  have user: "rd_Username (sl_def sl) \<noteq> []" and live: "live (sl_daemon sl)"
    and pin: "norm_fp (dm_pinned (sl_daemon sl)) = dm_pinned (sl_daemon sl)"
    and id: "rd_ID (sl_def sl) = ''route-'' @ fmt03d slot" using assms(3) by (simp_all add: slot_ok_def)
  have twice: "set_slot slot ?slo ?l = ?l"
    by (simp add: set_slot_def)
  have failed: ?thesis if "r = Inl x" "s' = (?l, snd s @ [d])" "\<not> dm_running d" for x d
    using that old twice by (intro conjI exI [of _ ?slo] exI [of _ "[d]"]) (simp_all add: local_key_def)
  show ?thesis
  proof (cases "bootSlot e ?l slot")
    case (Inl xd)
    then show ?thesis using failed bootSlot_fails assms(1) by (cases xd) (auto simp: restartPinned_def Let_def)
  next
    case (Inr slr)
    obtain sl0 r0 where b: "bootSlot e ?l slot = Inr (sl0, r0)" using Inr by (cases slr) auto
    note B = bootSlot_ok [OF b]
    let ?n = "with_credentials sl sl0"
    have nd: "sl_daemon ?n = sl_daemon sl0" by (simp add: with_credentials_def)
    have key: "local_key (sl_def ?n) = local_key (sl_def sl)"
      using B id by (simp add: local_key_def with_credentials_def sessionRouteDef_def)
    show ?thesis
    proof (cases "New (le_getenv e) registered (sl_def ?n)")
      case (Inl x)
      then show ?thesis using failed [of x "daemon_Stop (sl_daemon ?n)"] assms(1) b user B nd
        by (auto simp: restartPinned_def Let_def)
    next
      case (Inr r1)
      have eq: "(r, s') = (case (if dm_pinned ?old \<noteq> [] then SetPinnedExit (dm_pinned ?old) (sl_daemon ?n) else (None, sl_daemon ?n)) of
          (Some x, d) \<Rightarrow> (Inl x, ?l, snd s @ [daemon_Stop d])
        | (None, d) \<Rightarrow> (Inr r1, set_slot slot (?n\<lparr>sl_daemon := d\<rparr>) ?l, snd s @ [?old]))"
        using assms(1) b user Inr by (simp add: restartPinned_def Let_def cong: if_cong option.case_cong prod.case_cong)
      obtain q d where p: "(if dm_pinned ?old \<noteq> [] then SetPinnedExit (dm_pinned ?old) (sl_daemon ?n) else (None, sl_daemon ?n)) = (q, d)"
        by fastforce
      have d: "same_process (sl_daemon ?n) d \<and> dm_pinned d = dm_pinned (sl_daemon sl)"
        using p pin B nd setPinned_same by (auto simp: SetPinnedExit_def split: if_splits)
      have ld: "live d" using d B nd same_process_live by metis
      show ?thesis
      proof (cases q)
        case (Some x)
        then show ?thesis using failed [of x "daemon_Stop d"] eq p ld by simp
      next
        case None
        then have "r = Inr r1" "s' = (set_slot slot (?n\<lparr>sl_daemon := d\<rparr>) ?l, snd s @ [?old])"
          using eq p by simp_all
        moreover have "dm_pinned (sl_daemon sl) \<noteq> [] \<longrightarrow> exit_confirmed (dm_pinned (sl_daemon sl)) d"
          using p pin None setPinned_confirms by (auto simp: SetPinnedExit_def)
        moreover have "slot_ok slot (?n\<lparr>sl_daemon := d\<rparr>)"
          using d pin ld key id user by (simp add: slot_ok_def local_key_def)
        ultimately show ?thesis using d key New_fresh [OF Inr] live
          by (intro conjI exI [of _ "?n\<lparr>sl_daemon := d\<rparr>"] exI [of _ "[?old]"]) simp_all
      qed
    qed
  qed
qed

text \<open>A state whose slot \<open>slot\<close> has become \<open>sl'\<close> and whose other slots are as before.\<close>

definition one_slot :: "int \<Rightarrow> localSlot \<Rightarrow> lstate \<Rightarrow> lstate \<Rightarrow> bool" where
  "one_slot slot sl s s' \<longleftrightarrow> map_of (lo_slots (fst s')) = (map_of (lo_slots (fst s)))(slot \<mapsto> sl)
     \<and> (\<exists>gone. snd s' = snd s @ gone \<and> (\<forall>d \<in> set gone. \<not> dm_running d))"

lemma local_Reestablish_cases:
  assumes "local_Reestablish e slot s = (r, s')" "local_ok s"
  obtains x where "r = Inl x" "fst s' = fst s" "\<exists>gone. snd s' = snd s @ gone \<and> (\<forall>d \<in> set gone. \<not> dm_running d)"
  | sl x where "map_of (lo_slots (fst s)) slot = None" "r = Inr x" "one_slot slot sl s s'" "route_Def x = sl_def sl"
      "route_Status x = StatusCreated" "dm_pinned (sl_daemon sl) = []" "local_ok s'"
  | sl sl' where "map_of (lo_slots (fst s)) slot = Some sl" "one_slot slot sl' s s'" "dm_pinned (sl_daemon sl') = dm_pinned (sl_daemon sl)"
      "local_key (sl_def sl') = local_key (sl_def sl)" "\<And>x. r = Inr x \<Longrightarrow> route_Def x = sl_def sl' \<and> route_Status x = StatusCreated
        \<and> (dm_pinned (sl_daemon sl) \<noteq> [] \<longrightarrow> exit_confirmed (dm_pinned (sl_daemon sl)) (sl_daemon sl'))"
      "local_ok s'"
proof -
  consider "slot < 1" | "1 \<le> slot" "map_of (lo_slots (fst s)) slot = None"
    | sl where "1 \<le> slot" "map_of (lo_slots (fst s)) slot = Some sl" by fastforce
  then show ?thesis
  proof cases
    case 1
    then show ?thesis using that(1) assms(1) by (auto simp: local_Reestablish_def)
  next
    case 2
    show ?thesis
    proof (cases "bootSlot e (fst s) slot")
      case (Inl xd)
      then show ?thesis using that(1) assms(1) 2 bootSlot_fails by (cases xd) (auto simp: local_Reestablish_def)
    next
      case (Inr slr)
      obtain sl x where b: "bootSlot e (fst s) slot = Inr (sl, x)" using Inr by (cases slr) auto
      have e: "r = Inr x" "s' = (set_slot slot sl (fst s), snd s)"
        using assms(1) 2 b by (auto simp: local_Reestablish_def)
      show ?thesis
        using that(2) [of x sl] 2 e bootSlot_ok [OF b] bootSlot_slot_ok [OF b] assms(2)
        by (simp add: one_slot_def local_ok_def set_slot_ok)
    qed
  next
    case (3 sl)
    obtain q d where p: "ReapplyPin (sl_daemon sl) = (q, d)" by fastforce
    let ?sl = "sl\<lparr>sl_daemon := d\<rparr>"
    have ok: "slot_ok slot sl" using slots_okD assms(2) 3(2) by (simp add: local_ok_def)
    have d: "same_process (sl_daemon sl) d" "dm_pinned d = dm_pinned (sl_daemon sl)"
      using setPinned_same p ok unfolding ReapplyPin_def slot_ok_def by blast+
    have ok1: "slot_ok slot ?sl" using ok d same_process_live by (simp add: slot_ok_def)
    show ?thesis
    proof (cases q)
      case (Some y)
      have "restartPinned e slot ?sl s = (r, s')"
        using assms(1) 3 p Some by (auto simp: local_Reestablish_def)
      from restartPinned_ok [OF this _ ok1] assms(2) obtain sl' gone where
        r: "fst s' = set_slot slot sl' (set_slot slot (?sl\<lparr>sl_daemon := daemon_Stop d\<rparr>) (fst s))" "slot_ok slot sl'"
        "dm_pinned (sl_daemon sl') = dm_pinned d" "local_key (sl_def sl') = local_key (sl_def sl)"
        "\<And>x. r = Inr x \<Longrightarrow> route_Def x = sl_def sl' \<and> route_Status x = StatusCreated
          \<and> (dm_pinned d \<noteq> [] \<longrightarrow> exit_confirmed (dm_pinned d) (sl_daemon sl'))"
        "snd s' = snd s @ gone" "\<forall>d \<in> set gone. \<not> dm_running d"
        by (auto simp: local_ok_def)
      have "slot_ok slot (?sl\<lparr>sl_daemon := daemon_Stop d\<rparr>)" using ok1 by (simp add: slot_ok_def)
      then have "local_ok s'" using r(1,2) assms(2) by (simp add: local_ok_def set_slot_ok)
      then show ?thesis using that(3) [OF 3(2), of sl'] r d(2) by (auto simp: one_slot_def)
    next
      case None
      let ?s1 = "with_address ?sl"
      have e: "r = New (le_getenv e) registered (sl_def ?s1)" "s' = (set_slot slot ?s1 (fst s), snd s)"
        using assms(1) 3 p None by (auto simp: local_Reestablish_def Let_def)
      have w: "sl_daemon ?s1 = d" "local_key (sl_def ?s1) = local_key (sl_def sl)" "slot_ok slot ?s1"
        using ok1 by (auto simp: with_address_def local_key_def slot_ok_def)
      then have "local_ok s'" using e(2) assms(2) by (simp add: local_ok_def set_slot_ok)
      moreover have "dm_pinned (sl_daemon sl) \<noteq> [] \<longrightarrow> exit_confirmed (dm_pinned (sl_daemon sl)) d"
        using p None ok setPinned_confirms by (auto simp: ReapplyPin_def slot_ok_def)
      moreover have "\<And>x. r = Inr x \<Longrightarrow> route_Def x = sl_def ?s1 \<and> route_Status x = StatusCreated"
        using e(1) New_fresh by metis
      ultimately show ?thesis using that(3) [OF 3(2), of ?s1] e(2) w d(2) by (auto simp: one_slot_def)
    qed
  qed
qed

lemma local_Provision_ok:
  assumes "local_Provision e n s = (r, s')" "local_ok s"
  shows "local_ok s'"
  using assms(1)
proof (cases rule: local_Provision_cases)
  case (1 x)
  then show ?thesis using assms(2) by (simp add: local_ok_def slots_ok_def)
next
  case (2 l slots routes err dead s1)
  have "\<forall>(i, sl) \<in> set slots. slot_ok i sl"
    using collected_spec [OF arrivals(1) _ 2(3)] bootSlot_slot_ok 2(1) by (fastforce simp: arrivals)
  then have "local_ok s1" using 2(4) by (simp add: local_ok_def slots_ok_def)
  moreover have "local_ok (local_Close s1)" by (simp add: local_ok_def slots_ok_def local_Close_def)
  ultimately show ?thesis using 2(5) by (auto split: option.splits)
qed

lemma local_Provision_routes:
  assumes "local_Provision e n s = (Inr rs, s')"
  shows "1 \<le> n \<and> length rs = nat n \<and> (\<forall>i. 1 \<le> i \<and> i \<le> n \<longrightarrow> (\<exists>sl. map_of (lo_slots (fst s')) i = Some sl
     \<and> route_Def (rs ! nat (i - 1)) = sl_def sl \<and> route_Status (rs ! nat (i - 1)) = StatusCreated
     \<and> dm_running (sl_daemon sl) \<and> dm_pinned (sl_daemon sl) = [] \<and> slot_ok i sl))"
  using assms
proof (cases rule: local_Provision_cases)
  case (2 l slots routes err dead s1)
  have S: "rs = map the routes" "s' = s1" "err = None" using 2(5) by (auto split: option.splits)
  note C = collected_spec [OF arrivals(1) _ 2(3)]
  have bound: "\<forall>i \<in> set (sort_key (le_arrival e) [1..n]). 1 \<le> i \<and> i \<le> int (nat n)" using 2(1) by simp
  have len: "length routes = nat n" using C [OF bound] by blast
  show ?thesis
  proof (intro conjI allI impI)
    fix i assume i: "1 \<le> i \<and> i \<le> n"
    then have m: "i \<in> set (sort_key (le_arrival e) [1..n])" by simp
    then obtain sl r where b: "bootSlot e l i = Inr (sl, r)" using C [OF bound] S(3) by blast
    then have "map_of slots i = Some sl" "routes ! nat (i - 1) = Some r" using C [OF bound] m by blast+
    then show "\<exists>sl. map_of (lo_slots (fst s')) i = Some sl \<and> route_Def (rs ! nat (i - 1)) = sl_def sl
        \<and> route_Status (rs ! nat (i - 1)) = StatusCreated \<and> dm_running (sl_daemon sl) \<and> dm_pinned (sl_daemon sl) = [] \<and> slot_ok i sl"
      using S 2(4) len i bootSlot_ok [OF b] bootSlot_slot_ok [OF b] by simp
  qed (use 2(1) S(1) len in auto)
qed simp

interpretation lp: provisioner local_Provision local_Reestablish local_key local_view local_ok
proof (unfold_locales, goal_cases)
  case (1 s e n rs s')
  have "\<exists>i. 1 \<le> i \<and> i \<le> n \<and> r = rs ! nat (i - 1)" if r: "r \<in> set rs" for r
  proof -
    obtain k where "k < length rs" "r = rs ! k" using r by (auto simp: in_set_conv_nth)
    then show ?thesis using local_Provision_routes [OF 1(2)] by (intro exI [of _ "int k + 1"]) auto
  qed
  then show ?case using local_Provision_routes [OF 1(2)] by (fastforce simp: local_view_def)
next
  case (2 s e n)
  then show ?case by (metis local_Provision_ok prod.collapse)
next
  case (3 s e slot r s')
  from 3(2,1) show ?case
    by (cases rule: local_Reestablish_cases) (auto simp: local_view_def one_slot_def)
next
  case (4 s i v e slot)
  obtain r s' where e: "local_Reestablish e slot s = (r, s')" by (metis prod.collapse)
  from e 4(1) have "local_view s' i = Some v"
    using 4(2) by (cases rule: local_Reestablish_cases) (auto simp: local_view_def one_slot_def)
  then show ?case by (simp add: e)
next
  case (5 s e slot)
  obtain r s' where e: "local_Reestablish e slot s = (r, s')" by (metis prod.collapse)
  from e 5 have "local_ok s'"
    using 5 by (cases rule: local_Reestablish_cases) (auto simp: local_ok_def)
  then show ?case by (simp add: e)
qed

section \<open>Properties\<close>

lemma local_ok_fresh: "lo_slots (fst s) = [] \<Longrightarrow> local_ok s"
  by (simp add: local_ok_def slots_ok_def)

text \<open>The processes the provisioner has given up are dead, and so are those a \<open>Close\<close> would stop.\<close>

definition all_dead :: "lstate \<Rightarrow> bool" where
  "all_dead s \<longleftrightarrow> (\<forall>d \<in> set (snd s). \<not> dm_running d)"

lemma Reestablish_all_dead:
  assumes "local_ok s" "all_dead s"
  shows "local_ok (snd (local_Reestablish e slot s)) \<and> all_dead (snd (local_Reestablish e slot s))"
proof -
  obtain r s' where e: "local_Reestablish e slot s = (r, s')" by (metis prod.collapse)
  from e assms(1) have "all_dead s'"
    using assms(2) by (cases rule: local_Reestablish_cases) (auto simp: all_dead_def one_slot_def)
  moreover have "local_ok s'" using lp.reestablish_ok [OF assms(1), of e slot] e by simp
  ultimately show ?thesis by (simp add: e)
qed

lemma after_all_dead:
  "local_ok s \<Longrightarrow> all_dead s \<Longrightarrow> local_ok (after_all local_Reestablish ops s) \<and> all_dead (after_all local_Reestablish ops s)"
  unfolding after_all_def
  by (induction ops arbitrary: s) (auto simp: Reestablish_all_dead split: prod.splits)

lemma Close_all_dead: "local_ok s \<Longrightarrow> all_dead s \<Longrightarrow> all_dead (local_Close s) \<and> lo_slots (fst (local_Close s)) = []"
  by (fastforce simp: local_Close_def all_dead_def local_ok_def slots_ok_def slot_ok_def)

lemma Provision_all_dead:
  assumes "local_Provision e n s = (r, s')" "lo_slots (fst s) = []" "all_dead s"
  shows "all_dead s' \<and> (isl r \<longrightarrow> lo_slots (fst s') = [])"
  using assms(1)
proof (cases rule: local_Provision_cases)
  case (1 x)
  then show ?thesis using assms by (simp add: all_dead_def)
next
  case (2 l slots routes err dead s1)
  note C = collected_spec [OF arrivals(1) _ 2(3)]
  have bound: "\<forall>i \<in> set (sort_key (le_arrival e) [1..n]). 1 \<le> i \<and> i \<le> int (nat n)" using 2(1) by simp
  have "\<forall>d \<in> set dead. \<not> dm_running d" using C [OF bound] bootSlot_fails by blast
  then have d1: "all_dead s1" using assms(2,3) 2(2,4) by (auto simp: all_dead_def)
  have "\<forall>(i, sl) \<in> set slots. slot_ok i sl" using C [OF bound] bootSlot_slot_ok by fastforce
  then have "local_ok s1" using 2(4) by (simp add: local_ok_def slots_ok_def)
  then show ?thesis using Close_all_dead d1 2(5) by (auto split: option.splits)
qed

lemma reestablish_pin:
  assumes "local_ok s" "map_of (lo_slots (fst s)) i = Some sl"
  shows "\<exists>sl'. map_of (lo_slots (fst (after_all local_Reestablish ops s))) i = Some sl' \<and> dm_pinned (sl_daemon sl') = dm_pinned (sl_daemon sl)"
  using assms unfolding after_all_def
proof (induction ops arbitrary: s sl)
  case (Cons op ops)
  obtain e slot r s' where op: "op = (e, slot)" and e: "local_Reestablish e slot s = (r, s')" by (metis prod.exhaust)
  have ok: "local_ok s'" using lp.reestablish_ok [OF Cons(2), of e slot] e by simp
  from e Cons(2) have "\<exists>sl'. map_of (lo_slots (fst s')) i = Some sl' \<and> dm_pinned (sl_daemon sl') = dm_pinned (sl_daemon sl)"
    using Cons(3) by (cases rule: local_Reestablish_cases) (auto simp: one_slot_def)
  then show ?case using Cons(1) [OF ok] op e by auto
qed simp

lemma PinExit_pins:
  assumes "local_PinExit ctx slot user s = (None, s')" "local_ok s"
  shows "local_ok s' \<and> (\<forall>i. local_view s' i = local_view s i)
     \<and> (\<exists>sl. map_of (lo_slots (fst s')) slot = Some sl \<and> dm_pinned (sl_daemon sl) \<noteq> [])"
proof -
  obtain sl d where sl: "map_of (lo_slots (fst s)) slot = Some sl"
    and p: "PinSOCKSUser ctx (if user = [] then rd_Username (sl_def sl) else user) (sl_daemon sl) = (None, d)"
    and s': "s' = (set_slot slot (sl\<lparr>sl_daemon := d\<rparr>) (fst s), snd s)"
    using assms(1) by (auto simp: local_PinExit_def split: option.splits prod.splits)
  have ok: "slot_ok slot sl" using slots_okD assms(2) sl by (simp add: local_ok_def)
  have d: "same_process (sl_daemon sl) d \<and> norm_fp (dm_pinned d) = dm_pinned d"
    using PinSOCKSUser_same [OF p] ok by (simp add: slot_ok_def)
  obtain u where "pin_loop (map ctx [0..<pinAttempts]) u None (sl_daemon sl) = (None, d)"
    using p by (auto simp: PinSOCKSUser_def split: if_splits)
  from pin_loop_cases [OF this] obtain streams circs where "exitForSOCKSUser streams circs u = Inr (dm_pinned d)"
    by (auto simp: pinAttempts_def pinned_dialog_def)
  then have "dm_pinned d \<noteq> []" using exit_is_hop by metis
  moreover have "slot_ok slot (sl\<lparr>sl_daemon := d\<rparr>)"
    using ok d same_process_live [of "sl_daemon sl" d] by (simp add: slot_ok_def)
  ultimately show ?thesis using assms(2) s' sl by (simp add: local_ok_def set_slot_ok local_view_def)
qed

definition sample_local_env :: local_env where
  "sample_local_env = \<lparr>le_getenv = (\<lambda>_. None), le_install = Inr ''tor'', le_prepare = None, le_boot = (\<lambda>_. sample_tenv),
     le_rand = (\<lambda>_ _. Some (\<lambda>_. 1)), le_arrival = (\<lambda>_. 0)\<rparr>"

definition fresh_local :: lstate where
  "fresh_local = (\<lparr>lo_DataDir = ''/d'', lo_Binary = [], lo_slots = []\<rparr>, [])"


definition sample_provisioned :: "route list result \<times> lstate" where
  "sample_provisioned = local_Provision sample_local_env 2 fresh_local"

definition sample_pinned :: "gerr option \<times> lstate" where
  "sample_pinned = local_PinExit (\<lambda>_. (None, None)) 1 ''u'' (snd sample_provisioned)"


text \<open>
  No tor process is left behind. On a fresh provisioner a failed \<open>Provision\<close> keeps no slot and every process it
  started is dead, in whatever order the slots report; after a successful one and any sequence of \<open>Reestablish\<close> calls, every
  process that was given up is dead, and after \<open>Close\<close> no process runs at all.
\<close>

theorem local_no_stray_process:
  assumes "lo_slots (fst s) = []" "all_dead s" "local_Provision e n s = (r, s1)"
  shows "(isl r \<longrightarrow> lo_slots (fst s1) = []) \<and> all_dead (after_all local_Reestablish ops s1)
    \<and> all_dead (local_Close (after_all local_Reestablish ops s1)) \<and> lo_slots (fst (local_Close (after_all local_Reestablish ops s1))) = []"
proof -
  have "local_ok s1" using lp.provision_ok [OF local_ok_fresh [OF assms(1)], of e n] assms(3) by simp
  moreover note Provision_all_dead [OF assms(3,1,2)]
  ultimately show ?thesis using after_all_dead [of s1 ops] Close_all_dead by blast
qed

theorem local_no_stray_process_witness:
  "all_dead (local_Close (after_all local_Reestablish [(sample_local_env, 1)] (snd (local_Provision sample_local_env 2 fresh_local))))"
  using local_no_stray_process [of fresh_local sample_local_env 2 "fst (local_Provision sample_local_env 2 fresh_local)"
      "snd (local_Provision sample_local_env 2 fresh_local)" "[(sample_local_env, 1)]"]
  by (simp add: fresh_local_def all_dead_def)

end
