(* ===== verification/Process_Tree.thy ===== *)
theory Process_Tree
  imports Go_Regexp "HOL-Library.Multiset"
begin

text \<open>
  The process tree of a browser: \<open>ProcessTree\<close> and \<open>KillTree\<close> of \<open>src/routing/platform\<close> on Linux, macOS and
  Windows. Each platform reads a table of processes and their parents in its own way and walks it with the same
  loop. The loop has no bound of its own, so it is a partial function: \<open>None\<close> when it does not return.
\<close>

section \<open>The table of parents\<close>

type_synonym ptable = "(int \<times> int) list"

text \<open>\<open>readPPid\<close>, given \<open>/proc/<pid>/stat\<close>.\<close>

definition readPPid :: "string option \<Rightarrow> int option" where
  "readPPid stat = (case stat of None \<Rightarrow> None
     | Some s \<Rightarrow> (case LastIndexByte s (CHR '')'') of
         None \<Rightarrow> None
       | Some i \<Rightarrow> if i + 2 > length s then None
                   else (case Fields (drop (i + 2) s) of _ # p # _ \<Rightarrow> Atoi p | _ \<Rightarrow> None)))"

text \<open>The entries of \<open>/proc\<close> with their \<open>stat\<close> files.\<close>

definition linux_table :: "(string \<times> string option) list \<Rightarrow> ptable" where
  "linux_table entries = List.map_filter (\<lambda>(name, stat).
     case Atoi name of None \<Rightarrow> None | Some pid \<Rightarrow> map_option (\<lambda>pp. (pid, pp)) (readPPid stat)) entries"

text \<open>The lines of \<open>ps -axo pid=,ppid=\<close>.\<close>

definition darwin_table :: "string list \<Rightarrow> ptable" where
  "darwin_table ls = List.map_filter (\<lambda>l. case Fields l of
      [a, b] \<Rightarrow> (case (Atoi a, Atoi b) of (Some pid, Some pp) \<Rightarrow> Some (pid, pp) | _ \<Rightarrow> None) | _ \<Rightarrow> None) ls"

section \<open>The walk\<close>

definition children_of :: "ptable \<Rightarrow> int \<Rightarrow> int list" where
  "children_of t p = map fst (filter (\<lambda>(_, pp). pp = p) t)"

partial_function (option) tree_loop :: "(int \<Rightarrow> int list) \<Rightarrow> nat \<Rightarrow> int list \<Rightarrow> int list option" where
  "tree_loop ch i tree = (if i < length tree then tree_loop ch (Suc i) (tree @ ch (tree ! i)) else Some tree)"

declare tree_loop.simps [code]

definition ProcessTree :: "ptable \<Rightarrow> int \<Rightarrow> int list option" where
  "ProcessTree t root = tree_loop (children_of t) 0 [root]"

text \<open>The processes \<open>KillTree\<close> signals, in order: on unix a negative number is a process group.\<close>

definition unix_killTree :: "int list result \<Rightarrow> int option \<Rightarrow> int \<Rightarrow> int list" where
  "unix_killTree tree pgid root =
    (let pids = (case tree of Inl _ \<Rightarrow> [] | Inr ps \<Rightarrow> ps) in
     (if pgid = Some root then [- root] else []) @ rev pids @ (if pids = [] then [root] else []))"

text \<open>On Windows a process that cannot be opened is skipped.\<close>

definition windows_KillTree :: "int list result \<Rightarrow> (int \<Rightarrow> bool) \<Rightarrow> int list" where
  "windows_KillTree tree opens = filter opens (rev (case tree of Inl _ \<Rightarrow> [] | Inr ps \<Rightarrow> ps))"

section \<open>What the walk finds\<close>

definition kin :: "ptable \<Rightarrow> (int \<times> int) set" where
  "kin t = {(p, c). (c, p) \<in> set t}"

lemma set_children_of: "set (children_of t p) = {c. (p, c) \<in> kin t}"
  by (force simp: children_of_def kin_def)

lemma children_kin: "c \<in> set (children_of t p) \<longleftrightarrow> (p, c) \<in> kin t"
  by (simp add: set_children_of)

lemma distinct_children: "distinct (map fst t) \<Longrightarrow> distinct (children_of t p)"
  by (auto simp: children_of_def distinct_map inj_on_def intro: distinct_filter)

lemma kin_unique: "distinct (map fst t) \<Longrightarrow> (p, c) \<in> kin t \<Longrightarrow> (q, c) \<in> kin t \<Longrightarrow> p = q"
  by (auto simp: kin_def dest: eq_key_imp_eq_value)

text \<open>The children of the processes from position \<open>i\<close> on are what the loop appends.\<close>

lemma tree_loop_appends:
  assumes "tree_loop ch i tree = Some r" "i \<le> length tree"
  shows "length tree \<le> length r \<and> r = tree @ concat (map ch (drop i r))"
proof -
  let ?P = "\<lambda>ch i tree r. i \<le> length tree \<longrightarrow> length tree \<le> length r \<and> r = tree @ concat (map ch (drop i r))"
  have "?P ch i tree r"
  proof (rule tree_loop.raw_induct [where P = ?P, OF _ assms(1)])
    fix loop :: "(int \<Rightarrow> int list) \<Rightarrow> nat \<Rightarrow> int list \<Rightarrow> int list option" and ch i tree r
    assume IH: "\<And>ch i tree r. loop ch i tree = Some r \<Longrightarrow> ?P ch i tree r"
      and b: "(if i < length tree then loop ch (Suc i) (tree @ ch (tree ! i)) else Some tree) = Some r"
    show "?P ch i tree r"
    proof (cases "i < length tree")
      case True
      then have l: "length (tree @ ch (tree ! i)) \<le> length r" "r = (tree @ ch (tree ! i)) @ concat (map ch (drop (Suc i) r))"
        using IH [of ch "Suc i" "tree @ ch (tree ! i)" r] b by simp_all
      then have "r ! i = tree ! i" using True by (metis append.assoc nth_append)
      moreover have "drop i r = r ! i # drop (Suc i) r" using True l(1) by (simp add: Cons_nth_drop_Suc)
      ultimately show ?thesis using l by simp
    next
      case False
      then show ?thesis using b by auto
    qed
  qed
  then show ?thesis using assms(2) by simp
qed

lemma ProcessTree_appends: "ProcessTree t root = Some r \<Longrightarrow> r = root # concat (map (children_of t) r)"
  using tree_loop_appends [of "children_of t" 0 "[root]" r] by (simp add: ProcessTree_def)

text \<open>How often a process is listed: once as the root, and as often as its parents are.\<close>

lemma tree_counts:
  assumes "ProcessTree t root = Some r"
  shows "count (mset r) x = (if x = root then 1 else 0) + sum_list (map (\<lambda>y. count (mset (children_of t y)) x) r)"
proof -
  have "count (mset (concat (map f ys))) x = sum_list (map (\<lambda>y. count (mset (f y)) x) ys)" for f :: "int \<Rightarrow> int list" and ys
    by (induction ys) simp_all
  then show ?thesis using arg_cong [OF ProcessTree_appends [OF assms], of "\<lambda>r. count (mset r) x"] by simp
qed

lemma sum_list_count_ge:
  fixes f :: "'a \<Rightarrow> nat"
  shows "1 \<le> f y \<Longrightarrow> count (mset ys) y \<le> sum_list (map f ys)"
  by (induction ys) auto

lemma tree_child_counts:
  assumes "ProcessTree t root = Some r" "(y, x) \<in> kin t"
  shows "count (mset r) y + (if x = root then 1 else 0) \<le> count (mset r) x"
proof -
  have "1 \<le> count (mset (children_of t y)) x"
    using assms(2) by (simp add: children_kin Suc_le_eq)
  then show ?thesis using sum_list_count_ge [of "\<lambda>y. count (mset (children_of t y)) x" y r] tree_counts [OF assms(1), of x] by simp
qed

lemma tree_desc_counts:
  "(y, x) \<in> (kin t)\<^sup>+ \<Longrightarrow> ProcessTree t root = Some r \<Longrightarrow> count (mset r) y + (if x = root then 1 else 0) \<le> count (mset r) x"
proof (induction rule: trancl_induct)
  case (base x)
  then show ?case using tree_child_counts by blast
next
  case (step x z)
  then show ?case using tree_child_counts [OF step(4,2)] by linarith
qed

text \<open>A root that is its own descendant: the walk has no end.\<close>

lemma tree_cycle_none: "(root, root) \<in> (kin t)\<^sup>+ \<Longrightarrow> ProcessTree t root = None"
  using tree_desc_counts [of root root t root] by (cases "ProcessTree t root") fastforce+

lemma tree_loop_within:
  assumes "tree_loop ch i tree = Some r" "\<forall>x \<in> X. set (ch x) \<subseteq> X" "set tree \<subseteq> X"
  shows "set r \<subseteq> X"
proof -
  let ?P = "\<lambda>ch i tree r. (\<forall>x \<in> X. set (ch x) \<subseteq> X) \<longrightarrow> set tree \<subseteq> X \<longrightarrow> set r \<subseteq> X"
  have "?P ch i tree r"
  proof (rule tree_loop.raw_induct [where P = ?P, OF _ assms(1)])
    fix loop :: "(int \<Rightarrow> int list) \<Rightarrow> nat \<Rightarrow> int list \<Rightarrow> int list option" and ch i tree r
    assume IH: "\<And>ch i tree r. loop ch i tree = Some r \<Longrightarrow> ?P ch i tree r"
      and b: "(if i < length tree then loop ch (Suc i) (tree @ ch (tree ! i)) else Some tree) = Some r"
    show "?P ch i tree r"
    proof (cases "i < length tree")
      case True
      then have "set tree \<subseteq> X \<Longrightarrow> tree ! i \<in> X" using nth_mem by blast
      then show ?thesis using IH [of ch "Suc i" "tree @ ch (tree ! i)" r] b True by auto
    next
      case False
      then show ?thesis using b by simp
    qed
  qed
  then show ?thesis using assms(2,3) by simp
qed

lemma tree_closed:
  assumes "ProcessTree t root = Some r"
  shows "set r = {x. (root, x) \<in> (kin t)\<^sup>*}"
proof -
  note E = ProcessTree_appends [OF assms]
  have root: "root \<in> set r" using E by (metis list.set_intros(1))
  have step: "c \<in> set r" if "x \<in> set r" "(x, c) \<in> kin t" for x c
  proof -
    have "c \<in> set (concat (map (children_of t) r))" using that by (auto simp: set_children_of)
    then show ?thesis using E by (metis list.set_intros(2))
  qed
  have "x \<in> set r" if "(root, x) \<in> (kin t)\<^sup>*" for x
    using that by (induction rule: rtrancl_induct) (use root step in auto)
  moreover have "set r \<subseteq> {x. (root, x) \<in> (kin t)\<^sup>*}"
    using tree_loop_within [OF assms [unfolded ProcessTree_def], of "{x. (root, x) \<in> (kin t)\<^sup>*}"]
    by (auto simp: set_children_of intro: rtrancl_into_rtrancl)
  ultimately show ?thesis by blast
qed

section \<open>The walk ends on a forest\<close>

text \<open>The relation below the root is a tree when every process has one parent and the root is not below itself.\<close>

lemma cycle_reaches_root:
  assumes "distinct (map fst t)"
  shows "(root, x) \<in> (kin t)\<^sup>* \<Longrightarrow> (x, x) \<in> (kin t)\<^sup>+ \<Longrightarrow> (root, root) \<in> (kin t)\<^sup>+"
proof (induction rule: rtrancl_induct)
  case (step y z)
  obtain w where w: "(z, w) \<in> (kin t)\<^sup>*" "(w, z) \<in> kin t" using step(4) by (metis tranclD2)
  then have "w = y" using kin_unique [OF assms _ step(2)] by blast
  then have "(y, y) \<in> (kin t)\<^sup>+" using w step(2) by (meson rtrancl_into_trancl2)
  then show ?case by (rule step(3))
qed

definition below :: "ptable \<Rightarrow> int \<Rightarrow> (int \<times> int) set" where
  "below t root = {(c, p). (p, c) \<in> kin t \<and> (root, p) \<in> (kin t)\<^sup>*}"

lemma below_kin: "(c, p) \<in> (below t root)\<^sup>+ \<Longrightarrow> (p, c) \<in> (kin t)\<^sup>+ \<and> (root, p) \<in> (kin t)\<^sup>*"
proof (induction rule: trancl_induct)
  case (base y)
  then show ?case by (auto simp: below_def)
next
  case (step y z)
  then show ?case by (auto simp: below_def intro: trancl_into_trancl2)
qed

lemma wf_below:
  assumes "distinct (map fst t)" "(root, root) \<notin> (kin t)\<^sup>+"
  shows "wf (below t root)"
proof (rule finite_acyclic_wf)
  have "finite (kin t)" by (rule finite_subset [of _ "(\<lambda>(c, p). (p, c)) ` set t"]) (auto simp: kin_def)
  then show "finite (below t root)"
    by (rule finite_subset [of _ "(\<lambda>(p, c). (c, p)) ` kin t", rotated, OF finite_imageI]) (auto simp: below_def)
  show "acyclic (below t root)"
    using below_kin cycle_reaches_root [OF assms(1)] assms(2) by (meson acyclicI)
qed

text \<open>The processes still to be looked at decrease in the multiset order with every turn of the loop.\<close>

lemma mult_step:
  assumes "\<forall>k \<in> set ys. (k, x) \<in> R"
  shows "(mset (xs @ ys), mset (x # xs)) \<in> mult R"
  using one_step_implies_mult [of "{#x#}" "mset ys" R "mset xs"] assms by simp

lemma tree_loop_ends:
  assumes "wf (below t root)"
  shows "i \<le> length tree \<Longrightarrow> set tree \<subseteq> {x. (root, x) \<in> (kin t)\<^sup>*} \<Longrightarrow> \<exists>r. tree_loop (children_of t) i tree = Some r"
proof (induction "mset (drop i tree)" arbitrary: i tree rule: wf_induct_rule [OF wf_mult [OF assms]])
  case 1
  show ?case
  proof (cases "i < length tree")
    case True
    let ?x = "tree ! i" and ?ys = "children_of t (tree ! i)"
    have x: "(root, ?x) \<in> (kin t)\<^sup>*" using 1(3) nth_mem [OF True] by blast
    have d: "drop i tree = ?x # drop (Suc i) tree" using True by (simp add: Cons_nth_drop_Suc)
    have "\<forall>k \<in> set ?ys. (k, ?x) \<in> below t root" using x by (simp add: set_children_of below_def)
    from mult_step [OF this, of "drop (Suc i) tree"]
    have m: "(mset (drop (Suc i) (tree @ ?ys)), mset (drop i tree)) \<in> mult (below t root)" using True d by simp
    have "set (tree @ ?ys) \<subseteq> {x. (root, x) \<in> (kin t)\<^sup>*}"
      using 1(3) x by (auto simp: set_children_of intro: rtrancl_into_rtrancl)
    then show ?thesis using 1(1) [OF m] True by (subst tree_loop.simps) simp
  next
    case False
    then show ?thesis by (subst tree_loop.simps) simp
  qed
qed

lemma tree_returns:
  assumes "distinct (map fst t)" "(root, root) \<notin> (kin t)\<^sup>+"
  shows "\<exists>r. ProcessTree t root = Some r"
  unfolding ProcessTree_def using tree_loop_ends [OF wf_below [OF assms], of 0 "[root]"] by simp

text \<open>No process is listed twice.\<close>

lemma tree_count_le:
  assumes "distinct (map fst t)" "ProcessTree t root = Some r"
  shows "(root, x) \<in> (kin t)\<^sup>* \<Longrightarrow> count (mset r) x \<le> 1"
proof (induction rule: rtrancl_induct)
  case base
  have "(root, root) \<notin> (kin t)\<^sup>+" using tree_cycle_none [of root t] assms(2) by fastforce
  then have "root \<notin> set (children_of t y)" if "y \<in> set r" for y
    using that tree_closed [OF assms(2)] children_kin [of root t y] by (metis mem_Collect_eq rtrancl_into_trancl1)
  then have "map (\<lambda>y. count (mset (children_of t y)) root) r = map (\<lambda>_. 0) r" by (simp add: count_eq_zero_iff)
  then have "sum_list (map (\<lambda>y. count (mset (children_of t y)) root) r) = 0" by (simp only: sum_list_0)
  then show ?case using tree_counts [OF assms(2), of root] by simp
next
  case (step p x)
  have "count (mset (children_of t y)) x = (if y = p then 1 else 0)" for y
  proof (cases "y = p")
    case True
    then show ?thesis using step(2) distinct_children [OF assms(1), of p] by (simp add: children_kin distinct_count_atmost_1)
  next
    case False
    then have "x \<notin> set (children_of t y)" using kin_unique [OF assms(1) _ step(2)] by (auto simp: children_kin)
    then show ?thesis using False by (simp add: count_eq_zero_iff)
  qed
  then have "sum_list (map (\<lambda>y. count (mset (children_of t y)) x) r) = count (mset r) p"
    by (simp only:) (induction r, auto)
  moreover have "x \<noteq> root" using tree_cycle_none [of root t] assms(2) step(1,2) by (fastforce dest: rtrancl_into_trancl1)
  ultimately show ?case using tree_counts [OF assms(2), of x] step(3) by simp
qed

lemma tree_distinct:
  assumes "distinct (map fst t)" "ProcessTree t root = Some r"
  shows "distinct r"
proof -
  have "count (mset r) x \<le> 1" if "x \<in> set r" for x
    using tree_count_le [OF assms] that tree_closed [OF assms(2)] by blast
  then have "\<forall>x. count (mset r) x = (if x \<in> set r then 1 else 0)"
    by (metis count_mset_0_iff count_greater_zero_iff le_antisym less_one not_le set_mset_mset)
  then show ?thesis using distinct_count_atmost_1 by blast
qed

section \<open>Properties\<close>

text \<open>
  C32: The walk ends exactly on a forest. Over a table that gives every process one parent, \<open>ProcessTree\<close> returns if and
  only if the root is not its own descendant, and then lists the root and all of its descendants, each once, and nothing
  else; when the table has a cycle through the root, which reused process numbers can produce, the loop never ends.
\<close>

theorem process_tree_exact:
  assumes "distinct (map fst t)"
  shows "case ProcessTree t root of
      None \<Rightarrow> (root, root) \<in> (kin t)\<^sup>+
    | Some r \<Rightarrow> (root, root) \<notin> (kin t)\<^sup>+ \<and> distinct r \<and> set r = {x. (root, x) \<in> (kin t)\<^sup>*}
        \<and> (\<forall>pgid. {x. (root, x) \<in> (kin t)\<^sup>*} \<subseteq> set (unix_killTree (Inr r) pgid root))"
proof (cases "ProcessTree t root")
  case None
  then show ?thesis using tree_returns [OF assms, of root] by auto
next
  case (Some r)
  then have "(root, root) \<notin> (kin t)\<^sup>+" using tree_cycle_none [of root t] by auto
  then show ?thesis
    using Some tree_distinct [OF assms Some] tree_closed [OF Some] by (auto simp: unix_killTree_def Let_def)
qed

theorem process_tree_exact_witness:
  "ProcessTree [(2, 1), (3, 1), (9, 8), (4, 2)] 1 = Some [1, 2, 3, 4] \<and> distinct [1, 2, 3, 4 :: int]"
proof -
  have "ProcessTree [(2, 1), (3, 1), (9, 8), (4, 2)] 1 = Some [1, 2, 3, 4]" by code_simp
  with process_tree_exact [of "[(2, 1), (3, 1), (9, 8), (4, 2)]" 1] show ?thesis by simp
qed

text \<open>Two processes that list each other as parent: the walk from either does not return.\<close>

theorem process_tree_cycle:
  assumes "(a, b) \<in> set t" "(b, a) \<in> set t"
  shows "ProcessTree t a = None"
proof (rule tree_cycle_none)
  have "(b, a) \<in> kin t" "(a, b) \<in> kin t" using assms by (simp_all add: kin_def)
  then show "(a, a) \<in> (kin t)\<^sup>+" by (meson trancl.simps)
qed

end
