(* ===== verification/Platform.thy ===== *)
theory Platform
  imports Process_Tree Verify
begin

text \<open>
  The sockets of a browser's processes: \<open>RemoteEndpoints\<close> of \<open>src/routing/platform\<close> on Linux (\<open>/proc\<close>), macOS
  (\<open>lsof\<close>) and Windows (the owner tables of iphlpapi, byte by byte), with the permission checks, the data directory
  and the IPC endpoint of each platform. What the operating system answers is an argument.
\<close>

unbundle bit_operations_syntax

section \<open>Numbers and addresses\<close>

definition ParseUint10 :: "nat \<Rightarrow> string \<Rightarrow> nat option" where
  "ParseUint10 bits s = (if s \<noteq> [] \<and> list_all is_digit s \<and> digits_val s < 2 ^ bits then Some (digits_val s) else None)"

definition ParseUint16 :: "nat \<Rightarrow> string \<Rightarrow> nat option" where
  "ParseUint16 bits s = (if s \<noteq> [] \<and> list_all is_hex s \<and> hex_group s < 2 ^ bits then Some (hex_group s) else None)"

text \<open>The value of \<open>strconv.ParseInt(s, 16, 32)\<close>, whatever its error: zero for bad syntax, the bound beyond the range.\<close>

definition ParseInt16 :: "string \<Rightarrow> int" where
  "ParseInt16 s =
    (let (neg, ds) = (case s of [] \<Rightarrow> (False, []) | c # cs \<Rightarrow> if c = CHR ''-'' then (True, cs) else if c = CHR ''+'' then (False, cs) else (False, s))
     in if ds = [] \<or> \<not> list_all is_hex ds then 0
        else if neg then max (- (2 ^ 31)) (- int (hex_group ds)) else min (2 ^ 31 - 1) (int (hex_group ds)))"

definition plain_addr :: "byte list \<Rightarrow> addr" where
  "plain_addr bs = \<lparr>a_bytes = bs, a_zone = []\<rparr>"

definition AddrFromSlice :: "byte list \<Rightarrow> addr option" where
  "AddrFromSlice bs = (if length bs = 4 \<or> length bs = 16 then Some (plain_addr bs) else None)"

definition Is4In6 :: "addr \<Rightarrow> bool" where
  "Is4In6 a \<longleftrightarrow> length (a_bytes a) = 16 \<and> take 12 (a_bytes a) = v4InV6Prefix"

definition Unmap :: "addr \<Rightarrow> addr" where
  "Unmap a = (if Is4In6 a then plain_addr (drop 12 (a_bytes a)) else a)"

definition tcpStates :: "int \<Rightarrow> string" where
  "tcpStates n = (if 1 \<le> n \<and> n \<le> 11
     then [''ESTABLISHED'', ''SYN_SENT'', ''SYN_RECV'', ''FIN_WAIT1'', ''FIN_WAIT2'', ''TIME_WAIT'', ''CLOSE'',
           ''CLOSE_WAIT'', ''LAST_ACK'', ''LISTEN'', ''CLOSING''] ! nat (n - 1)
     else [])"

section \<open>Linux\<close>

text \<open>\<open>parseProcAddr\<close>: the bytes of each 32-bit word are in the machine's (little-endian) order.\<close>

fun swap_words :: "byte list \<Rightarrow> byte list" where
  "swap_words (a # b # c # d # rest) = d # c # b # a # swap_words rest"
| "swap_words bs = bs"

definition parseProcAddr :: "string \<Rightarrow> (addr \<times> nat) option" where
  "parseProcAddr s = (case LastIndexByte s (CHR '':'') of
      None \<Rightarrow> None
    | Some i \<Rightarrow> (case hex_DecodeString (take i s) of
        None \<Rightarrow> None
      | Some raw \<Rightarrow> (case ParseUint16 16 (drop (Suc i) s) of
          None \<Rightarrow> None
        | Some port \<Rightarrow> map_option (\<lambda>a. (Unmap a, port)) (AddrFromSlice (swap_words raw)))))"

definition socket_inode :: "string \<Rightarrow> nat option" where
  "socket_inode link = (if HasPrefix link ''socket:['' \<and> HasSuffix link '']''
     then ParseUint10 64 (take (length link - 9) (drop 8 link)) else None)"

text \<open>The sockets behind the descriptors of the processes; the links of one process are absent when it is gone or not ours.\<close>

definition socket_inodes :: "(int \<Rightarrow> string list option) \<Rightarrow> int list \<Rightarrow> nat \<Rightarrow> int option" where
  "socket_inodes fds pids = foldl (\<lambda>m pid. case fds pid of None \<Rightarrow> m
     | Some links \<Rightarrow> foldl (\<lambda>m link. case socket_inode link of None \<Rightarrow> m | Some n \<Rightarrow> m(n \<mapsto> pid)) m links) Map.empty pids"

text \<open>One line of a table in \<open>/proc/net\<close>.\<close>

definition proc_line :: "string \<Rightarrow> (nat \<Rightarrow> int option) \<Rightarrow> string \<Rightarrow> Endpoint option" where
  "proc_line table inodes line =
    (let fs = Fields line in
     if length fs < 10 then None
     else case Option.bind (ParseUint10 64 (fs ! 9)) inodes of
       None \<Rightarrow> None
     | Some pid \<Rightarrow> (case (parseProcAddr (fs ! 1), parseProcAddr (fs ! 2)) of
         (Some local, Some remote) \<Rightarrow>
           (let tcp = HasPrefix table ''tcp''; state = (if tcp then tcpStates (ParseInt16 (fs ! 3)) else []) in
            if tcp \<and> state = ''LISTEN'' then None
            else Some \<lparr>ep_PID = pid, ep_Proto = table, ep_Local = Some local, ep_Remote = Some remote, ep_State = state\<rparr>)
       | _ \<Rightarrow> None))"

datatype net_table = NoTable | TableError gerr | TableLines "string list" "gerr option"

definition readProcNet :: "net_table \<Rightarrow> string \<Rightarrow> (nat \<Rightarrow> int option) \<Rightarrow> Endpoint list result" where
  "readProcNet file table inodes = (case file of
      NoTable \<Rightarrow> Inr []
    | TableError e \<Rightarrow> Inl e
    | TableLines ls err \<Rightarrow> (case err of Some e \<Rightarrow> Inl e | None \<Rightarrow> Inr (List.map_filter (proc_line table inodes) (tl ls))))"

fun read_tables :: "(string \<Rightarrow> net_table) \<Rightarrow> (nat \<Rightarrow> int option) \<Rightarrow> string list \<Rightarrow> Endpoint list result" where
  "read_tables net inodes [] = Inr []"
| "read_tables net inodes (t # ts) = (case readProcNet (net t) t inodes of
      Inl e \<Rightarrow> Inl e
    | Inr eps \<Rightarrow> (case read_tables net inodes ts of Inl e \<Rightarrow> Inl e | Inr rest \<Rightarrow> Inr (eps @ rest)))"

definition no_sockets :: "(int \<Rightarrow> string list option) \<Rightarrow> int list \<Rightarrow> bool" where
  "no_sockets fds pids \<longleftrightarrow> (\<forall>pid \<in> set pids. \<forall>links. fds pid = Some links \<longrightarrow> list_all (\<lambda>l. socket_inode l = None) links)"

definition linux_RemoteEndpoints ::
  "(int \<Rightarrow> string list option) \<Rightarrow> (string \<Rightarrow> net_table) \<Rightarrow> int list \<Rightarrow> Endpoint list result" where
  "linux_RemoteEndpoints fds net pids =
    (if no_sockets fds pids then Inr []
     else read_tables net (socket_inodes fds pids) [''tcp'', ''tcp6'', ''udp'', ''udp6''])"

section \<open>macOS\<close>

definition splitLsofName :: "string \<Rightarrow> string \<times> string" where
  "splitLsofName s = (let n = length (takeWhile (\<lambda>i. \<not> HasPrefix (drop i s) ''->'') [0..<length s]) in
     if n < length s then (take n s, drop (n + 2) s) else (s, []))"

definition ParseAddrPort :: "string \<Rightarrow> (addr \<times> nat) option" where
  "ParseAddrPort s = (case LastIndexByte s (CHR '':'') of
      None \<Rightarrow> None
    | Some i \<Rightarrow>
       (let ip = take i s; port = drop (Suc i) s; v6 = (ip \<noteq> [] \<and> hd ip = CHR ''['') in
        if ip = [] \<or> port = [] \<or> v6 \<and> (length ip < 2 \<or> List.last ip \<noteq> CHR '']'') then None
        else case (ParseUint10 16 port, ParseAddr (if v6 then butlast (tl ip) else ip)) of
          (Some p, Some a) \<Rightarrow> if v6 = (length (a_bytes a) = 4) then None else Some (a, p)
        | _ \<Rightarrow> None))"

definition star_any :: "string \<Rightarrow> string" where
  "star_any s = concat (map (\<lambda>c. if c = CHR ''*'' then ''0.0.0.0'' else [c]) s)"

definition parseLsofAddr :: "string \<Rightarrow> addrport" where
  "parseLsofAddr s0 =
    (if s0 = [] then None
     else let s = star_any s0 in
       case ParseAddrPort s of Some ap \<Rightarrow> Some ap
       | None \<Rightarrow> (case LastIndexByte s (CHR '':'') of
           None \<Rightarrow> None
         | Some i \<Rightarrow> (case (ParseUint10 16 (drop (Suc i) s), ParseAddr (Trim (take i s) ''[]'')) of
              (Some p, Some a) \<Rightarrow> Some (a, p) | _ \<Rightarrow> None)))"

text \<open>The loop over the lines of \<open>lsof -F pPTn\<close>: endpoints found, the current one, and \<open>have\<close>.\<close>

type_synonym lsof = "Endpoint list \<times> Endpoint \<times> bool"

definition no_endpoint :: "int \<Rightarrow> Endpoint" where
  "no_endpoint pid = \<lparr>ep_PID = pid, ep_Proto = [], ep_Local = None, ep_Remote = None, ep_State = []\<rparr>"

definition lsof_flush :: "lsof \<Rightarrow> lsof" where
  "lsof_flush st = (case st of (eps, cur, have) \<Rightarrow>
     (if have \<and> ep_Proto cur \<noteq> [] \<and> ep_Local cur \<noteq> None \<and> \<not> (HasPrefix (ep_Proto cur) ''tcp'' \<and> ep_State cur = ''LISTEN'')
      then eps @ [cur] else eps, no_endpoint (ep_PID cur), False))"

definition addr_is6 :: "addrport \<Rightarrow> bool" where
  "addr_is6 ap \<longleftrightarrow> (case ap of None \<Rightarrow> False | Some (a, _) \<Rightarrow> length (a_bytes a) = 16)"

definition lsof_line :: "lsof \<Rightarrow> string \<Rightarrow> lsof" where
  "lsof_line st line = (case line of
      [] \<Rightarrow> st
    | k # val \<Rightarrow>
       if k = CHR ''p'' then (case lsof_flush st of (eps, cur, have) \<Rightarrow>
          (eps, cur\<lparr>ep_PID := (case Atoi val of None \<Rightarrow> 0 | Some n \<Rightarrow> n)\<rparr>, have))
       else if k = CHR ''P'' then (case lsof_flush st of (eps, cur, have) \<Rightarrow> (eps, cur\<lparr>ep_Proto := ToLower val\<rparr>, True))
       else (case st of (eps, cur, have) \<Rightarrow>
         if k = CHR ''T'' then (if HasPrefix val ''ST='' then (eps, cur\<lparr>ep_State := TrimPrefix val ''ST=''\<rparr>, have) else st)
         else if k = CHR ''n'' then
           (let local = parseLsofAddr (fst (splitLsofName val)); remote = parseLsofAddr (snd (splitLsofName val));
                proto = (if addr_is6 local \<and> ep_Proto cur = ''tcp'' then ''tcp6''
                         else if addr_is6 local \<and> ep_Proto cur = ''udp'' then ''udp6'' else ep_Proto cur) in
            (eps, cur\<lparr>ep_Local := local, ep_Remote := remote, ep_Proto := proto\<rparr>, have))
         else st))"

definition lsof_endpoints :: "string list \<Rightarrow> Endpoint list" where
  "lsof_endpoints ls = fst (lsof_flush (foldl lsof_line ([], no_endpoint 0, False) ls))"

text \<open>The outcome of running lsof: its output, and its error with the exit code when it has one.\<close>

definition darwin_RemoteEndpoints :: "string list \<Rightarrow> (gerr \<times> int option) option \<Rightarrow> int list \<Rightarrow> Endpoint list result" where
  "darwin_RemoteEndpoints out err pids =
    (if pids = [] then Inr []
     else case err of
       Some (e, code) \<Rightarrow> if out = [] then (if code = Some 1 then Inr [] else Inl (''lsof: '' @ e)) else Inr (lsof_endpoints out)
     | None \<Rightarrow> Inr (lsof_endpoints out))"

section \<open>Windows\<close>

definition le32 :: "byte list \<Rightarrow> 32 word" where
  "le32 b = ucast (b ! 0) OR push_bit 8 (ucast (b ! 1)) OR push_bit 16 (ucast (b ! 2)) OR push_bit 24 (ucast (b ! 3))"

definition netPort :: "32 word \<Rightarrow> 16 word" where
  "netPort v = push_bit 8 (ucast (v AND 0xff)) OR ucast (drop_bit 8 v AND 0xff)"

definition slice :: "nat \<Rightarrow> nat \<Rightarrow> byte list \<Rightarrow> byte list" where
  "slice a b bs = take (b - a) (drop a bs)"

definition AF_INET :: nat where "AF_INET = 2"

text \<open>The rows of a table: as many as its count says and its bytes hold.\<close>

definition table_rows :: "nat \<Rightarrow> byte list \<Rightarrow> byte list list" where
  "table_rows rowSize buf =
    (if length buf < 4 then []
     else map (\<lambda>i. drop (4 + i * rowSize) buf)
       (takeWhile (\<lambda>i. 4 + (i + 1) * rowSize \<le> length buf) [0..<unat (le32 (slice 0 4 buf))]))"

definition addr_port :: "byte list \<Rightarrow> byte list \<Rightarrow> addrport" where
  "addr_port a p = Some (plain_addr a, unat (netPort (le32 p)))"

definition tcp_row :: "nat \<Rightarrow> (int \<Rightarrow> bool) \<Rightarrow> byte list \<Rightarrow> Endpoint option" where
  "tcp_row fam want row =
    (let (pid, state, local, remote, proto) =
       (if fam = AF_INET
        then (slice 20 24 row, slice 0 4 row, addr_port (slice 4 8 row) (slice 8 12 row), addr_port (slice 12 16 row) (slice 16 20 row), ''tcp'')
        else (slice 52 56 row, slice 48 52 row, addr_port (slice 0 16 row) (slice 20 24 row), addr_port (slice 24 40 row) (slice 44 48 row), ''tcp6''));
       st = tcpStates (uint (le32 state)) in
     if \<not> want (uint (le32 pid)) \<or> st = ''LISTEN'' then None
     else Some \<lparr>ep_PID = uint (le32 pid), ep_Proto = proto, ep_Local = local, ep_Remote = remote, ep_State = st\<rparr>)"

definition decodeTCP :: "byte list \<Rightarrow> nat \<Rightarrow> (int \<Rightarrow> bool) \<Rightarrow> Endpoint list" where
  "decodeTCP buf fam want = List.map_filter (tcp_row fam want) (table_rows (if fam = AF_INET then 24 else 56) buf)"

definition udp_row :: "nat \<Rightarrow> (int \<Rightarrow> bool) \<Rightarrow> byte list \<Rightarrow> Endpoint option" where
  "udp_row fam want row =
    (let (pid, local, proto) =
       (if fam = AF_INET then (slice 8 12 row, addr_port (slice 0 4 row) (slice 4 8 row), ''udp'')
        else (slice 24 28 row, addr_port (slice 0 16 row) (slice 20 24 row), ''udp6'')) in
     if \<not> want (uint (le32 pid)) then None
     else Some \<lparr>ep_PID = uint (le32 pid), ep_Proto = proto, ep_Local = local, ep_Remote = None, ep_State = []\<rparr>)"

definition decodeUDP :: "byte list \<Rightarrow> nat \<Rightarrow> (int \<Rightarrow> bool) \<Rightarrow> Endpoint list" where
  "decodeUDP buf fam want = List.map_filter (udp_row fam want) (table_rows (if fam = AF_INET then 12 else 28) buf)"

text \<open>\<open>getTable\<close>: the code of each call, the first asking for the size, and the buffer of a successful one.\<close>

definition insufficient_buffer :: nat where "insufficient_buffer = 122"

fun table_tries :: "string \<Rightarrow> (nat \<times> byte list) list \<Rightarrow> byte list result" where
  "table_tries name [] = Inl (name @ '': table kept growing'')"
| "table_tries name ((r, buf) # rest) =
    (if r = 0 then Inr buf
     else if r \<noteq> insufficient_buffer then Inl (name @ '': error '' @ itoa_nat r) else table_tries name rest)"

definition getTable :: "string \<Rightarrow> nat \<Rightarrow> (nat \<Rightarrow> nat \<times> byte list) \<Rightarrow> byte list result" where
  "getTable name r tries =
    (if r \<noteq> insufficient_buffer \<and> r \<noteq> 0 then Inl (name @ '': error '' @ itoa_nat r) else table_tries name (map tries [0..<4]))"

text \<open>\<open>tables fam\<close> are the TCP and the UDP table of a family.\<close>

fun windows_families :: "(nat \<Rightarrow> byte list result \<times> byte list result) \<Rightarrow> (int \<Rightarrow> bool) \<Rightarrow> nat list \<Rightarrow> Endpoint list result" where
  "windows_families tables want [] = Inr []"
| "windows_families tables want (fam # fams) =
    (case tables fam of (t, u) \<Rightarrow> (case t of Inl e \<Rightarrow> Inl e
     | Inr tb \<Rightarrow> (case u of Inl e \<Rightarrow> Inl e
       | Inr ub \<Rightarrow> (case windows_families tables want fams of Inl e \<Rightarrow> Inl e
         | Inr rest \<Rightarrow> Inr (decodeTCP tb fam want @ decodeUDP ub fam want @ rest)))))"

definition windows_RemoteEndpoints :: "(nat \<Rightarrow> byte list result \<times> byte list result) \<Rightarrow> int list \<Rightarrow> Endpoint list result" where
  "windows_RemoteEndpoints tables pids = windows_families tables (\<lambda>p. p \<in> set pids) [AF_INET, 23]"

section \<open>Files and the IPC endpoint\<close>

text \<open>Data directories.\<close>

datatype goos = Windows | Darwin | Other

definition userDataDir :: "goos \<Rightarrow> (string \<Rightarrow> string) \<Rightarrow> string result \<Rightarrow> string \<Rightarrow> string result" where
  "userDataDir os getenv home app =
    (let under = (\<lambda>rel. map_sum id (\<lambda>h. h @ ''/'' @ rel @ app) home) in
     case os of
       Windows \<Rightarrow> if getenv ''LOCALAPPDATA'' \<noteq> [] then Inr (getenv ''LOCALAPPDATA'' @ ''/'' @ app) else under []
     | Darwin \<Rightarrow> under ''Library/Application Support/''
     | Other \<Rightarrow> if getenv ''XDG_DATA_HOME'' \<noteq> [] then Inr (getenv ''XDG_DATA_HOME'' @ ''/'' @ app) else under ''.local/share/'')"

text \<open>Modes: \<open>0600\<close> is 384 and \<open>077\<close> is 63; \<open>octal\<close> is the mode as printed.\<close>

definition unix_SecureFile :: nat where "unix_SecureFile = 384"

definition unix_CheckFilePrivate :: "string \<Rightarrow> nat result \<Rightarrow> string \<Rightarrow> gerr option" where
  "unix_CheckFilePrivate path mode octal = (case mode of
      Inl e \<Rightarrow> Some e
    | Inr m \<Rightarrow> if m AND 63 \<noteq> 0
               then Some (path @ '' is accessible by other users (mode '' @ octal @ ''); run: chmod 600 '' @ path) else None)"

definition broad_principals :: "string list" where
  "broad_principals = ['';;;WD)'', '';;;BU)'', '';;;AU)'', '';;;IU)'', '';;;AN)'', '';;;S-1-1-0)'']"

definition windows_CheckFilePrivate :: "string \<Rightarrow> gerr option \<Rightarrow> string result \<Rightarrow> string result \<Rightarrow> gerr option" where
  "windows_CheckFilePrivate path stat sddl sid = (case stat of Some e \<Rightarrow> Some e
    | None \<Rightarrow> (case sddl of Inl e \<Rightarrow> Some e
      | Inr d \<Rightarrow> (case sid of Inl e \<Rightarrow> Some e
        | Inr s \<Rightarrow> map_option (\<lambda>bad. path @ '' grants access to a broad group ('' @ bad @ ''); restrict it to '' @ s)
                    (find (Contains d) broad_principals))))"

definition sanitize :: "string \<Rightarrow> string" where
  "sanitize s = map (\<lambda>c. if alnum_char c \<or> c = CHR ''-'' \<or> c = CHR ''_'' then c else CHR ''_'') s"

definition pipe_name :: "string \<Rightarrow> string \<Rightarrow> string" where
  "pipe_name name base = [CHR 0x5C, CHR 0x5C, CHR ''.'', CHR 0x5C] @ ''pipe'' @ [CHR 0x5C] @ name @ ''-'' @ sanitize base"

definition pipe_sddl :: "string \<Rightarrow> string" where
  "pipe_sddl sid = ''D:P(A;;GA;;;'' @ sid @ '')''"

text \<open>The endpoint, or the error, and whether a listener is left open.\<close>

definition unix_ListenIPC ::
  "gerr option \<Rightarrow> gerr option \<Rightarrow> gerr option \<Rightarrow> gerr option \<Rightarrow> string \<Rightarrow> string \<Rightarrow> string result \<times> bool" where
  "unix_ListenIPC mkdir chdir listen chsock dir name = (case mkdir of Some e \<Rightarrow> (Inl e, False)
    | None \<Rightarrow> (case chdir of Some e \<Rightarrow> (Inl e, False)
    | None \<Rightarrow> (case listen of Some e \<Rightarrow> (Inl e, False)
    | None \<Rightarrow> (case chsock of Some e \<Rightarrow> (Inl e, False)
    | None \<Rightarrow> (Inr (''unix:'' @ dir @ ''/'' @ name @ ''.sock''), True)))))"

definition windows_ListenIPC :: "string result \<Rightarrow> gerr option \<Rightarrow> string \<Rightarrow> string \<Rightarrow> string result \<times> bool" where
  "windows_ListenIPC sid listen base name = (case sid of Inl e \<Rightarrow> (Inl e, False)
    | Inr s \<Rightarrow> (case listen of Some e \<Rightarrow> (Inl e, False) | None \<Rightarrow> (Inr (''pipe:'' @ pipe_name name base), True)))"

section \<open>Reading back what the systems write\<close>

lemma swap_swap [simp]: "swap_words (swap_words bs) = bs"
  by (induction bs rule: swap_words.induct) auto

lemma length_swap [simp]: "length (swap_words bs) = length bs"
  by (induction bs rule: swap_words.induct) auto

definition put_le32 :: "32 word \<Rightarrow> byte list" where
  "put_le32 v = [ucast v, ucast (drop_bit 8 v), ucast (drop_bit 16 v), ucast (drop_bit 24 v)]"

definition put_port :: "16 word \<Rightarrow> byte list" where
  "put_port p = [ucast (drop_bit 8 p), ucast p, 0, 0]"

lemma le32_put: "le32 (put_le32 v) = v"
proof (rule bit_word_eqI)
  fix n assume n: "n < LENGTH(32)"
  consider "n < 8" | "8 \<le> n \<and> n < 16" | "16 \<le> n \<and> n < 24" | "24 \<le> n" by linarith
  then show "bit (le32 (put_le32 v)) n = bit v n"
    by cases (use n in \<open>auto simp: le32_def put_le32_def bit_simps\<close>)
qed

lemma mask255: "(255 :: 32 word) = mask 8"
  by (simp add: mask_eq_exp_minus_1)

lemma netPort_put: "netPort (le32 (put_port p)) = p"
proof (rule bit_word_eqI)
  fix n assume n: "n < LENGTH(16)"
  consider "n < 8" | "8 \<le> n \<and> n < 16" using n by fastforce
  then show "bit (netPort (le32 (put_port p))) n = bit p n"
    by cases (use n in \<open>auto simp: le32_def put_port_def netPort_def mask255 bit_simps\<close>)
qed

text \<open>The rows of an encoded table, whatever follows them in the buffer.\<close>

lemma drop_concat:
  "\<forall>r \<in> set rows. length r = k \<Longrightarrow> i < length rows \<Longrightarrow> drop (i * k) (concat rows) = rows ! i @ concat (drop (Suc i) rows)"
proof (induction rows arbitrary: i)
  case (Cons r rows)
  then show ?case by (cases i) auto
qed simp

lemma length_concat_rows: "\<forall>r \<in> set rows. length r = k \<Longrightarrow> length (concat rows) = length rows * k"
  by (induction rows) auto

lemma table_rows_encoded:
  assumes k: "\<forall>r \<in> set rows. length r = k" and n: "length rows < 2 ^ 32"
  shows "\<exists>tails. length tails = length rows
    \<and> table_rows k (put_le32 (word_of_nat (length rows)) @ concat rows @ pad) = map2 (@) rows tails"
proof -
  let ?buf = "put_le32 (word_of_nat (length rows)) @ concat rows @ pad"
  let ?tails = "map (\<lambda>i. concat (drop (Suc i) rows) @ pad) [0..<length rows]"
  have l: "length (put_le32 v) = 4" for v by (simp add: put_le32_def)
  have c: "unat (le32 (slice 0 4 ?buf)) = length rows"
    using n by (simp add: slice_def l le32_put unat_of_nat take_bit_nat_eq_self)
  have w: "takeWhile (\<lambda>i. 4 + (i + 1) * k \<le> length ?buf) [0..<length rows] = [0..<length rows]"
  proof (rule takeWhile_eq_all_conv [THEN iffD2], rule ballI)
    fix i assume "i \<in> set [0..<length rows]"
    then have "(i + 1) * k \<le> length rows * k" by (intro mult_le_mono1) simp
    then show "4 + (i + 1) * k \<le> length ?buf" using length_concat_rows [OF k] by (simp add: l)
  qed
  have d: "drop (4 + i * k) ?buf = rows ! i @ concat (drop (Suc i) rows) @ pad" if "i < length rows" for i
  proof -
    have "i * k \<le> length rows * k" using that by (intro mult_le_mono1) simp
    then show ?thesis using drop_concat [OF k that] length_concat_rows [OF k] by (simp add: l)
  qed
  have "table_rows k ?buf = map (\<lambda>i. rows ! i @ concat (drop (Suc i) rows) @ pad) [0..<length rows]"
    unfolding table_rows_def c w using d by (simp add: l)
  moreover have "\<dots> = map2 (@) rows ?tails" by (intro nth_equalityI) simp_all
  ultimately show ?thesis by (intro exI [of _ ?tails]) simp
qed

lemma map_filter_rows:
  assumes "\<forall>r \<in> set rows. \<forall>t. f (r @ t) = g r" "length tails = length rows"
  shows "List.map_filter f (map2 (@) rows tails) = List.map_filter g rows"
  using assms(2,1)
proof (induction tails rows rule: list_induct2)
  case (Cons t ts r rs)
  then show ?case by (simp add: map_filter_simps split: option.split)
qed (simp add: map_filter_simps)

record tcp_entry =
  te_State :: "32 word"
  te_Local :: "byte list"
  te_LocalPort :: "16 word"
  te_Remote :: "byte list"
  te_RemotePort :: "16 word"
  te_Pid :: "32 word"

text \<open>The rows of \<open>MIB_TCPTABLE_OWNER_PID\<close> and \<open>MIB_TCP6TABLE_OWNER_PID\<close> (scope ids zero).\<close>

definition put_tcp :: "nat \<Rightarrow> tcp_entry \<Rightarrow> byte list" where
  "put_tcp fam r =
    (if fam = AF_INET
     then put_le32 (te_State r) @ te_Local r @ put_port (te_LocalPort r) @ te_Remote r @ put_port (te_RemotePort r) @ put_le32 (te_Pid r)
     else te_Local r @ put_le32 0 @ put_port (te_LocalPort r) @ te_Remote r @ put_le32 0 @ put_port (te_RemotePort r)
       @ put_le32 (te_State r) @ put_le32 (te_Pid r))"

definition tcp_endpoint :: "nat \<Rightarrow> tcp_entry \<Rightarrow> Endpoint" where
  "tcp_endpoint fam r = \<lparr>ep_PID = uint (te_Pid r), ep_Proto = (if fam = AF_INET then ''tcp'' else ''tcp6''),
     ep_Local = Some (plain_addr (te_Local r), unat (te_LocalPort r)), ep_Remote = Some (plain_addr (te_Remote r), unat (te_RemotePort r)),
     ep_State = tcpStates (uint (te_State r))\<rparr>"

definition addr_size :: "nat \<Rightarrow> nat" where
  "addr_size fam = (if fam = AF_INET then 4 else 16)"

lemma put_sizes [simp]: "length (put_le32 v) = 4" "length (put_port p) = 4"
  by (simp_all add: put_le32_def put_port_def)

lemma slice_append: "length xs = a \<Longrightarrow> length ys = b - a \<Longrightarrow> slice a b (xs @ ys @ zs) = ys"
  by (simp add: slice_def)

lemma slice_0: "length ys = b \<Longrightarrow> slice 0 b (ys @ zs) = ys"
  by (simp add: slice_def)

lemma tcp_row_put:
  assumes "length (te_Local r) = addr_size fam" "length (te_Remote r) = addr_size fam"
  shows "tcp_row fam want (put_tcp fam r @ t)
    = (if want (uint (te_Pid r)) \<and> tcpStates (uint (te_State r)) \<noteq> ''LISTEN'' then Some (tcp_endpoint fam r) else None)"
proof (cases "fam = AF_INET")
  case True
  let ?r = "put_tcp fam r @ t"
  have L: "length (te_Local r) = 4" "length (te_Remote r) = 4" using assms True by (simp_all add: addr_size_def)
  have "slice 0 4 ?r = put_le32 (te_State r)" "slice 4 8 ?r = te_Local r" "slice 8 12 ?r = put_port (te_LocalPort r)"
    "slice 12 16 ?r = te_Remote r" "slice 16 20 ?r = put_port (te_RemotePort r)" "slice 20 24 ?r = put_le32 (te_Pid r)"
    using L True by (simp_all add: put_tcp_def slice_def)
  then show ?thesis using True
    by (simp add: tcp_row_def tcp_endpoint_def addr_port_def le32_put netPort_put Let_def)
next
  case False
  let ?r = "put_tcp fam r @ t"
  have L: "length (te_Local r) = 16" "length (te_Remote r) = 16" using assms False by (simp_all add: addr_size_def)
  have "slice 0 16 ?r = te_Local r" "slice 20 24 ?r = put_port (te_LocalPort r)" "slice 24 40 ?r = te_Remote r"
    "slice 44 48 ?r = put_port (te_RemotePort r)" "slice 48 52 ?r = put_le32 (te_State r)" "slice 52 56 ?r = put_le32 (te_Pid r)"
    using L False by (simp_all add: put_tcp_def slice_def)
  then show ?thesis using False
    by (simp add: tcp_row_def tcp_endpoint_def addr_port_def le32_put netPort_put Let_def)
qed

lemma put_tcp_length:
  "length (te_Local r) = addr_size fam \<Longrightarrow> length (te_Remote r) = addr_size fam \<Longrightarrow>
     length (put_tcp fam r) = (if fam = AF_INET then 24 else 56)"
  by (simp add: put_tcp_def addr_size_def)

lemma map_filter_if: "List.map_filter (\<lambda>x. if P x then Some (f x) else None) xs = map f (filter P xs)"
  by (induction xs) (simp_all add: map_filter_simps)

lemma map_filter_map: "List.map_filter g (map f xs) = List.map_filter (\<lambda>x. g (f x)) xs"
  by (induction xs) (simp_all add: map_filter_simps split: option.split)

lemma decodeTCP_put:
  assumes "\<forall>r \<in> set rs. length (te_Local r) = addr_size fam \<and> length (te_Remote r) = addr_size fam" "length rs < 2 ^ 32"
  shows "decodeTCP (put_le32 (word_of_nat (length rs)) @ concat (map (put_tcp fam) rs) @ pad) fam want
    = map (tcp_endpoint fam) (filter (\<lambda>r. want (uint (te_Pid r)) \<and> tcpStates (uint (te_State r)) \<noteq> ''LISTEN'') rs)"
proof -
  let ?k = "if fam = AF_INET then 24 else 56 :: nat"
  have k: "\<forall>r \<in> set (map (put_tcp fam) rs). length r = ?k" using assms(1) put_tcp_length by auto
  obtain tails where t: "length tails = length rs"
    "table_rows ?k (put_le32 (word_of_nat (length rs)) @ concat (map (put_tcp fam) rs) @ pad) = map2 (@) (map (put_tcp fam) rs) tails"
    using table_rows_encoded [OF k, of pad] assms(2) by auto
  let ?g = "tcp_row fam want"
  have "tcp_row fam want (put_tcp fam r @ t) = ?g (put_tcp fam r)" if "r \<in> set rs" for r t
    using assms(1) that tcp_row_put [of r fam want t] tcp_row_put [of r fam want "[]"] by simp
  then have "\<forall>r \<in> set (map (put_tcp fam) rs). \<forall>t. tcp_row fam want (r @ t) = ?g r" by auto
  then have "decodeTCP (put_le32 (word_of_nat (length rs)) @ concat (map (put_tcp fam) rs) @ pad) fam want
      = List.map_filter ?g (map (put_tcp fam) rs)"
    unfolding decodeTCP_def t(2) using map_filter_rows [of "map (put_tcp fam) rs" "tcp_row fam want" ?g tails] t(1) by simp
  also have "\<dots> = List.map_filter (\<lambda>r. if want (uint (te_Pid r)) \<and> tcpStates (uint (te_State r)) \<noteq> ''LISTEN''
      then Some (tcp_endpoint fam r) else None) rs"
    unfolding map_filter_map using assms(1) tcp_row_put [of _ fam want "[]"]
    by (induction rs) (auto simp: map_filter_simps)
  finally show ?thesis by (simp only: map_filter_if)
qed

section \<open>Properties\<close>

text \<open>
  C31: The Windows tables are read exactly. From a TCP table of iphlpapi, of either family and with whatever bytes follow
  its last row, \<open>decodeTCP\<close> returns one endpoint for each row of a wanted process, in order and with the addresses and
  port numbers of the row, leaving out only the rows whose state the code takes for LISTEN.
\<close>

theorem platform_windows_roundtrip:
  assumes "\<forall>r \<in> set rs. length (te_Local r) = addr_size fam \<and> length (te_Remote r) = addr_size fam" "length rs < 2 ^ 32"
  shows "decodeTCP (put_le32 (word_of_nat (length rs)) @ concat (map (put_tcp fam) rs) @ pad) fam want
    = map (tcp_endpoint fam) (filter (\<lambda>r. want (uint (te_Pid r)) \<and> te_State r \<noteq> 10) rs)"
proof -
  have "tcpStates (uint w) = ''LISTEN'' \<longleftrightarrow> w = 10" for w :: "32 word"
  proof -
    have "tcpStates i = ''LISTEN'' \<longleftrightarrow> i = 10" for i
    proof (cases "1 \<le> i \<and> i \<le> 11")
      case True
      then have "i = 1 \<or> i = 2 \<or> i = 3 \<or> i = 4 \<or> i = 5 \<or> i = 6 \<or> i = 7 \<or> i = 8 \<or> i = 9 \<or> i = 10 \<or> i = 11" by arith
      then show ?thesis by (auto simp: tcpStates_def)
    qed (auto simp: tcpStates_def)
    moreover have "uint w = 10 \<longleftrightarrow> w = 10" by (simp add: word_uint_eq_iff)
    ultimately show ?thesis by simp
  qed
  then show ?thesis using decodeTCP_put [OF assms] by simp
qed

theorem platform_windows_roundtrip_witness:
  "decodeTCP (put_le32 1 @ put_tcp AF_INET \<lparr>te_State = 5, te_Local = [127, 0, 0, 1], te_LocalPort = 50000, te_Remote = [127, 0, 0, 1],
        te_RemotePort = 1080, te_Pid = 7\<rparr> @ [0, 0]) AF_INET (\<lambda>p. p = 7)
    = [\<lparr>ep_PID = 7, ep_Proto = ''tcp'', ep_Local = Some (plain_addr [127, 0, 0, 1], 50000), ep_Remote = Some (plain_addr [127, 0, 0, 1], 1080),
        ep_State = ''FIN_WAIT2''\<rparr>]"
proof -
  let ?r = "\<lparr>te_State = 5, te_Local = [127, 0, 0, 1], te_LocalPort = 50000, te_Remote = [127, 0, 0, 1], te_RemotePort = 1080, te_Pid = 7\<rparr>"
  have "\<forall>r \<in> set [?r]. length (te_Local r) = addr_size AF_INET \<and> length (te_Remote r) = addr_size AF_INET" by (simp add: addr_size_def)
  from platform_windows_roundtrip [OF this, of "[0, 0]" "\<lambda>p. p = 7"] show ?thesis
    by (simp add: tcp_endpoint_def tcpStates_def)
qed

text \<open>
  iphlpapi numbers the states from 1 (closed), with 2 for a listening socket and 10 for one waiting for the last
  acknowledgement; the code uses the numbers of \<open>/proc\<close>, so it reports the former as SYN_SENT and hides the latter.
\<close>

theorem platform_windows_states:
  assumes "length (te_Local r) = addr_size fam" "length (te_Remote r) = addr_size fam" "want (uint (te_Pid r))"
  shows "te_State r = 10 \<Longrightarrow> tcp_row fam want (put_tcp fam r) = None"
    and "te_State r = 2 \<Longrightarrow> map_option ep_State (tcp_row fam want (put_tcp fam r)) = Some ''SYN_SENT''"
  using tcp_row_put [OF assms(1,2), of want "[]"] assms(3) by (simp_all add: tcpStates_def tcp_endpoint_def)

text \<open>The check of a Windows file looks for six groups only: a grant to any other user passes.\<close>

theorem platform_windows_other_user:
  "windows_CheckFilePrivate path None (Inr ''D:P(A;;FA;;;S-1-5-21-1-2-3-1001)(A;;FA;;;S-1-5-21-1-2-3-1002)'') (Inr ''S-1-5-21-1-2-3-1001'') = None"
proof -
  have "find (Contains ''D:P(A;;FA;;;S-1-5-21-1-2-3-1001)(A;;FA;;;S-1-5-21-1-2-3-1002)'') broad_principals = None" by code_simp
  then show ?thesis by (simp add: windows_CheckFilePrivate_def)
qed

lemma is_hex_colon: "\<not> is_hex (CHR '':'')"
  by (simp add: is_hex_def)

text \<open>The kernel writes an address as hexadecimal words in the machine's order; this reads it back.\<close>

lemma parseProcAddr_roundtrip:
  assumes "length bs = 4 \<or> length bs = 16" "hex_DecodeString h = Some (swap_words bs)" "ParseUint16 16 p = Some port"
  shows "parseProcAddr (h @ CHR '':'' # p) = Some (Unmap (plain_addr bs), port)"
proof -
  have "CHR '':'' \<notin> set p" using assms(3) is_hex_colon by (auto simp: ParseUint16_def list_all_iff split: if_splits)
  then show ?thesis using assms by (auto simp: parseProcAddr_def LastIndexByte_append AddrFromSlice_def)
qed

lemma socket_inodes_spec:
  "socket_inodes fds pids n = None \<longleftrightarrow> (\<forall>pid \<in> set pids. \<forall>links. fds pid = Some links \<longrightarrow> Some n \<notin> socket_inode ` set links)"
  "socket_inodes fds pids n = Some q \<Longrightarrow> q \<in> set pids"
proof -
  let ?one = "\<lambda>m pid. case fds pid of None \<Rightarrow> m
     | Some links \<Rightarrow> foldl (\<lambda>m link. case socket_inode link of None \<Rightarrow> m | Some n \<Rightarrow> m(n \<mapsto> pid)) m links"
  have inner: "foldl (\<lambda>m link. case socket_inode link of None \<Rightarrow> m | Some n \<Rightarrow> m(n \<mapsto> pid)) m links n
      = (if Some n \<in> socket_inode ` set links then Some pid else m n)" for m links and pid :: int
    by (induction links rule: rev_induct) (auto split: option.splits)
  have one: "?one m pid n = (case fds pid of None \<Rightarrow> m n | Some links \<Rightarrow> if Some n \<in> socket_inode ` set links then Some pid else m n)" for m pid
    by (auto simp: inner split: option.splits)
  show "socket_inodes fds pids n = None \<longleftrightarrow> (\<forall>pid \<in> set pids. \<forall>links. fds pid = Some links \<longrightarrow> Some n \<notin> socket_inode ` set links)"
    unfolding socket_inodes_def by (induction pids rule: rev_induct) (auto simp: one split: option.splits)
  show "socket_inodes fds pids n = Some q \<Longrightarrow> q \<in> set pids"
    unfolding socket_inodes_def by (induction pids rule: rev_induct) (auto simp: one split: option.splits if_splits)
qed

lemma read_tables_mem:
  "read_tables net inodes ts = Inr eps \<Longrightarrow> t \<in> set ts \<Longrightarrow> \<exists>part. readProcNet (net t) t inodes = Inr part \<and> set part \<subseteq> set eps"
  by (induction ts arbitrary: eps) (fastforce split: sum.splits)+

lemma map_filter_mem: "x \<in> set xs \<Longrightarrow> f x = Some y \<Longrightarrow> y \<in> set (List.map_filter f xs)"
  by (force simp: List.map_filter_def)

definition proc_tables :: "string list" where
  "proc_tables = [''tcp'', ''tcp6'', ''udp'', ''udp6'']"

text \<open>
  C30: On Linux no socket escapes the sampler. When the endpoints of a process tree can be listed, every line of the four
  tables of \<open>/proc/net\<close> whose inode is behind a descriptor of one of the processes and whose addresses can be read yields an endpoint
  of that process, listening TCP sockets apart; one that is UDP, or connected to anything but the gate, is reported as a leak.
\<close>

theorem platform_linux_leak_seen:
  assumes "linux_RemoteEndpoints fds net pids = Inr eps" "t \<in> set proc_tables"
    and "net t = TableLines (header # ls) None" "line \<in> set ls" "10 \<le> length (Fields line)"
    and "ParseUint10 64 (Fields line ! 9) = Some n"
    and "pid \<in> set pids" "fds pid = Some links" "link \<in> set links" "socket_inode link = Some n"
    and "parseProcAddr (Fields line ! 1) = Some local" "parseProcAddr (Fields line ! 2) = Some remote"
    and "HasPrefix t ''tcp'' \<longrightarrow> tcpStates (ParseInt16 (Fields line ! 3)) \<noteq> ''LISTEN''"
    and "HasPrefix t ''udp'' \<or> snd remote \<noteq> 0 \<and> AddrPort_String (Some remote) \<noteq> sm_gate s"
  shows "\<exists>ep \<in> set (fst (sample (Inr eps) s)). ep_PID ep \<in> set pids \<and> ep_Proto ep = t \<and> ep_Remote ep = Some remote"
proof -
  let ?m = "socket_inodes fds pids"
  have "\<not> no_sockets fds pids" using assms(7-10) by (auto simp: no_sockets_def list_all_iff)
  then have r: "read_tables net ?m proc_tables = Inr eps"
    using assms(1) by (simp add: linux_RemoteEndpoints_def proc_tables_def)
  obtain part where p: "readProcNet (net t) t ?m = Inr part" "set part \<subseteq> set eps"
    using read_tables_mem [OF r assms(2)] by blast
  have "?m n \<noteq> None" using assms(7-10) socket_inodes_spec(1) [of fds pids n] by force
  then obtain q where q: "?m n = Some q" "q \<in> set pids" using socket_inodes_spec(2) [of fds pids n] by auto
  let ?ep = "\<lparr>ep_PID = q, ep_Proto = t, ep_Local = Some local, ep_Remote = Some remote,
    ep_State = (if HasPrefix t ''tcp'' then tcpStates (ParseInt16 (Fields line ! 3)) else [])\<rparr>"
  have "proc_line t ?m line = Some ?ep"
    using assms(5,6,11-13) q(1) by (auto simp: proc_line_def Let_def)
  then have "?ep \<in> set part" using p(1) assms(3,4) map_filter_mem [of line ls "proc_line t ?m"] by (simp add: readProcNet_def)
  moreover have "isLeak ?ep (sm_gate s)" using assms(14) by (cases remote) (auto simp: isLeak_def remote_set_def)
  ultimately show ?thesis using p(2) q(2) by (intro bexI [of _ ?ep]) (auto simp: sample_def Let_def)
qed

definition sample_proc_line :: string where
  "sample_proc_line = ''0: 0100007F:C350 08080808:01BB 01 0:0 0:0 0 1000 0 4242 1''"

theorem platform_linux_leak_seen_witness:
  "\<exists>ep \<in> set (fst (sample (linux_RemoteEndpoints (\<lambda>p. if p = 7 then Some [''socket:[4242]''] else None)
        (\<lambda>t. if t = ''tcp'' then TableLines [''header'', sample_proc_line] None else NoTable) [7]) (startSampler ''127.0.0.1:1080''))).
     ep_Remote ep = Some (plain_addr [8, 8, 8, 8], 443)"
proof -
  let ?fds = "\<lambda>p :: int. if p = 7 then Some [''socket:[4242]''] else None"
  let ?net = "\<lambda>t. if t = ''tcp'' then TableLines [''header'', sample_proc_line] None else NoTable"
  have e: "\<exists>eps. linux_RemoteEndpoints ?fds ?net [7] = Inr eps"
    by (auto simp: linux_RemoteEndpoints_def readProcNet_def)
  then obtain eps where eps: "linux_RemoteEndpoints ?fds ?net [7] = Inr eps" by blast
  have F: "Fields sample_proc_line = [''0:'', ''0100007F:C350'', ''08080808:01BB'', ''01'', ''0:0'', ''0:0'', ''0'', ''1000'', ''0'', ''4242'', ''1'']"
    by code_simp
  have d: "ParseUint10 64 ''4242'' = Some 4242"
    by (simp add: ParseUint10_def digits_val_def digit_val_def is_digit_def)
  have i: "socket_inode ''socket:[4242]'' = Some 4242"
    using d by (simp add: socket_inode_def HasSuffix_def)
  have h: "hex_DecodeString ''0100007F'' = Some (swap_words [127, 0, 0, 1])" "hex_DecodeString ''08080808'' = Some (swap_words [8, 8, 8, 8])"
    by code_simp+
  have u: "Unmap (plain_addr [a, b, c, d]) = plain_addr [a, b, c, d]" for a b c d by (simp add: Unmap_def Is4In6_def plain_addr_def)
  have p: "ParseUint16 16 ''C350'' = Some 50000" "ParseUint16 16 ''01BB'' = Some 443"
    by (simp_all add: ParseUint16_def hex_group_def hex_val_def is_hex_def)
  have a: "parseProcAddr ''0100007F:C350'' = Some (plain_addr [127, 0, 0, 1], 50000)" "parseProcAddr ''08080808:01BB'' = Some (plain_addr [8, 8, 8, 8], 443)"
    using parseProcAddr_roundtrip [OF _ h(1) p(1)] parseProcAddr_roundtrip [OF _ h(2) p(2)] u by simp_all
  have st: "tcpStates (ParseInt16 ''01'') \<noteq> ''LISTEN''" by code_simp
  have g: "AddrPort_String (Some (plain_addr [8, 8, 8, 8], 443)) \<noteq> ''127.0.0.1:1080''"
  proof -
    have "itoa_nat 8 = ''8''" by code_simp
    then show ?thesis by (simp add: AddrPort_String_def plain_addr_def addr_String_def dotted_def)
  qed
  have f: "10 \<le> length (Fields sample_proc_line)" "ParseUint10 64 (Fields sample_proc_line ! 9) = Some 4242"
    "parseProcAddr (Fields sample_proc_line ! 1) = Some (plain_addr [127, 0, 0, 1], 50000)"
    "parseProcAddr (Fields sample_proc_line ! 2) = Some (plain_addr [8, 8, 8, 8], 443)"
    "tcpStates (ParseInt16 (Fields sample_proc_line ! 3)) \<noteq> ''LISTEN''"
    using d a st unfolding F by simp_all
  show ?thesis
    using platform_linux_leak_seen [OF eps, of "''tcp''" "''header''" "[sample_proc_line]" sample_proc_line 4242 7 "[''socket:[4242]'']" "''socket:[4242]''"
        "(plain_addr [127, 0, 0, 1], 50000)" "(plain_addr [8, 8, 8, 8], 443)" "startSampler ''127.0.0.1:1080''"] f i g eps
    by (auto simp: proc_tables_def startSampler_def)
qed

end
