(* ===== verification/Go_Json.thy ===== *)
theory Go_Json
  imports Go_Strings
begin

text \<open>
  JSON values and what \<open>json.Unmarshal\<close> reads into the fields of a struct: the last value of an object whose
  key equals the field's name up to case, where \<open>null\<close> leaves the field at its zero value and a value of another
  type is an error. A number that is no integer literal is kept as its text.
\<close>

datatype json = JNull | JBool bool | JNum int | JFrac string | JStr string | JArr "json list" | JObj "(string \<times> json) list"

definition members :: "json \<Rightarrow> (string \<times> json) list option" where
  "members j = (case j of JObj kvs \<Rightarrow> Some kvs | JNull \<Rightarrow> Some [] | _ \<Rightarrow> None)"

definition field :: "string \<Rightarrow> (string \<times> json) list \<Rightarrow> json" where
  "field name kvs = foldl (\<lambda>acc (k, v). if EqualFold k name \<and> v \<noteq> JNull then v else acc) JNull kvs"

definition as_string :: "json \<Rightarrow> string option" where
  "as_string j = (case j of JNull \<Rightarrow> Some [] | JStr s \<Rightarrow> Some s | _ \<Rightarrow> None)"

definition as_int :: "json \<Rightarrow> int option" where
  "as_int j = (case j of JNull \<Rightarrow> Some 0 | JNum i \<Rightarrow> if - (2 ^ 63) \<le> i \<and> i < 2 ^ 63 then Some i else None | _ \<Rightarrow> None)"

definition as_bool :: "json \<Rightarrow> bool option" where
  "as_bool j = (case j of JNull \<Rightarrow> Some False | JBool b \<Rightarrow> Some b | _ \<Rightarrow> None)"

definition as_list :: "json \<Rightarrow> json list option" where
  "as_list j = (case j of JNull \<Rightarrow> Some [] | JArr js \<Rightarrow> Some js | _ \<Rightarrow> None)"

text \<open>A field of a type, of a JSON value that must be an object.\<close>

definition sfield :: "string \<Rightarrow> json \<Rightarrow> string option" where
  "sfield name j = Option.bind (members j) (\<lambda>kvs. as_string (field name kvs))"

definition ifield :: "string \<Rightarrow> json \<Rightarrow> int option" where
  "ifield name j = Option.bind (members j) (\<lambda>kvs. as_int (field name kvs))"

definition bfield :: "string \<Rightarrow> json \<Rightarrow> bool option" where
  "bfield name j = Option.bind (members j) (\<lambda>kvs. as_bool (field name kvs))"

definition lfield :: "string \<Rightarrow> json \<Rightarrow> json list option" where
  "lfield name j = Option.bind (members j) (\<lambda>kvs. as_list (field name kvs))"

text \<open>A field that holds a struct: absent and \<open>null\<close> leave the zero struct.\<close>

definition ofield :: "string \<Rightarrow> json \<Rightarrow> json option" where
  "ofield name j = Option.bind (members j)
     (\<lambda>kvs. case field name kvs of JNull \<Rightarrow> Some (JObj []) | JObj o' \<Rightarrow> Some (JObj o') | _ \<Rightarrow> None)"

text \<open>A field of a pointer type: \<open>None\<close> inside is the nil pointer.\<close>

definition pfield :: "string \<Rightarrow> json \<Rightarrow> json option option" where
  "pfield name j = Option.bind (members j)
     (\<lambda>kvs. case field name kvs of JNull \<Rightarrow> Some None | JObj o' \<Rightarrow> Some (Some (JObj o')) | _ \<Rightarrow> None)"

end
