(* ===== verification/Devtools.thy ===== *)
theory Devtools
  imports Go_Json
begin

text \<open>
  The DevTools client: \<open>src/controller/browser/cdp.go\<close>. The pipe transport with its NUL framing, the client's
  table of pending calls and its subscribers, one operation per critical section, and a step relation for the
  interleaving of the callers with the read loop. A call is known by its id, and so is its reply channel.

  Ids are integers: a session makes fewer than \<open>2 ^ 63\<close> calls.
\<close>

section \<open>The pipe transport\<close>

text \<open>\<open>WriteMessage\<close>: the bytes it puts on the pipe; \<open>ReadMessage\<close>: the next message, or nothing when the pipe ends first.\<close>

definition WriteMessage :: "string \<Rightarrow> string" where
  "WriteMessage m = m @ [CHR 0x00]"

definition ReadMessage :: "string \<Rightarrow> (string \<times> string) option" where
  "ReadMessage s = (if CHR 0x00 \<in> set s
     then Some (takeWhile (\<lambda>c. c \<noteq> CHR 0x00) s, tl (dropWhile (\<lambda>c. c \<noteq> CHR 0x00) s)) else None)"

section \<open>The client\<close>

record CDPError =
  ce_Code :: int
  ce_Message :: string

definition CDPError_Error :: "CDPError \<Rightarrow> string" where
  "CDPError_Error e = ''cdp: '' @ ce_Message e @ '' ('' @ Itoa (ce_Code e) @ '')''"

record cdpMessage =
  cm_ID :: int
  cm_SessionID :: string
  cm_Method :: string
  cm_Params :: "json option"
  cm_Result :: "json option"
  cm_Error :: "CDPError option"

record cdp_Event =
  ev_SessionID :: string
  ev_Method :: string
  ev_Params :: "json option"

text \<open>A subscriber is in the client's set exactly while its channel is open.\<close>

record subscriber =
  su_session :: string
  su_method :: string
  su_queue :: "cdp_Event list"
  su_open :: bool

record cdp_Client =
  cl_nextID :: int
  cl_pending :: "int list"
  cl_chans :: "int \<Rightarrow> cdpMessage option"
  cl_subs :: "subscriber list"
  cl_closed :: bool
  cl_readErr :: "gerr option"
  cl_done :: bool

definition NewClient :: cdp_Client where
  "NewClient = \<lparr>cl_nextID = 0, cl_pending = [], cl_chans = (\<lambda>_. None), cl_subs = [], cl_closed = False,
     cl_readErr = None, cl_done = False\<rparr>"

definition ErrClosed :: gerr where "ErrClosed = ''cdp: client closed''"

definition sub_capacity :: nat where "sub_capacity = 256"

definition sub_matches :: "cdp_Event \<Rightarrow> subscriber \<Rightarrow> bool" where
  "sub_matches ev su \<longleftrightarrow> su_session su = ev_SessionID ev \<and> (su_method su = [] \<or> su_method su = ev_Method ev)"

definition deliver :: "cdp_Event \<Rightarrow> subscriber \<Rightarrow> subscriber" where
  "deliver ev su = (if su_open su \<and> sub_matches ev su \<and> length (su_queue su) < sub_capacity
     then su\<lparr>su_queue := su_queue su @ [ev]\<rparr> else su)"

definition cdp_event_of :: "cdpMessage \<Rightarrow> cdp_Event" where
  "cdp_event_of m = \<lparr>ev_SessionID = cm_SessionID m, ev_Method = cm_Method m, ev_Params = cm_Params m\<rparr>"

text \<open>One turn of \<open>readLoop\<close>: a message, or bytes that are no JSON (\<open>None\<close>).\<close>

definition read_message :: "cdpMessage option \<Rightarrow> cdp_Client \<Rightarrow> cdp_Client" where
  "read_message raw c = (case raw of None \<Rightarrow> c
     | Some m \<Rightarrow>
        if cm_ID m \<noteq> 0 then
          (let c1 = c\<lparr>cl_pending := removeAll (cm_ID m) (cl_pending c)\<rparr> in
           if cm_ID m \<in> set (cl_pending c) then c1\<lparr>cl_chans := (cl_chans c)(cm_ID m := Some m)\<rparr> else c1)
        else if cm_Method m = [] then c
        else c\<lparr>cl_subs := map (deliver (cdp_event_of m)) (cl_subs c)\<rparr>)"

definition lost_message :: "gerr \<Rightarrow> int \<Rightarrow> cdpMessage" where
  "lost_message err k = \<lparr>cm_ID = k, cm_SessionID = [], cm_Method = [], cm_Params = None, cm_Result = None,
     cm_Error = Some \<lparr>ce_Code = -1, ce_Message = ''connection closed: '' @ err\<rparr>\<rparr>"

definition client_fail :: "gerr \<Rightarrow> cdp_Client \<Rightarrow> cdp_Client" where
  "client_fail err c =
    (if cl_closed c then c
     else c\<lparr>cl_closed := True, cl_readErr := Some err, cl_pending := [],
            cl_chans := (\<lambda>k. if k \<in> set (cl_pending c) then Some (lost_message err k) else cl_chans c k),
            cl_subs := map (\<lambda>su. su\<lparr>su_open := False\<rparr>) (cl_subs c)\<rparr>)"

text \<open>The critical sections of \<open>Call\<close>, and the result it makes of a reply.\<close>

definition call_begin :: "cdp_Client \<Rightarrow> int \<times> cdp_Client" where
  "call_begin c = (cl_nextID c + 1, c\<lparr>cl_nextID := cl_nextID c + 1\<rparr>)"

definition call_register :: "int \<Rightarrow> cdp_Client \<Rightarrow> gerr option \<times> cdp_Client" where
  "call_register k c = (if cl_closed c then (Some ErrClosed, c) else (None, c\<lparr>cl_pending := k # cl_pending c\<rparr>))"

definition call_forget :: "int \<Rightarrow> cdp_Client \<Rightarrow> cdp_Client" where
  "call_forget k c = c\<lparr>cl_pending := removeAll k (cl_pending c)\<rparr>"

definition call_result :: "string \<Rightarrow> cdpMessage \<Rightarrow> json option result" where
  "call_result method resp = (case cm_Error resp of
      Some e \<Rightarrow> Inl (''cdp: '' @ method @ '': '' @ CDPError_Error e)
    | None \<Rightarrow> Inr (cm_Result resp))"

definition Subscribe :: "string \<Rightarrow> string \<Rightarrow> cdp_Client \<Rightarrow> cdp_Client" where
  "Subscribe sessionID method c =
     c\<lparr>cl_subs := cl_subs c @ [\<lparr>su_session = sessionID, su_method = method, su_queue = [], su_open = \<not> cl_closed c\<rparr>]\<rparr>"

definition sub_cancel :: "nat \<Rightarrow> cdp_Client \<Rightarrow> cdp_Client" where
  "sub_cancel i c = c\<lparr>cl_subs := (cl_subs c)[i := (cl_subs c ! i)\<lparr>su_open := False\<rparr>]\<rparr>"

definition sub_next :: "nat \<Rightarrow> cdp_Client \<Rightarrow> cdp_Client" where
  "sub_next i c = c\<lparr>cl_subs := (cl_subs c)[i := (cl_subs c ! i)\<lparr>su_queue := tl (su_queue (cl_subs c ! i))\<rparr>]\<rparr>"

section \<open>Callers and the read loop\<close>

datatype outcome = Refused | WriteFailed gerr | Cancelled gerr | Answered cdpMessage

datatype cdp_phase = Unborn | Numbered | Registered | Waiting | Returned outcome

record system =
  sy_client :: cdp_Client
  sy_calls :: "int \<Rightarrow> cdp_phase"

definition sys_init :: system where
  "sys_init = \<lparr>sy_client = NewClient, sy_calls = (\<lambda>_. Unborn)\<rparr>"

definition set_call :: "int \<Rightarrow> cdp_phase \<Rightarrow> cdp_Client \<Rightarrow> system \<Rightarrow> system" where
  "set_call k p c s = s\<lparr>sy_client := c, sy_calls := (sy_calls s)(k := p)\<rparr>"

inductive cdp_step :: "system \<Rightarrow> system \<Rightarrow> bool" where
  Number: "call_begin (sy_client s) = (k, c) \<Longrightarrow> cdp_step s (set_call k Numbered c s)"
| Refuse: "sy_calls s k = Numbered \<Longrightarrow> call_register k (sy_client s) = (Some e, c) \<Longrightarrow>
    cdp_step s (set_call k (Returned Refused) c s)"
| Register: "sy_calls s k = Numbered \<Longrightarrow> call_register k (sy_client s) = (None, c) \<Longrightarrow>
    cdp_step s (set_call k Registered c s)"
| WriteError: "sy_calls s k = Registered \<Longrightarrow>
    cdp_step s (set_call k (Returned (WriteFailed e)) (call_forget k (sy_client s)) s)"
| Written: "sy_calls s k = Registered \<Longrightarrow> cdp_step s (set_call k Waiting (sy_client s) s)"
| Cancel: "sy_calls s k = Waiting \<Longrightarrow>
    cdp_step s (set_call k (Returned (Cancelled e)) (call_forget k (sy_client s)) s)"
| Answer: "sy_calls s k = Waiting \<Longrightarrow> cl_chans (sy_client s) k = Some m \<Longrightarrow>
    cdp_step s (set_call k (Returned (Answered m)) ((sy_client s)\<lparr>cl_chans := (cl_chans (sy_client s))(k := None)\<rparr>) s)"
| Read: "\<not> cl_done (sy_client s) \<Longrightarrow> cdp_step s (s\<lparr>sy_client := read_message raw (sy_client s)\<rparr>)"
| Broken: "\<not> cl_done (sy_client s) \<Longrightarrow> cdp_step s (s\<lparr>sy_client := (client_fail e (sy_client s))\<lparr>cl_done := True\<rparr>\<rparr>)"
| Sub: "cdp_step s (s\<lparr>sy_client := Subscribe sessionID method (sy_client s)\<rparr>)"
| Unsub: "i < length (cl_subs (sy_client s)) \<Longrightarrow> cdp_step s (s\<lparr>sy_client := sub_cancel i (sy_client s)\<rparr>)"
| Take: "i < length (cl_subs (sy_client s)) \<Longrightarrow> cdp_step s (s\<lparr>sy_client := sub_next i (sy_client s)\<rparr>)"

inductive cdp_reach :: "system \<Rightarrow> bool" where
  init: "cdp_reach sys_init"
| step: "cdp_reach s \<Longrightarrow> cdp_step s s' \<Longrightarrow> cdp_reach s'"

text \<open>
  The invariant: a call is pending exactly while it is registered or waiting and has no reply yet; a reply in a
  channel is the reply to that call; ids beyond the counter are unused; nothing is pending on a closed client.
\<close>

definition waits :: "system \<Rightarrow> int \<Rightarrow> bool" where
  "waits s k \<longleftrightarrow> sy_calls s k = Registered \<or> sy_calls s k = Waiting"

definition cdp_inv :: "system \<Rightarrow> bool" where
  "cdp_inv s \<longleftrightarrow> (let c = sy_client s in
     0 \<le> cl_nextID c \<and> (\<forall>k. sy_calls s k \<noteq> Unborn \<longrightarrow> 0 < k \<and> k \<le> cl_nextID c)
     \<and> (\<forall>k. k \<in> set (cl_pending c) \<longrightarrow> waits s k \<and> cl_chans c k = None)
     \<and> (\<forall>k. waits s k \<longrightarrow> k \<in> set (cl_pending c) \<or> cl_chans c k \<noteq> None)
     \<and> (\<forall>k m. cl_chans c k = Some m \<longrightarrow> cm_ID m = k \<and> sy_calls s k \<noteq> Unborn \<and> sy_calls s k \<noteq> Numbered)
     \<and> (\<forall>k m. sy_calls s k = Returned (Answered m) \<longrightarrow> cm_ID m = k)
     \<and> (cl_closed c \<longrightarrow> cl_pending c = []) \<and> (cl_done c \<longrightarrow> cl_closed c))"

lemma cdp_inv_init: "cdp_inv sys_init"
  by (simp add: cdp_inv_def sys_init_def NewClient_def waits_def)

lemmas cdp_ops = call_begin_def call_register_def call_forget_def read_message_def client_fail_def Subscribe_def
  sub_cancel_def sub_next_def set_call_def lost_message_def

lemma cdp_inv_step: "cdp_step s s' \<Longrightarrow> cdp_inv s \<Longrightarrow> cdp_inv s'"
proof (induction rule: cdp_step.induct)
  case (Number s k c)
  let ?c = "sy_client s" and ?n = "cl_nextID (sy_client s) + 1"
  have u: "sy_calls s ?n = Unborn" using Number(2) unfolding cdp_inv_def Let_def by force
  then have "cl_chans ?c ?n = None" using Number(2) unfolding cdp_inv_def Let_def by force
  then show ?case using Number u by (auto simp: cdp_inv_def waits_def cdp_ops Let_def)
next
  case (Read s raw)
  then show ?case
    by (cases raw) (auto simp: cdp_inv_def waits_def cdp_ops Let_def)
next
  case (Broken s e)
  then show ?case by (auto simp: cdp_inv_def waits_def cdp_ops Let_def)
qed (auto simp: cdp_inv_def waits_def cdp_ops Let_def split: if_splits)

lemma cdp_reach_inv: "cdp_reach s \<Longrightarrow> cdp_inv s"
  by (induction rule: cdp_reach.induct) (auto intro: cdp_inv_init cdp_inv_step)

section \<open>Framing and events\<close>

lemma read_written: "CHR 0x00 \<notin> set m \<Longrightarrow> ReadMessage (WriteMessage m @ rest) = Some (m, rest)"
proof -
  assume a: "CHR 0x00 \<notin> set m"
  have "takeWhile (\<lambda>c. c \<noteq> CHR 0x00) (m @ CHR 0x00 # rest) = m" "dropWhile (\<lambda>c. c \<noteq> CHR 0x00) (m @ CHR 0x00 # rest) = CHR 0x00 # rest"
    using a by (induction m) auto
  then show ?thesis by (simp add: ReadMessage_def WriteMessage_def)
qed

text \<open>The messages on a pipe, up to the end of the bytes.\<close>

fun read_pipe :: "nat \<Rightarrow> string \<Rightarrow> string list" where
  "read_pipe 0 s = []"
| "read_pipe (Suc n) s = (case ReadMessage s of None \<Rightarrow> [] | Some (m, rest) \<Rightarrow> m # read_pipe n rest)"

lemma read_pipe_written:
  "\<forall>m \<in> set ms. CHR 0x00 \<notin> set m \<Longrightarrow> length ms \<le> n \<Longrightarrow> CHR 0x00 \<notin> set part \<Longrightarrow>
     read_pipe n (concat (map WriteMessage ms) @ part) = ms"
proof (induction ms arbitrary: n)
  case Nil
  then show ?case by (cases n) (simp_all add: ReadMessage_def)
next
  case (Cons m ms)
  then show ?case using read_written [of m "concat (map WriteMessage ms) @ part"] by (cases n) auto
qed

text \<open>What a run of messages leaves in a subscriber that does not read meanwhile.\<close>

definition events :: "cdpMessage option list \<Rightarrow> cdp_Event list" where
  "events ms = map cdp_event_of (filter (\<lambda>m. cm_ID m = 0 \<and> cm_Method m \<noteq> []) [m. Some m \<leftarrow> ms])"

lemma deliver_all:
  assumes "su_open su" "length (su_queue su) \<le> sub_capacity"
  shows "foldl (\<lambda>su ev. deliver ev su) su evs = su\<lparr>su_queue := take sub_capacity (su_queue su @ filter (\<lambda>ev. sub_matches ev su) evs)\<rparr>"
  using assms
proof (induction evs rule: rev_induct)
  case (snoc ev evs)
  have m: "sub_matches ev (su\<lparr>su_queue := q\<rparr>) = sub_matches ev su" for q by (simp add: sub_matches_def)
  show ?case using snoc by (auto simp: deliver_def m min_def)
qed simp

lemma read_message_subs:
  "cl_subs (read_message raw c) = map (\<lambda>su. foldl (\<lambda>su ev. deliver ev su) su (events [raw])) (cl_subs c)"
  by (cases raw) (auto simp: read_message_def events_def Let_def)

lemma foldl_map: "foldl (\<lambda>s x. foldl f s (g x)) s xs = foldl f s (concat (map g xs))"
  by (induction xs arbitrary: s) simp_all

lemma events_concat: "concat (map (\<lambda>raw. events [raw]) ms) = events ms"
proof (induction ms)
  case (Cons a ms)
  then show ?case by (cases a) (auto simp: events_def)
qed (simp add: events_def)

lemma read_messages_subs:
  "cl_subs (foldl (\<lambda>c raw. read_message raw c) c ms) = map (\<lambda>su. foldl (\<lambda>su ev. deliver ev su) su (events ms)) (cl_subs c)"
proof -
  have "cl_subs (foldl (\<lambda>c raw. read_message raw c) c ms)
      = map (\<lambda>su. foldl (\<lambda>su raw. foldl (\<lambda>su ev. deliver ev su) su (events [raw])) su ms) (cl_subs c)"
    by (induction ms arbitrary: c) (simp_all add: read_message_subs comp_def)
  then show ?thesis by (simp add: foldl_map events_concat)
qed

section \<open>Properties\<close>

text \<open>
  C25: Every call gets its own answer or none is left waiting. In every interleaving of callers with the read loop: a
  call that returns an answer returns the message with its own id; only calls still waiting are pending, each with an
  empty channel, so the read loop never blocks on a caller; and once the connection is lost, every waiting call has its
  answer in its channel and can return, and every call not yet registered is refused.
\<close>

theorem cdp_calls_answered:
  assumes "cdp_reach s"
  shows "(\<forall>k m. sy_calls s k = Returned (Answered m) \<longrightarrow> cm_ID m = k)
    \<and> (\<forall>k \<in> set (cl_pending (sy_client s)). waits s k \<and> cl_chans (sy_client s) k = None)
    \<and> (cl_closed (sy_client s) \<longrightarrow>
         (\<forall>k. sy_calls s k = Waiting \<longrightarrow> (\<exists>m s'. cm_ID m = k \<and> cdp_step s s' \<and> sy_calls s' k = Returned (Answered m)))
       \<and> (\<forall>k. sy_calls s k = Numbered \<longrightarrow> (\<exists>s'. cdp_step s s' \<and> sy_calls s' k = Returned Refused)))"
proof -
  note I = cdp_reach_inv [OF assms, unfolded cdp_inv_def Let_def]
  have "\<exists>m s'. cm_ID m = k \<and> cdp_step s s' \<and> sy_calls s' k = Returned (Answered m)"
    if c: "cl_closed (sy_client s)" and w: "sy_calls s k = Waiting" for k
  proof -
    obtain m where m: "cl_chans (sy_client s) k = Some m" "cm_ID m = k" using I c w by (fastforce simp: waits_def)
    show ?thesis using cdp_step.Answer [OF w m(1)] m(2) by (intro exI conjI) (auto simp: set_call_def)
  qed
  moreover have "\<exists>s'. cdp_step s s' \<and> sy_calls s' k = Returned Refused"
    if c: "cl_closed (sy_client s)" and w: "sy_calls s k = Numbered" for k
    using cdp_step.Refuse [OF w, of ErrClosed "sy_client s"] c
    by (intro exI conjI) (auto simp: call_register_def set_call_def)
  ultimately show ?thesis using I by blast
qed

definition sample_waiting :: system where
  "sample_waiting = (let c = NewClient\<lparr>cl_nextID := 1, cl_pending := [1]\<rparr> in
     sys_init\<lparr>sy_client := (client_fail ''EOF'' c)\<lparr>cl_done := True\<rparr>, sy_calls := (\<lambda>_. Unborn)(1 := Waiting)\<rparr>)"

lemma sample_waiting_reach: "cdp_reach sample_waiting"
proof -
  let ?c1 = "NewClient\<lparr>cl_nextID := 1\<rparr>" and ?c2 = "NewClient\<lparr>cl_nextID := 1, cl_pending := [1]\<rparr>"
  note st = cdp_reach.step
  have 1: "cdp_reach (set_call 1 Numbered ?c1 sys_init)"
    using st [OF cdp_reach.init cdp_step.Number] by (simp add: call_begin_def sys_init_def NewClient_def)
  have 2: "cdp_reach (set_call 1 Registered ?c2 (set_call 1 Numbered ?c1 sys_init))"
    by (rule st [OF 1 cdp_step.Register]) (simp_all add: call_register_def set_call_def NewClient_def)
  have 3: "cdp_reach (set_call 1 Waiting ?c2 (set_call 1 Registered ?c2 (set_call 1 Numbered ?c1 sys_init)))"
    using st [OF 2 cdp_step.Written [of _ 1]] by (simp add: set_call_def)
  show ?thesis
    using st [OF 3 cdp_step.Broken [of _ "''EOF''"]]
    by (simp add: sample_waiting_def set_call_def sys_init_def NewClient_def Let_def)
qed

theorem cdp_calls_answered_witness:
  "\<exists>m s'. cm_ID m = 1 \<and> cdp_step sample_waiting s' \<and> sy_calls s' 1 = Returned (Answered m)"
proof -
  have "cl_closed (sy_client sample_waiting)" "sy_calls sample_waiting 1 = Waiting"
    by (simp_all add: sample_waiting_def Let_def client_fail_def NewClient_def)
  then show ?thesis using cdp_calls_answered [OF sample_waiting_reach] by blast
qed

text \<open>
  Events arrive in order. Whatever messages the read loop reads, replies and unreadable ones in between, an open
  subscriber that does not read meanwhile holds exactly the first events that match its session and method, in the
  order sent, up to the capacity of its channel.
\<close>

theorem cdp_events_in_order:
  assumes "i < length (cl_subs c)" "su_open (cl_subs c ! i)" "length (su_queue (cl_subs c ! i)) \<le> sub_capacity"
  shows "su_queue (cl_subs (foldl (\<lambda>c raw. read_message raw c) c ms) ! i)
    = take sub_capacity (su_queue (cl_subs c ! i) @ filter (\<lambda>ev. sub_matches ev (cl_subs c ! i)) (events ms))"
  using assms by (simp add: read_messages_subs deliver_all)

definition cdp_sample_event :: "string \<Rightarrow> cdpMessage" where
  "cdp_sample_event m = \<lparr>cm_ID = 0, cm_SessionID = ''S'', cm_Method = m, cm_Params = None, cm_Result = None, cm_Error = None\<rparr>"

theorem cdp_events_in_order_witness:
  "su_queue (cl_subs (foldl (\<lambda>c raw. read_message raw c) (Subscribe ''S'' ''Page.loadEventFired'' NewClient)
      [Some (cdp_sample_event ''Page.frameNavigated''), None, Some (cdp_sample_event ''Page.loadEventFired'')]) ! 0)
   = [cdp_event_of (cdp_sample_event ''Page.loadEventFired'')]"
  by (subst cdp_events_in_order)
    (simp_all add: Subscribe_def NewClient_def cdp_sample_event_def events_def sub_matches_def cdp_event_of_def sub_capacity_def)

end
