(* ===== verification/Page.thy ===== *)
theory Page
  imports Devtools Verify "HOL-Library.Monad_Syntax"
begin

text \<open>
  Tabs: \<open>src/controller/browser/page.go\<close>. Attaching to a tab, evaluating in it, its cookies, and the event loop of
  a navigation with its retries.

  The browser answers each DevTools call as a function of the calls made so far; the turns of the code read one
  observation per turn. Durations are left out, as in the result type of the checks.
\<close>

section \<open>Calls\<close>

type_synonym dt_call = "string \<times> string \<times> (string \<times> json) list"

type_synonym dtools = "dt_call list \<Rightarrow> json option result"

text \<open>\<open>Client.Call\<close>, seen from a caller: the call is recorded and answered.\<close>

definition dt_ask :: "dtools \<Rightarrow> string \<Rightarrow> string \<Rightarrow> (string \<times> json) list \<Rightarrow> dt_call list \<Rightarrow> json option result \<times> dt_call list" where
  "dt_ask dt session method params done = (let done' = done @ [(session, method, params)] in (dt done', done'))"

definition bad_json :: gerr where "bad_json = ''json: cannot unmarshal''"

text \<open>Reading a struct out of the result; an absent result leaves the zero struct.\<close>

definition read_result :: "(json \<Rightarrow> 'a option) \<Rightarrow> json option result \<Rightarrow> 'a result" where
  "read_result dec r = (case r of Inl e \<Rightarrow> Inl e
     | Inr j \<Rightarrow> (case dec (case j of None \<Rightarrow> JObj [] | Some v \<Rightarrow> v) of None \<Rightarrow> Inl bad_json | Some x \<Rightarrow> Inr x))"

record page =
  pg_TargetID :: string
  pg_SessionID :: string

section \<open>Evaluating\<close>

record eval_reply =
  er_value :: "json option"
  er_exception :: "string option"

definition dec_exception :: "json \<Rightarrow> string option" where
  "dec_exception j = do {
     text \<leftarrow> sfield ''text'' j;
     ex \<leftarrow> pfield ''exception'' j;
     (case ex of None \<Rightarrow> Some text | Some e \<Rightarrow> sfield ''description'' e)
   }"

definition raw_field :: "string \<Rightarrow> json \<Rightarrow> json option option" where
  "raw_field name j = map_option (\<lambda>kvs. foldl (\<lambda>acc (k, v). if EqualFold k name then Some v else acc) None kvs) (members j)"

definition dec_evaluate :: "json \<Rightarrow> eval_reply option" where
  "dec_evaluate j = do {
     r \<leftarrow> ofield ''result'' j;
     _ \<leftarrow> sfield ''type'' r;
     v \<leftarrow> raw_field ''value'' r;
     d \<leftarrow> pfield ''exceptionDetails'' j;
     (case d of None \<Rightarrow> Some \<lparr>er_value = v, er_exception = None\<rparr>
      | Some e \<Rightarrow> map_option (\<lambda>msg. \<lparr>er_value = v, er_exception = Some msg\<rparr>) (dec_exception e))
   }"

definition Evaluate :: "dtools \<Rightarrow> page \<Rightarrow> string \<Rightarrow> dt_call list \<Rightarrow> json option result \<times> dt_call list" where
  "Evaluate dt p expr done =
    (case dt_ask dt (pg_SessionID p) ''Runtime.evaluate''
            [(''expression'', JStr expr), (''returnByValue'', JBool True), (''awaitPromise'', JBool True)] done of
       (r, done') \<Rightarrow> (case read_result dec_evaluate r of
           Inl e \<Rightarrow> (Inl e, done')
         | Inr x \<Rightarrow> (case er_exception x of Some msg \<Rightarrow> (Inl (''evaluate: '' @ msg), done') | None \<Rightarrow> (Inr (er_value x), done'))))"

text \<open>\<open>Evaluate\<close> into a string variable, which an absent value leaves empty.\<close>

definition eval_string :: "dtools \<Rightarrow> page \<Rightarrow> string \<Rightarrow> dt_call list \<Rightarrow> string result \<times> dt_call list" where
  "eval_string dt p expr done = (case Evaluate dt p expr done of
      (Inl e, done') \<Rightarrow> (Inl e, done')
    | (Inr v, done') \<Rightarrow> ((case v of None \<Rightarrow> Inr [] | Some j \<Rightarrow> (case as_string j of None \<Rightarrow> Inl bad_json | Some s \<Rightarrow> Inr s)), done'))"

definition page_URL :: "dtools \<Rightarrow> page \<Rightarrow> dt_call list \<Rightarrow> string result \<times> dt_call list" where
  "page_URL dt p done = eval_string dt p ''location.href'' done"

definition BodyText :: "dtools \<Rightarrow> page \<Rightarrow> dt_call list \<Rightarrow> string result \<times> dt_call list" where
  "BodyText dt p done = eval_string dt p (''document.body ? document.body.innerText : '' @ [CHR 0x27, CHR 0x27]) done"

section \<open>Attaching\<close>

text \<open>\<open>waitReady\<close>: the list says of each turn whether the deadline fires in its wait.\<close>

fun waitReady :: "dtools \<Rightarrow> page \<Rightarrow> bool list \<Rightarrow> dt_call list \<Rightarrow> dt_call list" where
  "waitReady dt p [] done = done"
| "waitReady dt p (over # rest) done =
    (case eval_string dt p ''document.readyState'' done of (state, done') \<Rightarrow>
       if state = Inr ''complete'' \<or> state = Inr ''interactive'' \<or> over then done' else waitReady dt p rest done')"

fun enable_all :: "dtools \<Rightarrow> string \<Rightarrow> string list \<Rightarrow> dt_call list \<Rightarrow> gerr option \<times> dt_call list" where
  "enable_all dt session [] done = (None, done)"
| "enable_all dt session (m # ms) done = (case dt_ask dt session m [] done of
      (Inl e, done') \<Rightarrow> (Some e, done') | (Inr _, done') \<Rightarrow> enable_all dt session ms done')"

definition attach :: "dtools \<Rightarrow> bool list \<Rightarrow> string \<Rightarrow> dt_call list \<Rightarrow> page result \<times> dt_call list" where
  "attach dt turns targetID done =
    (case dt_ask dt [] ''Target.attachToTarget'' [(''targetId'', JStr targetID), (''flatten'', JBool True)] done of
       (r, d1) \<Rightarrow> (case read_result (sfield ''sessionId'') r of
           Inl e \<Rightarrow> (Inl e, d1)
         | Inr session \<Rightarrow>
            (let p = \<lparr>pg_TargetID = targetID, pg_SessionID = session\<rparr> in
             case enable_all dt session [''Page.enable'', ''Network.enable'', ''Runtime.enable''] d1 of
               (Some e, d2) \<Rightarrow> (Inl e, d2)
             | (None, d2) \<Rightarrow> (Inr p, waitReady dt p turns d2))))"

definition dec_target :: "json \<Rightarrow> (string \<times> string) option" where
  "dec_target j = do { i \<leftarrow> sfield ''targetId'' j; t \<leftarrow> sfield ''type'' j; _ \<leftarrow> sfield ''url'' j; _ \<leftarrow> bfield ''attached'' j; Some (i, t) }"

definition dec_targets :: "json \<Rightarrow> (string \<times> string) list option" where
  "dec_targets j = Option.bind (lfield ''targetInfos'' j) (\<lambda>js. those (map dec_target js))"

definition no_target :: gerr where "no_target = ''browser: no page target appeared''"

text \<open>\<open>FirstPage\<close>; each turn sees whether the deadline has passed and the context's error in its wait.\<close>

fun FirstPage :: "dtools \<Rightarrow> bool list \<Rightarrow> (bool \<times> gerr option) list \<Rightarrow> dt_call list \<Rightarrow> page result \<times> dt_call list" where
  "FirstPage dt turns [] done = (Inl no_target, done)"
| "FirstPage dt turns ((late, ctx) # rest) done =
    (case dt_ask dt [] ''Target.getTargets'' [] done of (r, d1) \<Rightarrow>
      (case read_result dec_targets r of
         Inl e \<Rightarrow> (Inl e, d1)
       | Inr ts \<Rightarrow> (case find (\<lambda>t. snd t = ''page'') ts of
            Some t \<Rightarrow> attach dt turns (fst t) d1
          | None \<Rightarrow> if late then (Inl no_target, d1)
                    else (case ctx of Some e \<Rightarrow> (Inl e, d1) | None \<Rightarrow> FirstPage dt turns rest d1))))"

definition NewPage :: "dtools \<Rightarrow> bool list \<Rightarrow> dt_call list \<Rightarrow> page result \<times> dt_call list" where
  "NewPage dt turns done =
    (case dt_ask dt [] ''Target.createTarget'' [(''url'', JStr ''about:blank'')] done of (r, d1) \<Rightarrow>
      (case read_result (sfield ''targetId'') r of Inl e \<Rightarrow> (Inl e, d1) | Inr t \<Rightarrow> attach dt turns t d1))"

definition page_Close :: "dtools \<Rightarrow> page \<Rightarrow> dt_call list \<Rightarrow> gerr option \<times> dt_call list" where
  "page_Close dt p done = (case dt_ask dt [] ''Target.closeTarget'' [(''targetId'', JStr (pg_TargetID p))] done of
     (Inl e, d) \<Rightarrow> (Some e, d) | (Inr _, d) \<Rightarrow> (None, d))"

section \<open>Cookies\<close>

record Cookie =
  co_Name :: string
  co_Value :: string
  co_Domain :: string
  co_Path :: string

text \<open>\<open>expires\<close> is the Unix time at which a positive \<open>ttl\<close> runs out.\<close>

definition setCookie ::
  "dtools \<Rightarrow> page \<Rightarrow> string \<Rightarrow> string \<Rightarrow> string \<Rightarrow> int \<Rightarrow> int \<Rightarrow> dt_call list \<Rightarrow> gerr option \<times> dt_call list" where
  "setCookie dt p url name val ttl expires done =
    (case dt_ask dt (pg_SessionID p) ''Network.setCookie''
            ([(''url'', JStr url), (''name'', JStr name), (''value'', JStr val)]
             @ (if ttl > 0 then [(''expires'', JNum expires)] else [])) done of
       (r, d) \<Rightarrow> (case read_result (bfield ''success'') r of
           Inl e \<Rightarrow> (Some e, d)
         | Inr ok \<Rightarrow> if \<not> ok then (Some ''setCookie: rejected'', d) else (None, d)))"

definition SetCookie where "SetCookie dt p url name val done = setCookie dt p url name val 0 0 done"

definition dec_cookie :: "json \<Rightarrow> Cookie option" where
  "dec_cookie j = do { n \<leftarrow> sfield ''name'' j; v \<leftarrow> sfield ''value'' j; d \<leftarrow> sfield ''domain'' j; p \<leftarrow> sfield ''path'' j;
     Some \<lparr>co_Name = n, co_Value = v, co_Domain = d, co_Path = p\<rparr> }"

definition GetCookies :: "dtools \<Rightarrow> page \<Rightarrow> string list \<Rightarrow> dt_call list \<Rightarrow> Cookie list result \<times> dt_call list" where
  "GetCookies dt p urls done =
    (case dt_ask dt (pg_SessionID p) ''Network.getCookies'' (if urls \<noteq> [] then [(''urls'', JArr (map JStr urls))] else []) done of
       (r, d) \<Rightarrow> (read_result (\<lambda>j. Option.bind (lfield ''cookies'' j) (\<lambda>js. those (map dec_cookie js))) r, d))"

definition DeleteCookie :: "dtools \<Rightarrow> page \<Rightarrow> string \<Rightarrow> string \<Rightarrow> dt_call list \<Rightarrow> gerr option \<times> dt_call list" where
  "DeleteCookie dt p url name done =
    (case dt_ask dt (pg_SessionID p) ''Network.deleteCookies'' [(''name'', JStr name), (''url'', JStr url)] done of
       (Inl e, d) \<Rightarrow> (Some e, d) | (Inr _, d) \<Rightarrow> (None, d))"

section \<open>Navigating\<close>

definition transientNavError :: "string \<Rightarrow> bool" where
  "transientNavError s \<longleftrightarrow> Contains s ''ERR_ABORTED'' \<or> Contains s ''ERR_FAILED'' \<or> Contains s ''ERR_SOCKS_CONNECTION_FAILED''"

definition isErrorPageURL :: "string \<Rightarrow> bool" where
  "isErrorPageURL u0 \<longleftrightarrow> (let u = ToLower u0 in
     HasPrefix u ''chrome-error:'' \<or> HasPrefix u ''chrome://network-error'' \<or> Contains u ''chromewebdata'')"

definition firstNonEmpty :: "string list \<Rightarrow> string" where
  "firstNonEmpty vals = (case find (\<lambda>v. v \<noteq> []) vals of None \<Rightarrow> [] | Some v \<Rightarrow> v)"

record started =
  st_FrameID :: string
  st_LoaderID :: string
  st_ErrorText :: string

definition dec_started :: "json \<Rightarrow> started option" where
  "dec_started j = do { f \<leftarrow> sfield ''frameId'' j; l \<leftarrow> sfield ''loaderId'' j; e \<leftarrow> sfield ''errorText'' j;
     Some \<lparr>st_FrameID = f, st_LoaderID = l, st_ErrorText = e\<rparr> }"

text \<open>The document response of this navigation that an event is, if it is one: URL and status.\<close>

definition document_response :: "started \<Rightarrow> cdp_Event \<Rightarrow> (string \<times> int) option" where
  "document_response nav ev =
    (if ev_Method ev \<noteq> ''Network.responseReceived'' then None
     else do {
       j \<leftarrow> ev_Params ev;
       f \<leftarrow> sfield ''frameId'' j; l \<leftarrow> sfield ''loaderId'' j; t \<leftarrow> sfield ''type'' j;
       r \<leftarrow> ofield ''response'' j; u \<leftarrow> sfield ''url'' r; st \<leftarrow> ifield ''status'' r;
       (if t = ''Document'' \<and> f = st_FrameID nav \<and> l = st_LoaderID nav then Some (u, st) else None)
     })"

text \<open>The failed load of a document: its error and whether it was cancelled.\<close>

definition document_failure :: "cdp_Event \<Rightarrow> (string \<times> bool) option" where
  "document_failure ev =
    (if ev_Method ev \<noteq> ''Network.loadingFailed'' then None
     else do {
       j \<leftarrow> ev_Params ev;
       e \<leftarrow> sfield ''errorText'' j; t \<leftarrow> sfield ''type'' j; c \<leftarrow> bfield ''canceled'' j;
       (if t = ''Document'' \<and> e \<noteq> [] then Some (e, c) else None)
     })"

definition frame_navigated :: "started \<Rightarrow> cdp_Event \<Rightarrow> string option" where
  "frame_navigated nav ev =
    (if ev_Method ev \<noteq> ''Page.frameNavigated'' then None
     else do {
       j \<leftarrow> ev_Params ev; f \<leftarrow> ofield ''frame'' j; i \<leftarrow> sfield ''id'' f; u \<leftarrow> sfield ''url'' f;
       (if i = st_FrameID nav then Some u else None)
     })"

text \<open>What the \<open>select\<close> of the event loop sees.\<close>

datatype nav_obs = CtxDone gerr | ChanClosed | Got cdp_Event

text \<open>The closure \<open>finish\<close>.\<close>

definition nav_finish :: "dtools \<Rightarrow> page \<Rightarrow> NavResult \<Rightarrow> string \<Rightarrow> dt_call list \<Rightarrow> NavResult \<times> dt_call list" where
  "nav_finish dt p res docErr done =
    (let (res1, done1) = (if nr_FinalURL res = []
           then (case page_URL dt p done of (u, d) \<Rightarrow> (res\<lparr>nr_FinalURL := (case u of Inl _ \<Rightarrow> [] | Inr s \<Rightarrow> s)\<rparr>, d))
           else (res, done)) in
     if nr_ErrorText res1 = [] \<and> isErrorPageURL (nr_FinalURL res1)
     then (res1\<lparr>nr_ErrorText := firstNonEmpty [docErr, ''net::ERR_FAILED'']\<rparr>, done1) else (res1, done1))"

text \<open>One event: the state to go on with (result and \<open>docErr\<close>), or the result to finish with.\<close>

definition nav_event :: "started \<Rightarrow> bool \<Rightarrow> NavResult \<times> string \<Rightarrow> cdp_Event \<Rightarrow> (NavResult \<times> string) + (NavResult \<times> string)" where
  "nav_event nav documentOnly st ev =
    (case st of (res, docErr) \<Rightarrow>
      (case document_response nav ev of
         Some (u, code) \<Rightarrow> (let res1 = res\<lparr>nr_FinalURL := u, nr_Status := code\<rparr> in
            if documentOnly \<and> code > 0 then Inr (res1, docErr) else Inl (res1, docErr))
       | None \<Rightarrow> (case document_failure ev of
            Some (e, canceled) \<Rightarrow> if canceled then Inl (res, e) else Inr (res\<lparr>nr_ErrorText := e\<rparr>, docErr)
          | None \<Rightarrow> (case frame_navigated nav ev of
               Some u \<Rightarrow> Inl (res\<lparr>nr_FinalURL := u\<rparr>, docErr)
             | None \<Rightarrow> if ev_Method ev = ''Page.loadEventFired'' then Inr (res, docErr) else Inl (res, docErr)))))"

text \<open>The event loop; \<open>None\<close> while nothing more has happened.\<close>

fun nav_loop ::
  "dtools \<Rightarrow> page \<Rightarrow> string \<Rightarrow> started \<Rightarrow> bool \<Rightarrow> nav_obs list \<Rightarrow> NavResult \<times> string \<Rightarrow> dt_call list \<Rightarrow> (NavResult \<times> gerr option \<times> dt_call list) option" where
  "nav_loop dt p url nav documentOnly [] st done = None"
| "nav_loop dt p url nav documentOnly (ob # obs) st done =
    (case ob of
       CtxDone e \<Rightarrow> Some (fst st, Some (''navigate '' @ url @ '': '' @ e), done)
     | ChanClosed \<Rightarrow> Some (fst st, Some ErrClosed, done)
     | Got ev \<Rightarrow> (case nav_event nav documentOnly st ev of
          Inl st1 \<Rightarrow> nav_loop dt p url nav documentOnly obs st1 done
        | Inr (res, docErr) \<Rightarrow> (case nav_finish dt p res docErr done of (r, d) \<Rightarrow> Some (r, None, d))))"

definition empty_result :: NavResult where
  "empty_result = \<lparr>nr_FinalURL = [], nr_ErrorText = [], nr_Status = 0\<rparr>"

definition navigateOnce ::
  "dtools \<Rightarrow> page \<Rightarrow> string \<Rightarrow> bool \<Rightarrow> nav_obs list \<Rightarrow> dt_call list \<Rightarrow> (NavResult \<times> gerr option \<times> dt_call list) option" where
  "navigateOnce dt p url documentOnly obs done =
    (case dt_ask dt (pg_SessionID p) ''Page.navigate'' [(''url'', JStr url)] done of
       (r, d) \<Rightarrow> (case read_result dec_started r of
           Inl e \<Rightarrow> Some (empty_result, Some e, d)
         | Inr nav \<Rightarrow>
            if st_ErrorText nav \<noteq> [] then Some (empty_result\<lparr>nr_ErrorText := st_ErrorText nav\<rparr>, None, d)
            else nav_loop dt p url nav documentOnly obs (empty_result, []) d))"

text \<open>The attempts of \<open>navigate\<close>: what each one observes, and whether the context ends in the pause after it.\<close>

fun nav_attempts ::
  "dtools \<Rightarrow> page \<Rightarrow> string \<Rightarrow> bool \<Rightarrow> (nav_obs list \<times> bool) list \<Rightarrow> NavResult \<times> dt_call list \<Rightarrow> (NavResult \<times> gerr option \<times> dt_call list) option" where
  "nav_attempts dt p url documentOnly [] st = Some (fst st, None, snd st)"
| "nav_attempts dt p url documentOnly ((obs, over) # rest) st =
    (case navigateOnce dt p url documentOnly obs (snd st) of
       None \<Rightarrow> None
     | Some (res, Some e, d) \<Rightarrow> Some (res, Some e, d)
     | Some (res, None, d) \<Rightarrow>
        if \<not> Blocked res \<or> \<not> transientNavError (nr_ErrorText res) \<or> over then Some (res, None, d)
        else nav_attempts dt p url documentOnly rest (res, d))"

definition maxNavAttempts :: nat where "maxNavAttempts = 3"

definition navigate ::
  "dtools \<Rightarrow> page \<Rightarrow> string \<Rightarrow> bool \<Rightarrow> (nat \<Rightarrow> nav_obs list \<times> bool) \<Rightarrow> dt_call list \<Rightarrow> (NavResult \<times> gerr option \<times> dt_call list) option" where
  "navigate dt p url documentOnly world done =
     nav_attempts dt p url documentOnly (map world [0..<maxNavAttempts]) (empty_result, done)"

definition Navigate where "Navigate dt p url world done = navigate dt p url False world done"

definition NavigateDocument where "NavigateDocument dt p url world done = navigate dt p url True world done"

section \<open>What a navigation reports\<close>

definition start_reply :: "dtools \<Rightarrow> page \<Rightarrow> string \<Rightarrow> dt_call list \<Rightarrow> started result" where
  "start_reply dt p url done = read_result dec_started (dt (done @ [(pg_SessionID p, ''Page.navigate'', [(''url'', JStr url)])]))"

lemma navigateOnce_eq:
  "navigateOnce dt p url documentOnly obs done =
    (let d = done @ [(pg_SessionID p, ''Page.navigate'', [(''url'', JStr url)])] in
     case start_reply dt p url done of
       Inl e \<Rightarrow> Some (empty_result, Some e, d)
     | Inr nav \<Rightarrow> if st_ErrorText nav \<noteq> [] then Some (empty_result\<lparr>nr_ErrorText := st_ErrorText nav\<rparr>, None, d)
                  else nav_loop dt p url nav documentOnly obs (empty_result, []) d)"
  by (simp add: navigateOnce_def start_reply_def dt_ask_def Let_def)

text \<open>What the state of the event loop owes to the events seen.\<close>

definition owed :: "started \<Rightarrow> cdp_Event set \<Rightarrow> NavResult \<Rightarrow> bool" where
  "owed nav evs res \<longleftrightarrow> (nr_Status res \<noteq> 0 \<longrightarrow> (\<exists>ev \<in> evs. \<exists>u. document_response nav ev = Some (u, nr_Status res)))"

definition fails :: "cdp_Event set \<Rightarrow> string \<Rightarrow> bool" where
  "fails evs e \<longleftrightarrow> (\<exists>ev \<in> evs. document_failure ev = Some (e, False))"

lemma document_failure_text: "document_failure ev = Some (e, c) \<Longrightarrow> e \<noteq> []"
  by (auto simp: document_failure_def split: if_splits Option.bind_splits)

lemma nav_event_cases:
  assumes "owed nav evs (fst st)" "nr_ErrorText (fst st) = []" "ev \<in> evs"
  shows "case nav_event nav documentOnly st ev of
      Inl st1 \<Rightarrow> owed nav evs (fst st1) \<and> nr_ErrorText (fst st1) = []
    | Inr (res, docErr) \<Rightarrow> owed nav evs res \<and> (nr_ErrorText res \<noteq> [] \<longrightarrow> fails evs (nr_ErrorText res))"
proof -
  obtain res docErr where st: "st = (res, docErr)" by fastforce
  show ?thesis
    using assms st
    by (fastforce simp: nav_event_def owed_def fails_def Let_def split: option.splits prod.splits)
qed

lemma nav_finish_cases:
  assumes "nav_finish dt p res docErr done = (r, d)" "owed nav evs res" "nr_ErrorText res \<noteq> [] \<longrightarrow> fails evs (nr_ErrorText res)"
  shows "owed nav evs r \<and> (Blocked r \<longrightarrow> fails evs (nr_ErrorText r) \<or> isErrorPageURL (nr_FinalURL r))
    \<and> (\<not> Blocked r \<longrightarrow> \<not> isErrorPageURL (nr_FinalURL r)) \<and> nr_Status r = nr_Status res"
proof -
  have "nr_Status r = nr_Status res"
    using assms(1) by (auto simp: nav_finish_def Let_def split: if_splits prod.splits)
  moreover have "owed nav evs r" using assms(2) calculation by (simp add: owed_def)
  moreover have "(Blocked r \<longrightarrow> fails evs (nr_ErrorText r) \<or> isErrorPageURL (nr_FinalURL r)) \<and> (\<not> Blocked r \<longrightarrow> \<not> isErrorPageURL (nr_FinalURL r))"
    using assms(1,3) by (auto simp: nav_finish_def Blocked_def firstNonEmpty_def Let_def split: if_splits prod.splits)
  ultimately show ?thesis by simp
qed

lemma nav_loop_cases:
  assumes "nav_loop dt p url nav documentOnly obs st done = Some (r, None, d)"
    and "owed nav evs (fst st)" "nr_ErrorText (fst st) = []" "\<forall>ev. Got ev \<in> set obs \<longrightarrow> ev \<in> evs"
  shows "owed nav evs r \<and> (Blocked r \<longrightarrow> fails evs (nr_ErrorText r) \<or> isErrorPageURL (nr_FinalURL r))
    \<and> (\<not> Blocked r \<longrightarrow> \<not> isErrorPageURL (nr_FinalURL r))"
  using assms
proof (induction dt p url nav documentOnly obs st "done" rule: nav_loop.induct)
  case (2 dt p url nav documentOnly ob obs st d0)
  show ?case
  proof (cases ob)
    case (Got ev)
    note E = nav_event_cases [OF 2(3,4), of ev documentOnly]
    show ?thesis
    proof (cases "nav_event nav documentOnly st ev")
      case (Inl st1)
      then show ?thesis using 2 E Got by auto
    next
      case (Inr rd)
      obtain res docErr where rd: "rd = (res, docErr)" by fastforce
      obtain r' d' where f: "nav_finish dt p res docErr d0 = (r', d')" by fastforce
      then have "r = r'" using 2(2) Got Inr rd by simp
      then show ?thesis using nav_finish_cases [OF f] E Inr rd Got 2(5) by auto
    qed
  qed (use 2 in auto)
qed simp

section \<open>How often a page is asked to navigate\<close>

definition nav_calls :: "dt_call list \<Rightarrow> nat" where
  "nav_calls d = length (filter (\<lambda>(_, m, _). m = ''Page.navigate'') d)"

lemma eval_string_calls: "eval_string dt p expr done = (r, d) \<Longrightarrow> nav_calls d = nav_calls done"
  by (auto simp: eval_string_def Evaluate_def dt_ask_def nav_calls_def Let_def split: sum.splits option.splits prod.splits)

lemma nav_finish_calls: "nav_finish dt p res docErr done = (r, d) \<Longrightarrow> nav_calls d = nav_calls done"
  by (auto simp: nav_finish_def page_URL_def Let_def split: if_splits prod.splits dest: eval_string_calls)

lemma nav_loop_calls:
  "nav_loop dt p url nav documentOnly obs st done = Some (r, e, d) \<Longrightarrow> nav_calls d = nav_calls done"
  by (induction dt p url nav documentOnly obs st "done" rule: nav_loop.induct)
    (auto split: nav_obs.splits sum.splits prod.splits dest: nav_finish_calls)

lemma navigateOnce_calls:
  assumes "navigateOnce dt p url documentOnly obs done = Some (r, e, d)"
  shows "nav_calls d = Suc (nav_calls done)"
proof -
  have n: "nav_calls (done @ [(pg_SessionID p, ''Page.navigate'', ps)]) = Suc (nav_calls done)" for ps
    by (simp add: nav_calls_def)
  show ?thesis
    using assms by (auto simp: navigateOnce_eq Let_def n dest!: nav_loop_calls split: sum.splits if_splits)
qed

definition transient_block :: "NavResult \<Rightarrow> bool" where
  "transient_block r \<longleftrightarrow> Blocked r \<and> transientNavError (nr_ErrorText r)"

lemma nav_attempts_cases:
  assumes "nav_attempts dt p url documentOnly worlds st = Some (r, e, d)"
  shows "nav_calls d \<le> nav_calls (snd st) + length worlds
    \<and> (worlds \<noteq> [] \<longrightarrow> (\<exists>(obs, over) \<in> set worlds. \<exists>d0. navigateOnce dt p url documentOnly obs d0 = Some (r, e, d)
         \<and> (e = None \<and> transient_block r \<and> \<not> over \<longrightarrow> nav_calls d = nav_calls (snd st) + length worlds)))"
  using assms
proof (induction dt p url documentOnly worlds st rule: nav_attempts.induct)
  case (2 dt p url documentOnly obs over rest st)
  obtain res e1 d1 where n: "navigateOnce dt p url documentOnly obs (snd st) = Some (res, e1, d1)"
    using 2(2) by (auto split: option.splits)
  note c = navigateOnce_calls [OF n]
  show ?case
  proof (cases "e1 = None \<and> Blocked res \<and> transientNavError (nr_ErrorText res) \<and> \<not> over")
    case True
    then have r: "nav_attempts dt p url documentOnly rest (res, d1) = Some (r, e, d)" using 2(2) n by auto
    show ?thesis
    proof (cases "rest = []")
      case True
      then have "r = res" "e = None" "d = d1" using r by simp_all
      then show ?thesis using n c True \<open>e1 = None \<and> _\<close> by auto
    next
      case False
      have "nav_calls d \<le> nav_calls d1 + length rest
          \<and> (\<exists>(obs, over) \<in> set rest. \<exists>d0. navigateOnce dt p url documentOnly obs d0 = Some (r, e, d)
             \<and> (e = None \<and> transient_block r \<and> \<not> over \<longrightarrow> nav_calls d = nav_calls d1 + length rest))"
        using 2(1) [OF n refl] r True False by auto
      then show ?thesis using c by fastforce
    qed
  next
    case False
    then have "r = res" "e = e1" "d = d1" using 2(2) n by (auto split: option.splits if_splits)
    then show ?thesis using n c False by (auto simp: transient_block_def)
  qed
qed simp

section \<open>Properties\<close>

text \<open>Why a navigation without an error reports what it reports: the events that account for its result.\<close>

definition explained :: "started \<Rightarrow> nav_obs list \<Rightarrow> NavResult \<Rightarrow> bool" where
  "explained nav obs res \<longleftrightarrow>
     (nr_Status res \<noteq> 0 \<longrightarrow> (\<exists>ev u. Got ev \<in> set obs \<and> document_response nav ev = Some (u, nr_Status res)))
   \<and> (Blocked res \<longrightarrow> st_ErrorText nav = nr_ErrorText res \<or> (\<exists>ev. Got ev \<in> set obs \<and> document_failure ev = Some (nr_ErrorText res, False))
        \<or> isErrorPageURL (nr_FinalURL res))
   \<and> (\<not> Blocked res \<longrightarrow> \<not> isErrorPageURL (nr_FinalURL res))"

lemma navigateOnce_explained:
  assumes "navigateOnce dt p url documentOnly obs d0 = Some (res, None, d)"
  shows "\<exists>nav. start_reply dt p url d0 = Inr nav \<and> explained nav obs res"
proof -
  obtain nav where nav: "start_reply dt p url d0 = Inr nav"
    using assms by (auto simp: navigateOnce_eq Let_def split: sum.splits)
  let ?evs = "{ev. Got ev \<in> set obs}"
  show ?thesis
  proof (cases "st_ErrorText nav = []")
    case False
    then have "res = empty_result\<lparr>nr_ErrorText := st_ErrorText nav\<rparr>"
      using assms nav by (simp add: navigateOnce_eq Let_def)
    then show ?thesis using nav False by (auto simp: explained_def empty_result_def Blocked_def)
  next
    case True
    then have l: "nav_loop dt p url nav documentOnly obs (empty_result, []) (d0 @ [(pg_SessionID p, ''Page.navigate'', [(''url'', JStr url)])])
        = Some (res, None, d)" using assms nav by (simp add: navigateOnce_eq Let_def)
    have "owed nav ?evs res \<and> (Blocked res \<longrightarrow> fails ?evs (nr_ErrorText res) \<or> isErrorPageURL (nr_FinalURL res))
        \<and> (\<not> Blocked res \<longrightarrow> \<not> isErrorPageURL (nr_FinalURL res))"
      by (rule nav_loop_cases [OF l]) (auto simp: owed_def empty_result_def)
    then show ?thesis using nav by (auto simp: explained_def owed_def fails_def)
  qed
qed

definition ev_response :: "string \<Rightarrow> string \<Rightarrow> string \<Rightarrow> int \<Rightarrow> cdp_Event" where
  "ev_response f l u code = \<lparr>ev_SessionID = ''S'', ev_Method = ''Network.responseReceived'',
     ev_Params = Some (JObj [(''frameId'', JStr f), (''loaderId'', JStr l), (''type'', JStr ''Document''),
        (''response'', JObj [(''url'', JStr u), (''status'', JNum code)])])\<rparr>"

definition ev_failed :: "string \<Rightarrow> bool \<Rightarrow> cdp_Event" where
  "ev_failed e canceled = \<lparr>ev_SessionID = ''S'', ev_Method = ''Network.loadingFailed'',
     ev_Params = Some (JObj [(''requestId'', JStr ''R''), (''errorText'', JStr e), (''type'', JStr ''Document''), (''canceled'', JBool canceled)])\<rparr>"

definition ev_load :: cdp_Event where
  "ev_load = \<lparr>ev_SessionID = ''S'', ev_Method = ''Page.loadEventFired'', ev_Params = Some (JObj [])\<rparr>"

definition sample_page :: page where
  "sample_page = \<lparr>pg_TargetID = ''T'', pg_SessionID = ''S''\<rparr>"

definition sample_dtools :: dtools where
  "sample_dtools calls = (case last calls of (_, m, _) \<Rightarrow>
     if m = ''Page.navigate'' then Inr (Some (JObj [(''frameId'', JStr ''F''), (''loaderId'', JStr ''L'')]))
     else Inr (Some (JObj [(''result'', JObj [(''value'', JStr ''https://e/'')])])))"

text \<open>
  C29: A navigation reports what happened. When \<open>Navigate\<close> or \<open>NavigateDocument\<close> ends without an error, its result is that
  of one of its at most three attempts and is accounted for by what that attempt saw: a status is that of a document
  response of this very frame and load, a block is an error of the navigate command, an uncancelled failure of a document or
  an error page, and an error page is never reported as loaded. A transient block is reported only after three attempts,
  or when the context ended in between.
\<close>

theorem page_navigation_verdict:
  assumes "navigate dt p url documentOnly world d0 = Some (res, None, d)"
  shows "nav_calls d \<le> nav_calls d0 + maxNavAttempts
    \<and> (\<exists>i < maxNavAttempts. \<exists>d1 nav. start_reply dt p url d1 = Inr nav \<and> explained nav (fst (world i)) res
         \<and> (transient_block res \<and> \<not> snd (world i) \<longrightarrow> nav_calls d = nav_calls d0 + maxNavAttempts))"
proof -
  have ne: "map world [0..<maxNavAttempts] \<noteq> []" by (simp add: maxNavAttempts_def)
  obtain obs over d1 where o: "(obs, over) \<in> set (map world [0..<maxNavAttempts])"
    "navigateOnce dt p url documentOnly obs d1 = Some (res, None, d)"
    "transient_block res \<and> \<not> over \<longrightarrow> nav_calls d = nav_calls d0 + maxNavAttempts"
    and c: "nav_calls d \<le> nav_calls d0 + maxNavAttempts"
    using nav_attempts_cases [OF assms [unfolded navigate_def]] ne by (auto simp del: set_map)
  obtain i where "i < maxNavAttempts" "world i = (obs, over)" using o(1) by auto
  then show ?thesis using navigateOnce_explained [OF o(2)] o(3) c by (intro conjI exI [of _ i]) auto
qed

theorem page_navigation_verdict_witness:
  "\<exists>res d. navigate sample_dtools sample_page ''https://e/'' False
       (\<lambda>_. ([Got (ev_failed ''net::ERR_ABORTED'' True), Got (ev_response ''F'' ''L'' ''https://e/'' 200), Got ev_load], False)) [] = Some (res, None, d)
     \<and> nr_Status res = 200 \<and> nav_calls d \<le> 3"
proof -
  let ?w = "\<lambda>_ :: nat. ([Got (ev_failed ''net::ERR_ABORTED'' True), Got (ev_response ''F'' ''L'' ''https://e/'' 200), Got ev_load], False)"
  have "map_option (\<lambda>(r, e, d). (nr_Status r, e)) (navigate sample_dtools sample_page ''https://e/'' False ?w []) = Some (200, None)"
    by code_simp
  then obtain res d where n: "navigate sample_dtools sample_page ''https://e/'' False ?w [] = Some (res, None, d)" "nr_Status res = 200" by auto
  from page_navigation_verdict [OF n(1)] n show ?thesis by (auto simp: nav_calls_def maxNavAttempts_def)
qed

text \<open>An event that neither ends a document navigation nor is its response.\<close>

definition quiet :: "started \<Rightarrow> cdp_Event \<Rightarrow> bool" where
  "quiet nav ev \<longleftrightarrow> document_response nav ev = None \<and> (\<forall>e. document_failure ev \<noteq> Some (e, False)) \<and> ev_Method ev \<noteq> ''Page.loadEventFired''"

lemma quiet_event:
  assumes "quiet nav ev" "nr_ErrorText (fst st) = []"
  shows "\<exists>st1. nav_event nav documentOnly st ev = Inl st1 \<and> nr_ErrorText (fst st1) = []"
proof -
  obtain res docErr where "st = (res, docErr)" by fastforce
  then show ?thesis using assms by (auto simp: quiet_def nav_event_def split: option.splits)
qed

lemma document_loop:
  assumes "\<forall>ev \<in> set pre. quiet nav ev" "document_response nav ev = Some (u, code)" "0 < code" "u \<noteq> []" "nr_ErrorText (fst st) = []"
  shows "\<exists>res. nav_loop dt p url nav True (map Got pre @ Got ev # rest) st d = Some (res, None, d)
    \<and> nr_Status res = code \<and> nr_FinalURL res = u \<and> (Blocked res \<longleftrightarrow> isErrorPageURL u)"
  using assms(1,5)
proof (induction pre arbitrary: st)
  case Nil
  obtain r e where st: "st = (r, e)" by fastforce
  show ?case
    using assms(2-4) Nil by (auto simp: st nav_event_def nav_finish_def Let_def Blocked_def firstNonEmpty_def)
next
  case (Cons a pre)
  obtain st1 where "nav_event nav True st a = Inl st1" "nr_ErrorText (fst st1) = []"
    using quiet_event [of nav a st True] Cons(2,3) by auto
  then show ?case using Cons by simp
qed

text \<open>
  A document navigation waits for the document only. Once the document response of the load has arrived, whatever
  other loads, frames and cancelled documents came before it, \<open>NavigateDocument\<close> is done with the status and URL of that
  response: nothing that happens afterwards, a failing subresource or frame included, changes the result.
\<close>

theorem page_document_only:
  assumes "start_reply dt p url d0 = Inr nav" "st_ErrorText nav = []"
    and "\<forall>ev \<in> set pre. quiet nav ev" "document_response nav ev = Some (u, code)" "0 < code" "u \<noteq> []" "\<not> isErrorPageURL u"
    and "world 0 = (map Got pre @ Got ev # rest, over)"
  shows "\<exists>res d. NavigateDocument dt p url world d0 = Some (res, None, d) \<and> nr_Status res = code \<and> nr_FinalURL res = u
    \<and> \<not> Blocked res \<and> nav_calls d = Suc (nav_calls d0)"
proof -
  let ?d = "d0 @ [(pg_SessionID p, ''Page.navigate'', [(''url'', JStr url)])]"
  obtain res where l: "nav_loop dt p url nav True (map Got pre @ Got ev # rest) (empty_result, []) ?d = Some (res, None, ?d)"
    and r: "nr_Status res = code" "nr_FinalURL res = u" "\<not> Blocked res"
    using document_loop [OF assms(3-6), of "(empty_result, [])" dt p url rest ?d] assms(7) by (auto simp: empty_result_def)
  have n: "navigateOnce dt p url True (map Got pre @ Got ev # rest) d0 = Some (res, None, ?d)"
    using assms(1,2) l by (simp add: navigateOnce_eq Let_def)
  have "[0..<maxNavAttempts] = 0 # [1..<maxNavAttempts]" by (simp add: maxNavAttempts_def upt_conv_Cons)
  then have "NavigateDocument dt p url world d0 = Some (res, None, ?d)"
    using n r(3) assms(8) by (simp add: NavigateDocument_def navigate_def)
  then show ?thesis using r navigateOnce_calls [OF n] by blast
qed

theorem page_document_only_witness:
  "\<exists>res d. NavigateDocument sample_dtools sample_page ''https://e/''
      (\<lambda>_. ([Got (ev_failed ''net::ERR_ABORTED'' True), Got (ev_response ''F'' ''L'' ''https://e/'' 200), Got (ev_failed ''net::ERR_BLOCKED'' False)], False)) []
    = Some (res, None, d) \<and> nr_Status res = 200 \<and> \<not> Blocked res"
proof -
  let ?nav = "\<lparr>st_FrameID = ''F'', st_LoaderID = ''L'', st_ErrorText = []\<rparr>"
  have 1: "start_reply sample_dtools sample_page ''https://e/'' [] = Inr ?nav" by code_simp
  have q: "document_response ?nav (ev_failed ''net::ERR_ABORTED'' True) = None"
    "document_failure (ev_failed ''net::ERR_ABORTED'' True) = Some (''net::ERR_ABORTED'', True)"
    "ev_Method (ev_failed ''net::ERR_ABORTED'' True) \<noteq> ''Page.loadEventFired''" by code_simp+
  have 2: "\<forall>ev \<in> set [ev_failed ''net::ERR_ABORTED'' True]. quiet ?nav ev" using q by (simp add: quiet_def)
  have 3: "document_response ?nav (ev_response ''F'' ''L'' ''https://e/'' 200) = Some (''https://e/'', 200)" by code_simp
  have 4: "\<not> isErrorPageURL ''https://e/''" by code_simp
  from page_document_only [OF 1 _ 2 3 _ _ 4, of "\<lambda>_. ([Got (ev_failed ''net::ERR_ABORTED'' True),
      Got (ev_response ''F'' ''L'' ''https://e/'' 200), Got (ev_failed ''net::ERR_BLOCKED'' False)], False)" "[Got (ev_failed ''net::ERR_BLOCKED'' False)]" False]
  show ?thesis by auto
qed

text \<open>
  A full navigation is at the mercy of every frame: the failure of any document, an embedded frame's included, since the
  event does not say whose it is, ends it as blocked although its own document has arrived.
\<close>

theorem page_any_document_fails:
  assumes "start_reply dt p url d0 = Inr nav" "st_ErrorText nav = []" "document_response nav ev = Some (u, code)" "u \<noteq> []"
    and "document_failure ev' = Some (e, False)"
  shows "\<exists>res d. navigateOnce dt p url False [Got ev, Got ev'] d0 = Some (res, None, d) \<and> nr_Status res = code \<and> nr_ErrorText res = e \<and> Blocked res"
proof -
  have "document_response nav ev' = None"
    using assms(5) by (auto simp: document_failure_def document_response_def split: if_splits)
  then show ?thesis
    using assms document_failure_text [OF assms(5)]
    by (auto simp: navigateOnce_eq Let_def nav_event_def nav_finish_def Blocked_def)
qed

end
