(* ===== verification/Browser.thy ===== *)
theory Browser
  imports Page "HOL-Library.AList"
begin

text \<open>
  Starting Chromium: \<open>src/controller/browser/chromium.go\<close>, \<open>prefs.go\<close>, \<open>launch.go\<close> and the platform's flags. The
  choice of the binary, the flags, the environment of the process, the preferences of a new profile, the launch with its
  failures, and the loop that prepares every new target. Paths are joined by a parameter where \<open>filepath.Join\<close> cleans them.
\<close>

section \<open>Finding the binary\<close>

datatype found_source = FromEnv | Pinned | Bundled | System

record Found =
  fo_Path :: string
  fo_Source :: found_source

record PinPlatform =
  pp_URL :: string
  pp_SHA256 :: string
  pp_Binary :: string

record PinManifest =
  pm_Version :: string
  pm_Platforms :: "(string \<times> PinPlatform) list"

text \<open>What the host answers; \<open>fe_join\<close> is \<open>filepath.Join\<close> of a directory and a relative path.\<close>

record findenv =
  fe_goos :: string
  fe_goarch :: string
  fe_getenv :: "string \<Rightarrow> string"
  fe_stat :: "string \<Rightarrow> gerr option"
  fe_exeDir :: "string option"
  fe_lookPath :: "string \<Rightarrow> string option"
  fe_join :: "string \<Rightarrow> string \<Rightarrow> string"

definition EnvBinary :: string where "EnvBinary = ''TAB_ROUTER_CHROMIUM''"

definition PlatformKey :: "string \<Rightarrow> string \<Rightarrow> string" where
  "PlatformKey os arch =
    (if os = ''windows'' \<and> arch = ''amd64'' then ''win64''
     else if os = ''darwin'' \<and> arch = ''arm64'' then ''mac-arm64''
     else if os = ''darwin'' \<and> arch = ''amd64'' then ''mac-x64''
     else if os = ''linux'' \<and> arch = ''amd64'' then ''linux64''
     else if os = ''linux'' \<and> arch = ''arm64'' then ''linux-arm64''
     else os @ ''-'' @ arch)"

definition path_sep :: "string \<Rightarrow> char" where
  "path_sep os = (if os = ''windows'' then CHR 0x5C else CHR ''/'')"

text \<open>A path with its components, written with the separator of the system.\<close>

definition sep_path :: "string \<Rightarrow> string list \<Rightarrow> string" where
  "sep_path os parts = Join parts [path_sep os]"

definition bundledCandidates :: "string \<Rightarrow> string list" where
  "bundledCandidates os =
    (if os = ''windows'' then [sep_path os [''chromium'', ''chrome.exe'']]
     else if os = ''darwin'' then
       [''../Frameworks/Chromium.app/Contents/MacOS/Chromium'', ''chromium/Chromium.app/Contents/MacOS/Chromium'',
        ''chromium/chrome-mac/Chromium.app/Contents/MacOS/Chromium'']
     else [''chromium/chrome''])"

definition systemCandidates :: "findenv \<Rightarrow> string list" where
  "systemCandidates e =
    (if fe_goos e = ''windows'' then
       (let app = (\<lambda>var parts. fe_join e (fe_getenv e var) (sep_path ''windows'' parts)) in
        [app ''ProgramFiles'' [''Google'', ''Chrome'', ''Application'', ''chrome.exe''],
         app ''ProgramFiles(x86)'' [''Google'', ''Chrome'', ''Application'', ''chrome.exe''],
         app ''LOCALAPPDATA'' [''Google'', ''Chrome'', ''Application'', ''chrome.exe''],
         app ''LOCALAPPDATA'' [''Chromium'', ''Application'', ''chrome.exe'']])
     else if fe_goos e = ''darwin'' then
       [''/Applications/Chromium.app/Contents/MacOS/Chromium'', ''/Applications/Google Chrome.app/Contents/MacOS/Google Chrome'']
     else [''chromium'', ''chromium-browser'', ''google-chrome-stable'', ''google-chrome''])"

definition exists_file :: "findenv \<Rightarrow> string \<Rightarrow> bool" where
  "exists_file e p \<longleftrightarrow> fe_stat e p = None"

definition pinned_path :: "findenv \<Rightarrow> string \<Rightarrow> PinManifest \<Rightarrow> string option" where
  "pinned_path e dataDir pin = (case map_of (pm_Platforms pin) (PlatformKey (fe_goos e) (fe_goarch e)) of
      None \<Rightarrow> None
    | Some p \<Rightarrow> if dataDir \<noteq> [] then Some (fe_join e (dataDir @ ''/chromium/'' @ pm_Version pin) (pp_Binary p)) else None)"

definition system_path :: "findenv \<Rightarrow> string \<Rightarrow> string option" where
  "system_path e c = (if path_sep (fe_goos e) \<in> set c then (if exists_file e c then Some c else None) else fe_lookPath e c)"

definition bundled_paths :: "findenv \<Rightarrow> string list" where
  "bundled_paths e = (case fe_exeDir e of None \<Rightarrow> [] | Some d \<Rightarrow> map (fe_join e d) (bundledCandidates (fe_goos e)))"

definition find_browser :: "findenv \<Rightarrow> string \<Rightarrow> PinManifest option \<Rightarrow> Found result" where
  "find_browser e dataDir pin =
    (let v = fe_getenv e EnvBinary in
     if v \<noteq> [] then (case fe_stat e v of Some x \<Rightarrow> Inl (EnvBinary @ ''='' @ Quote v @ '': '' @ x)
                      | None \<Rightarrow> Inr \<lparr>fo_Path = v, fo_Source = FromEnv\<rparr>)
     else case Option.bind (Option.bind pin (pinned_path e dataDir)) (\<lambda>p. if exists_file e p then Some p else None) of
       Some p \<Rightarrow> Inr \<lparr>fo_Path = p, fo_Source = Pinned\<rparr>
     | None \<Rightarrow> (case find (exists_file e) (bundled_paths e) of
         Some b \<Rightarrow> Inr \<lparr>fo_Path = b, fo_Source = Bundled\<rparr>
       | None \<Rightarrow> (case List.map_filter (system_path e) (systemCandidates e) of
           s # _ \<Rightarrow> Inr \<lparr>fo_Path = s, fo_Source = System\<rparr>
         | [] \<Rightarrow> Inl (''no Chromium found: run scripts/fetch-chromium or set '' @ EnvBinary))))"

text \<open>\<open>Version\<close>, given the outcome of running the binary with a flag.\<close>

definition chromium_Version :: "(string \<Rightarrow> string result) \<Rightarrow> string result" where
  "chromium_Version run = (let try = (\<lambda>flag. map_sum id TrimSpace (run flag)) in
     case try ''--product-version'' of
       Inr s \<Rightarrow> if s \<noteq> [] then Inr s else try ''--version''
     | Inl _ \<Rightarrow> try ''--version'')"

section \<open>Flags and environment\<close>

definition HardeningFlags :: "string \<Rightarrow> string list" where
  "HardeningFlags gateAddr =
    [''--proxy-server=socks5://'' @ gateAddr,
     ''--proxy-bypass-list=<-loopback>'',
     ''--host-resolver-rules=MAP * ~NOTFOUND , EXCLUDE 127.0.0.1'',
     ''--disable-quic'',
     ''--force-webrtc-ip-handling-policy=disable_non_proxied_udp'',
     ''--disable-features=DnsOverHttps,AsyncDns,OptimizationHints,MediaRouter,Translate,InterestFeedContentSuggestions,CalculateNativeWinOcclusion,SafeBrowsingEnhancedProtection,ChromeWhatsNewUI,PrivacySandboxSettings4,SegmentationPlatform,AutofillServerCommunication,OsCryptAsync,AppBoundEncryption'',
     ''--disable-background-networking'',
     ''--disable-component-update'',
     ''--disable-sync'',
     ''--disable-default-apps'',
     ''--disable-domain-reliability'',
     ''--disable-client-side-phishing-detection'',
     ''--disable-search-engine-choice-screen'',
     ''--disable-breakpad'',
     ''--metrics-recording-only'',
     ''--no-pings'',
     ''--no-first-run'',
     ''--no-default-browser-check'',
     ''--no-service-autorun'',
     ''--password-store=basic'',
     ''--use-mock-keychain'',
     ''--remote-debugging-pipe'']"

text \<open>\<open>show\<close> is \<open>%g\<close>.\<close>

definition EnvironmentFlags :: "(float64 \<Rightarrow> string) \<Rightarrow> Environment \<Rightarrow> string list" where
  "EnvironmentFlags show_g env =
    [''--lang='' @ ev_Locale env,
     ''--window-size='' @ Itoa (ev_WindowWidth env) @ '','' @ Itoa (ev_WindowHeight env),
     ''--window-position='' @ Itoa (ev_WindowX env) @ '','' @ Itoa (ev_WindowY env),
     ''--force-device-scale-factor='' @ show_g (ev_DeviceScaleFactor env),
     ''--force-color-profile=srgb'']
    @ (if ev_ColorScheme env = ''dark'' then [''--force-dark-mode''] else [])"

definition PlatformFlags :: "string \<Rightarrow> bool \<Rightarrow> (string \<Rightarrow> string) \<Rightarrow> string list" where
  "PlatformFlags os root getenv =
    (if os = ''linux''
     then [''--disable-dev-shm-usage'']
       @ (if root \<or> getenv ''CI'' \<noteq> [] \<or> getenv ''TAB_ROUTER_NO_SANDBOX'' \<noteq> [] then [''--no-sandbox'', ''--disable-setuid-sandbox''] else [])
     else [])"

definition scrubbed :: "string list" where
  "scrubbed = [''http_proxy'', ''https_proxy'', ''all_proxy'', ''no_proxy'', ''socks_proxy'', ''ftp_proxy'', ''tz'',
     ''decodo_username'', ''decodo_password'', ''decodo_host'', ''decodo_port'', ''decodo_country'', ''decodo_session_minutes'']"

definition env_name :: "string \<Rightarrow> string" where
  "env_name kv = fst (Cut kv (CHR ''=''))"

definition scrubEnv :: "string list \<Rightarrow> string \<Rightarrow> string list" where
  "scrubEnv env timezone = filter (\<lambda>kv. ToLower (env_name kv) \<notin> set scrubbed) env
     @ (if timezone \<noteq> [] then [''TZ='' @ timezone] else [])"

section \<open>Preferences of a new profile\<close>

definition off :: "string \<Rightarrow> string \<times> json" where
  "off k = (k, JBool False)"

definition privacyPreferences :: "(string \<times> json) list" where
  "privacyPreferences =
    [(''safebrowsing'', JObj [off ''enabled'', off ''enhanced'', off ''scout_reporting_enabled'']),
     (''signin'', JObj [off ''allowed'', off ''allowed_on_next_startup'']),
     (''search'', JObj [off ''suggest_enabled'']),
     (''alternate_error_pages'', JObj [off ''enabled'']),
     (''dns_prefetching'', JObj [off ''enabled'']),
     (''net'', JObj [(''network_prediction_options'', JNum 2)]),
     (''translate'', JObj [off ''enabled'']),
     (''spellcheck'', JObj [off ''use_spelling_service'']),
     (''browser'', JObj [off ''show_home_button'', (''has_seen_welcome_page'', JBool True), off ''check_default_browser'',
        off ''default_browser_setting_enabled'']),
     (''profile'', JObj [off ''password_manager_enabled'',
        (''default_content_setting_values'', JObj [(''notifications'', JNum 2), (''geolocation'', JNum 2)])]),
     off ''credentials_enable_service'',
     off ''credentials_enable_autosignin'',
     (''autofill'', JObj [off ''profile_enabled'', off ''credit_card_enabled'']),
     (''webrtc'', JObj [(''ip_handling_policy'', JStr ''disable_non_proxied_udp''), off ''multiple_routes_enabled'', off ''nonproxied_udp_enabled'']),
     (''url_keyed_anonymized_data_collection'', JObj [off ''enabled'']),
     (''optimization_guide'', JObj [off ''fetching_enabled'']),
     (''privacy_sandbox'', JObj [(''m1'', JObj [off ''topics_enabled'', off ''fledge_enabled'', off ''ad_measurement_enabled''])]),
     (''default_apps_install_state'', JNum 3)]"

definition environmentPreferences :: "Environment \<Rightarrow> string \<Rightarrow> (string \<times> json) list" where
  "environmentPreferences env downloadDir =
    [(''intl'', JObj [(''accept_languages'', JStr (ev_AcceptLanguages env)), (''selected_languages'', JStr (ev_AcceptLanguages env))]),
     (''spellcheck'', JObj [(''dictionaries'', JArr [JStr (hd (Split (ev_AcceptLanguages env) (CHR '','')))]), off ''use_spelling_service''])]
    @ (if downloadDir \<noteq> []
       then [(''download'', JObj [(''default_directory'', JStr downloadDir), off ''prompt_for_download'', (''directory_upgrade'', JBool True)])]
       else [])"

text \<open>One turn of the merge: two objects are merged key by key, anything else is replaced.\<close>

definition merge_pref :: "(string \<times> json) list \<Rightarrow> string \<times> json \<Rightarrow> (string \<times> json) list" where
  "merge_pref merged kv = (case kv of (k, v) \<Rightarrow>
     (case (map_of merged k, v) of
        (Some (JObj existing), JObj add) \<Rightarrow> AList.update k (JObj (foldl (\<lambda>m (kk, vv). AList.update kk vv m) existing add)) merged
      | _ \<Rightarrow> AList.update k v merged))"

definition merged_preferences :: "Environment \<Rightarrow> string \<Rightarrow> (string \<times> json) list" where
  "merged_preferences env downloadDir = foldl merge_pref privacyPreferences (environmentPreferences env downloadDir)"

text \<open>\<open>SeedPreferences\<close>: the error, and what it wrote, if anything.\<close>

definition SeedPreferences ::
  "bool \<Rightarrow> gerr option \<Rightarrow> gerr option \<Rightarrow> Environment \<Rightarrow> string \<Rightarrow> gerr option \<times> (string \<times> json) list option" where
  "SeedPreferences present mkdir write env downloadDir =
    (if present then (None, None)
     else case mkdir of Some e \<Rightarrow> (Some e, None)
     | None \<Rightarrow> (case write of Some e \<Rightarrow> (Some e, None) | None \<Rightarrow> (None, Some (merged_preferences env downloadDir))))"

section \<open>Launching\<close>

record LaunchOptions =
  lo_BinaryPath :: string
  lo_ProfileDir :: string
  lo_GateAddr :: string
  lo_Headless :: bool
  lo_Environment :: Environment
  lo_DownloadDir :: string
  lo_ExtraArgs :: "string list"

text \<open>
  The host during a launch. \<open>ln_stderr\<close> is what Chromium wrote, when its errors are captured; \<open>ln_base\<close> is
  \<open>filepath.Base\<close>; \<open>ln_default\<close> is the environment used when the options carry none.
\<close>

record launchenv =
  ln_mkProfile :: "gerr option"
  ln_prefsPresent :: bool
  ln_mkDefault :: "gerr option"
  ln_writePrefs :: "gerr option"
  ln_platformFlags :: "string list"
  ln_environ :: "string list"
  ln_pipe :: "gerr option"
  ln_spawn :: "gerr + int"
  ln_dtools :: dtools
  ln_mkDownload :: "gerr option"
  ln_stderr :: "string option"
  ln_show :: "float64 \<Rightarrow> string"
  ln_default :: Environment
  ln_base :: "string \<Rightarrow> string"

text \<open>A Chromium process that was started: how, what it was told over DevTools, and whether it runs.\<close>

record browser =
  br_pid :: int
  br_args :: "string list"
  br_environ :: "string list"
  br_prefs :: "(string \<times> json) list option"
  br_calls :: "dt_call list"
  br_running :: bool

definition launch_args :: "launchenv \<Rightarrow> LaunchOptions \<Rightarrow> Environment \<Rightarrow> string list" where
  "launch_args e o' env =
    [''--user-data-dir='' @ lo_ProfileDir o'] @ HardeningFlags (lo_GateAddr o') @ EnvironmentFlags (ln_show e) env @ ln_platformFlags e
    @ (if lo_Headless o' then [''--headless=new'', ''--disable-gpu'', ''--hide-scrollbars'', ''--mute-audio''] else [])
    @ lo_ExtraArgs o' @ [''about:blank'']"

definition browser_Kill :: "browser \<Rightarrow> browser" where
  "browser_Kill b = b\<lparr>br_running := False\<rparr>"

definition dt_exec :: "dtools \<Rightarrow> string \<Rightarrow> string \<Rightarrow> (string \<times> json) list \<Rightarrow> browser \<Rightarrow> json option result \<times> browser" where
  "dt_exec dt session method params b = (case dt_ask dt session method params (br_calls b) of (r, d) \<Rightarrow> (r, b\<lparr>br_calls := d\<rparr>))"

definition enforceEnvironment :: "dtools \<Rightarrow> browser \<Rightarrow> gerr option \<times> browser" where
  "enforceEnvironment dt b = (case dt_exec dt [] ''Target.setAutoAttach''
       [(''autoAttach'', JBool True), (''waitForDebuggerOnStart'', JBool True), (''flatten'', JBool True)] b of
     (Inl x, b1) \<Rightarrow> (Some x, b1) | (Inr _, b1) \<Rightarrow> (None, b1))"

definition SetDownloadDir :: "dtools \<Rightarrow> gerr option \<Rightarrow> string \<Rightarrow> browser \<Rightarrow> gerr option \<times> browser" where
  "SetDownloadDir dt mkdir dir b = (case mkdir of Some x \<Rightarrow> (Some x, b)
     | None \<Rightarrow> (case dt_exec dt [] ''Browser.setDownloadBehavior''
          [(''behavior'', JStr ''allow''), (''downloadPath'', JStr dir), (''eventsEnabled'', JBool True)] b of
        (Inl x, b1) \<Rightarrow> (Some x, b1) | (Inr _, b1) \<Rightarrow> (None, b1)))"

text \<open>The last error of the handshake with what Chromium wrote, cut at 800 bytes.\<close>

definition handshake_error :: "string option \<Rightarrow> gerr \<Rightarrow> gerr" where
  "handshake_error stderr x = ''browser: devtools handshake: '' @ x
     @ (let extra = TrimSpace (case stderr of None \<Rightarrow> [] | Some s \<Rightarrow> s) in
        if extra \<noteq> [] then ''; chromium stderr: '' @ (if length extra > 800 then take 800 extra @ ellipsis else extra) else [])"

text \<open>\<open>Launch\<close>: the error, if any, and the process, if one was started.\<close>

definition Launch :: "launchenv \<Rightarrow> LaunchOptions \<Rightarrow> gerr option \<times> browser option" where
  "Launch e o' =
    (if lo_BinaryPath o' = [] \<or> lo_ProfileDir o' = [] \<or> lo_GateAddr o' = [] then (Some ''browser: Binary, ProfileDir and GateAddr are required'', None)
     else case ln_mkProfile e of Some x \<Rightarrow> (Some x, None)
     | None \<Rightarrow>
      (let env = (if ev_Locale (lo_Environment o') = [] then ln_default e else lo_Environment o') in
       case SeedPreferences (ln_prefsPresent e) (ln_mkDefault e) (ln_writePrefs e) env (lo_DownloadDir o') of
         (Some x, _) \<Rightarrow> (Some (''browser: seed preferences: '' @ x), None)
       | (None, prefs) \<Rightarrow> (case ln_pipe e of Some x \<Rightarrow> (Some x, None)
       | None \<Rightarrow> (case ln_spawn e of
           Inl x \<Rightarrow> (Some (''browser: start '' @ ln_base e (lo_BinaryPath o') @ '': '' @ x), None)
         | Inr pid \<Rightarrow>
            (let b = \<lparr>br_pid = pid, br_args = launch_args e o' env, br_environ = scrubEnv (ln_environ e) (ev_Timezone env),
                      br_prefs = prefs, br_calls = [], br_running = True\<rparr> in
             case dt_exec (ln_dtools e) [] ''Browser.getVersion'' [] b of (r, b1) \<Rightarrow>
             (case read_result (sfield ''product'') r of
                Inl x \<Rightarrow> (Some (handshake_error (ln_stderr e) x), Some (browser_Kill b1))
              | Inr _ \<Rightarrow> (case enforceEnvironment (ln_dtools e) b1 of
                  (Some x, b2) \<Rightarrow> (Some (''browser: apply environment: '' @ x), Some (browser_Kill b2))
                | (None, b2) \<Rightarrow>
                   if lo_DownloadDir o' \<noteq> [] then
                     (case SetDownloadDir (ln_dtools e) (ln_mkDownload e) (lo_DownloadDir o') b2 of
                        (Some x, b3) \<Rightarrow> (Some (''browser: download dir: '' @ x), Some (browser_Kill b3))
                      | (None, b3) \<Rightarrow> (None, Some b3))
                   else (None, Some b2))))))))"

text \<open>\<open>autoAttachLoop\<close>: what it does for each event, ignoring the outcome of its calls.\<close>

definition dec_attached :: "json \<Rightarrow> (string \<times> string \<times> bool) option" where
  "dec_attached j = do { s \<leftarrow> sfield ''sessionId'' j; i \<leftarrow> ofield ''targetInfo'' j; t \<leftarrow> sfield ''type'' i;
     w \<leftarrow> bfield ''waitingForDebugger'' j; Some (s, t, w) }"

definition attach_event :: "dtools \<Rightarrow> string \<Rightarrow> dt_call list \<Rightarrow> cdp_Event \<Rightarrow> dt_call list" where
  "attach_event dt timezone done ev = (case Option.bind (ev_Params ev) dec_attached of
      None \<Rightarrow> done
    | Some (session, type, waiting) \<Rightarrow>
       if session = [] then done
       else let d1 = (if type = ''page'' \<or> type = ''iframe''
              then snd (dt_ask dt session ''Emulation.setTimezoneOverride'' [(''timezoneId'', JStr timezone)] done) else done) in
            if waiting then snd (dt_ask dt session ''Runtime.runIfWaitingForDebugger'' [] d1) else d1)"

definition autoAttachLoop :: "dtools \<Rightarrow> string \<Rightarrow> cdp_Event list \<Rightarrow> dt_call list \<Rightarrow> dt_call list" where
  "autoAttachLoop dt timezone evs done = foldl (attach_event dt timezone) done evs"

text \<open>\<open>Close\<close> asks first; either way the process ends killed.\<close>

definition browser_Close :: "dtools \<Rightarrow> browser \<Rightarrow> browser" where
  "browser_Close dt b = browser_Kill (snd (dt_exec dt [] ''Browser.close'' [] b))"

definition browser_Endpoints :: "(int \<Rightarrow> int list result) \<Rightarrow> (int list \<Rightarrow> Endpoint list result) \<Rightarrow> browser \<Rightarrow> Endpoint list result" where
  "browser_Endpoints tree remote b = (case tree (br_pid b) of Inl e \<Rightarrow> Inl e | Inr pids \<Rightarrow> remote pids)"

section \<open>Properties\<close>

lemma Launch_cases:
  assumes "Launch e o' = (r, p)"
  obtains "r \<noteq> None" "p = None"
  | x b where "r = Some x" "p = Some b" "\<not> br_running b"
  | b env where "r = None" "p = Some b" "br_running b" "env = (if ev_Locale (lo_Environment o') = [] then ln_default e else lo_Environment o')"
      "br_args b = launch_args e o' env" "br_environ b = scrubEnv (ln_environ e) (ev_Timezone env)"
      "\<exists>rest. br_calls b = [([], ''Browser.getVersion'', []),
          ([], ''Target.setAutoAttach'', [(''autoAttach'', JBool True), (''waitForDebuggerOnStart'', JBool True), (''flatten'', JBool True)])] @ rest"
      "\<not> ln_prefsPresent e \<Longrightarrow> br_prefs b = Some (merged_preferences env (lo_DownloadDir o'))"
  using that assms
  by (auto simp: Launch_def SeedPreferences_def dt_exec_def dt_ask_def enforceEnvironment_def SetDownloadDir_def browser_Kill_def Let_def
      split: if_splits option.splits sum.splits prod.splits) metis+

lemma HasPrefix_append_Cons: "HasPrefix ((c # s) @ t) (d # p) \<longleftrightarrow> c = d \<and> HasPrefix (s @ t) p"
  by simp

text \<open>Variables of other names survive, in order; of the scrubbed ones only the pinned zone is set.\<close>

lemma scrubEnv_spec:
  "filter (\<lambda>kv. ToLower (env_name kv) \<in> set scrubbed) (scrubEnv env tz) = (if tz \<noteq> [] then [''TZ='' @ tz] else [])
   \<and> filter (\<lambda>kv. ToLower (env_name kv) \<notin> set scrubbed) (scrubEnv env tz) = filter (\<lambda>kv. ToLower (env_name kv) \<notin> set scrubbed) env"
proof -
  have "env_name (''TZ='' @ tz) = ''TZ''" by (simp add: env_name_def Cut_def IndexByte_def)
  moreover have "ToLower ''TZ'' = ''tz''" by code_simp
  ultimately have "ToLower (env_name (''TZ='' @ tz)) \<in> set scrubbed" by (simp add: scrubbed_def)
  then show ?thesis by (simp add: scrubEnv_def)
qed

text \<open>The arguments with a prefix, over the parts of the command line.\<close>

definition having :: "string \<Rightarrow> string list \<Rightarrow> string list" where
  "having p args = filter (\<lambda>a. HasPrefix a p) args"

lemma having_append [simp]: "having p (xs @ ys) = having p xs @ having p ys"
  by (simp add: having_def)

lemma launch_args_proxy:
  assumes "lo_ExtraArgs o' = []" "ln_platformFlags e = PlatformFlags os root getenv"
  shows "having ''--proxy'' (launch_args e o' env) = [''--proxy-server=socks5://'' @ lo_GateAddr o', ''--proxy-bypass-list=<-loopback>'']"
    and "having ''--remote-debugging'' (launch_args e o' env) = [''--remote-debugging-pipe'']"
    and "having ''--no-proxy'' (launch_args e o' env) = []"
    and "having ''--host-resolver-rules'' (launch_args e o' env) = [''--host-resolver-rules=MAP * ~NOTFOUND , EXCLUDE 127.0.0.1'']"
  using assms(1) unfolding launch_args_def assms(2)
  by (simp_all add: having_def HardeningFlags_def EnvironmentFlags_def PlatformFlags_def)

definition sample_launchenv :: launchenv where
  "sample_launchenv = \<lparr>ln_mkProfile = None, ln_prefsPresent = False, ln_mkDefault = None, ln_writePrefs = None,
     ln_platformFlags = PlatformFlags ''linux'' True (\<lambda>_. []), ln_environ = [''HTTPS_PROXY=http://p'', ''HOME=/h'', ''TZ=UTC''], ln_pipe = None, ln_spawn = Inr 7,
     ln_dtools = (\<lambda>_. Inr None), ln_mkDownload = None, ln_stderr = None, ln_show = (\<lambda>_. ''1''),
     ln_default = \<lparr>ev_Locale = ''en-US'', ev_AcceptLanguages = ''en-US,en'', ev_Timezone = ''Europe/Paris'', ev_WindowWidth = 1280, ev_WindowHeight = 860,
        ev_WindowX = 40, ev_WindowY = 40, ev_DeviceScaleFactor = Dyadic 1 0, ev_ColorScheme = ''light'', ev_DownloadDir = ''downloads''\<rparr>,
     ln_base = (\<lambda>p. p)\<rparr>"

definition sample_options :: LaunchOptions where
  "sample_options = \<lparr>lo_BinaryPath = ''/c'', lo_ProfileDir = ''/p'', lo_GateAddr = ''127.0.0.1:1080'', lo_Headless = True,
     lo_Environment = (ln_default sample_launchenv), lo_DownloadDir = ''/d'', lo_ExtraArgs = []\<rparr>"



text \<open>What a preference of the privacy set has become in a merged set.\<close>

definition pref_kept :: "(string \<times> json) list \<Rightarrow> string \<times> json \<Rightarrow> bool" where
  "pref_kept merged kv = (case kv of (k, v) \<Rightarrow> (case v of
      JObj inner \<Rightarrow> (case map_of merged k of Some (JObj got) \<Rightarrow> list_all (\<lambda>(kk, vv). map_of got kk = Some vv) inner | _ \<Rightarrow> False)
    | _ \<Rightarrow> map_of merged k = Some v))"

text \<open>
  An identity's preferences never weaken the privacy set. Whatever the environment and the download directory, every
  entry of the privacy preferences is in the preferences written for a new profile, and a profile that has preferences is
  never written.
\<close>

theorem browser_preferences_private:
  "list_all (pref_kept (merged_preferences env dir)) privacyPreferences
   \<and> SeedPreferences True mk wr env dir = (None, None)
   \<and> SeedPreferences False None None env dir = (None, Some (merged_preferences env dir))"
proof -
  have "list_all (pref_kept (merged_preferences env dir)) privacyPreferences"
    by (cases dir; hypsubst) code_simp+
  then show ?thesis by (simp add: SeedPreferences_def)
qed

definition attach_calls :: "string \<Rightarrow> cdp_Event \<Rightarrow> dt_call list" where
  "attach_calls timezone ev = (case Option.bind (ev_Params ev) dec_attached of
      None \<Rightarrow> []
    | Some (session, type, waiting) \<Rightarrow>
       if session = [] then []
       else (if type = ''page'' \<or> type = ''iframe'' then [(session, ''Emulation.setTimezoneOverride'', [(''timezoneId'', JStr timezone)])] else [])
         @ (if waiting then [(session, ''Runtime.runIfWaitingForDebugger'', [])] else []))"

lemma attach_event_eq: "attach_event dt timezone done ev = done @ attach_calls timezone ev"
  by (simp add: attach_event_def attach_calls_def dt_ask_def Let_def split: option.split)

lemma autoAttachLoop_eq: "autoAttachLoop dt timezone evs done = done @ concat (map (attach_calls timezone) evs)"
  unfolding autoAttachLoop_def by (induction evs arbitrary: "done") (simp_all add: attach_event_eq)

text \<open>Every paused target is resumed, and the zone of a page or frame is set before.\<close>

theorem browser_targets_prepared:
  assumes "Option.bind (ev_Params ev) dec_attached = Some (session, type, True)" "session \<noteq> []"
  shows "\<exists>before after. autoAttachLoop dt tz (pre @ ev # post) done = before @ [(session, ''Runtime.runIfWaitingForDebugger'', [])] @ after
    \<and> (type = ''page'' \<or> type = ''iframe'' \<longrightarrow> (\<exists>b. before = b @ [(session, ''Emulation.setTimezoneOverride'', [(''timezoneId'', JStr tz)])]))"
proof -
  let ?set = "if type = ''page'' \<or> type = ''iframe'' then [(session, ''Emulation.setTimezoneOverride'', [(''timezoneId'', JStr tz)])] else []"
  have "attach_calls tz ev = ?set @ [(session, ''Runtime.runIfWaitingForDebugger'', [])]"
    using assms by (simp add: attach_calls_def)
  then have "autoAttachLoop dt tz (pre @ ev # post) done
      = (done @ concat (map (attach_calls tz) pre) @ ?set) @ [(session, ''Runtime.runIfWaitingForDebugger'', [])] @ concat (map (attach_calls tz) post)"
    by (simp only: autoAttachLoop_eq map_append list.map concat_append concat.simps append_assoc)
  then show ?thesis by (intro exI conjI) (assumption, simp)
qed

text \<open>An override decides alone; otherwise what is found exists, and a pinned build comes before a bundled one and both before the system's.\<close>

theorem browser_find_order:
  assumes "find_browser e dataDir pin = Inr f"
  shows "(fe_getenv e EnvBinary \<noteq> [] \<longrightarrow> fo_Path f = fe_getenv e EnvBinary \<and> fo_Source f = FromEnv \<and> exists_file e (fo_Path f))
    \<and> (fo_Source f = Pinned \<or> fo_Source f = Bundled \<longrightarrow> exists_file e (fo_Path f))
    \<and> (fo_Source f = Bundled \<or> fo_Source f = System \<longrightarrow> (\<forall>p. Option.bind pin (pinned_path e dataDir) = Some p \<longrightarrow> \<not> exists_file e p))
    \<and> (fo_Source f = System \<longrightarrow> (\<forall>p \<in> set (bundled_paths e). \<not> exists_file e p))"
  using assms unfolding find_browser_def Let_def
  by (auto simp: exists_file_def find_None_iff find_Some_iff split: if_splits option.splits list.splits Option.bind_splits)

end
