(* ===== verification/Installers.thy ===== *)
theory Installers
  imports Browser Process_Tree "HOL-Library.Sublist"
begin

text \<open>
  Installing the pinned programs: \<open>src/browser/chromium/install.go\<close> and \<open>src/routing/tor\<close> (\<open>install.go\<close>, \<open>pin.go\<close>,
  \<open>prepare_darwin.go\<close>). Download, checksum, extraction entry by entry with the faults it may meet, and what is found to
  be installed already. Files are a finite table of nodes with symbolic links, paths are absolute component lists. The
  decoders of the archives, the HTTP answer and the hash function are parameters.
\<close>

section \<open>Files\<close>

type_synonym fpath = "string list"

datatype node = Folder | Plain string | Link string

type_synonym files = "(fpath \<times> node) list"

abbreviation node_at :: "files \<Rightarrow> fpath \<Rightarrow> node option" where "node_at fs p \<equiv> map_of fs p"

text \<open>Following every link of a path, the last component included; \<open>fuel\<close> is the system's limit on links.\<close>

function resolve :: "nat \<Rightarrow> files \<Rightarrow> fpath \<Rightarrow> fpath \<Rightarrow> fpath option" where
  "resolve fuel fs cur [] = Some cur"
| "resolve fuel fs cur (p # ps) =
    (if p = [] \<or> p = ''.'' then resolve fuel fs cur ps
     else if p = ''..'' then resolve fuel fs (butlast cur) ps
     else case node_at fs (cur @ [p]) of
       Some (Link t) \<Rightarrow> (case fuel of 0 \<Rightarrow> None
         | Suc f \<Rightarrow> resolve f fs (if HasPrefix t ''/'' then [] else cur) (Split t (CHR ''/'') @ ps))
     | _ \<Rightarrow> resolve fuel fs (cur @ [p]) ps)"
  by pat_completeness auto
termination by (relation "measures [\<lambda>(fuel, _). fuel, \<lambda>(_, _, _, ps). length ps]") auto

definition follow :: "files \<Rightarrow> fpath \<Rightarrow> fpath option" where
  "follow fs p = resolve 40 fs [] p"

definition stat_ok :: "files \<Rightarrow> fpath \<Rightarrow> bool" where
  "stat_ok fs p \<longleftrightarrow> (case follow fs p of None \<Rightarrow> False | Some r \<Rightarrow> r = [] \<or> node_at fs r \<noteq> None)"

definition is_folder :: "files \<Rightarrow> fpath \<Rightarrow> bool" where
  "is_folder fs p \<longleftrightarrow> p = [] \<or> node_at fs p = Some Folder"

definition not_a_directory :: gerr where "not_a_directory = ''not a directory''"

text \<open>\<open>os.MkdirAll\<close> of the components that are left, below those done.\<close>

fun mkdir_all :: "files \<Rightarrow> fpath \<Rightarrow> fpath \<Rightarrow> gerr option \<times> files" where
  "mkdir_all fs cur [] = (None, fs)"
| "mkdir_all fs cur (p # ps) = (case follow fs cur of
      None \<Rightarrow> (Some ''too many links'', fs)
    | Some d \<Rightarrow> (case node_at fs (d @ [p]) of
        None \<Rightarrow> mkdir_all (AList.update (d @ [p]) Folder fs) (cur @ [p]) ps
      | Some Folder \<Rightarrow> mkdir_all fs (cur @ [p]) ps
      | Some (Plain _) \<Rightarrow> (Some not_a_directory, fs)
      | Some (Link _) \<Rightarrow> (case follow fs (cur @ [p]) of
          None \<Rightarrow> (Some ''too many links'', fs)
        | Some r \<Rightarrow> if is_folder fs r then mkdir_all fs (cur @ [p]) ps else (Some not_a_directory, fs))))"

text \<open>Opening a file to write it anew, with what is written.\<close>

definition write_file :: "files \<Rightarrow> fpath \<Rightarrow> string \<Rightarrow> gerr option \<times> files" where
  "write_file fs p data = (case follow fs p of
      None \<Rightarrow> (Some ''too many links'', fs)
    | Some r \<Rightarrow> if is_folder fs r then (Some ''is a directory'', fs)
               else if \<not> is_folder fs (butlast r) then (Some ''no such file or directory'', fs)
               else (None, AList.update r (Plain data) fs))"

text \<open>\<open>os.Remove\<close>: the last component is not followed; a folder goes only when nothing is in it.\<close>

definition remove_path :: "files \<Rightarrow> fpath \<Rightarrow> files" where
  "remove_path fs p = (case follow fs (butlast p) of
      None \<Rightarrow> fs
    | Some d \<Rightarrow> (let q = d @ [List.last p] in
        if node_at fs q = Some Folder \<and> (\<exists>(r, _) \<in> set fs. strict_prefix q r) then fs else AList.delete q fs))"

definition make_link :: "files \<Rightarrow> fpath \<Rightarrow> string \<Rightarrow> gerr option \<times> files" where
  "make_link fs p t = (case follow fs (butlast p) of
      None \<Rightarrow> (Some ''too many links'', fs)
    | Some d \<Rightarrow> if node_at fs (d @ [List.last p]) \<noteq> None then (Some ''file exists'', fs)
               else (None, AList.update (d @ [List.last p]) (Link t) fs))"

text \<open>\<open>filepath.Clean\<close> over components, the accumulator reversed.\<close>

fun clean_comps :: "bool \<Rightarrow> fpath \<Rightarrow> fpath \<Rightarrow> fpath" where
  "clean_comps rooted acc [] = rev acc"
| "clean_comps rooted acc (p # ps) =
    (if p = [] \<or> p = ''.'' then clean_comps rooted acc ps
     else if p = ''..'' then
       (if acc \<noteq> [] \<and> hd acc \<noteq> ''..'' then clean_comps rooted (tl acc) ps
        else if rooted then clean_comps rooted acc ps else clean_comps rooted (p # acc) ps)
     else clean_comps rooted (p # acc) ps)"

definition slashes :: "string \<Rightarrow> fpath" where
  "slashes s = Split s (CHR ''/'')"

definition Clean :: "string \<Rightarrow> string" where
  "Clean s = (let rooted = HasPrefix s ''/''; ps = clean_comps rooted [] (slashes s) in
     if rooted then ''/'' @ Join ps ''/'' else if ps = [] then ''.'' else Join ps ''/'')"

definition join_under :: "fpath \<Rightarrow> string \<Rightarrow> fpath" where
  "join_under dest name = clean_comps True (rev dest) (slashes name)"

definition path_string :: "fpath \<Rightarrow> string" where
  "path_string p = ''/'' @ Join p ''/''"

section \<open>Archives\<close>

datatype entry_kind = EDir | EFile | ELink | EOther

record entry =
  en_Name :: string
  en_Kind :: entry_kind
  en_Data :: string

text \<open>What goes wrong while an entry is extracted; a copy that fails has written some bytes.\<close>

datatype fault = NoFault | FailMkdir gerr | FailRead gerr | FailOpen gerr | FailCopy gerr nat | FailClose gerr

definition make_dir :: "fault \<Rightarrow> files \<Rightarrow> fpath \<Rightarrow> gerr option \<times> files" where
  "make_dir ft fs p = (case ft of FailMkdir e \<Rightarrow> (Some e, fs) | _ \<Rightarrow> mkdir_all fs [] p)"

text \<open>Opening the target and copying the entry into it.\<close>

definition copy_out :: "fault \<Rightarrow> files \<Rightarrow> fpath \<Rightarrow> string \<Rightarrow> gerr option \<times> files" where
  "copy_out ft fs p data = (case ft of
      FailOpen e \<Rightarrow> (Some e, fs)
    | FailCopy e n \<Rightarrow> (case write_file fs p (take n data) of (Some x, fs1) \<Rightarrow> (Some x, fs1) | (None, fs1) \<Rightarrow> (Some e, fs1))
    | FailClose e \<Rightarrow> (case write_file fs p data of (Some x, fs1) \<Rightarrow> (Some x, fs1) | (None, fs1) \<Rightarrow> (Some e, fs1))
    | _ \<Rightarrow> write_file fs p data)"

text \<open>\<open>unzip\<close>: one entry. Closing is not checked there.\<close>

definition unzip_entry :: "fpath \<Rightarrow> fault \<Rightarrow> entry \<Rightarrow> files \<Rightarrow> gerr option \<times> files" where
  "unzip_entry dest ft en fs =
    (let target = join_under dest (en_Name en) in
     if \<not> prefix dest target then (Some (''zip entry escapes destination: '' @ en_Name en), fs)
     else case en_Kind en of
       EDir \<Rightarrow> make_dir ft fs target
     | ELink \<Rightarrow> (case ft of FailRead e \<Rightarrow> (Some e, fs) | _ \<Rightarrow>
         (case make_dir ft fs (butlast target) of
            (Some e, fs1) \<Rightarrow> (Some e, fs1)
          | (None, fs1) \<Rightarrow> (case ft of FailOpen e \<Rightarrow> (Some e, remove_path fs1 target)
              | _ \<Rightarrow> make_link (remove_path fs1 target) target (en_Data en))))
     | _ \<Rightarrow> (case make_dir ft fs (butlast target) of
         (Some e, fs1) \<Rightarrow> (Some e, fs1)
       | (None, fs1) \<Rightarrow> (case ft of FailRead e \<Rightarrow> (Some e, fs1)
           | FailClose _ \<Rightarrow> write_file fs1 target (en_Data en)
           | _ \<Rightarrow> copy_out ft fs1 target (en_Data en))))"

fun unzip_entries :: "fpath \<Rightarrow> (fault \<times> entry) list \<Rightarrow> files \<Rightarrow> gerr option \<times> files" where
  "unzip_entries dest [] fs = (None, fs)"
| "unzip_entries dest ((ft, en) # rest) fs = (case unzip_entry dest ft en fs of
      (Some e, fs1) \<Rightarrow> (Some e, fs1) | (None, fs1) \<Rightarrow> unzip_entries dest rest fs1)"

text \<open>\<open>untar\<close>: one header. Links and the like are passed over.\<close>

definition tar_skipped :: "string \<Rightarrow> bool" where
  "tar_skipped name \<longleftrightarrow> name = ''.'' \<or> name = ''..'' \<or> HasPrefix name ''../'' \<or> Contains name ''..''"

definition untar_entry :: "fpath \<Rightarrow> fault \<Rightarrow> entry \<Rightarrow> files \<Rightarrow> gerr option \<times> files" where
  "untar_entry dest ft en fs =
    (let name = Clean (en_Name en); target = join_under dest name in
     if tar_skipped name then (None, fs)
     else if \<not> prefix dest target then (Some (''refusing to extract '' @ en_Name en @ '' outside '' @ path_string dest), fs)
     else case en_Kind en of
       EDir \<Rightarrow> make_dir ft fs target
     | EFile \<Rightarrow> (case make_dir ft fs (butlast target) of
         (Some e, fs1) \<Rightarrow> (Some e, fs1) | (None, fs1) \<Rightarrow> copy_out ft fs1 target (en_Data en))
     | _ \<Rightarrow> (None, fs))"

text \<open>The headers that \<open>tr.Next\<close> returns; an error of it ends the list.\<close>

fun untar_entries :: "fpath \<Rightarrow> (gerr + (fault \<times> entry)) list \<Rightarrow> files \<Rightarrow> gerr option \<times> files" where
  "untar_entries dest [] fs = (None, fs)"
| "untar_entries dest (Inl e # rest) fs = (Some e, fs)"
| "untar_entries dest (Inr (ft, en) # rest) fs = (case untar_entry dest ft en fs of
      (Some e, fs1) \<Rightarrow> (Some e, fs1) | (None, fs1) \<Rightarrow> untar_entries dest rest fs1)"

section \<open>Downloading\<close>

text \<open>
  The answer to the GET (status, body, and the error that cut the body short), the hash in hex, the archive decoders,
  \<open>prepareExecutable\<close> and \<open>chmod\<close> of the platform, and the order of a walk.
\<close>

record instenv =
  in_getenv :: "string \<Rightarrow> string"
  in_cwd :: fpath
  in_get :: "string \<Rightarrow> gerr + (int \<times> string \<times> gerr option)"
  in_sha :: "string \<Rightarrow> string"
  in_unzip :: "string \<Rightarrow> (fault \<times> entry) list result"
  in_untar :: "string \<Rightarrow> (gerr + (fault \<times> entry)) list result"
  in_prepare :: "fpath \<Rightarrow> gerr option"
  in_chmod :: "fpath \<Rightarrow> gerr option"
  in_walk :: "files \<Rightarrow> fpath \<Rightarrow> fpath list"
  in_key :: string
  in_exe :: string

definition download :: "instenv \<Rightarrow> string \<Rightarrow> fpath \<Rightarrow> files \<Rightarrow> gerr option \<times> files" where
  "download e url dest fs = (case in_get e url of
      Inl x \<Rightarrow> (Some x, fs)
    | Inr (status, body, cut_short) \<Rightarrow>
       if status \<noteq> 200 then (Some (''HTTP '' @ Itoa status), fs)
       else (case write_file fs dest body of (Some x, fs1) \<Rightarrow> (Some x, fs1) | (None, fs1) \<Rightarrow> (cut_short, fs1)))"

text \<open>The progress line: what a write prints, if anything.\<close>

record progress =
  pr_total :: int
  pr_done :: int
  pr_last :: int

definition progress_text :: "progress \<Rightarrow> string" where
  "progress_text p =
    (let mb = ''('' @ Itoa (pr_done p div 1048576) @ '' MB)''; pc = Itoa (pr_done p * 100 div pr_total p) in
     CHR 0x0D # ''  '' @ (if pr_total p > 0 then replicate (3 - length pc) (CHR '' '') @ pc @ ''% '' @ mb
                        else Itoa (pr_done p div 1048576) @ '' MB''))"

definition progress_Write :: "nat \<Rightarrow> progress \<Rightarrow> string option \<times> progress" where
  "progress_Write n p0 = (let p = p0\<lparr>pr_done := pr_done p0 + int n\<rparr> in
     if pr_done p - pr_last p > 8388608 \<or> pr_done p = pr_total p
     then (Some (progress_text p), p\<lparr>pr_last := pr_done p\<rparr>) else (None, p))"

definition sha256File :: "instenv \<Rightarrow> fpath \<Rightarrow> files \<Rightarrow> string result" where
  "sha256File e p fs = (case Option.bind (follow fs p) (node_at fs) of
      Some (Plain data) \<Rightarrow> Inr (in_sha e data) | _ \<Rightarrow> Inl ''no such file or directory'')"

definition url_base :: "string \<Rightarrow> string" where
  "url_base url = List.last (slashes url)"

definition checksum_error :: "string \<Rightarrow> string \<Rightarrow> string \<Rightarrow> gerr" where
  "checksum_error url want got = ''checksum mismatch for '' @ url_base url @ [CHR 0x0A] @ ''  expected '' @ want
     @ [CHR 0x0A] @ ''  got      '' @ got"

text \<open>From the download to the checksum, the same in both installers.\<close>

definition fetch_pinned :: "instenv \<Rightarrow> PinPlatform \<Rightarrow> fpath \<Rightarrow> files \<Rightarrow> gerr option \<times> files" where
  "fetch_pinned e p archive fs = (case download e (pp_URL p) archive fs of
      (Some x, fs1) \<Rightarrow> (Some (''download: '' @ x), fs1)
    | (None, fs1) \<Rightarrow> (case sha256File e archive fs1 of
        Inl x \<Rightarrow> (Some x, fs1)
      | Inr got \<Rightarrow> if \<not> EqualFold got (pp_SHA256 p) then (Some (checksum_error (pp_URL p) (pp_SHA256 p) got), remove_path fs1 archive)
                  else (None, fs1)))"

text \<open>From the version's folder to the removal of the archive, with the package's \<open>unpack\<close>.\<close>

definition install_archive ::
  "(instenv \<Rightarrow> fpath \<Rightarrow> fpath \<Rightarrow> files \<Rightarrow> gerr option \<times> files) \<Rightarrow> instenv \<Rightarrow> PinPlatform \<Rightarrow> fpath \<Rightarrow> files \<Rightarrow> gerr option \<times> files" where
  "install_archive unpack e p verDir fs =
    (let archive = verDir @ [url_base (pp_URL p)] in
     case mkdir_all fs [] verDir of
       (Some x, fs1) \<Rightarrow> (Some x, fs1)
     | (None, fs1) \<Rightarrow> (case fetch_pinned e p archive fs1 of
         (Some x, fs2) \<Rightarrow> (Some x, fs2)
       | (None, fs2) \<Rightarrow> (case unpack e archive verDir fs2 of
           (Some x, fs3) \<Rightarrow> (Some (''extract: '' @ x), fs3)
         | (None, fs3) \<Rightarrow> (None, remove_path fs3 archive))))"

section \<open>Chromium\<close>

definition unzip :: "instenv \<Rightarrow> fpath \<Rightarrow> fpath \<Rightarrow> files \<Rightarrow> gerr option \<times> files" where
  "unzip e src dest fs = (case Option.bind (follow fs src) (node_at fs) of
      Some (Plain data) \<Rightarrow> (case in_unzip e data of Inl x \<Rightarrow> (Some x, fs) | Inr ens \<Rightarrow> unzip_entries dest ens fs)
    | _ \<Rightarrow> (Some ''no such file or directory'', fs))"

definition prepared :: "instenv \<Rightarrow> fpath \<Rightarrow> files \<Rightarrow> fpath result \<times> files" where
  "prepared e bin fs = (case in_prepare e bin of Some x \<Rightarrow> (Inl x, fs) | None \<Rightarrow> (Inr bin, fs))"

definition chromium_Install :: "instenv \<Rightarrow> fpath \<Rightarrow> PinManifest option \<Rightarrow> string \<Rightarrow> files \<Rightarrow> fpath result \<times> files" where
  "chromium_Install e dest pin key0 fs = (case pin of
      None \<Rightarrow> (Inl ''embedded pin.json is invalid'', fs)
    | Some m \<Rightarrow>
       (let key = (if key0 = [] then in_key e else key0) in
        case map_of (pm_Platforms m) key of
          None \<Rightarrow> (Inl (''no pinned Chromium for platform '' @ Quote key), fs)
        | Some p \<Rightarrow>
           (let verDir = dest @ [pm_Version m]; bin = join_under verDir (pp_Binary p) in
            if stat_ok fs bin then prepared e bin fs
            else case install_archive unzip e p verDir fs of
              (Some x, fs1) \<Rightarrow> (Inl x, fs1)
            | (None, fs1) \<Rightarrow> if \<not> stat_ok fs1 bin then (Inl (''expected binary missing after extract: '' @ path_string bin), fs1)
                else prepared e bin fs1)))"

section \<open>Tor\<close>

definition tor_EnvBinary :: string where "tor_EnvBinary = ''TAB_ROUTER_TOR''"

definition exeName :: "string \<Rightarrow> string" where
  "exeName os = (if os = ''windows'' then ''tor.exe'' else ''tor'')"

definition abs_path :: "instenv \<Rightarrow> string \<Rightarrow> fpath" where
  "abs_path e p = (if HasPrefix p ''/'' then slashes p else in_cwd e @ slashes p)"

definition tor_Find :: "instenv \<Rightarrow> fpath \<Rightarrow> PinManifest option \<Rightarrow> files \<Rightarrow> fpath option" where
  "tor_Find e dest pin fs =
    (let v = in_getenv e tor_EnvBinary in
     if v \<noteq> [] \<and> stat_ok fs (abs_path e v) then Some (abs_path e v)
     else (case pin of None \<Rightarrow> None
       | Some m \<Rightarrow> (case map_of (pm_Platforms m) (in_key e) of None \<Rightarrow> None
         | Some p \<Rightarrow> (let bin = join_under (dest @ [pm_Version m]) (pp_Binary p) in
             if stat_ok fs bin then Some bin else None))))"

definition untar :: "instenv \<Rightarrow> fpath \<Rightarrow> fpath \<Rightarrow> files \<Rightarrow> gerr option \<times> files" where
  "untar e src dest fs = (case Option.bind (follow fs src) (node_at fs) of
      Some (Plain data) \<Rightarrow> (case in_untar e data of Inl x \<Rightarrow> (Some x, fs) | Inr ens \<Rightarrow> untar_entries dest ens fs)
    | _ \<Rightarrow> (Some ''no such file or directory'', fs))"

definition findNamed :: "instenv \<Rightarrow> fpath \<Rightarrow> string \<Rightarrow> files \<Rightarrow> fpath option" where
  "findNamed e root name fs =
     find (\<lambda>p. p \<noteq> [] \<and> List.last p = name \<and> node_at fs p \<noteq> Some Folder) (in_walk e fs root)"

definition tor_finish :: "instenv \<Rightarrow> fpath \<Rightarrow> files \<Rightarrow> fpath result \<times> files" where
  "tor_finish e bin fs = (case in_chmod e bin of Some x \<Rightarrow> (Inl x, fs) | None \<Rightarrow> prepared e bin fs)"

definition tor_Install :: "instenv \<Rightarrow> fpath \<Rightarrow> PinManifest option \<Rightarrow> files \<Rightarrow> fpath result \<times> files" where
  "tor_Install e dest pin fs = (case tor_Find e dest pin fs of
      Some p \<Rightarrow> prepared e p fs
    | None \<Rightarrow> (case pin of
        None \<Rightarrow> (Inl ''embedded tor pin.json is invalid'', fs)
      | Some m \<Rightarrow> (case map_of (pm_Platforms m) (in_key e) of
          None \<Rightarrow> (Inl ''no pinned Tor expert bundle for this platform'', fs)
        | Some p \<Rightarrow>
           (let verDir = dest @ [pm_Version m]; bin = join_under verDir (pp_Binary p) in
            case install_archive untar e p verDir fs of
              (Some x, fs1) \<Rightarrow> (Inl x, fs1)
            | (None, fs1) \<Rightarrow>
                if stat_ok fs1 bin then tor_finish e bin fs1
                else (case findNamed e verDir (in_exe e) fs1 of
                    Some b \<Rightarrow> tor_finish e b fs1
                  | None \<Rightarrow> (Inl (''expected tor binary missing after extract: '' @ path_string bin), fs1))))))"

section \<open>Signing on macOS\<close>

text \<open>The signed files; \<open>sign\<close> is the failure of \<open>codesign\<close> on a file.\<close>

definition adhocSign :: "(fpath \<Rightarrow> gerr option) \<Rightarrow> fpath \<Rightarrow> fpath set \<Rightarrow> gerr option \<times> fpath set" where
  "adhocSign sign p sg = (if p \<in> sg then (None, sg)
     else case sign p of Some x \<Rightarrow> (Some (''codesign '' @ List.last p @ '': '' @ x), sg) | None \<Rightarrow> (None, insert p sg))"

fun sign_all :: "(fpath \<Rightarrow> gerr option) \<Rightarrow> fpath list \<Rightarrow> fpath set \<Rightarrow> gerr option \<times> fpath set" where
  "sign_all sign [] sg = (None, sg)"
| "sign_all sign (p # ps) sg = (case adhocSign sign p sg of
      (Some x, s) \<Rightarrow> (Some x, s) | (None, s) \<Rightarrow> sign_all sign ps s)"

text \<open>\<open>entries\<close> are the names of the plain files beside the binary.\<close>

definition dylibs :: "fpath \<Rightarrow> string list \<Rightarrow> fpath list" where
  "dylibs bin entries = map (\<lambda>n. butlast bin @ [n]) (filter (\<lambda>n. HasSuffix n ''.dylib'') entries)"

definition bundleSigned :: "fpath \<Rightarrow> string list result \<Rightarrow> fpath set \<Rightarrow> bool" where
  "bundleSigned bin entries sg \<longleftrightarrow> bin \<in> sg
     \<and> (case entries of Inl _ \<Rightarrow> False | Inr ns \<Rightarrow> list_all (\<lambda>p. p \<in> sg) (dylibs bin ns))"

definition tor_prepareExecutable :: "(fpath \<Rightarrow> gerr option) \<Rightarrow> fpath \<Rightarrow> string list result \<Rightarrow> fpath set \<Rightarrow> gerr option \<times> fpath set" where
  "tor_prepareExecutable sign bin entries sg =
    (if bundleSigned bin entries sg then (None, sg)
     else case entries of Inl x \<Rightarrow> (Some x, sg)
     | Inr ns \<Rightarrow> (case sign_all sign (dylibs bin ns) sg of
         (Some x, s) \<Rightarrow> (Some x, s) | (None, s) \<Rightarrow> adhocSign sign bin s))"

fun appBundle_up :: "string list \<Rightarrow> fpath option" where
  "appBundle_up [] = None"
| "appBundle_up (c # cs) = (if HasSuffix c ''.app'' then Some (rev (c # cs)) else appBundle_up cs)"

definition appBundle :: "fpath \<Rightarrow> fpath option" where
  "appBundle bin = appBundle_up (rev bin)"

definition chromium_prepareExecutable :: "(fpath \<Rightarrow> gerr option) \<Rightarrow> fpath \<Rightarrow> fpath set \<Rightarrow> gerr option \<times> fpath set" where
  "chromium_prepareExecutable sign bin sg =
     adhocSign sign (case appBundle bin of None \<Rightarrow> bin | Some b \<Rightarrow> b) sg"

section \<open>Extraction stays inside\<close>

definition linkfree :: "files \<Rightarrow> bool" where
  "linkfree fs \<longleftrightarrow> (\<forall>p t. node_at fs p \<noteq> Some (Link t))"

definition plain_path :: "fpath \<Rightarrow> bool" where
  "plain_path p \<longleftrightarrow> list_all (\<lambda>c. c \<notin> {[], ''.'', ''..''}) p"

text \<open>The folder \<open>dest\<close> can be written below: it is there, and no link is in the way.\<close>

definition site :: "fpath \<Rightarrow> files \<Rightarrow> bool" where
  "site dest fs \<longleftrightarrow> linkfree fs \<and> plain_path dest \<and> (\<forall>q. prefix q dest \<longrightarrow> is_folder fs q)"

definition confined :: "fpath \<Rightarrow> files \<Rightarrow> files \<Rightarrow> bool" where
  "confined dest fs fs' \<longleftrightarrow> linkfree fs' \<and> (\<forall>q. \<not> strict_prefix dest q \<longrightarrow> node_at fs' q = node_at fs q)"

lemmas [simp] = update_conv' delete_conv'

lemma plain_path_simps [simp]:
  "plain_path []" "plain_path (p # ps) \<longleftrightarrow> p \<notin> {[], ''.'', ''..''} \<and> plain_path ps"
  "plain_path (ps @ qs) \<longleftrightarrow> plain_path ps \<and> plain_path qs" "plain_path (rev ps) \<longleftrightarrow> plain_path ps"
  by (auto simp: plain_path_def)

lemma plain_path_butlast: "plain_path p \<Longrightarrow> plain_path (butlast p)"
  by (auto simp: plain_path_def list_all_iff dest: in_set_butlastD)

lemma strict_prefix_Nil [simp]: "strict_prefix [] q \<longleftrightarrow> q \<noteq> []"
  by (auto simp: strict_prefix_def)

lemma resolve_plain: "linkfree fs \<Longrightarrow> plain_path ps \<Longrightarrow> resolve n fs cur ps = Some (cur @ ps)"
  by (induction ps arbitrary: cur) (auto simp: linkfree_def split: option.splits node.splits)

lemma follow_plain [simp]: "linkfree fs \<Longrightarrow> plain_path p \<Longrightarrow> follow fs p = Some p"
  by (simp add: follow_def resolve_plain)

lemma clean_comps_plain: "plain_path acc \<Longrightarrow> plain_path (clean_comps True acc ps)"
  by (induction ps arbitrary: acc) (auto simp: neq_Nil_conv)

lemma join_under_plain: "plain_path dest \<Longrightarrow> plain_path (join_under dest name)"
  by (simp add: join_under_def clean_comps_plain)

text \<open>What \<open>MkdirAll\<close> adds are folders along the path.\<close>

lemma mkdir_all_adds:
  assumes "mkdir_all fs cur ps = (e, fs')" "linkfree fs" "plain_path cur" "plain_path ps"
  shows "linkfree fs' \<and> (\<forall>q. node_at fs' q = node_at fs q
      \<or> node_at fs q = None \<and> node_at fs' q = Some Folder \<and> strict_prefix cur q \<and> prefix q (cur @ ps))
    \<and> (e = None \<longrightarrow> (\<forall>q. strict_prefix cur q \<and> prefix q (cur @ ps) \<longrightarrow> node_at fs' q = Some Folder))"
  using assms
proof (induction ps arbitrary: fs cur)
  case (Cons p ps)
  let ?q = "cur @ [p]"
  have pl: "plain_path ?q" "plain_path ps" using Cons.prems(3,4) by auto
  have st: "strict_prefix cur q \<Longrightarrow> prefix q (cur @ p # ps) \<Longrightarrow> q = ?q \<or> strict_prefix ?q q \<and> prefix q (?q @ ps)" for q
    by (auto simp: strict_prefix_def prefix_def Cons_eq_append_conv append_eq_Cons_conv append_eq_append_conv2)
  have up: "strict_prefix ?q q \<Longrightarrow> strict_prefix cur q" for q
    by (auto simp: strict_prefix_def prefix_def)
  consider "node_at fs ?q = None" | "node_at fs ?q = Some Folder" | d where "node_at fs ?q = Some (Plain d)"
    using Cons.prems(2) by (cases "node_at fs ?q"; cases "the (node_at fs ?q)") (auto simp: linkfree_def)
  then show ?case
  proof cases
    case 1
    let ?fs = "AList.update ?q Folder fs"
    have lf: "linkfree ?fs" using Cons.prems(2) by (simp add: linkfree_def)
    have m: "mkdir_all ?fs ?q ps = (e, fs')" using Cons.prems 1 by simp
    note I = Cons.IH [OF m lf pl]
    have k: "node_at fs' ?q = Some Folder" using I by (metis fun_upd_same option.distinct(1) update_conv')
    have "node_at fs' q = node_at fs q \<or> node_at fs q = None \<and> node_at fs' q = Some Folder
        \<and> strict_prefix cur q \<and> prefix q (cur @ p # ps)" for q
    proof (cases "q = ?q")
      case False
      then have "node_at ?fs q = node_at fs q" by simp
      then show ?thesis using I up [of q] by (metis append.assoc append_Cons append_Nil)
    qed (use k 1 in \<open>auto simp: strict_prefix_def\<close>)
    then show ?thesis using I k st by blast
  next
    case 2
    then have m: "mkdir_all fs ?q ps = (e, fs')" using Cons.prems by simp
    note I = Cons.IH [OF m Cons.prems(2) pl]
    have k: "node_at fs' ?q = Some Folder" using I 2 by (metis option.distinct(1))
    have "node_at fs' q = node_at fs q \<or> node_at fs q = None \<and> node_at fs' q = Some Folder
        \<and> strict_prefix cur q \<and> prefix q (cur @ p # ps)" for q
      using I up [of q] by (metis append.assoc append_Cons append_Nil)
    then show ?thesis using I k st by blast
  qed (use Cons.prems in auto)
qed auto

lemma confined_refl: "linkfree fs \<Longrightarrow> confined dest fs fs"
  by (simp add: confined_def)

lemma confined_trans: "confined dest fs fs1 \<Longrightarrow> confined dest fs1 fs2 \<Longrightarrow> confined dest fs fs2"
  by (simp add: confined_def)

lemma site_confined: "site dest fs \<Longrightarrow> confined dest fs fs' \<Longrightarrow> site dest fs'"
  unfolding site_def confined_def is_folder_def by (metis prefix_order.leD)

lemma make_dir_confined:
  assumes "make_dir ft fs p = (e, fs')" "site dest fs" "plain_path p" "prefix dest p \<or> prefix p dest"
  shows "confined dest fs fs'"
proof (cases "\<exists>x. ft = FailMkdir x")
  case False
  then have m: "mkdir_all fs [] p = (e, fs')" using assms(1) by (auto simp: make_dir_def split: fault.splits)
  have lf: "linkfree fs" using assms(2) by (simp add: site_def)
  note A = mkdir_all_adds [OF m lf _ assms(3), simplified]
  have "node_at fs' q = node_at fs q" if "\<not> strict_prefix dest q" for q
  proof (rule ccontr)
    assume ne: "node_at fs' q \<noteq> node_at fs q"
    then have q: "node_at fs q = None" "prefix q p" "q \<noteq> []" using A by (metis, metis, metis strict_prefix_simps(1))
    then have "prefix q dest"
      using that assms(4) by (metis prefix_order.trans prefix_same_cases strict_prefix_def)
    then show False using q(1,3) assms(2) by (auto simp: site_def is_folder_def)
  qed
  then show ?thesis using A by (simp add: confined_def)
qed (use assms in \<open>auto simp: make_dir_def confined_def site_def\<close>)

lemma write_file_confined:
  assumes "write_file fs p data = (e, fs')" "site dest fs" "plain_path p" "prefix dest p"
  shows "confined dest fs fs'" "\<forall>q. node_at fs' q = node_at fs q \<or> q = p \<and> node_at fs' q = Some (Plain data)"
proof -
  have lf: "linkfree fs" and d: "is_folder fs dest" using assms(2) by (simp_all add: site_def)
  then have "confined dest fs fs' \<and> (\<forall>q. node_at fs' q = node_at fs q \<or> q = p \<and> node_at fs' q = Some (Plain data))"
    using assms(1,3,4) by (auto simp: write_file_def confined_def linkfree_def strict_prefix_def split: if_splits)
  then show "confined dest fs fs'" "\<forall>q. node_at fs' q = node_at fs q \<or> q = p \<and> node_at fs' q = Some (Plain data)" by auto
qed

lemma copy_out_confined:
  assumes "copy_out ft fs p data = (e, fs')" "site dest fs" "plain_path p" "prefix dest p"
  shows "confined dest fs fs'"
  using assms by (auto simp: copy_out_def site_def confined_refl split: fault.splits prod.splits option.splits
      dest: write_file_confined(1) [OF _ assms(2-4)])

text \<open>Writing an entry: the folders above it, then the file.\<close>

lemma butlast_prefix: "prefix dest p \<Longrightarrow> prefix dest (butlast p) \<or> prefix (butlast p) dest"
  by (metis append_butlast_last_id butlast.simps(1) prefix_order.eq_iff prefix_snoc prefixeq_butlast)

lemma extract_file_confined:
  assumes "site dest fs" "plain_path p" "prefix dest p" "make_dir ft fs (butlast p) = (e, fs1)"
  shows "confined dest fs fs1" "write_file fs1 p data = (e2, fs2) \<Longrightarrow> confined dest fs fs2"
    "copy_out ft fs1 p data = (e2, fs2) \<Longrightarrow> confined dest fs fs2"
proof -
  show c: "confined dest fs fs1"
    using make_dir_confined [OF assms(4,1) plain_path_butlast [OF assms(2)] butlast_prefix [OF assms(3)]] .
  note s = site_confined [OF assms(1) c]
  show "write_file fs1 p data = (e2, fs2) \<Longrightarrow> confined dest fs fs2"
    using write_file_confined(1) [OF _ s assms(2,3)] confined_trans [OF c] by blast
  show "copy_out ft fs1 p data = (e2, fs2) \<Longrightarrow> confined dest fs fs2"
    using copy_out_confined [OF _ s assms(2,3)] confined_trans [OF c] by blast
qed

lemma untar_entry_confined:
  assumes "untar_entry dest ft en fs = (e, fs')" "site dest fs"
  shows "confined dest fs fs'"
proof -
  let ?t = "join_under dest (Clean (en_Name en))"
  have pl: "plain_path ?t" using assms(2) by (simp add: site_def join_under_plain)
  have lf: "linkfree fs" using assms(2) by (simp add: site_def)
  show ?thesis
    using assms(1) extract_file_confined [OF assms(2) pl] make_dir_confined [OF _ assms(2) pl] confined_refl [OF lf]
    by (auto simp: untar_entry_def Let_def split: if_splits entry_kind.splits prod.splits option.splits)
qed

lemma unzip_entry_confined:
  assumes "unzip_entry dest ft en fs = (e, fs')" "site dest fs" "en_Kind en \<noteq> ELink"
  shows "confined dest fs fs'"
proof -
  let ?t = "join_under dest (en_Name en)"
  have pl: "plain_path ?t" using assms(2) by (simp add: site_def join_under_plain)
  have lf: "linkfree fs" using assms(2) by (simp add: site_def)
  show ?thesis
    using assms(1,3) extract_file_confined [OF assms(2) pl] make_dir_confined [OF _ assms(2) pl] confined_refl [OF lf]
    by (auto simp: unzip_entry_def Let_def split: if_splits entry_kind.splits prod.splits option.splits fault.splits)
qed

lemma untar_entries_confined:
  "untar_entries dest ens fs = (e, fs') \<Longrightarrow> site dest fs \<Longrightarrow> confined dest fs fs'"
proof (induction dest ens fs rule: untar_entries.induct)
  case (3 dest ft en rest fs)
  obtain e1 fs1 where u: "untar_entry dest ft en fs = (e1, fs1)" by (metis prod.exhaust)
  note c = untar_entry_confined [OF u 3(3)]
  show ?case
    using 3(1) [OF u [symmetric]] 3(2,3) u c site_confined [OF 3(3) c] by (auto intro: confined_trans split: option.splits)
qed (auto simp: site_def confined_refl)

lemma unzip_entries_confined:
  "unzip_entries dest ens fs = (e, fs') \<Longrightarrow> site dest fs \<Longrightarrow> \<forall>(ft, en) \<in> set ens. en_Kind en \<noteq> ELink \<Longrightarrow> confined dest fs fs'"
proof (induction dest ens fs rule: unzip_entries.induct)
  case (2 dest ft en rest fs)
  obtain e1 fs1 where u: "unzip_entry dest ft en fs = (e1, fs1)" by (metis prod.exhaust)
  have k: "en_Kind en \<noteq> ELink" using 2(4) by simp
  note c = unzip_entry_confined [OF u 2(3) k]
  show ?case
    using 2(1) [OF u [symmetric]] 2(2,3,4) u c site_confined [OF 2(3) c] by (auto intro: confined_trans split: option.splits)
qed (auto simp: site_def confined_refl)

section \<open>The installers\<close>

lemma remove_path_confined:
  assumes "site dest fs" "plain_path (dest @ [b])"
  shows "confined dest fs (remove_path fs (dest @ [b]))" "q \<noteq> dest @ [b] \<Longrightarrow> node_at (remove_path fs (dest @ [b])) q = node_at fs q"
    "node_at fs (dest @ [b]) \<noteq> Some Folder \<Longrightarrow> node_at (remove_path fs (dest @ [b])) (dest @ [b]) = None"
  using assms by (auto simp: remove_path_def Let_def confined_def site_def linkfree_def strict_prefix_def)

lemma fetch_pinned_safe:
  assumes "fetch_pinned e p (dest @ [b]) fs = (x, fs')" "site dest fs" "plain_path (dest @ [b])"
  shows "confined dest fs fs' \<and> (\<forall>q. q \<noteq> dest @ [b] \<longrightarrow> node_at fs' q = node_at fs q)
    \<and> (x = None \<longrightarrow> (\<exists>body. in_get e (pp_URL p) = Inr (200, body, None) \<and> EqualFold (in_sha e body) (pp_SHA256 p)))"
proof -
  have lf: "linkfree fs" and pd: "plain_path dest" using assms(2) by (simp_all add: site_def)
  have lu: "linkfree (AList.update (dest @ [b]) (Plain d) fs)" for d using lf by (simp add: linkfree_def)
  show ?thesis
  proof (cases "in_get e (pp_URL p)")
    case (Inr t)
    obtain st body cs where t: "t = (st, body, cs)" by (metis prod.exhaust)
    obtain y fs1 where w: "write_file fs (dest @ [b]) body = (y, fs1)" by (metis prod.exhaust)
    note W = write_file_confined [OF w assms(2,3)]
    have pre: "prefix dest (dest @ [b])" by simp
    have wr: "y = None \<Longrightarrow> node_at fs1 (dest @ [b]) = Some (Plain body)"
      using w assms(3) lf by (auto simp: write_file_def split: if_splits)
    have rm: "confined dest fs (remove_path fs1 (dest @ [b])) \<and> (\<forall>q. q \<noteq> dest @ [b] \<longrightarrow> node_at (remove_path fs1 (dest @ [b])) q = node_at fs q)"
      if "y = None"
      using remove_path_confined [OF site_confined [OF assms(2) W(1) [OF pre]] assms(3)] W pre by (metis confined_trans)
    show ?thesis
      using assms(1,3) Inr t w W(1) [OF pre] W(2) wr rm lf confined_refl [OF lf] site_confined [OF assms(2) W(1) [OF pre]]
      by (auto simp: fetch_pinned_def download_def sha256File_def site_def split: if_splits prod.splits option.splits)
  qed (use assms lf in \<open>auto simp: fetch_pinned_def download_def confined_refl\<close>)
qed

text \<open>What an installer relies on: extracting changes nothing but what is below the folder it is given.\<close>

locale extractor =
  fixes unpack :: "instenv \<Rightarrow> fpath \<Rightarrow> fpath \<Rightarrow> files \<Rightarrow> gerr option \<times> files"
    and fit :: "instenv \<Rightarrow> bool"
  assumes inside: "fit e \<Longrightarrow> site dest fs \<Longrightarrow> unpack e src dest fs = (x, fs') \<Longrightarrow> confined dest fs fs'"
begin

lemma install_archive_safe:
  assumes "install_archive unpack e p verDir fs = (x, fs')" "fit e" "linkfree fs" "plain_path verDir" "plain_path [url_base (pp_URL p)]"
  shows "linkfree fs' \<and> (\<forall>q. \<not> strict_prefix verDir q \<longrightarrow> node_at fs' q = node_at fs q
      \<or> node_at fs q = None \<and> node_at fs' q = Some Folder \<and> prefix q verDir)
    \<and> (\<forall>q d. node_at fs' q = Some (Plain d) \<and> node_at fs q \<noteq> Some (Plain d) \<and> q \<noteq> verDir @ [url_base (pp_URL p)]
        \<longrightarrow> (\<exists>body. in_get e (pp_URL p) = Inr (200, body, None) \<and> EqualFold (in_sha e body) (pp_SHA256 p)))"
proof -
  let ?a = "verDir @ [url_base (pp_URL p)]"
  obtain x1 fs1 where m: "mkdir_all fs [] verDir = (x1, fs1)" by (metis prod.exhaust)
  note A = mkdir_all_adds [OF m assms(3) _ assms(4), simplified]
  have pa: "plain_path ?a" "prefix verDir ?a" "butlast ?a = verDir" using assms(4,5) by simp_all
  show ?thesis
  proof (cases x1)
    case (Some y)
    then have "fs' = fs1 \<and> x = Some y" using assms(1) m by (simp add: install_archive_def Let_def)
    then show ?thesis using A by (metis node.distinct(1) option.distinct(1) option.inject)
  next
    case None
    have s1: "site verDir fs1"
      using A None assms(4) by (auto simp: site_def is_folder_def)
    obtain x2 fs2 where f: "fetch_pinned e p ?a fs1 = (x2, fs2)" by (metis prod.exhaust)
    note F = fetch_pinned_safe [OF f s1 pa(1)]
    show ?thesis
    proof (cases x2)
      case (Some y)
      then have "fs' = fs2 \<and> x = Some y" using assms(1) m None f by (simp add: install_archive_def Let_def)
      then show ?thesis using A F unfolding confined_def
        by (smt (verit, del_insts) node.distinct(1) option.distinct(1) option.inject)
    next
      case None': None
      note s2 = site_confined [OF s1 conjunct1 [OF F]]
      obtain x3 fs3 where u: "unpack e ?a verDir fs2 = (x3, fs3)" by (metis prod.exhaust)
      note c3 = inside [OF assms(2) s2 u]
      have "confined verDir fs1 fs'"
      proof (cases x3)
        case None'': None
        then have "fs' = remove_path fs3 ?a" using assms(1) m None f None' u by (simp add: install_archive_def Let_def)
        then show ?thesis
          using remove_path_confined(1) [OF site_confined [OF s2 c3] pa(1)] confined_trans F c3 by metis
      next
        case (Some y)
        then have "fs' = fs3" using assms(1) m None f None' u by (simp add: install_archive_def Let_def)
        then show ?thesis using confined_trans F c3 by metis
      qed
      then show ?thesis using A F None' unfolding confined_def by metis
    qed
  qed
qed

end

text \<open>No archive holds links.\<close>

definition no_links :: "instenv \<Rightarrow> bool" where
  "no_links e \<longleftrightarrow> (\<forall>data ens ft en. in_unzip e data = Inr ens \<and> (ft, en) \<in> set ens \<longrightarrow> en_Kind en \<noteq> ELink)"

interpretation tor: extractor untar "\<lambda>_. True"
  by unfold_locales
    (auto simp: untar_def site_def confined_refl split: option.splits node.splits sum.splits bind_split_asm
      intro: untar_entries_confined)

interpretation chromium: extractor unzip no_links
  by unfold_locales
    (auto simp: unzip_def site_def confined_refl no_links_def split: option.splits node.splits sum.splits bind_split_asm
      intro!: unzip_entries_confined)

section \<open>Properties\<close>


text \<open>A concrete installation: a bundle with one binary.\<close>

definition sample_pin :: PinManifest where
  "sample_pin = \<lparr>pm_Version = ''1.0'', pm_Platforms = [(''linux64'', \<lparr>pp_URL = ''https://host/b.zip'', pp_SHA256 = ''AB'', pp_Binary = ''t/tor''\<rparr>)]\<rparr>"

definition sample_entry :: entry where
  "sample_entry = \<lparr>en_Name = ''t/tor'', en_Kind = EFile, en_Data = ''ELF''\<rparr>"

definition sample_instenv :: "fault \<Rightarrow> instenv" where
  "sample_instenv ft = \<lparr>in_getenv = (\<lambda>_. []), in_cwd = [], in_get = (\<lambda>_. Inr (200, ''zip'', None)),
     in_sha = (\<lambda>d. if d = ''zip'' then ''ab'' else ''00''), in_unzip = (\<lambda>_. Inr [(ft, sample_entry)]),
     in_untar = (\<lambda>_. Inr [Inr (ft, sample_entry)]), in_prepare = (\<lambda>_. None), in_chmod = (\<lambda>_. None), in_walk = (\<lambda>_ _. []),
     in_key = ''linux64'', in_exe = ''tor''\<rparr>"

definition sample_bin :: fpath where
  "sample_bin = [''d'', ''1.0'', ''t'', ''tor'']"

lemma sample_installs:
  "fst (tor_Install (sample_instenv NoFault) [''d''] (Some sample_pin) []) = Inr sample_bin"
  "node_at (snd (tor_Install (sample_instenv NoFault) [''d''] (Some sample_pin) [])) sample_bin = Some (Plain ''ELF'')"
  by code_simp+


text \<open>
  An interrupted installation counts as complete. When extracting stops in the middle of the binary (the disk is full),
  \<open>Install\<close> fails but leaves what it wrote; every later \<open>Install\<close> finds the path taken and returns the incomplete binary,
  without looking at the archive, its checksum or the network. The same holds for both packages.
\<close>

theorem install_partial_accepted:
  "let (r, fs) = chromium_Install (sample_instenv (FailCopy ''no space left on device'' 1)) [''d''] (Some sample_pin) [] [] in
     r = Inl ''extract: no space left on device'' \<and> node_at fs sample_bin = Some (Plain ''E'')
     \<and> chromium_Install (sample_instenv NoFault) [''d''] (Some sample_pin) [] fs = (Inr sample_bin, fs)
     \<and> tor_Install (sample_instenv NoFault) [''d''] (Some sample_pin) fs = (Inr sample_bin, fs)"
  by code_simp

text \<open>
  \<open>unzip\<close> refuses names that leave the folder, but does not look at where its own links lead: a link followed by a file
  below it writes anywhere.
\<close>

theorem install_link_escapes:
  "let (r, fs) = unzip_entries [''d''] [(NoFault, \<lparr>en_Name = ''x'', en_Kind = ELink, en_Data = ''/etc''\<rparr>),
       (NoFault, \<lparr>en_Name = ''x/passwd'', en_Kind = EFile, en_Data = ''root''\<rparr>)] [([''d''], Folder), ([''etc''], Folder)] in
     r = None \<and> node_at fs [''etc'', ''passwd''] = Some (Plain ''root'')"
  by code_simp

text \<open>On macOS a prepared tor is signed with its libraries, and preparing it again does nothing.\<close>

lemma sign_all_signs: "sign_all sign ps sg = (None, s) \<Longrightarrow> sg \<subseteq> s \<and> set ps \<subseteq> s"
  by (induction ps arbitrary: sg) (fastforce simp: adhocSign_def split: if_splits option.splits prod.splits)+

theorem prepare_signs:
  assumes "tor_prepareExecutable sign bin entries sg = (None, s)"
  shows "bundleSigned bin entries s \<and> sg \<subseteq> s \<and> tor_prepareExecutable sign' bin entries s = (None, s)"
proof -
  have "bundleSigned bin entries s \<and> sg \<subseteq> s"
    using assms sign_all_signs
    by (fastforce simp: tor_prepareExecutable_def bundleSigned_def adhocSign_def list_all_iff
        split: if_splits sum.splits option.splits prod.splits)
  then show ?thesis by (simp add: tor_prepareExecutable_def)
qed

end
