(* ===== verification/Identity_Listing.thy ===== *)
theory Identity_Listing
  imports Identity_Set "HOL-Library.Char_ord" "HOL-Library.List_Lexorder"
begin

text \<open>
  The listings of \<open>src/controller/identity/identity.go\<close>: the names of the sets, and the identities of a set. A directory is
  what \<open>os.ReadDir\<close> returns of it, the names with whether each is a directory, or an error whose flag is \<open>os.IsNotExist\<close>.
\<close>

section \<open>Operations\<close>

type_synonym dirlist = "(string \<times> bool) list"

definition ListSets :: "(bool \<times> gerr) + dirlist \<Rightarrow> string list result" where
  "ListSets rd = (case rd of
      Inl (missing, e) \<Rightarrow> if missing then Inr [] else Inl e
    | Inr es \<Rightarrow> Inr (sort (map fst (filter (\<lambda>(n, d). d \<and> HasPrefix n ''set-'') es))))"

text \<open>The index an entry names; other entries are skipped.\<close>

fun entry_index :: "string \<times> bool \<Rightarrow> int option" where
  "entry_index (n, d) =
    (if \<not> d \<or> \<not> HasPrefix n ''identity-'' then None else Atoi (TrimPrefix n ''identity-''))"

definition existing_one :: "hostenv \<Rightarrow> io \<Rightarrow> string \<Rightarrow> setdir \<Rightarrow> int \<Rightarrow> identity option" where
  "existing_one h io sdir s i = (case load_identity h io sdir i s of Inl _ \<Rightarrow> None | Inr x \<Rightarrow> Some x)"

definition Existing :: "hostenv \<Rightarrow> io \<Rightarrow> string \<Rightarrow> (bool \<times> gerr) + dirlist \<Rightarrow> setdir \<Rightarrow> identity list result" where
  "Existing h io sdir rd s = (case rd of
      Inl (_, e) \<Rightarrow> Inl e
    | Inr es \<Rightarrow> Inr (sort_key id_Index (List.map_filter (existing_one h io sdir s) (List.map_filter entry_index es))))"

section \<open>The sets\<close>

text \<open>The listing of the tree: every set is a directory of its own name.\<close>

definition lists_tree :: "iroot \<Rightarrow> dirlist \<Rightarrow> bool" where
  "lists_tree r es \<longleftrightarrow> distinct es \<and> (\<forall>n. (n, True) \<in> set es \<longleftrightarrow> ir_sets r n \<noteq> None)"

lemma ListSets_names:
  assumes "ListSets (Inr es) = Inr ns" "lists_tree r es"
  shows "set ns = {n. ir_sets r n \<noteq> None \<and> HasPrefix n ''set-''}" "sorted ns" "distinct ns"
proof -
  have ns: "ns = sort (map fst (filter (\<lambda>(n, d). d \<and> HasPrefix n ''set-'') es))" using assms(1) by (simp add: ListSets_def)
  have "set ns = {n. (n, True) \<in> set es \<and> HasPrefix n ''set-''}" unfolding ns by force
  then show "set ns = {n. ir_sets r n \<noteq> None \<and> HasPrefix n ''set-''}" using assms(2) by (auto simp: lists_tree_def)
  show "sorted ns" by (simp add: ns)
  have "inj_on fst (set (filter (\<lambda>(n, d). d \<and> HasPrefix n ''set-'') es))" by (auto intro!: inj_onI)
  then show "distinct ns" using assms(2) by (simp add: ns distinct_map lists_tree_def)
qed

text \<open>
  A set that \<open>CreateFresh\<close> has made is listed from then on, and so is every set of before.
\<close>

lemma fresh_set_listed:
  assumes "CreateFresh io stamp fuel r = Some (Inr d, r')" "lists_tree r' es" "ListSets (Inr es) = Inr ns"
  shows "d \<in> set ns \<and> (\<forall>n. ir_sets r n \<noteq> None \<longrightarrow> HasPrefix n ''set-'' \<longrightarrow> n \<in> set ns)"
proof -
  have f: "fresh_name io r (''set-'' @ stamp) 1 fuel (''set-'' @ stamp) = Some d" and r': "ir_sets r' = (ir_sets r)(d \<mapsto> empty_set)"
    using assms(1) by (auto simp: CreateFresh_def Let_def split: option.splits)
  obtain j where "d = candidate (''set-'' @ stamp) j"
    using fresh_name_candidates [of io r "''set-'' @ stamp" 0 fuel, OF refl] f by auto
  then have "HasPrefix d ''set-''" by (cases j) auto
  then show ?thesis using ListSets_names [OF assms(3,2)] r' by auto
qed

text \<open>
  The listing is by name, which is not always the order of creation the comment promises: of the sets created within one
  second, the tenth comes before the second.
\<close>

lemma listing_not_by_age:
  "ListSets (Inr [(''set-2024-01-02T03-04-05Z-10'', True), (''set-2024-01-02T03-04-05Z-2'', True)])
     = Inr [''set-2024-01-02T03-04-05Z-10'', ''set-2024-01-02T03-04-05Z-2'']"
  by code_simp

section \<open>The identities of a set\<close>

definition identity_entry :: "int \<Rightarrow> string \<times> bool" where
  "identity_entry i = (''identity-'' @ fmt03d i, True)"

lemma Atoi_fmt03d: "0 \<le> i \<Longrightarrow> i < 2 ^ 63 \<Longrightarrow> Atoi (fmt03d i) = Some i"
proof -
  assume i: "0 \<le> i" "i < 2 ^ 63"
  let ?p = "zero_pad 3 (itoa_nat (nat i))"
  have d: "list_all is_digit ?p" using itoa_nat_digits [of "nat i"] by (auto simp: zero_pad_def list_all_iff is_digit_def)
  have v: "int (digits_val ?p) = i" using i by (simp add: zero_pad_def)
  obtain c cs where p: "?p = c # cs" by (cases ?p) (auto simp: zero_pad_def)
  have "is_digit c" using d p by simp
  then have c: "c \<noteq> CHR ''-'' \<and> c \<noteq> CHR ''+''" by (auto simp: is_digit_def)
  have "Atoi ?p = (if - (2 ^ 63) \<le> int (digits_val ?p) \<and> int (digits_val ?p) < 2 ^ 63 then Some (int (digits_val ?p)) else None)"
    using d c unfolding p by (simp add: Atoi_def Let_def)
  then show ?thesis using i v by (simp add: fmt03d_def)
qed

lemma entry_index_identity: "0 \<le> i \<Longrightarrow> i < 2 ^ 63 \<Longrightarrow> entry_index (identity_entry i) = Some i"
proof -
  assume "0 \<le> i" "i < 2 ^ 63"
  then have "Atoi (fmt03d i) = Some i" by (rule Atoi_fmt03d)
  moreover have "TrimPrefix (''identity-'' @ fmt03d i) ''identity-'' = fmt03d i" by (rule TrimPrefix_append)
  moreover have "HasPrefix (''identity-'' @ fmt03d i) ''identity-''" by (rule HasPrefix_append)
  ultimately show ?thesis unfolding identity_entry_def entry_index.simps by (simp only: simp_thms if_False)
qed

lemma sort_key_map_index:
  "(\<And>i. i \<in> set js \<Longrightarrow> id_Index (g i) = i) \<Longrightarrow> sort_key id_Index (map g js) = map g (sort js)"
proof (induction js)
  case (Cons j js)
  have "insort_key id_Index (g j) (map g ks) = map g (insort j ks)" if "\<forall>k \<in> set ks. id_Index (g k) = k" for ks
    using that Cons.prems [of j] by (induction ks) auto
  then show ?case using Cons by simp
qed simp

lemma map_filter_total: "(\<And>x. x \<in> set xs \<Longrightarrow> f x = Some (g x)) \<Longrightarrow> List.map_filter f xs = map g xs"
  by (induction xs) (auto simp: List.map_filter_simps)

lemma indices_of_entries:
  assumes "distinct es" "{e \<in> set es. entry_index e \<noteq> None} = identity_entry ` {1..n}" "n < 2 ^ 63"
  shows "sort (List.map_filter entry_index es) = [1..n]"
proof (rule sorted_distinct_set_unique)
  let ?fs = "filter (\<lambda>e. entry_index e \<noteq> None) es"
  have js: "List.map_filter entry_index es = map (the \<circ> entry_index) ?fs" by (simp add: List.map_filter_def)
  have s: "set ?fs = identity_entry ` {1..n}" using assms(2) by auto
  have ei: "entry_index (identity_entry i) = Some i" if "i \<in> {1..n}" for i
    using that assms(3) by (intro entry_index_identity) auto
  have "inj_on (the \<circ> entry_index) (set ?fs)" unfolding s
  proof (rule inj_onI)
    fix x y assume xy: "x \<in> identity_entry ` {1..n}" "y \<in> identity_entry ` {1..n}" "(the \<circ> entry_index) x = (the \<circ> entry_index) y"
    then obtain i j where "x = identity_entry i" "y = identity_entry j" "i \<in> {1..n}" "j \<in> {1..n}" by blast
    with xy(3) ei show "x = y" by (simp del: entry_index.simps)
  qed
  then show "distinct (sort (List.map_filter entry_index es))" using assms(1) unfolding js by (simp add: distinct_map)
  have "(the \<circ> entry_index) ` identity_entry ` {1..n} = {1..n}" using ei by (force simp: image_iff)
  then show "set (sort (List.map_filter entry_index es)) = set [1..n]" unfolding js by (simp only: set_sort set_map s set_upto)
qed simp_all

lemma ensure_loop_found:
  assumes "ensure_loop h io sdir t envFor is s = (Inr ids, s')" "set_pinned s" "list_all json_finite ids"
    and "\<forall>i \<in> set is. io' (ReadIdent i) = None"
  shows "map (existing_one h io' sdir s') is = map (\<lambda>x. Some (x\<lparr>id_JustCreated := False\<rparr>)) ids"
  using assms
proof (induction "is" arbitrary: s ids)
  case (Cons i "is")
  obtain x s1 ids' where l: "loadOrCreate h io sdir t envFor i s = (Inr x, s1)"
    and r: "ensure_loop h io sdir t envFor is s1 = (Inr ids', s')" "ids = x # ids'"
    using Cons.prems(1) by (auto split: prod.splits sum.splits)
  note p = loadOrCreate_pinned [OF l Cons.prems(2)]
  have "\<exists>f. sd_ident s1 i = Some f"
    using loadOrCreate_cases [OF l] load_identity_index [of h io sdir i s x] by auto
  then have "sd_ident s' i = sd_ident s1 i" using ensure_loop_pinned [OF r(1) p(1)] by auto
  then have "load_identity h io' sdir i s' = Inr (x\<lparr>id_JustCreated := False\<rparr>)"
    using load_identity_again [OF l Cons.prems(2)] Cons.prems(3,4) r(2) by simp
  then show ?case using Cons.IH [OF r(1) p(1)] Cons.prems(3,4) r(2) by (simp add: existing_one_def)
qed simp

text \<open>
  What \<open>Ensure\<close> made, \<open>Existing\<close> lists: the same identities in the order of their indices, none as just created, as long as
  the directory holds their entries (and others that name no index), whatever their order.
\<close>

lemma existing_after_ensure:
  assumes "set_pinned s" "Ensure h io sdir t envFor n s = (Inr ids, s')" "list_all json_finite ids"
    and "\<And>i. io' (ReadIdent i) = None" "n < 2 ^ 63"
    and "distinct es" "{e \<in> set es. entry_index e \<noteq> None} = identity_entry ` {1..n}"
  shows "Existing h io' sdir (Inr es) s' = Inr (map (\<lambda>x. x\<lparr>id_JustCreated := False\<rparr>) ids)"
proof -
  let ?g = "\<lambda>i. (ids ! nat (i - 1))\<lparr>id_JustCreated := False\<rparr>"
  have e: "ensure_loop h io sdir t envFor [1..n] s = (Inr ids, s')" using assms(2) by (auto simp: Ensure_def split: if_splits)
  have m: "map (existing_one h io' sdir s') [1..n] = map (\<lambda>x. Some (x\<lparr>id_JustCreated := False\<rparr>)) ids"
    using ensure_loop_found [OF e assms(1,3)] assms(4) by simp
  have ix: "map id_Index ids = [1..n]" using ensure_loop_pinned [OF e assms(1)] by simp
  have len: "length ids = nat n" using arg_cong [OF ix, of length] by simp
  have g: "existing_one h io' sdir s' i = Some (?g i)" "id_Index (?g i) = i" if "i \<in> {1..n}" for i
  proof -
    have k: "nat (i - 1) < nat n" "[1..n] ! nat (i - 1) = i" using that by auto
    show "existing_one h io' sdir s' i = Some (?g i)"
      using arg_cong [OF m, of "\<lambda>l. l ! nat (i - 1)"] k len by (simp add: nth_map)
    show "id_Index (?g i) = i" using arg_cong [OF ix, of "\<lambda>l. l ! nat (i - 1)"] k len by simp
  qed
  let ?js = "List.map_filter entry_index es"
  have srt: "sort ?js = [1..n]" by (rule indices_of_entries [OF assms(6,7,5)])
  have js: "set ?js = {1..n}" using arg_cong [OF srt, of set] by simp
  have mf: "List.map_filter (existing_one h io' sdir s') ?js = map ?g ?js"
    by (rule map_filter_total) (use g(1) js in auto)
  have "sort_key id_Index (map ?g ?js) = map ?g (sort ?js)" by (rule sort_key_map_index) (use g(2) js in auto)
  then have "sort_key id_Index (List.map_filter (existing_one h io' sdir s') ?js) = map ?g [1..n]" by (simp only: mf srt)
  moreover have "map ?g [1..n] = map (\<lambda>x. x\<lparr>id_JustCreated := False\<rparr>) ids" by (rule nth_equalityI) (simp_all add: len)
  ultimately show ?thesis by (simp add: Existing_def)
qed

text \<open>An identity is listed twice when a second directory spells its index differently.\<close>

lemma existing_duplicates:
  assumes "load_identity h io sdir 1 s = Inr x"
  shows "Existing h io sdir (Inr [(''identity-001'', True), (''identity-1'', True)]) s = Inr [x, x]"
proof -
  have "List.map_filter entry_index [(''identity-001'', True), (''identity-1'', True)] = [1, 1]" by code_simp
  then show ?thesis using assms by (simp add: Existing_def existing_one_def List.map_filter_simps)
qed

end
