(* ===== verification/Probe_Dial.thy ===== *)
theory Probe_Dial
  imports Route
begin

text \<open>
  The connections of the public-IP probe: \<open>HTTPClientFor\<close> and \<open>dialTLS\<close> of \<open>src/routing/provider/publicip.go\<close> and the
  additional roots of \<open>publicip_darwin.go\<close>.

  Connections are numbered in the order they are dialed. The answers of the network and of \<open>crypto/tls\<close> are the fields of
  \<open>tlsenv\<close>; what the code does to them is a list of events, in order.
\<close>

section \<open>Operations\<close>

record tlsenv =
  te_darwin :: bool
  te_keychain :: "string \<Rightarrow> string option"
  te_pem :: "string \<Rightarrow> bool"
  te_dial :: "nat \<Rightarrow> string \<Rightarrow> gerr option"
  te_handshake :: "nat \<Rightarrow> string \<Rightarrow> string list option \<Rightarrow> gerr option"

text \<open>
  A handshake names the connection, the server name it is checked against and the roots; \<open>None\<close> are those of the system. TLS 1.2
  and HTTP/1.1 are fixed.
\<close>

datatype tls_event = Dialed string | Shook nat string "string list option" | ConnClosed nat

definition keychains :: "string list" where
  "keychains = [''/System/Library/Keychains/SystemRootCertificates.keychain'', ''/Library/Keychains/SystemRootCertificates.keychain'']"

text \<open>The pool read from the keychains, as the texts \<open>AppendCertsFromPEM\<close> took certificates from; an empty one is \<open>nil\<close>.\<close>

definition load_roots :: "tlsenv \<Rightarrow> string list option" where
  "load_roots e = (let pool = filter (\<lambda>out. out \<noteq> [] \<and> te_pem e out) (List.map_filter (te_keychain e) keychains)
     in if pool = [] then None else Some pool)"

text \<open>\<open>once\<close> is \<open>extraRootsOnce\<close> with what it has loaded.\<close>

type_synonym once = "string list option option"

definition extraRootCAs :: "tlsenv \<Rightarrow> once \<Rightarrow> string list option \<times> once" where
  "extraRootCAs e once =
    (if \<not> te_darwin e then (None, once)
     else case once of Some p \<Rightarrow> (p, once) | None \<Rightarrow> (load_roots e, Some (load_roots e)))"

definition isSystemTLSVerifyBug :: "gerr \<Rightarrow> bool" where
  "isSystemTLSVerifyBug err = Contains err ''SecPolicyCreateSSL''"

definition server_name :: "string \<Rightarrow> string" where
  "server_name addr = (case SplitHostPort addr of Inl _ \<Rightarrow> addr | Inr (host, _) \<Rightarrow> host)"

definition dialTLS :: "tlsenv \<Rightarrow> string \<Rightarrow> once \<Rightarrow> nat result \<times> tls_event list \<times> once" where
  "dialTLS e addr once =
    (let host = server_name addr in
     case te_dial e 0 addr of
       Some x \<Rightarrow> (Inl x, [Dialed addr], once)
     | None \<Rightarrow>
        (case te_handshake e 0 host None of
           None \<Rightarrow> (Inr 0, [Dialed addr, Shook 0 host None], once)
         | Some err \<Rightarrow>
            (let ev = [Dialed addr, Shook 0 host None, ConnClosed 0] in
             case extraRootCAs e once of (roots, once') \<Rightarrow>
              if roots = None \<or> \<not> isSystemTLSVerifyBug err then (Inl err, ev, once')
              else case te_dial e 1 addr of
                 Some x \<Rightarrow> (Inl x, ev @ [Dialed addr], once')
               | None \<Rightarrow>
                  (case te_handshake e 1 host roots of
                     Some y \<Rightarrow> (Inl y, ev @ [Dialed addr, Shook 1 host roots, ConnClosed 1], once')
                   | None \<Rightarrow> (Inr 1, ev @ [Dialed addr, Shook 1 host roots], once')))))"

text \<open>The connection of a client of \<open>HTTPClientFor\<close> for a request: no proxy, no connection of an earlier request.\<close>

definition HTTPClientFor :: "tlsenv \<Rightarrow> string \<Rightarrow> string \<Rightarrow> once \<Rightarrow> nat result \<times> tls_event list \<times> once" where
  "HTTPClientFor e scheme addr once =
    (if scheme = ''https'' then dialTLS e addr once
     else (case te_dial e 0 addr of Some x \<Rightarrow> Inl x | None \<Rightarrow> Inr 0, [Dialed addr], once))"

section \<open>What a request is sent over\<close>

text \<open>What became of the connections: those dialed with success and not closed.\<close>

definition left_open :: "tlsenv \<Rightarrow> tls_event list \<Rightarrow> nat set" where
  "left_open e evs = {k. k < length (filter (\<lambda>x. \<exists>a. x = Dialed a) evs) \<and> (\<forall>a. Dialed a \<in> set evs \<longrightarrow> te_dial e k a = None)
     \<and> ConnClosed k \<notin> set evs}"

text \<open>The pool is read at most once in the life of the program, and what was read is what is used.\<close>

definition once_ok :: "tlsenv \<Rightarrow> once \<Rightarrow> bool" where
  "once_ok e once \<longleftrightarrow> once = None \<or> te_darwin e \<and> once = Some (load_roots e)"

lemma extraRootCAs_ok:
  assumes "extraRootCAs e once = (roots, once')" "once_ok e once"
  shows "once_ok e once'" "roots = (if te_darwin e then load_roots e else None)"
  using assms by (auto simp: extraRootCAs_def once_ok_def split: if_splits option.splits)

lemmas tls_unfold = dialTLS_def HTTPClientFor_def Let_def

text \<open>
  Whatever happens, every dial is to the asked address through the given dialer, and the only connection left open is the one
  that is returned.
\<close>

lemma dialTLS_dials: "dialTLS e addr once = (r, evs, once') \<Longrightarrow> Dialed a \<in> set evs \<Longrightarrow> a = addr"
  by (auto simp: tls_unfold split: option.splits prod.splits if_splits)

lemma dialTLS_left_open:
  assumes "dialTLS e addr once = (r, evs, once')"
  shows "left_open e evs = (case r of Inl _ \<Rightarrow> {} | Inr k \<Rightarrow> {k})"
  using assms by (auto simp: tls_unfold left_open_def less_Suc_eq split: option.splits prod.splits if_splits)

text \<open>
  A returned connection was authenticated for the host of the address: its handshake succeeded against the system's roots, or the
  first attempt failed with the fault of Security.framework and the handshake of the second succeeded against the roots read
  from the keychains, on macOS.
\<close>

lemma dialTLS_authenticated:
  assumes "dialTLS e addr once = (Inr k, evs, once')" "once_ok e once"
  shows "k = 0 \<and> te_handshake e 0 (server_name addr) None = None \<and> last evs = Shook 0 (server_name addr) None
    \<or> k = 1 \<and> te_darwin e \<and> load_roots e \<noteq> None \<and> te_handshake e 1 (server_name addr) (load_roots e) = None
      \<and> (\<exists>err. te_handshake e 0 (server_name addr) None = Some err \<and> Contains err ''SecPolicyCreateSSL'')
      \<and> last evs = Shook 1 (server_name addr) (load_roots e)"
  using assms(1) extraRootCAs_ok [OF _ assms(2)]
  by (fastforce simp: tls_unfold isSystemTLSVerifyBug_def split: option.splits prod.splits if_splits)

lemma dialTLS_once: "dialTLS e addr once = (r, evs, once') \<Longrightarrow> once_ok e once \<Longrightarrow> once_ok e once'"
  using extraRootCAs_ok(1) [of e once] by (auto simp: tls_unfold split: option.splits prod.splits if_splits)

text \<open>
  A request of the probe. It goes out on a connection dialed to the asked address; none is left behind on an error; and what
  an https request is sent over was authenticated.
\<close>

theorem probe_connection_confined:
  assumes "HTTPClientFor e scheme addr once = (r, evs, once')" "once_ok e once"
  shows "once_ok e once' \<and> (\<forall>a. Dialed a \<in> set evs \<longrightarrow> a = addr)
    \<and> left_open e evs = (case r of Inl _ \<Rightarrow> {} | Inr k \<Rightarrow> {k})
    \<and> (\<forall>k. scheme = ''https'' \<longrightarrow> r = Inr k \<longrightarrow>
        (\<exists>roots. te_handshake e k (server_name addr) roots = None \<and> (roots = None \<or> te_darwin e \<and> roots = load_roots e)))"
proof (cases "scheme = ''https''")
  case True
  then have d: "dialTLS e addr once = (r, evs, once')" using assms(1) by (simp add: HTTPClientFor_def)
  have "\<exists>roots. te_handshake e k (server_name addr) roots = None \<and> (roots = None \<or> te_darwin e \<and> roots = load_roots e)" if "r = Inr k" for k
    using dialTLS_authenticated [OF d [unfolded that] assms(2)] by blast
  then show ?thesis using dialTLS_dials [OF d] dialTLS_left_open [OF d] dialTLS_once [OF d assms(2)] by blast
next
  case False
  then show ?thesis using assms by (auto simp: HTTPClientFor_def left_open_def split: option.splits)
qed

definition sample_tls :: tlsenv where
  "sample_tls = \<lparr>te_darwin = True, te_keychain = (\<lambda>_. Some ''pem''), te_pem = (\<lambda>_. True), te_dial = (\<lambda>_ _. None),
     te_handshake = (\<lambda>k _ roots. if roots = None then Some ''x509: SecPolicyCreateSSL error: 0'' else None)\<rparr>"

theorem probe_connection_confined_witness:
  "\<exists>evs once'. HTTPClientFor sample_tls ''https'' ''echo.example:443'' None = (Inr 1, evs, once')
     \<and> left_open sample_tls evs = {1} \<and> te_handshake sample_tls 1 ''echo.example'' (load_roots sample_tls) = None"
proof -
  obtain r evs o' where h: "HTTPClientFor sample_tls ''https'' ''echo.example:443'' None = (r, evs, o')" by (metis prod.exhaust)
  have "fst (HTTPClientFor sample_tls ''https'' ''echo.example:443'' None) = Inr 1" by code_simp
  then have r: "r = Inr 1" using h by simp
  have "once_ok sample_tls None" by (simp add: once_ok_def)
  from probe_connection_confined [OF h this] r h show ?thesis
    by (auto simp: sample_tls_def load_roots_def Let_def keychains_def List.map_filter_simps)
qed

end
