(* ===== verification/Pinned_Exits.thy ===== *)
theory Pinned_Exits
  imports Local_Exits Session
begin

text \<open>
  \<open>pinSessionExits\<close> of \<open>src/controller/startup/session.go\<close>: after the browsers have been verified, every slot of a local
  provisioner is told to keep the exit that carried its stream. \<open>manager.Open\<close> never chooses that provisioner, so in the
  program the type assertion fails and nothing happens; a caller that passes one as an option gets what is shown here.
\<close>

text \<open>\<open>None\<close> is a provisioner without \<open>PinExit\<close>; \<open>ctx\<close> is the context in the attempts of each slot.\<close>

fun pin_each ::
  "(int \<Rightarrow> nat \<Rightarrow> gerr option \<times> gerr option) \<Rightarrow> (string \<times> int \<times> string) list \<Rightarrow> lstate \<Rightarrow> string list \<times> lstate" where
  "pin_each ctx [] s = ([], s)"
| "pin_each ctx ((label, slot, user) # subs) s =
    (case local_PinExit (ctx slot) slot user s of
       (r, s1) \<Rightarrow> (case pin_each ctx subs s1 of
          (lines, s2) \<Rightarrow>
            ((case r of None \<Rightarrow> [] | Some e \<Rightarrow> [label @ '': session exit not pinned ('' @ e @ ''); an IP change will fail-closed'']) @ lines, s2)))"

definition pinSessionExits ::
  "(int \<Rightarrow> nat \<Rightarrow> gerr option \<times> gerr option) \<Rightarrow> world \<Rightarrow> lstate option \<Rightarrow> string list \<times> lstate option" where
  "pinSessionExits ctx w prov = (case prov of
      None \<Rightarrow> ([], None)
    | Some s \<Rightarrow>
       (case pin_each ctx (map (\<lambda>sb. (Label (sb_Identity sb), id_RouteSlot (sb_Identity sb),
                rd_Username (route_Def (se_routes w (sb_Route sb))))) (se_subjects w)) s of
          (lines, s') \<Rightarrow> (lines, Some s')))"

section \<open>What it keeps and what it pins\<close>

definition pinned_at :: "lstate \<Rightarrow> int \<Rightarrow> bool" where
  "pinned_at s i \<longleftrightarrow> (\<exists>sl. map_of (lo_slots (fst s)) i = Some sl \<and> dm_pinned (sl_daemon sl) \<noteq> [])"

lemma PinExit_keeps:
  assumes "local_PinExit ctx slot user s = (r, s')" "local_ok s"
  shows "local_ok s' \<and> (\<forall>i. local_view s' i = local_view s i) \<and> (\<forall>i. i \<noteq> slot \<longrightarrow> map_of (lo_slots (fst s')) i = map_of (lo_slots (fst s)) i)"
proof (cases "map_of (lo_slots (fst s)) slot")
  case None
  then show ?thesis using assms by (auto simp: local_PinExit_def)
next
  case (Some sl)
  obtain d where p: "PinSOCKSUser ctx (if user = [] then rd_Username (sl_def sl) else user) (sl_daemon sl) = (r, d)"
    and s': "s' = (set_slot slot (sl\<lparr>sl_daemon := d\<rparr>) (fst s), snd s)"
    using assms(1) Some by (auto simp: local_PinExit_def split: prod.splits)
  have ok: "slot_ok slot sl" using slots_okD assms(2) Some by (simp add: local_ok_def)
  then have "slot_ok slot (sl\<lparr>sl_daemon := d\<rparr>)"
    using PinSOCKSUser_same [OF p] same_process_live [of "sl_daemon sl" d] by (simp add: slot_ok_def)
  then show ?thesis using assms(2) s' Some by (simp add: local_ok_def set_slot_ok local_view_def)
qed

lemma pin_each_spec:
  assumes "pin_each ctx subs s = (lines, s')" "local_ok s" "distinct (map (\<lambda>(_, i, _). i) subs)"
  shows "local_ok s' \<and> (\<forall>i. local_view s' i = local_view s i)
    \<and> (\<forall>i. i \<notin> (\<lambda>(_, i, _). i) ` set subs \<longrightarrow> map_of (lo_slots (fst s')) i = map_of (lo_slots (fst s)) i)
    \<and> length lines \<le> length subs
    \<and> (lines = [] \<longrightarrow> (\<forall>(_, i, _) \<in> set subs. pinned_at s' i))"
  using assms
proof (induction subs arbitrary: s lines s')
  case (Cons sub subs)
  obtain label slot user where sub: "sub = (label, slot, user)" by (metis prod.exhaust)
  obtain r s1 where p: "local_PinExit (ctx slot) slot user s = (r, s1)" by (metis prod.exhaust)
  obtain ls s2 where e: "pin_each ctx subs s1 = (ls, s2)" by (metis prod.exhaust)
  have l: "lines = (case r of None \<Rightarrow> [] | Some e \<Rightarrow> [label @ '': session exit not pinned ('' @ e @ ''); an IP change will fail-closed'']) @ ls"
    and s': "s' = s2" using Cons.prems(1) by (simp_all add: sub p e)
  note k = PinExit_keeps [OF p Cons.prems(2)]
  have ih: "local_ok s2 \<and> (\<forall>i. local_view s2 i = local_view s1 i)
    \<and> (\<forall>i. i \<notin> (\<lambda>(_, i, _). i) ` set subs \<longrightarrow> map_of (lo_slots (fst s2)) i = map_of (lo_slots (fst s1)) i)
    \<and> length ls \<le> length subs \<and> (ls = [] \<longrightarrow> (\<forall>(_, i, _) \<in> set subs. pinned_at s2 i))"
    using Cons.IH [OF e] k Cons.prems(3) sub s' by auto
  have n: "slot \<notin> (\<lambda>(_, i, _). i) ` set subs" using Cons.prems(3) sub by auto
  have "pinned_at s2 slot" if "r = None"
    using PinExit_pins [OF p [unfolded that] Cons.prems(2)] ih n by (auto simp: pinned_at_def)
  then show ?case using ih k l s' sub by (auto split: option.splits)
qed auto

text \<open>
  Pinning the exits of a session on distinct slots changes no session path: every slot keeps its name and credentials and the
  slots of no identity are untouched; without a line in the report, every identity's process holds an exit.
\<close>

lemma session_exits_pinned:
  assumes "pinSessionExits ctx w (Some s) = (lines, Some s')" "local_ok s"
    and "distinct (map (\<lambda>sb. id_RouteSlot (sb_Identity sb)) (se_subjects w))"
  shows "local_ok s' \<and> (\<forall>i. local_view s' i = local_view s i) \<and> length lines \<le> length (se_subjects w)
    \<and> (lines = [] \<longrightarrow> (\<forall>sb \<in> set (se_subjects w). pinned_at s' (id_RouteSlot (sb_Identity sb))))"
proof -
  let ?subs = "map (\<lambda>sb. (Label (sb_Identity sb), id_RouteSlot (sb_Identity sb), rd_Username (route_Def (se_routes w (sb_Route sb))))) (se_subjects w)"
  have p: "pin_each ctx ?subs s = (lines, s')" using assms(1) by (auto simp: pinSessionExits_def split: prod.splits)
  have "distinct (map (\<lambda>(_, i, _). i) ?subs)" using assms(3) by (simp add: comp_def)
  from pin_each_spec [OF p assms(2) this] show ?thesis by auto
qed

end
