(* ===== verification/Session_Start.thy ===== *)
theory Session_Start
  imports Control Identity_Set Config
begin

text \<open>
  \<open>Run\<close> of \<open>src/controller/startup/session.go\<close> from its first line: opening and locking the identity set, the identities with
  the environments of the configuration, the choice of the provisioner, and then the startup of \<open>Session\<close>.

  \<open>manager.Open\<close> never returns \<open>ErrTryRoutes\<close>, so the fallback for that error is not reached.
\<close>

section \<open>The configuration of a session\<close>

text \<open>What a session takes from the configuration; \<open>base\<close> has the parameters of \<open>SConfig\<close> that are functions.\<close>

definition sconfig_of :: "SConfig \<Rightarrow> config \<Rightarrow> SConfig" where
  "sconfig_of base c = base\<lparr>cf_IPEchoURL := vc_IPEchoURL (cg_Verify c), cf_IPv6EchoURL := vc_IPv6EchoURL (cg_Verify c),
     cf_StorageOrigin := vc_StorageOrigin (cg_Verify c), cf_CompareHostIP := vc_CompareHostIP (cg_Verify c),
     cf_HostEchoURL := vc_HostEchoURL (cg_Verify c), cf_HostEchoURLv6 := vc_HostEchoURLv6 (cg_Verify c),
     cf_IPv6 := cg_IPv6 c, cf_TimeoutSeconds := vc_TimeoutSeconds (cg_Verify c), cf_StartupURL := cg_StartupURL c,
     cf_ProbeIntervalSeconds := hc_ProbeIntervalSeconds (cg_Health c),
     cf_IPCheckIntervalSeconds := hc_IPCheckIntervalSeconds (cg_Health c)\<rparr>"

section \<open>The identities\<close>

text \<open>
  \<open>Ensure\<close> with the environments of the configuration. An identity that has to be created and whose environment the
  configuration does not give makes \<open>Run\<close> panic (\<open>Inl None\<close>).
\<close>

definition missing :: "hostenv \<Rightarrow> io \<Rightarrow> string \<Rightarrow> int \<Rightarrow> setdir \<Rightarrow> bool" where
  "missing h io sdir i s = (case load_identity h io sdir i s of Inl (True, _) \<Rightarrow> True | _ \<Rightarrow> False)"

definition env_of :: "hostenv \<Rightarrow> config \<Rightarrow> int \<Rightarrow> Environment" where
  "env_of h c i = projr (EnvironmentFor h c i)"

fun ensure_session ::
  "hostenv \<Rightarrow> io \<Rightarrow> string \<Rightarrow> int \<Rightarrow> config \<Rightarrow> int list \<Rightarrow> setdir \<Rightarrow> (gerr option + identity list) \<times> setdir" where
  "ensure_session h io sdir t c [] s = (Inr [], s)"
| "ensure_session h io sdir t c (i # is) s =
    (if missing h io sdir i s \<and> isl (EnvironmentFor h c i) then (Inl None, s)
     else case loadOrCreate h io sdir t (env_of h c) i s of
       (Inl e, s1) \<Rightarrow> (Inl (Some e), s1)
     | (Inr ident, s1) \<Rightarrow> (case ensure_session h io sdir t c is s1 of
         (Inl e, s2) \<Rightarrow> (Inl e, s2)
       | (Inr ids, s2) \<Rightarrow> (Inr (ident # ids), s2)))"

section \<open>From the first line\<close>

record startenv =
  st_host :: hostenv
  st_io :: io
  st_stamp :: string
  st_fuel :: nat
  st_now :: int
  st_lock :: "gerr option"
  st_getenv :: "string \<Rightarrow> string"
  st_root :: string

text \<open>What a caller sees of a failure: one of the errors of \<open>Run\<close>, an error from before, or a panic.\<close>

datatype start_err = SetupFailed gerr | Failed run_err

definition ierr_text :: "ierr \<Rightarrow> gerr" where
  "ierr_text e = (case e of ErrNoCurrentSet \<Rightarrow> ''no current identity set'' | IErr x \<Rightarrow> x)"

definition set_path :: "startenv \<Rightarrow> string \<Rightarrow> string" where
  "set_path se name = st_root se @ ''/'' @ name"

definition choose_provisioner :: "(string \<Rightarrow> string) \<Rightarrow> config \<Rightarrow> Provisioner option \<Rightarrow> RouteDef list \<Rightarrow> Provisioner result" where
  "choose_provisioner getenv c prov defs = (case prov of
      Some p \<Rightarrow> Inr p
    | None \<Rightarrow> (case manager_Open getenv \<lparr>in_DataDir = cg_DataDir c, in_Explicit = defs,
          in_Provider = rc_Provider (cg_Routing c), in_Decodo = None\<rparr> of
        Inl e \<Rightarrow> Inl e | Inr (p, _) \<Rightarrow> Inr p))"

text \<open>\<open>None\<close>: the search for the name of a fresh set did not end within \<open>st_fuel\<close> attempts.\<close>

definition session_Run ::
  "startenv \<Rightarrow> env \<Rightarrow> SConfig \<Rightarrow> config \<Rightarrow> Provisioner option \<Rightarrow> RouteDef list \<Rightarrow> iroot \<times> world
    \<Rightarrow> ((start_err + monitor) \<times> iroot \<times> world) option" where
  "session_Run se env base c prov defs = (\<lambda>(r, w).
     case Manager_Open (st_io se) (st_stamp se) (st_fuel se) (cg_Fresh c) r of
       None \<Rightarrow> None
     | Some (Inl e, r1) \<Rightarrow> Some (Inl (SetupFailed (ierr_text e)), r1, w)
     | Some (Inr name, r1) \<Rightarrow>
        (case st_lock se of
           Some e \<Rightarrow> Some (Inl (SetupFailed e), r1, w)
         | None \<Rightarrow>
            (let w1 = w\<lparr>se_locked := True\<rparr>; sdir = set_path se name; s = the (ir_sets r1 name) in
             if cg_Identities c < 1 then Some (Inl (SetupFailed ''identity count must be >= 1''), r1, unlock w1)
             else case ensure_session (st_host se) (st_io se) sdir (st_now se) c [1..cg_Identities c] s of
               (Inl None, s1) \<Rightarrow> Some (Inl (Failed Panicked), r1\<lparr>ir_sets := (ir_sets r1)(name \<mapsto> s1)\<rparr>, w1)
             | (Inl (Some e), s1) \<Rightarrow> Some (Inl (SetupFailed e), r1\<lparr>ir_sets := (ir_sets r1)(name \<mapsto> s1)\<rparr>, unlock w1)
             | (Inr ids, s1) \<Rightarrow>
                (let r2 = r1\<lparr>ir_sets := (ir_sets r1)(name \<mapsto> s1)\<rparr> in
                 case choose_provisioner (st_getenv se) c prov defs of
                   Inl e \<Rightarrow> Some (Inl (SetupFailed e), r2, unlock w1)
                 | Inr p \<Rightarrow> (case Run env (sconfig_of base c) ids p w1 of
                     (Inl e, w2) \<Rightarrow> Some (Inl (Failed e), r2, w2)
                   | (Inr m, w2) \<Rightarrow> Some (Inr m, r2, w2))))))"

section \<open>All or nothing, from the first line\<close>

text \<open>Every set of the tree holds identity files as \<open>Ensure\<close> writes them.\<close>

definition tree_ok :: "iroot \<Rightarrow> bool" where
  "tree_ok r \<longleftrightarrow> (\<forall>name s. ir_sets r name = Some s \<longrightarrow> set_pinned s)"

lemma tree_ok_put: "tree_ok r \<Longrightarrow> set_pinned s \<Longrightarrow> tree_ok (r\<lparr>ir_sets := (ir_sets r)(name \<mapsto> s)\<rparr>)"
  by (simp add: tree_ok_def)

lemma ensure_session_ok:
  assumes "ensure_session h io sdir t c is s = (res, s')" "set_pinned s"
  shows "set_pinned s' \<and> (\<forall>ids. res = Inr ids \<longrightarrow> map id_Index ids = is \<and> map id_RouteSlot ids = is)
    \<and> (\<forall>j f. sd_ident s j = Some f \<longrightarrow> sd_ident s' j = Some f)"
  using assms
proof (induction h io sdir t c "is" s arbitrary: res s' rule: ensure_session.induct)
  case (2 h io sdir t c i "is" s)
  show ?case
  proof (cases "missing h io sdir i s \<and> isl (EnvironmentFor h c i)")
    case True
    then show ?thesis using 2(2,3) by auto
  next
    case False
    obtain r1 s1 where l: "loadOrCreate h io sdir t (env_of h c) i s = (r1, s1)" by (metis prod.exhaust)
    note p = loadOrCreate_pinned [OF l 2(3)]
    show ?thesis
    proof (cases r1)
      case (Inl e)
      then show ?thesis using False 2(2) l p by auto
    next
      case (Inr x)
      obtain r2 s2 where r: "ensure_session h io sdir t c is s1 = (r2, s2)" by (metis prod.exhaust)
      have "s' = s2" "res = (case r2 of Inl e \<Rightarrow> Inl e | Inr ids \<Rightarrow> Inr (x # ids))"
        using False 2(2) l Inr r by (auto split: sum.splits)
      then show ?thesis using 2(1) [OF False l [symmetric] Inr r p(1)] p Inr by (auto split: sum.splits)
    qed
  qed
qed simp

text \<open>Without a panic it is \<open>Ensure\<close>.\<close>

lemma ensure_session_Ensure:
  "ensure_session h io sdir t c is s = (Inr ids, s') \<Longrightarrow> ensure_loop h io sdir t (env_of h c) is s = (Inr ids, s')"
proof (induction h io sdir t c "is" s arbitrary: ids s' rule: ensure_session.induct)
  case (2 h io sdir t c i "is" s)
  then show ?case by (auto split: if_splits prod.splits sum.splits)
qed simp

lemma ensure_session_panic:
  "ensure_session h io sdir t c is s = (Inl None, s') \<Longrightarrow> \<exists>i \<in> set is. isl (EnvironmentFor h c i)"
  by (induction h io sdir t c "is" s arbitrary: s' rule: ensure_session.induct)
    (auto split: if_splits prod.splits sum.splits)

lemma empty_set_ok: "set_pinned empty_set"
  by (simp add: set_pinned_def empty_set_def)

text \<open>No identity file of one tree is lost or changed in the other.\<close>

definition keeps_files :: "iroot \<Rightarrow> iroot \<Rightarrow> bool" where
  "keeps_files r r' \<longleftrightarrow> (\<forall>name s i f. ir_sets r name = Some s \<longrightarrow> sd_ident s i = Some f \<longrightarrow>
     (\<exists>s'. ir_sets r' name = Some s' \<and> sd_ident s' i = Some f))"

lemma keeps_files_put:
  assumes "keeps_files r r1" "\<And>s i f. ir_sets r1 name = Some s \<Longrightarrow> sd_ident s i = Some f \<Longrightarrow> sd_ident s' i = Some f"
  shows "keeps_files r (r1\<lparr>ir_sets := (ir_sets r1)(name \<mapsto> s')\<rparr>)"
  unfolding keeps_files_def
proof (intro allI impI)
  fix n s i f
  assume "ir_sets r n = Some s" "sd_ident s i = Some f"
  then obtain s2 where s2: "ir_sets r1 n = Some s2" "sd_ident s2 i = Some f" using assms(1) unfolding keeps_files_def by blast
  then show "\<exists>s''. ir_sets (r1\<lparr>ir_sets := (ir_sets r1)(name \<mapsto> s')\<rparr>) n = Some s'' \<and> sd_ident s'' i = Some f"
    using assms(2) [of s2 i f] by (cases "n = name") simp_all
qed

lemma keeps_files_simps [simp]: "keeps_files r r" "keeps_files r (r1\<lparr>ir_current := x\<rparr>) = keeps_files r r1"
  by (simp_all add: keeps_files_def)

lemma keeps_files_new: "ir_sets r name = None \<Longrightarrow> keeps_files r (r\<lparr>ir_sets := (ir_sets r)(name \<mapsto> s')\<rparr>)"
  by (rule keeps_files_put) simp_all

lemma tree_ok_new:
  "tree_ok r \<Longrightarrow> tree_ok (r\<lparr>ir_sets := (ir_sets r)(name \<mapsto> empty_set)\<rparr>)"
  "tree_ok (r\<lparr>ir_current := x\<rparr>) = tree_ok r"
  by (simp_all add: tree_ok_def empty_set_ok)

lemma fresh_name_free: "fresh_name io r name i fuel cand = Some d \<Longrightarrow> ir_sets r d = None"
  by (induction io r name i fuel cand rule: fresh_name.induct) (auto simp: set_taken_def split: if_splits)

lemma Manager_Open_ok:
  assumes "Manager_Open io stamp fuel fresh r = Some (res, r1)" "tree_ok r"
  shows "tree_ok r1 \<and> keeps_files r r1 \<and> (\<forall>name. res = Inr name \<longrightarrow> (\<exists>s. ir_sets r1 name = Some s))"
proof -
  have c: "tree_ok r1 \<and> keeps_files r r1 \<and> (\<forall>name. res = Inr name \<longrightarrow> (\<exists>s. ir_sets r1 name = Some s))"
    if "CreateFresh io stamp fuel r = Some (res, r1)" for res
  proof -
    have a: "tree_ok (r\<lparr>ir_sets := (ir_sets r)(d \<mapsto> empty_set)\<rparr>) \<and> keeps_files r (r\<lparr>ir_sets := (ir_sets r)(d \<mapsto> empty_set)\<rparr>)"
      if "fresh_name io r nm k fuel cd = Some d" for nm k cd d
      using tree_ok_new(1) [OF assms(2)] keeps_files_new [OF fresh_name_free [OF that]] by blast
    show ?thesis
      using that assms(2) a
      by (auto simp: CreateFresh_def Let_def tree_ok_new(2) split: option.splits if_splits)
  qed
  have k: "\<exists>s. ir_sets r name = Some s" if "Current io r = Inr name" for name
    using that by (auto simp: Current_def Let_def split: option.splits if_splits)
  show ?thesis
  proof (cases "fresh \<or> Current io r = Inl ErrNoCurrentSet")
    case True
    then show ?thesis using c assms(1) by (auto simp: Manager_Open_def split: if_splits)
  next
    case False
    then have "r1 = r \<and> res = Current io r"
      using assms(1) by (auto simp: Manager_Open_def split: sum.splits ierr.splits)
    then show ?thesis using k assms(2) by auto
  qed
qed

lemma Run_started:
  assumes "se_subjects w = []" "\<not> se_closed w" "map id_RouteSlot ids = [1..n]" "1 \<le> n" "Run env cfg ids p w = (res, w')"
  shows "case res of Inl e \<Rightarrow> torn_down w'
    | Inr m \<Rightarrow> (\<exists>w3. ready (fst (host_options env cfg w3)) w') \<and> map (id_RouteSlot \<circ> sb_Identity) (se_subjects w') = [1..n]
        \<and> \<not> se_closed w' \<and> m = session_monitor cfg"
proof -
  have "id_RouteSlot ` set ids = {1..n}" using arg_cong [OF assms(3), of set] by simp
  then have "slots_ok ids" "ids \<noteq> []"
    using assms(3,4) by (fastforce simp: slots_ok_def)+
  from Run_ok [OF assms(1,2) this assms(5)] assms(3,5) show ?thesis
    using Run_monitor [of env cfg ids p w] by (auto simp: idents_def split: sum.splits)
qed

lemma session_Run_ok:
  assumes r: "tree_ok r" and w: "se_subjects w = []" "\<not> se_closed w" "\<not> se_locked w"
    and run: "session_Run se env base c prov defs (r, w) = Some (res, r', w')"
  shows "tree_ok r' \<and> keeps_files r r' \<and>
    (case res of
       Inl e \<Rightarrow> torn_down w' \<and> (\<forall>x. e = SetupFailed x \<longrightarrow> se_subjects w' = [])
         \<or> e = Failed Panicked \<and> w' = w\<lparr>se_locked := True\<rparr> \<and> (\<exists>i \<in> {1..cg_Identities c}. isl (EnvironmentFor (st_host se) c i))
     | Inr m \<Rightarrow> (\<exists>w3. ready (fst (host_options env (sconfig_of base c) w3)) w')
         \<and> map (id_RouteSlot \<circ> sb_Identity) (se_subjects w') = [1..cg_Identities c]
         \<and> \<not> se_closed w' \<and> m = session_monitor (sconfig_of base c))"
proof -
  define w1 where "w1 = w\<lparr>se_locked := True\<rparr>"
  have w1: "se_subjects w1 = []" "\<not> se_closed w1" and tw: "torn_down w" "torn_down (unlock w1)" "se_subjects (unlock w1) = []"
    using w by (simp_all add: w1_def torn_down_def unlock_def)
  obtain o1 r1 where m: "Manager_Open (st_io se) (st_stamp se) (st_fuel se) (cg_Fresh c) r = Some (o1, r1)"
    using run by (cases "Manager_Open (st_io se) (st_stamp se) (st_fuel se) (cg_Fresh c) r") (auto simp: session_Run_def)
  note mo = Manager_Open_ok [OF m r]
  show ?thesis
  proof (cases "isl o1 \<or> st_lock se \<noteq> None \<or> cg_Identities c < 1")
    case True
    then have "r' = r1 \<and> (\<exists>x. res = Inl (SetupFailed x)) \<and> w' \<in> {w, unlock w1}"
      using run by (auto simp: session_Run_def m Let_def w1_def isl_def split: sum.splits option.splits if_splits)
    then show ?thesis using mo tw w by auto
  next
    case False
    then obtain name where name: "o1 = Inr name" by (cases o1) auto
    then obtain s where s: "ir_sets r1 name = Some s" using mo by blast
    then have sp: "set_pinned s" using mo by (auto simp: tree_ok_def)
    let ?sd = "set_path se name"
    obtain er s1 where e: "ensure_session (st_host se) (st_io se) ?sd (st_now se) c [1..cg_Identities c] s = (er, s1)"
      by (metis prod.exhaust)
    note es = ensure_session_ok [OF e sp]
    define r2 where "r2 = r1\<lparr>ir_sets := (ir_sets r1)(name \<mapsto> s1)\<rparr>"
    have r2: "tree_ok r2" "keeps_files r r2"
      using tree_ok_put keeps_files_put [of r r1 name s1] mo es s by (auto simp: r2_def)
    have go: "Some (res, r', w') = (case er of
        Inl None \<Rightarrow> Some (Inl (Failed Panicked), r2, w1)
      | Inl (Some e) \<Rightarrow> Some (Inl (SetupFailed e), r2, unlock w1)
      | Inr ids \<Rightarrow> (case choose_provisioner (st_getenv se) c prov defs of
          Inl e \<Rightarrow> Some (Inl (SetupFailed e), r2, unlock w1)
        | Inr p \<Rightarrow> (case Run env (sconfig_of base c) ids p w1 of
            (Inl e, w2) \<Rightarrow> Some (Inl (Failed e), r2, w2) | (Inr m, w2) \<Rightarrow> Some (Inr m, r2, w2))))"
      using run [symmetric] False
      by (simp add: session_Run_def m name s e Let_def flip: w1_def r2_def split: sum.splits option.splits)
    show ?thesis
    proof (cases er)
      case (Inl x)
      then show ?thesis
        using go r2 tw e ensure_session_panic w1_def by (cases x) fastforce+
    next
      case (Inr ids)
      show ?thesis
      proof (cases "choose_provisioner (st_getenv se) c prov defs")
        case (Inl x)
        then show ?thesis using go \<open>er = Inr ids\<close> r2 tw by simp
      next
        case (Inr p)
        obtain rr w2 where rn: "Run env (sconfig_of base c) ids p w1 = (rr, w2)" by (metis prod.exhaust)
        have "map id_RouteSlot ids = [1..cg_Identities c]" "1 \<le> cg_Identities c"
          using es \<open>er = Inr ids\<close> False by auto
        from Run_started [OF w1 this rn] go \<open>er = Inr ids\<close> Inr rn r2 show ?thesis
          by (cases rr) auto
      qed
    qed
  qed
qed


definition sample_tree :: iroot where
  "sample_tree = \<lparr>ir_current = Some ''s'', ir_sets = [''s'' \<mapsto> empty_set\<lparr>sd_ident :=
     [1 \<mapsto> Decoded (stored (new_identity 0 sample_environment 1))]\<rparr>]\<rparr>"

definition sample_startenv :: startenv where
  "sample_startenv = \<lparr>st_host = sample_host, st_io = no_io_error, st_stamp = ''1'', st_fuel = 1, st_now = 0, st_lock = None,
     st_getenv = (\<lambda>_. []), st_root = ''set''\<rparr>"

definition sample_config :: config where
  "sample_config = Defaults\<lparr>cg_Identities := 1, cg_StartupURL := ''https://a'', cg_IPv6 := False,
     cg_Verify := (cg_Verify Defaults)\<lparr>vc_IPEchoURL := ''https://a'', vc_IPv6EchoURL := [], vc_HostEchoURL := ''https://h''\<rparr>\<rparr>"

definition sample_unlocked :: world where
  "sample_unlocked = sample_world\<lparr>se_locked := False\<rparr>"

definition sample_full_run :: "((start_err + monitor) \<times> iroot \<times> world) option" where
  "sample_full_run = session_Run sample_startenv (\<lambda>_. sample_penv) sample_cfg sample_config None [sample_def] (sample_tree, sample_unlocked)"


end
