(* ===== verification/Command_Flags.thy ===== *)
theory Command_Flags
  imports Config "HOL-Library.AList"
begin

text \<open>
  The command line of the programs: what they use of Go's \<open>flag\<close> package (with the integer syntax of \<open>strconv.ParseInt\<close>
  in base 0), and \<open>run\<close> of \<open>src/cmd/tab-router/main.go\<close> up to the choice of what to do.
\<close>

section \<open>Numbers\<close>

datatype num_err = NumSyntax | NumRange

definition digit_of :: "char \<Rightarrow> nat option" where
  "digit_of c = (let l = lower_char c in
     if is_digit c then Some (digit_val c)
     else if CHR ''a'' \<le> l \<and> l \<le> CHR ''z'' then Some (of_char l - 97 + 10) else None)"

fun uint_loop :: "nat \<Rightarrow> nat \<Rightarrow> string \<Rightarrow> num_err + nat" where
  "uint_loop base acc [] = Inr acc"
| "uint_loop base acc (c # cs) =
    (if c = CHR ''_'' then uint_loop base acc cs
     else case digit_of c of
       None \<Rightarrow> Inl NumSyntax
     | Some d \<Rightarrow> if d \<ge> base then Inl NumSyntax
                else if acc * base + d \<ge> 2 ^ 64 then Inl NumRange else uint_loop base (acc * base + d) cs)"

text \<open>\<open>underscoreOK\<close>: the class of the last character and whether letters are digits.\<close>

fun underscores_ok :: "char \<Rightarrow> bool \<Rightarrow> string \<Rightarrow> bool" where
  "underscores_ok i hex [] = (i \<noteq> CHR ''_'')"
| "underscores_ok i hex (c # cs) =
    (if is_digit c \<or> hex \<and> CHR ''a'' \<le> lower_char c \<and> lower_char c \<le> CHR ''f'' then underscores_ok (CHR ''0'') hex cs
     else if c = CHR ''_'' then i = CHR ''0'' \<and> underscores_ok (CHR ''_'') hex cs
     else i \<noteq> CHR ''_'' \<and> underscores_ok (CHR ''!'') hex cs)"

definition based :: "string \<Rightarrow> nat \<times> string" where
  "based s = (case s of
      z # x # rest \<Rightarrow>
        if z \<noteq> CHR ''0'' then (10, s)
        else if rest \<noteq> [] \<and> lower_char x = CHR ''b'' then (2, rest)
        else if rest \<noteq> [] \<and> lower_char x = CHR ''o'' then (8, rest)
        else if rest \<noteq> [] \<and> lower_char x = CHR ''x'' then (16, rest) else (8, x # rest)
    | [z] \<Rightarrow> if z = CHR ''0'' then (8, []) else (10, s)
    | [] \<Rightarrow> (10, []))"

definition underscoreOK :: "string \<Rightarrow> bool" where
  "underscoreOK s = (case s of
      z # x # rest \<Rightarrow> if z = CHR ''0'' \<and> lower_char x \<in> {CHR ''b'', CHR ''o'', CHR ''x''}
                     then underscores_ok (CHR ''0'') (lower_char x = CHR ''x'') rest
                     else underscores_ok (CHR ''^'') False s
    | _ \<Rightarrow> underscores_ok (CHR ''^'') False s)"

definition ParseUint0 :: "string \<Rightarrow> num_err + nat" where
  "ParseUint0 s = (if s = [] then Inl NumSyntax
     else case uint_loop (fst (based s)) 0 (snd (based s)) of
       Inl e \<Rightarrow> Inl e
     | Inr n \<Rightarrow> if CHR ''_'' \<in> set s \<and> \<not> underscoreOK s then Inl NumSyntax else Inr n)"

definition ParseInt0 :: "string \<Rightarrow> num_err + int" where
  "ParseInt0 s =
    (let (neg, ds) = (case s of [] \<Rightarrow> (False, [])
        | c # cs \<Rightarrow> if c = CHR ''-'' then (True, cs) else if c = CHR ''+'' then (False, cs) else (False, s))
     in case ParseUint0 ds of
       Inl e \<Rightarrow> Inl e
     | Inr n \<Rightarrow> if \<not> neg \<and> n \<ge> 2 ^ 63 \<or> neg \<and> n > 2 ^ 63 then Inl NumRange else Inr (if neg then - int n else int n))"

definition ParseBool :: "string \<Rightarrow> bool option" where
  "ParseBool s = (if s \<in> {''1'', ''t'', ''T'', ''true'', ''TRUE'', ''True''} then Some True
     else if s \<in> {''0'', ''f'', ''F'', ''false'', ''FALSE'', ''False''} then Some False else None)"

section \<open>Flag sets\<close>

text \<open>The flags of a set with their current values; the type of a value never changes.\<close>

datatype fval = VInt int | VStr string | VBool bool

type_synonym flagset = "(string \<times> fval) list"

definition num_text :: "num_err \<Rightarrow> gerr" where
  "num_text e = (case e of NumSyntax \<Rightarrow> ''parse error'' | NumRange \<Rightarrow> ''value out of range'')"

definition set_value :: "string \<Rightarrow> fval \<Rightarrow> string \<Rightarrow> fval result" where
  "set_value name old s = (case old of
      VStr _ \<Rightarrow> Inr (VStr s)
    | VInt _ \<Rightarrow> (case ParseInt0 s of
        Inl e \<Rightarrow> Inl (''invalid value '' @ Quote s @ '' for flag -'' @ name @ '': '' @ num_text e) | Inr i \<Rightarrow> Inr (VInt i))
    | VBool _ \<Rightarrow> (case ParseBool s of
        None \<Rightarrow> Inl (''invalid boolean value '' @ Quote s @ '' for -'' @ name @ '': parse error'') | Some b \<Rightarrow> Inr (VBool b)))"

text \<open>Values, and the names of the flags that were given.\<close>

type_synonym parsed = "flagset \<times> string list"

definition put_value :: "string \<Rightarrow> fval \<Rightarrow> parsed \<Rightarrow> parsed" where
  "put_value name v st = (AList.update name v (fst st), List.insert name (snd st))"

text \<open>\<open>FlagSet.Parse\<close>: the rest are the arguments from the first that is no flag.\<close>

fun parse_flags :: "string list \<Rightarrow> parsed \<Rightarrow> (parsed \<times> string list) result" where
  "parse_flags [] st = Inr (st, [])"
| "parse_flags (s # args) st =
    (if length s < 2 \<or> hd s \<noteq> CHR ''-'' then Inr (st, s # args)
     else if s = ''--'' then Inr (st, args)
     else
      (let text = (if s ! 1 = CHR ''-'' then drop 2 s else tl s) in
       if text = [] \<or> hd text = CHR ''-'' \<or> hd text = CHR ''='' then Inl (''bad flag syntax: '' @ s)
       else (case Cut text (CHR ''='') of (name, value, has) \<Rightarrow>
        (case map_of (fst st) name of
           None \<Rightarrow> Inl (if name = ''help'' \<or> name = ''h'' then ''flag: help requested'' else ''flag provided but not defined: -'' @ name)
         | Some old \<Rightarrow>
            if has then (case set_value name old value of Inl e \<Rightarrow> Inl e | Inr v \<Rightarrow> parse_flags args (put_value name v st))
            else (case old of
              VBool _ \<Rightarrow> parse_flags args (put_value name (VBool True) st)
            | _ \<Rightarrow> (case args of
                [] \<Rightarrow> Inl (''flag needs an argument: -'' @ name)
              | a # rest \<Rightarrow> (case set_value name old a of
                  Inl e \<Rightarrow> Inl e | Inr v \<Rightarrow> parse_flags rest (put_value name v st))))))))"

declare parse_flags.simps(2) [simp del]

definition int_flag :: "flagset \<Rightarrow> string \<Rightarrow> int" where
  "int_flag fs n = (case map_of fs n of Some (VInt i) \<Rightarrow> i | _ \<Rightarrow> 0)"

definition str_flag :: "flagset \<Rightarrow> string \<Rightarrow> string" where
  "str_flag fs n = (case map_of fs n of Some (VStr s) \<Rightarrow> s | _ \<Rightarrow> [])"

definition bool_flag :: "flagset \<Rightarrow> string \<Rightarrow> bool" where
  "bool_flag fs n = (case map_of fs n of Some (VBool b) \<Rightarrow> b | _ \<Rightarrow> False)"

section \<open>What to do\<close>

definition main_flags :: "bool \<Rightarrow> flagset" where
  "main_flags windows = [(''identities'', VInt 0), (''url'', VStr []), (''fresh'', VBool False), (''config'', VStr []),
     (''routes'', VStr []), (''data-dir'', VStr []), (''headless'', VBool False), (''status'', VBool False),
     (''stop'', VBool False), (''diagnostics'', VBool False), (''json'', VBool False), (''version'', VBool False),
     (''ascii'', VBool windows), (''no-interactive'', VBool False)]"

definition overrides_of :: "flagset \<Rightarrow> Overrides" where
  "overrides_of fs = \<lparr>ov_Identities = int_flag fs ''identities'', ov_URL = str_flag fs ''url'',
     ov_URLSet = (str_flag fs ''url'' \<noteq> []), ov_Fresh = bool_flag fs ''fresh'', ov_Headless = bool_flag fs ''headless'',
     ov_DataDir = str_flag fs ''data-dir'', ov_ConfigPath = str_flag fs ''config'', ov_RoutesPath = str_flag fs ''routes''\<rparr>"

datatype command =
    ProviderCmd "string list"
  | BadFlags gerr
  | ShowVersion
  | TooMany int
  | RouteCheck Overrides
  | DeactivateCmd Overrides
  | UnknownCmd string
  | StatusCmd Overrides bool
  | StopCmd Overrides
  | DiagnosticsCmd Overrides bool bool
  | StartCmd Overrides bool bool nat

text \<open>The decisions of \<open>run\<close>. A start carries whether to print Unicode, whether prompting is off, and \<open>NFlag\<close>.\<close>

definition pick_command :: "string \<Rightarrow> parsed \<Rightarrow> command" where
  "pick_command sub p =
    (let fs = fst p; ov = overrides_of fs in
     if bool_flag fs ''version'' then ShowVersion
     else if int_flag fs ''identities'' > MaxIdentities then TooMany (int_flag fs ''identities'')
     else if sub = ''route-check'' then RouteCheck ov
     else if sub = ''deactivate'' then DeactivateCmd ov
     else if sub \<noteq> [] then UnknownCmd sub
     else if bool_flag fs ''status'' then StatusCmd ov (bool_flag fs ''json'')
     else if bool_flag fs ''stop'' then StopCmd ov
     else if bool_flag fs ''diagnostics'' then DiagnosticsCmd ov (bool_flag fs ''json'') (\<not> bool_flag fs ''ascii'')
     else StartCmd ov (\<not> bool_flag fs ''ascii'') (bool_flag fs ''no-interactive'') (length (snd p)))"

definition dispatch :: "bool \<Rightarrow> string list \<Rightarrow> command" where
  "dispatch windows args =
    (case args of
       a # rest \<Rightarrow>
         if a = ''provider'' then ProviderCmd rest
         else (let (sub, flags) = (if \<not> HasPrefix a ''-'' then (a, rest) else ([], args)) in
           case parse_flags flags (main_flags windows, []) of Inl e \<Rightarrow> BadFlags e | Inr (p, _) \<Rightarrow> pick_command sub p)
     | [] \<Rightarrow> pick_command [] (main_flags windows, []))"

section \<open>Numbers are read back\<close>

lemma digit_of_digit [simp]: "is_digit c \<Longrightarrow> digit_of c = Some (digit_val c)"
  by (simp add: digit_of_def)

lemma digit_not_underscore: "is_digit c \<Longrightarrow> c \<noteq> CHR ''_''"
  by (auto simp: is_digit_def)

lemma is_digit_val: "is_digit c \<Longrightarrow> digit_val c < 10"
  by (auto simp: is_digit_def digit_val_def)

abbreviation dec_val :: "nat \<Rightarrow> string \<Rightarrow> nat" where
  "dec_val \<equiv> foldl (\<lambda>a c. a * 10 + digit_val c)"

lemma dec_val_mono: "acc \<le> dec_val acc cs"
proof (induction cs arbitrary: acc)
  case (Cons c cs)
  have "acc \<le> acc * 10 + digit_val c" by simp
  also have "\<dots> \<le> dec_val (acc * 10 + digit_val c) cs" by (rule Cons)
  finally show ?case by simp
qed simp

lemma uint_loop_digits:
  "list_all is_digit cs \<Longrightarrow> dec_val acc cs < 2 ^ 64 \<Longrightarrow> uint_loop 10 acc cs = Inr (dec_val acc cs)"
proof (induction cs arbitrary: acc)
  case (Cons c cs)
  have "acc * 10 + digit_val c < 2 ^ 64"
    using dec_val_mono [of "acc * 10 + digit_val c" cs] Cons.prems by (simp del: numeral_eq_Suc)
  then show ?case
    using Cons is_digit_val [of c] by (auto simp: digit_not_underscore)
qed simp

lemma itoa_nat_no_zero: "0 < n \<Longrightarrow> hd (itoa_nat n) \<noteq> CHR ''0''"
proof (induction n rule: itoa_nat.induct)
  case (1 n)
  show ?case
  proof (cases "n < 10")
    case True
    then have "digit_val (digit_char n) \<noteq> digit_val (CHR ''0'')"
      using 1 by (simp only: digit_val_digit_char) (simp add: digit_val_def)
    then have "digit_char n \<noteq> CHR ''0''" by metis
    then show ?thesis using True by (subst itoa_nat.simps) simp
  next
    case False
    then have "hd (itoa_nat (n div 10)) \<noteq> CHR ''0''" using 1 by (simp add: div_greater_zero_iff)
    with False show ?thesis by (subst itoa_nat.simps) simp
  qed
qed

lemma based_itoa: "0 < n \<Longrightarrow> based (itoa_nat n) = (10, itoa_nat n)"
  using itoa_nat_no_zero [of n] by (auto simp: based_def split: list.split)

lemma no_underscore: "CHR ''_'' \<notin> set (itoa_nat n)"
  using itoa_nat_digit_set digit_not_underscore by metis

lemma ParseUint0_itoa: "n < 2 ^ 64 \<Longrightarrow> ParseUint0 (itoa_nat n) = Inr n"
proof (cases "n = 0")
  case True
  moreover have "itoa_nat 0 = ''0''" by code_simp
  ultimately show ?thesis by (simp add: ParseUint0_def based_def)
next
  case False
  assume "n < 2 ^ 64"
  moreover have "dec_val 0 (itoa_nat n) = n" using digits_val_itoa_nat [of n] by (simp add: digits_val_def)
  ultimately have "uint_loop 10 0 (itoa_nat n) = Inr n"
    using uint_loop_digits [of "itoa_nat n" 0] itoa_nat_digits [of n] by simp
  with False show ?thesis by (simp add: ParseUint0_def based_itoa no_underscore del: numeral_eq_Suc)
qed

lemma ParseInt0_Itoa:
  assumes "- (2 ^ 63) \<le> i" "i < 2 ^ 63"
  shows "ParseInt0 (Itoa i) = Inr i"
proof (cases "i < 0")
  case True
  then have "ParseUint0 (itoa_nat (nat (- i))) = Inr (nat (- i))"
    using assms by (intro ParseUint0_itoa) (simp add: nat_less_iff)
  then show ?thesis using True assms by (simp add: ParseInt0_def Itoa_def)
next
  case False
  then have p: "ParseUint0 (itoa_nat (nat i)) = Inr (nat i)"
    using assms by (intro ParseUint0_itoa) (simp add: nat_less_iff)
  obtain c cs where s: "itoa_nat (nat i) = c # cs" by (cases "itoa_nat (nat i)") auto
  then have "c \<noteq> CHR ''-''" "c \<noteq> CHR ''+''" using itoa_nat_digit_set [of c "nat i"] by auto
  then show ?thesis using False assms p by (simp add: ParseInt0_def Itoa_def s)
qed

section \<open>Settings are read back\<close>

text \<open>How a value is written after \<open>=\<close>, and the settings a flag set can hold.\<close>

definition value_text :: "fval \<Rightarrow> string" where
  "value_text v = (case v of VInt i \<Rightarrow> Itoa i | VStr s \<Rightarrow> s | VBool b \<Rightarrow> if b then ''true'' else ''false'')"

definition setting :: "string \<times> fval \<Rightarrow> string" where
  "setting p = ''--'' @ fst p @ ''='' @ value_text (snd p)"

definition plain_flag :: "string \<Rightarrow> bool" where
  "plain_flag n \<longleftrightarrow> n \<noteq> [] \<and> hd n \<noteq> CHR ''-'' \<and> CHR ''='' \<notin> set n"

definition fits :: "flagset \<Rightarrow> string \<times> fval \<Rightarrow> bool" where
  "fits fs p = (plain_flag (fst p) \<and>
     (case (map_of fs (fst p), snd p) of
        (Some (VInt _), VInt i) \<Rightarrow> - (2 ^ 63) \<le> i \<and> i < 2 ^ 63
      | (Some (VStr _), VStr _) \<Rightarrow> True
      | (Some (VBool _), VBool _) \<Rightarrow> True
      | _ \<Rightarrow> False))"

definition set_all :: "(string \<times> fval) list \<Rightarrow> parsed \<Rightarrow> parsed" where
  "set_all ss st = foldl (\<lambda>s p. put_value (fst p) (snd p) s) st ss"

definition no_flag :: "string list \<Rightarrow> bool" where
  "no_flag rest = (case rest of [] \<Rightarrow> True | s # _ \<Rightarrow> length s < 2 \<or> hd s \<noteq> CHR ''-'')"

lemma Cut_at: "c \<notin> set n \<Longrightarrow> Cut (n @ c # v) c = (n, v, True)"
proof -
  assume "c \<notin> set n"
  then have "find_index (\<lambda>x. x = c) (n @ c # v) = Some (length n)" by (induction n) auto
  then show ?thesis by (simp add: Cut_def IndexByte_def)
qed

lemma set_value_text:
  "fits fs (n, v) \<Longrightarrow> \<exists>old. map_of fs n = Some old \<and> set_value n old (value_text v) = Inr v"
proof (cases v)
  case (VBool b)
  then show "fits fs (n, v) \<Longrightarrow> ?thesis"
    by (auto simp: fits_def set_value_def value_text_def ParseBool_def split: option.splits fval.splits)
qed (auto simp: fits_def set_value_def value_text_def ParseInt0_Itoa [simplified]
      split: option.splits fval.splits)

lemma fits_put: "fits (fst (put_value n v st)) q = fits (fst st) q" if "fits (fst st) (n, v)"
  using that by (auto simp: put_value_def fits_def update_conv' split: option.splits fval.splits)

lemma parse_setting:
  assumes "fits (fst st) p"
  shows "parse_flags (setting p # args) st = parse_flags args (put_value (fst p) (snd p) st)"
proof -
  obtain n v where p: "p = (n, v)" by (cases p)
  obtain old where o: "map_of (fst st) n = Some old" "set_value n old (value_text v) = Inr v"
    using set_value_text assms p by blast
  have n: "n \<noteq> []" "hd n \<noteq> CHR ''-''" "CHR ''='' \<notin> set n"
    using assms by (auto simp: p fits_def plain_flag_def)
  then have h: "hd n \<noteq> CHR ''=''" by (cases n) auto
  show ?thesis
    using n h o by (simp add: parse_flags.simps p setting_def Cut_at Let_def)
qed

lemma parse_settings:
  "list_all (fits (fst st)) ss \<Longrightarrow> parse_flags (map setting ss @ rest) st = parse_flags rest (set_all ss st)"
proof (induction ss arbitrary: st)
  case (Cons p ss)
  have "list_all (fits (fst (put_value (fst p) (snd p) st))) ss"
    using Cons.prems by (auto simp: list_all_iff fits_put)
  with Cons.IH have "parse_flags (map setting ss @ rest) (put_value (fst p) (snd p) st)
      = parse_flags rest (set_all (p # ss) st)" by (simp add: set_all_def)
  moreover have "fits (fst st) p" using Cons.prems by simp
  ultimately show ?case by (simp only: list.map append_Cons parse_setting)
qed (simp add: set_all_def)

lemma parse_no_flag: "no_flag rest \<Longrightarrow> parse_flags rest st = Inr (st, rest)"
  by (cases rest) (auto simp: no_flag_def parse_flags.simps)

lemma set_all_values: "map_of (fst (set_all ss st)) = map_of (fst st) ++ map_of (rev ss)"
proof (induction ss arbitrary: st)
  case (Cons p ss)
  have "map_of (fst (set_all (p # ss) st)) = map_of (fst (put_value (fst p) (snd p) st)) ++ map_of (rev ss)"
    using Cons [of "put_value (fst p) (snd p) st"] by (simp add: set_all_def)
  then show ?case
    by (cases p) (auto simp: put_value_def update_conv' map_add_def fun_eq_iff split: option.split)
qed (simp add: set_all_def)

text \<open>
  C38: Settings on the command line are read back. Flags written as \<open>--name=value\<close> (values of the flag's type, numbers
  within 64 bits), with or without a command word before them, reach the decision of \<open>run\<close> exactly as written, the
  last one of a name winning; everything from the first argument that is no flag is dropped.
\<close>

theorem command_settings_read:
  assumes "list_all (fits (main_flags w)) ss" "no_flag rest" "sub \<noteq> []" "hd sub \<noteq> CHR ''-''" "sub \<noteq> ''provider''"
  shows "(ss \<noteq> [] \<longrightarrow> dispatch w (map setting ss @ rest) = pick_command [] (set_all ss (main_flags w, [])))
    \<and> dispatch w (sub # map setting ss @ rest) = pick_command sub (set_all ss (main_flags w, []))
    \<and> map_of (fst (set_all ss (main_flags w, []))) = map_of (main_flags w) ++ map_of (rev ss)"
proof (intro conjI impI)
  have p: "parse_flags (map setting ss @ rest) (main_flags w, []) = Inr (set_all ss (main_flags w, []), rest)"
    using assms by (simp add: parse_settings parse_no_flag)
  show "dispatch w (sub # map setting ss @ rest) = pick_command sub (set_all ss (main_flags w, []))"
    using assms p by (cases sub) (auto simp: dispatch_def)
  show "map_of (fst (set_all ss (main_flags w, []))) = map_of (main_flags w) ++ map_of (rev ss)"
    by (simp add: set_all_values)
  assume "ss \<noteq> []"
  then obtain q qs where q: "ss = q # qs" by (cases ss) auto
  have "setting q = CHR ''-'' # CHR ''-'' # fst q @ ''='' @ value_text (snd q)" by (simp add: setting_def)
  then show "dispatch w (map setting ss @ rest) = pick_command [] (set_all ss (main_flags w, []))"
    using p by (simp add: dispatch_def q)
qed

definition sample_settings :: "(string \<times> fval) list" where
  "sample_settings = [(''identities'', VInt 2), (''headless'', VBool True)]"

lemma sample_settings_fit: "list_all (fits (main_flags False)) sample_settings"
  by code_simp

theorem command_settings_read_witness:
  "dispatch False (map setting sample_settings @ [''x'']) = pick_command [] (set_all sample_settings (main_flags False, []))
    \<and> dispatch False (''deactivate'' # map setting sample_settings @ [''x''])
      = pick_command ''deactivate'' (set_all sample_settings (main_flags False, []))"
  using command_settings_read [OF sample_settings_fit, of "[''x'']" "''deactivate''"]
  by (simp add: no_flag_def sample_settings_def)

text \<open>
  A command word after a flag is ignored: \<open>tab-router --fresh deactivate ...\<close> does not deactivate, it starts a
  session with a fresh identity set.
\<close>

theorem command_words_ignored:
  "dispatch w (''--fresh'' # ''deactivate'' # words) = dispatch w [''--fresh'']
    \<and> dispatch w [''--fresh''] = StartCmd \<lparr>ov_Identities = 0, ov_URL = [], ov_URLSet = False, ov_Fresh = True,
        ov_Headless = False, ov_DataDir = [], ov_ConfigPath = [], ov_RoutesPath = []\<rparr> (\<not> w) False 1"
  by (simp add: dispatch_def parse_flags.simps main_flags_def put_value_def Cut_def IndexByte_def pick_command_def overrides_of_def Let_def
      bool_flag_def int_flag_def str_flag_def MaxIdentities_def)

end
