(* ===== verification/Activation_Server.thy ===== *)
theory Activation_Server
  imports Activation Decodo Command_Flags
begin

text \<open>
  The program \<open>activation-server\<close> (\<open>src/cmd/activation-server/main.go\<close>): the commands \<open>issue\<close> and \<open>revoke\<close> and the server
  itself. Each is a process of its own with its own copy of the store; what they share is the database file.
\<close>

section \<open>Processes and their files\<close>

type_synonym dbs = "string \<rightharpoonup> fileData"

datatype said = Out string | Err string

text \<open>The environment of a process: reading the database, its JSON, and the environment variables.\<close>

record srvenv =
  sv_read :: "gerr option"
  sv_marshal :: "fileData \<Rightarrow> string"
  sv_unmarshal :: "string \<Rightarrow> fileData result"
  sv_getenv :: "string \<Rightarrow> string"
  sv_time :: int

definition open_db :: "srvenv \<Rightarrow> string \<Rightarrow> dbs \<Rightarrow> Store result" where
  "open_db sv path fs = OpenStore (path \<noteq> [])
     (case fs path of None \<Rightarrow> None
      | Some d \<Rightarrow> Some (case sv_read sv of Some e \<Rightarrow> Inl e | None \<Rightarrow> Inr (sv_marshal sv d)))
     (sv_unmarshal sv) (fs path)"

definition write_back :: "string \<Rightarrow> Store \<Rightarrow> dbs \<Rightarrow> dbs" where
  "write_back path s fs = (if path = [] then fs else fs(path := so_disk s))"

definition proxy_number :: "string \<Rightarrow> string \<Rightarrow> int \<Rightarrow> int result" where
  "proxy_number name v dflt = (if v = [] then Inr dflt
     else case Atoi v of None \<Rightarrow> Inl (name @ '': '' @ Atoi_error v) | Some n \<Rightarrow> Inr n)"

definition proxyFromEnv :: "(string \<Rightarrow> string) \<Rightarrow> ProxyAccess result" where
  "proxyFromEnv getenv = (case proxy_number ''DECODO_PORT'' (getenv ''DECODO_PORT'') 7000 of
      Inl e \<Rightarrow> Inl e
    | Inr port \<Rightarrow> (case proxy_number ''DECODO_SESSION_MINUTES'' (getenv ''DECODO_SESSION_MINUTES'') 1440 of
        Inl e \<Rightarrow> Inl e
      | Inr minutes \<Rightarrow> Inr \<lparr>px_Host = (if getenv ''DECODO_HOST'' = [] then ''gate.decodo.com'' else getenv ''DECODO_HOST''),
          px_Port = port, px_Username = getenv ''DECODO_USERNAME'', px_Password = getenv ''DECODO_PASSWORD'',
          px_Country = getenv ''DECODO_COUNTRY'', px_SessionMinutes = minutes\<rparr>))"

section \<open>Issuing and revoking\<close>

definition data_flag :: "string \<times> fval" where
  "data_flag = (''data'', VStr ''licenses.json'')"

definition issue_flags :: flagset where
  "issue_flags = [data_flag, (''max-installations'', VInt 1), (''days'', VInt 365), (''proxy-user'', VStr []), (''proxy-pass'', VStr [])]"

text \<open>\<open>time.Duration(*days)*24*time.Hour\<close>, in nanoseconds: both products wrap at 64 bits.\<close>

definition license_span :: "int \<Rightarrow> 64 word" where
  "license_span days = word_of_int days * 24 * 3600000000000"

definition server_issue :: "srvenv \<Rightarrow> benv \<Rightarrow> string list \<Rightarrow> dbs \<Rightarrow> (int \<times> said list) \<times> dbs" where
  "server_issue sv e args fs = (case parse_flags args (issue_flags, []) of
      Inl x \<Rightarrow> ((2, [Err x]), fs)
    | Inr ((vs, _), _) \<Rightarrow> (case open_db sv (str_flag vs ''data'') fs of
        Inl x \<Rightarrow> ((1, [Err (''error: '' @ x)]), fs)
      | Inr s \<Rightarrow> (case Issue e (int_flag vs ''max-installations'') (Some (sv_time sv + sint (license_span (int_flag vs ''days''))))
            (str_flag vs ''proxy-user'') (str_flag vs ''proxy-pass'') s of
          ((key, Some x), s1) \<Rightarrow> ((1, [Err (''error: '' @ backend_text x)]), write_back (str_flag vs ''data'') s1 fs)
        | ((key, None), s1) \<Rightarrow> ((0, [Out key]), write_back (str_flag vs ''data'') s1 fs))))"

definition server_revoke :: "srvenv \<Rightarrow> benv \<Rightarrow> string list \<Rightarrow> dbs \<Rightarrow> (int \<times> said list) \<times> dbs" where
  "server_revoke sv e args fs = (case parse_flags args ([data_flag], []) of
      Inl x \<Rightarrow> ((2, [Err x]), fs)
    | Inr ((vs, _), rest) \<Rightarrow>
        (case rest of
           [key] \<Rightarrow> (case open_db sv (str_flag vs ''data'') fs of
               Inl x \<Rightarrow> ((1, [Err (''error: '' @ x)]), fs)
             | Inr s \<Rightarrow> (case Revoke e key s of
                 (Some x, s1) \<Rightarrow> ((1, [Err (''error: '' @ backend_text x)]), write_back (str_flag vs ''data'') s1 fs)
               | (None, s1) \<Rightarrow> ((0, [Out ''revoked'']), write_back (str_flag vs ''data'') s1 fs)))
         | _ \<Rightarrow> ((2, [Err ''usage: activation-server revoke [-data file] KEY-OR-ID'']), fs)))"

section \<open>Serving\<close>

text \<open>A running server: the path of its database, its store and its proxy access. A start that fails has an exit code.\<close>

type_synonym server = "string \<times> Store \<times> ProxyAccess"

definition server_start :: "srvenv \<Rightarrow> string list \<Rightarrow> dbs \<Rightarrow> (int \<times> said list) + (string \<times> server)" where
  "server_start sv args fs = (case parse_flags args ([data_flag, (''listen'', VStr ''127.0.0.1:8080'')], []) of
      Inl x \<Rightarrow> Inl (2, [Err x])
    | Inr ((vs, _), _) \<Rightarrow> (case open_db sv (str_flag vs ''data'') fs of
        Inl x \<Rightarrow> Inl (1, [Err (''error: '' @ x)])
      | Inr s \<Rightarrow> (case proxyFromEnv (sv_getenv sv) of
          Inl x \<Rightarrow> Inl (1, [Err (''error: '' @ x)])
        | Inr proxy \<Rightarrow> Inr (str_flag vs ''listen'', str_flag vs ''data'', s, proxy))))"

text \<open>One request to a running server, over the files the other processes share with it.\<close>

definition server_request ::
  "api \<Rightarrow> benv \<Rightarrow> string \<Rightarrow> string \<Rightarrow> string \<Rightarrow> server \<times> dbs \<Rightarrow> (int \<times> payload) \<times> server \<times> dbs" where
  "server_request ap e url meth body = (\<lambda>((path, s, proxy), fs).
     case api_Handler ap e proxy url meth body (s\<lparr>so_disk := (if path = [] then so_disk s else fs path)\<rparr>) of
       (resp, s1) \<Rightarrow> (resp, (path, s1, proxy), write_back path s1 fs))"

text \<open>\<open>main\<close>: the first argument chooses; a listener that fails ends the server with 1.\<close>

datatype server_main = Exits "(int \<times> said list) \<times> dbs" | Serves string server

definition activation_main :: "srvenv \<Rightarrow> benv \<Rightarrow> string list \<Rightarrow> dbs \<Rightarrow> server_main" where
  "activation_main sv e args fs =
    (if args \<noteq> [] \<and> hd args = ''issue'' then Exits (server_issue sv e (tl args) fs)
     else if args \<noteq> [] \<and> hd args = ''revoke'' then Exits (server_revoke sv e (tl args) fs)
     else case server_start sv args fs of Inl x \<Rightarrow> Exits (x, fs) | Inr (listen, srv) \<Rightarrow> Serves listen srv)"

definition listen_failed :: "gerr option \<Rightarrow> int \<times> said list" where
  "listen_failed err = (case err of None \<Rightarrow> (0, []) | Some e \<Rightarrow> (1, [Err (''error: '' @ e)]))"

section \<open>The term of a license\<close>

lemma license_span_int: "sint (license_span d) = (d * 86400000000000 + 2 ^ 63) mod 2 ^ 64 - 2 ^ 63"
proof -
  have "license_span d = word_of_int (d * 86400000000000)"
    by (simp add: license_span_def mult.assoc)
  then show ?thesis by (simp only: sint_sbintrunc') (simp add: signed_take_bit_eq_take_bit_shift take_bit_eq_mod)
qed

lemma license_span_exact: "0 \<le> d \<Longrightarrow> d \<le> 106751 \<Longrightarrow> sint (license_span d) = d * 86400000000000"
  by (simp add: license_span_int)

lemma license_span_wraps: "106752 \<le> d \<Longrightarrow> d \<le> 213503 \<Longrightarrow> sint (license_span d) < 0"
proof -
  assume d: "106752 \<le> d" "d \<le> 213503"
  have "(d * 86400000000000 + 2 ^ 63) mod 2 ^ 64 = (d * 86400000000000 + 2 ^ 63 - 2 ^ 64) mod (2 ^ 64 :: int)"
    by (rule minus_mod_self2 [symmetric])
  also have "\<dots> = d * 86400000000000 + 2 ^ 63 - 2 ^ 64"
    using d by (intro mod_pos_pos_trivial) simp_all
  finally show ?thesis using d by (simp add: license_span_int)
qed

lemma issue_args:
  assumes "0 \<le> d" "d < 2 ^ 63"
  shows "\<exists>vs. parse_flags (map setting [(''data'', VStr path), (''days'', VInt d)]) (issue_flags, []) = Inr (vs, [])
    \<and> str_flag (fst vs) ''data'' = path \<and> int_flag (fst vs) ''days'' = d \<and> int_flag (fst vs) ''max-installations'' = 1"
proof -
  let ?ss = "[(''data'', VStr path), (''days'', VInt d)]"
  have "list_all (fits (fst (issue_flags, []))) ?ss"
    using assms by (simp add: fits_def plain_flag_def issue_flags_def data_flag_def)
  from parse_settings [OF this, of "[]"]
  have "parse_flags (map setting ?ss) (issue_flags, []) = Inr (set_all ?ss (issue_flags, []), [])" by simp
  moreover have "map_of (fst (set_all ?ss (issue_flags, []))) = map_of issue_flags ++ map_of (rev ?ss)"
    by (simp add: set_all_values)
  ultimately show ?thesis
    by (simp add: str_flag_def int_flag_def map_add_def issue_flags_def data_flag_def)
qed

lemma OpenStore_path: "OpenStore p c u d = Inr s \<Longrightarrow> so_path s = p \<and> so_disk s = d"
  by (auto simp: OpenStore_def Let_def split: if_splits option.splits sum.splits)

lemma persist_None: "persist e s = (None, s') \<Longrightarrow> so_path s \<Longrightarrow> so_disk s' = Some (so_data s) \<and> so_data s' = so_data s"
  by (auto simp: persist_def split: option.splits)

lemma Issue_None:
  "Issue e mx t u p s = ((key, None), s') \<Longrightarrow> so_path s \<Longrightarrow>
     \<exists>db. so_disk s' = Some db \<and> fd_Licenses db \<noteq> [] \<and> lc_Status (last (fd_Licenses db)) = StatusActive
       \<and> lc_ExpiresAt (last (fd_Licenses db)) = t"
  by (auto simp: Issue_def Let_def set_licenses_def split: sum.splits prod.splits dest!: persist_None)


definition sample_srv :: srvenv where
  "sample_srv = \<lparr>sv_read = None, sv_marshal = (\<lambda>_. ''{}''), sv_unmarshal = (\<lambda>_. Inr empty_data), sv_getenv = (\<lambda>_. []), sv_time = 1000\<rparr>"


section \<open>What a running server knows of the other processes\<close>

lemma disk_fields [simp]: "licenses (s\<lparr>so_disk := d\<rparr>) = licenses s" "installations (s\<lparr>so_disk := d\<rparr>) = installations s"
  by (simp_all add: licenses_def installations_def)

lemma grant_disk:
  assumes "be_write e = None" "so_path s" "so_data t = so_data s" "so_path t"
    and g: "grant e lic fb i tok s = (Inr r, s1)"
  shows "grant e lic fb i tok t = (Inr r, s1)"
proof -
  have "t\<lparr>so_disk := Some (so_data t)\<rparr> = s\<lparr>so_disk := Some (so_data s)\<rparr>"
    using assms(2-4) by (intro Store.equality) simp_all
  then show ?thesis using g assms(1,2,4) by (auto simp: grant_def persist_def split: sum.splits)
qed

lemma Activate_disk:
  assumes w: "be_write e = None" "so_path s" and a: "Activate e key i fb s = (Inr r, s1)"
  shows "Activate e key i fb (s\<lparr>so_disk := d\<rparr>) = (Inr r, s1)"
proof -
  note g = grant_disk [OF w(1)]
  have l: "license h (s\<lparr>so_disk := d\<rparr>) = license h s" "activeCount x (s\<lparr>so_disk := d\<rparr>) = activeCount x s" for h x
    by (simp_all add: license_def activeCount_def)
  show ?thesis
    using a w(2)
    by (auto simp: Activate_def l split: sum.splits option.splits if_splits
        elim!: g [rotated -1] simp: enroll_def touch_def set_installations_def)
qed

lemma Activate_saved:
  assumes "be_write e = None" "so_path s" "Activate e key i fb s = (Inr r, s1)"
  shows "so_disk s1 = Some (so_data s1)"
proof -
  have "grant e lic fb j tok t = (Inr r, s1) \<Longrightarrow> so_path t \<Longrightarrow> so_disk s1 = Some (so_data s1)" for lic j tok t
    using assms(1) by (auto simp: grant_def persist_def split: sum.splits)
  then show ?thesis
    using assms(2,3)
    by (auto simp: Activate_def enroll_def touch_def set_installations_def split: sum.splits option.splits if_splits)
qed

lemma open_db_same:
  assumes "path \<noteq> []" "fs path = Some db" "sv_read sv = None" "TrimSpace (sv_marshal sv db) \<noteq> []"
    and "sv_unmarshal sv (sv_marshal sv db) = Inr db"
  shows "open_db sv path fs = Inr \<lparr>so_path = True, so_data = db, so_disk = Some db\<rparr>"
  using assms by (simp add: open_db_def OpenStore_def Let_def)

text \<open>Revoking a key whose hash is stored: every license of it is revoked, and the file holds what the process has.\<close>

lemma Revoke_marks:
  assumes "l0 \<in> set (licenses t)" "lc_KeyHash l0 = hashSecret e (normalizeKey key)" "so_path t" "be_write e = None"
  obtains s2 where "Revoke e key t = (None, s2)" "so_disk s2 = Some (so_data s2)"
    "\<forall>l \<in> set (fd_Licenses (so_data s2)). lc_KeyHash l = hashSecret e (normalizeKey key) \<longrightarrow> lc_Status l = StatusRevoked"
proof -
  let ?h = "hashSecret e (normalizeKey key)"
  let ?mark = "\<lambda>l. if lc_ID l = key \<or> lc_KeyHash l = ?h then l\<lparr>lc_Status := StatusRevoked\<rparr> else l"
  have "list_ex (\<lambda>l. lc_ID l = key \<or> lc_KeyHash l = ?h) (licenses t)" using assms(1,2) by (auto simp: list_ex_iff)
  then have "Revoke e key t = persist e (set_licenses (map ?mark (licenses t)) t)" by (simp add: Revoke_def Let_def)
  then obtain s2 where r: "Revoke e key t = (None, s2)" "so_disk s2 = Some (so_data s2)" "licenses s2 = map ?mark (licenses t)"
    using assms(3,4) by (auto simp: persist_def set_licenses_def licenses_def)
  have "lc_Status l = StatusRevoked" if "l \<in> set (fd_Licenses (so_data s2))" "lc_KeyHash l = ?h" for l
  proof -
    have "l \<in> set (map ?mark (licenses t))" using that(1) r(3) by (simp only: licenses_def)
    then obtain k where "l = ?mark k" unfolding set_map by (rule imageE)
    then show ?thesis using that(2) by (cases "lc_ID k = key \<or> lc_KeyHash k = ?h") simp_all
  qed
  then show ?thesis using that r by blast
qed

text \<open>
  C20: The server and the commands do not see each other's writes. A server that has the database of a file in memory goes
  on granting a key that \<open>activation-server revoke\<close> has just revoked in that file, and by doing so writes the file back
  with the license active: the revocation, reported as done, is lost.
\<close>

theorem server_revocation_lost:
  assumes p: "path \<noteq> []" "fs path = Some (so_data s)" "so_path s" "no_flag [key]"
    and json: "sv_read sv = None" "TrimSpace (sv_marshal sv (so_data s)) \<noteq> []" "sv_unmarshal sv (sv_marshal sv (so_data s)) = Inr (so_data s)"
    and e: "be_sha256 e' = be_sha256 e" "be_write e' = None" "be_write e = None"
    and g: "Activate e key [] proxy s = (Inr r, s1)" "ap_activate ap (LimitReader 65536 body) = Inr (key, [])"
    and h: "h = hashSecret e (normalizeKey key)"
  shows "\<exists>fs1 revoked fs2. server_revoke sv e' [setting (''data'', VStr path), key] fs = ((0, [Out ''revoked'']), fs1)
     \<and> fs1 path = Some revoked \<and> (\<forall>l \<in> set (fd_Licenses revoked). lc_KeyHash l = h \<longrightarrow> lc_Status l = StatusRevoked)
     \<and> server_request ap e ''/v1/activate'' ''POST'' body ((path, s, proxy), fs1) = ((200, PResult r proxy), (path, s1, proxy), fs2)
     \<and> fs2 path = Some (so_data s1)
     \<and> (\<exists>l \<in> set (fd_Licenses (so_data s1)). lc_KeyHash l = h \<and> lc_Status l = StatusActive)"
proof -
  let ?ss = "[(''data'', VStr path)]"
  have f: "list_all (fits (fst ([data_flag], []))) ?ss" by (simp add: fits_def plain_flag_def data_flag_def)
  have pf: "parse_flags [setting (''data'', VStr path), key] ([data_flag], []) = Inr (set_all ?ss ([data_flag], []), [key])"
    using parse_settings [OF f, of "[key]"] p(4) by (simp add: parse_no_flag)
  have d: "str_flag (fst (set_all ?ss ([data_flag], []))) ''data'' = path"
    by (simp add: str_flag_def set_all_values)
  have o: "open_db sv path fs = Inr \<lparr>so_path = True, so_data = so_data s, so_disk = Some (so_data s)\<rparr>"
    using open_db_same [of path fs "so_data s" sv] p(1,2) json by simp
  obtain lic where lic: "license h s = Inr lic" "usable e lic = None" "licenses s1 = licenses s"
    using Activate_shape [OF g(1)] unfolding h by metis
  then have l: "lic \<in> set (licenses s)" "lc_KeyHash lic = h" "lc_Status lic = StatusActive"
    using license_Inr [OF lic(1)] by (auto simp: usable_def split: if_splits)
  define t where "t = \<lparr>so_path = True, so_data = so_data s, so_disk = Some (so_data s)\<rparr>"
  have t: "licenses t = licenses s" by (simp add: t_def licenses_def)
  have h': "hashSecret e' (normalizeKey key) = h" using hashSecret_cong [OF e(1)] by (simp add: h)
  have "lic \<in> set (licenses t)" "lc_KeyHash lic = hashSecret e' (normalizeKey key)" "so_path t" using l h' t by (simp_all add: t_def)
  from Revoke_marks [OF this e(2)] obtain s2 where r2: "Revoke e' key t = (None, s2)" "so_disk s2 = Some (so_data s2)"
    and rv: "\<forall>l \<in> set (fd_Licenses (so_data s2)). lc_KeyHash l = h \<longrightarrow> lc_Status l = StatusRevoked"
    unfolding h' by blast
  define fs1 where "fs1 = fs(path \<mapsto> so_data s2)"
  have c: "server_revoke sv e' [setting (''data'', VStr path), key] fs = ((0, [Out ''revoked'']), fs1)"
    using pf d o r2 p(1) by (auto simp: server_revoke_def t_def [symmetric] write_back_def fs1_def split: prod.splits)
  have a: "Activate e key [] proxy (s\<lparr>so_disk := fs1 path\<rparr>) = (Inr r, s1)"
    by (rule Activate_disk [OF e(3) p(3) g(1)])
  define fs2 where "fs2 = write_back path s1 fs1"
  have q: "server_request ap e ''/v1/activate'' ''POST'' body ((path, s, proxy), fs1)
     = ((200, PResult r proxy), (path, s1, proxy), fs2)"
    using p(1) a g(2) by (simp add: server_request_def api_Handler_def api_activate_def respond_def fs2_def)
  have w: "fs2 path = Some (so_data s1)" "fs1 path = Some (so_data s2)"
    using Activate_saved [OF e(3) p(3) g(1)] p(1) by (simp_all add: fs2_def fs1_def write_back_def)
  have "\<exists>l \<in> set (fd_Licenses (so_data s1)). lc_KeyHash l = h \<and> lc_Status l = StatusActive"
    using l lic(3) by (auto simp: licenses_def)
  then show ?thesis using c w rv q by blast
qed

lemma sample_grants: "so_path sample_issued" "no_flag [sample_key]"
  "fd_Licenses (so_data sample_issued) \<noteq> []" "\<exists>r s1. Activate sample_benv sample_key [] sample_proxy sample_issued = (Inr r, s1)"
proof -
  show "so_path sample_issued" "no_flag [sample_key]" "fd_Licenses (so_data sample_issued) \<noteq> []" by code_simp+
  show "\<exists>r s1. Activate sample_benv sample_key [] sample_proxy sample_issued = (Inr r, s1)"
    using sample_steps(4) unfolding sample_activated_def by (metis isl_def obj_sumE prod.collapse)
qed

theorem server_revocation_lost_witness:
  "\<exists>fs1 fs2 s1 r. server_revoke (sample_srv\<lparr>sv_unmarshal := \<lambda>_. Inr (so_data sample_issued)\<rparr>) sample_benv
      [setting (''data'', VStr ''l''), sample_key] [''l'' \<mapsto> so_data sample_issued] = ((0, [Out ''revoked'']), fs1)
    \<and> server_request sample_api sample_benv ''/v1/activate'' ''POST'' [] ((''l'', sample_issued, sample_proxy), fs1)
      = ((200, PResult r sample_proxy), (''l'', s1, sample_proxy), fs2) \<and> fs2 ''l'' = Some (so_data s1)"
proof -
  obtain r s1 where g: "Activate sample_benv sample_key [] sample_proxy sample_issued = (Inr r, s1)"
    using sample_grants(4) by blast
  let ?sv = "sample_srv\<lparr>sv_unmarshal := \<lambda>_. Inr (so_data sample_issued)\<rparr>"
  have m: "sv_read ?sv = None" "TrimSpace (sv_marshal ?sv (so_data sample_issued)) \<noteq> []"
    "sv_unmarshal ?sv (sv_marshal ?sv (so_data sample_issued)) = Inr (so_data sample_issued)"
    "be_write sample_benv = None" "ap_activate sample_api (LimitReader 65536 []) = Inr (sample_key, [])"
    by (simp_all add: sample_srv_def sample_benv_def sample_api_def TrimSpace_def is_space_def)
  from server_revocation_lost [of "''l''" "[''l'' \<mapsto> so_data sample_issued]" sample_issued sample_key ?sv sample_benv sample_benv,
      OF _ _ sample_grants(1,2) m(1-3) refl m(4) m(4) g m(5) refl]
  show ?thesis by (simp (no_asm_use)) blast
qed

end
