(* ===== verification/Provider_Commands.thy ===== *)
theory Provider_Commands
  imports Mullvad Activation_Server
begin

text \<open>
  \<open>tab-router provider login | status | logout\<close> (\<open>src/cmd/tab-router/provider.go\<close>): the commands over the optional Mullvad
  file. What a command says is a list of lines, to the standard output (\<open>Out\<close>) or the error output (\<open>Err\<close>).
\<close>

definition exitOK :: int where "exitOK = 0"
definition exitUsage :: int where "exitUsage = 1"
definition exitVerification :: int where "exitVerification = 2"
definition exitRoute :: int where "exitRoute = 3"
definition exitBrowser :: int where "exitBrowser = 4"
definition exitRunning :: int where "exitRunning = 5"

lemmas exit_codes = exitOK_def exitUsage_def exitVerification_def exitRoute_def exitBrowser_def exitRunning_def

text \<open>The environment: what \<open>config.Load\<close> reads, the Mullvad side, and the terminal with the line typed there.\<close>

record pcenv =
  pc_config :: cfgenv
  pc_mullvad :: menv
  pc_terminal :: bool
  pc_line :: string

definition provider_flag_set :: flagset where
  "provider_flag_set = [(''data-dir'', VStr []), (''account'', VStr []), (''identities'', VInt MaxIdentities)]"

definition providerFlags :: "string list \<Rightarrow> (string \<times> string \<times> int) result" where
  "providerFlags args = (case parse_flags args (provider_flag_set, []) of
      Inl e \<Rightarrow> Inl e
    | Inr ((vs, _), _) \<Rightarrow> Inr (str_flag vs ''data-dir'', str_flag vs ''account'', int_flag vs ''identities''))"

definition no_overrides :: Overrides where
  "no_overrides = \<lparr>ov_Identities = 0, ov_URL = [], ov_URLSet = False, ov_Fresh = False, ov_Headless = False,
     ov_DataDir = [], ov_ConfigPath = [], ov_RoutesPath = []\<rparr>"

definition providerDataDir :: "cfgenv \<Rightarrow> string \<Rightarrow> string result" where
  "providerDataDir ce explicit = (case Load ce (no_overrides\<lparr>ov_DataDir := explicit\<rparr>) of
      (Some e, _) \<Rightarrow> Inl (''error: '' @ e)
    | (None, c) \<Rightarrow> Inr (cg_DataDir c))"

definition mull_text :: "string \<Rightarrow> mull_err \<Rightarrow> gerr" where
  "mull_text path e = (case e of FileMissing \<Rightarrow> ''stat '' @ path @ '': no such file or directory'' | MullErr x \<Rightarrow> x)"

definition MissingProviderMessage :: "string \<Rightarrow> string list" where
  "MissingProviderMessage dataDir = [''No optional Mullvad override is configured.'', [],
     ''Normal startup does not need one. Run:'', [],
     ''  tab-router --identities 2 --url https://example.com'', [],
     ''Tab Router provisions isolated exits locally (via Tor) with no'',
     ''account and no login. Chromium never sees the exit machinery.'', [],
     ''An optional leftover config would live at '' @ provider_Path dataDir]"

definition login_line :: "int \<Rightarrow> string \<Rightarrow> string \<Rightarrow> said" where
  "login_line slot name addr = Out (''Device slot '' @ Itoa slot @ '': '' @ name @ '' ('' @ addr @ '')'')"

definition status_line :: "int \<Rightarrow> string \<Rightarrow> string \<Rightarrow> said" where
  "status_line slot name addr = Out (''  slot '' @ Itoa slot @ ''  '' @ name @ ''  '' @ addr)"

definition login_account :: "pcenv \<Rightarrow> string \<Rightarrow> string result" where
  "login_account pe account =
    (let a = (if account = [] then ce_getenv (pc_config pe) ''TAB_ROUTER_MULLVAD_ACCOUNT'' else account) in
     if a \<noteq> [] then Inr a
     else if \<not> pc_terminal pe then Inl ''pass --account or TAB_ROUTER_MULLVAD_ACCOUNT (stdin is not a terminal)''
     else Inr (TrimSpace (pc_line pe)))"

definition login_lines :: "string \<Rightarrow> File \<Rightarrow> said list" where
  "login_lines path f = [Out ''Provider: mullvad'', Out (''Stored owner-only in '' @ path),
       Out (''Account: '' @ RedactAccount (pf_Account f))]
     @ map (\<lambda>d. login_line (dv_Slot d) (dv_Name d) (dv_IPv4 d)) (pf_Device f)
     @ [Out [], Out ''Optional override stored. Normal startup does not need this.'',
        Out ''Start with:  tab-router --identities 2 --url https://example.com'']"

definition providerLogin :: "pcenv \<Rightarrow> string list \<Rightarrow> mworld \<Rightarrow> (int \<times> said list) \<times> mworld" where
  "providerLogin pe args w = (case providerFlags args of
      Inl e \<Rightarrow> ((exitUsage, [Err e]), w)
    | Inr (dataDir, account, n) \<Rightarrow>
        if n < 1 \<or> n > MaxIdentities then ((exitUsage, [Err (''identities must be 1..'' @ Itoa MaxIdentities)]), w)
        else (case providerDataDir (pc_config pe) dataDir of
          Inl e \<Rightarrow> ((exitUsage, [Err e]), w)
        | Inr dir \<Rightarrow> (case login_account pe account of
            Inl e \<Rightarrow> ((exitUsage, [Err e]), w)
          | Inr acc \<Rightarrow>
             (let path = provider_Path dir; e = (pc_mullvad pe)\<lparr>me_path := path\<rparr> in
              case Login e acc (nat n) w of
                (Some x, w1) \<Rightarrow> ((exitRoute, [Err (''error: '' @ mull_text path x)]), w1)
              | (None, w1) \<Rightarrow> (case LoadFile e w1 of
                  Inl x \<Rightarrow> ((exitUsage, [Err (''error: '' @ mull_text path x)]), w1)
                | Inr f \<Rightarrow> ((exitOK, login_lines path f), w1))))))"

definition status_lines :: "string \<Rightarrow> File \<Rightarrow> said list" where
  "status_lines path f = [Out (''Provider: '' @ pf_Type f), Out (''File: '' @ path), Out (''Account: '' @ RedactAccount (pf_Account f))]
     @ (if pf_Device f = [] then [Out ''Devices: none yet (they are registered on first start)'']
        else Out (''Devices: '' @ itoa_nat (length (pf_Device f)))
          # map (\<lambda>d. status_line (dv_Slot d) (dv_Name d) (dv_IPv4 d)) (pf_Device f))"

definition providerStatus :: "pcenv \<Rightarrow> string list \<Rightarrow> mworld \<Rightarrow> int \<times> said list" where
  "providerStatus pe args w = (case providerFlags args of
      Inl e \<Rightarrow> (exitUsage, [Err e])
    | Inr (dataDir, _, _) \<Rightarrow> (case providerDataDir (pc_config pe) dataDir of
        Inl e \<Rightarrow> (exitUsage, [Err e])
      | Inr dir \<Rightarrow>
         (let path = provider_Path dir in
          case LoadFile ((pc_mullvad pe)\<lparr>me_path := path\<rparr>) w of
            Inl FileMissing \<Rightarrow> (exitUsage, map Out (MissingProviderMessage dir))
          | Inl (MullErr x) \<Rightarrow> (exitUsage, [Err (''error: '' @ x)])
          | Inr f \<Rightarrow> (exitOK, status_lines path f))))"

definition providerLogout :: "pcenv \<Rightarrow> string list \<Rightarrow> mworld \<Rightarrow> (int \<times> said list) \<times> mworld" where
  "providerLogout pe args w = (case providerFlags args of
      Inl e \<Rightarrow> ((exitUsage, [Err e]), w)
    | Inr (dataDir, _, _) \<Rightarrow> (case providerDataDir (pc_config pe) dataDir of
        Inl e \<Rightarrow> ((exitUsage, [Err e]), w)
      | Inr dir \<Rightarrow> (case Logout ((pc_mullvad pe)\<lparr>me_path := provider_Path dir\<rparr>) w of
          (Some x, w1) \<Rightarrow> ((exitUsage, [Err (''error: '' @ x)]), w1)
        | (None, w1) \<Rightarrow> ((exitOK, [Out ''Removed local provider configuration.'',
            Out ''Mullvad devices were not deleted; manage them at https://mullvad.net/account'', Out ''--fresh never does this.'']), w1))))"

definition provider_usage :: "said list" where
  "provider_usage = map Err [''Usage:'', ''  tab-router provider login [--account N] [--identities 2] [--data-dir DIR]'',
     ''  tab-router provider status [--data-dir DIR]'', ''  tab-router provider logout [--data-dir DIR]'', [],
     ''Optional Mullvad override. Normal startup does not use this.'']"

definition runProvider :: "pcenv \<Rightarrow> string list \<Rightarrow> mworld \<Rightarrow> (int \<times> said list) \<times> mworld" where
  "runProvider pe args w = (case args of
      [] \<Rightarrow> ((exitUsage, provider_usage), w)
    | cmd # rest \<Rightarrow>
        if cmd = ''-h'' \<or> cmd = ''--help'' then ((exitUsage, provider_usage), w)
        else if cmd = ''login'' then providerLogin pe rest w
        else if cmd = ''status'' then (providerStatus pe rest w, w)
        else if cmd = ''logout'' then providerLogout pe rest w
        else ((exitUsage, [Err (''unknown provider command '' @ Quote cmd)]), w))"

section \<open>Properties\<close>

text \<open>What a command may show of a file: the type, the redacted account, and each device without its key.\<close>

definition shown :: "File \<Rightarrow> string \<times> string \<times> (int \<times> string \<times> string) list" where
  "shown f = (pf_Type f, RedactAccount (pf_Account f), map (\<lambda>d. (dv_Slot d, dv_Name d, dv_IPv4 d)) (pf_Device f))"

lemma shown_lines:
  assumes "shown f = shown g"
  shows "status_lines p f = status_lines p g" "login_lines p f = login_lines p g"
proof -
  have m: "map (\<lambda>d. h (dv_Slot d) (dv_Name d) (dv_IPv4 d)) (pf_Device f) = map (\<lambda>d. h (dv_Slot d) (dv_Name d) (dv_IPv4 d)) (pf_Device g)"
    for h :: "int \<Rightarrow> string \<Rightarrow> string \<Rightarrow> said"
  proof -
    have "map (\<lambda>(a, b, c). h a b c) (map (\<lambda>d. (dv_Slot d, dv_Name d, dv_IPv4 d)) (pf_Device f))
      = map (\<lambda>(a, b, c). h a b c) (map (\<lambda>d. (dv_Slot d, dv_Name d, dv_IPv4 d)) (pf_Device g))"
      using assms by (simp only: shown_def prod.inject)
    then show ?thesis by (simp add: comp_def)
  qed
  have l: "length (pf_Device f) = length (pf_Device g)"
    using assms by (auto simp: shown_def dest: map_eq_imp_length_eq)
  then have n: "pf_Device f = [] \<longleftrightarrow> pf_Device g = []" by (cases "pf_Device f"; cases "pf_Device g") auto
  show "status_lines p f = status_lines p g" "login_lines p f = login_lines p g"
    using assms m l n by (simp_all add: status_lines_def login_lines_def shown_def)
qed

text \<open>
  What is shown of a stored account does not depend on its keys, nor on more of its number than the length and the last four
  digits: two files that agree on what may be shown give the same report.
\<close>

theorem provider_secrets_hidden:
  assumes "shown f = shown g"
  shows "providerStatus (pe\<lparr>pc_mullvad := (pc_mullvad pe)\<lparr>me_decode := \<lambda>_. Inr f\<rparr>\<rparr>) args w
    = providerStatus (pe\<lparr>pc_mullvad := (pc_mullvad pe)\<lparr>me_decode := \<lambda>_. Inr g\<rparr>\<rparr>) args w"
  using shown_lines [OF assms]
  by (auto simp: providerStatus_def LoadFile_def Let_def split: sum.splits option.splits mull_err.splits prod.splits)

text \<open>
  The provider commands tell the truth about the file. After a login that exits 0, \<open>status\<close> exits 0 and reports the very
  file the login reported; after a logout that exits 0, \<open>status\<close> exits 1 with the message that nothing is configured; and
  \<open>status\<close>, the help and unknown commands change nothing.
\<close>

theorem provider_lifecycle:
  assumes "providerFlags la = Inr (dir, acc, n)" "providerFlags sa = Inr (dir, acc', n')" "providerFlags oa = Inr (dir, acc'', n'')"
  shows "(case runProvider pe (''login'' # la) w of ((code, out), w1) \<Rightarrow> code = exitOK \<longrightarrow>
      (\<exists>path f. out = login_lines path f \<and> runProvider pe (''status'' # sa) w1 = ((exitOK, status_lines path f), w1)))
    \<and> (case runProvider pe (''logout'' # oa) w of ((code, out), w1) \<Rightarrow> code = exitOK \<longrightarrow>
      (\<exists>d. runProvider pe (''status'' # sa) w1 = ((exitUsage, map Out (MissingProviderMessage d)), w1)))
    \<and> (cmd \<noteq> ''login'' \<and> cmd \<noteq> ''logout'' \<longrightarrow> snd (runProvider pe (cmd # rest) w) = w)"
proof (intro conjI)
  show "case runProvider pe (''login'' # la) w of ((code, out), w1) \<Rightarrow> code = exitOK \<longrightarrow>
      (\<exists>path f. out = login_lines path f \<and> runProvider pe (''status'' # sa) w1 = ((exitOK, status_lines path f), w1))"
    using assms(1,2)
    by (auto simp: runProvider_def providerLogin_def providerStatus_def exit_codes Let_def
        split: sum.splits option.splits prod.splits if_splits)
  show "case runProvider pe (''logout'' # oa) w of ((code, out), w1) \<Rightarrow> code = exitOK \<longrightarrow>
      (\<exists>d. runProvider pe (''status'' # sa) w1 = ((exitUsage, map Out (MissingProviderMessage d)), w1))"
    using assms(2,3)
    by (auto simp: runProvider_def providerLogout_def providerStatus_def exit_codes Let_def Logout_def LoadFile_def
        split: sum.splits option.splits prod.splits if_splits)
  show "cmd \<noteq> ''login'' \<and> cmd \<noteq> ''logout'' \<longrightarrow> snd (runProvider pe (cmd # rest) w) = w"
    by (simp add: runProvider_def)
qed

definition sample_pcenv :: pcenv where
  "sample_pcenv = \<lparr>pc_config = sample_cfgenv, pc_mullvad = sample_menv, pc_terminal = False, pc_line = []\<rparr>"

theorem provider_lifecycle_witness:
  "\<exists>w1. runProvider sample_pcenv [''logout''] (sample_mworld\<lparr>mw_file := Some []\<rparr>) = ((exitOK, [Out ''Removed local provider configuration.'',
      Out ''Mullvad devices were not deleted; manage them at https://mullvad.net/account'', Out ''--fresh never does this.'']), w1)
    \<and> (\<exists>d. runProvider sample_pcenv [''status''] w1 = ((exitUsage, map Out (MissingProviderMessage d)), w1))"
proof -
  let ?w = "sample_mworld\<lparr>mw_file := Some []\<rparr>"
  have f: "providerFlags [] = Inr ([], [], 2)"
    by (simp add: providerFlags_def provider_flag_set_def str_flag_def int_flag_def MaxIdentities_def)
  obtain dir where d: "providerDataDir sample_cfgenv [] = Inr dir"
  proof -
    have "\<not> isl (providerDataDir sample_cfgenv [])" by code_simp
    then show ?thesis using that by (cases "providerDataDir sample_cfgenv []") auto
  qed
  have "Logout (sample_menv\<lparr>me_path := provider_Path dir\<rparr>) ?w = (None, ?w\<lparr>mw_file := None\<rparr>)"
    by (simp add: Logout_def sample_menv_def)
  then have r: "runProvider sample_pcenv [''logout''] ?w = ((exitOK, [Out ''Removed local provider configuration.'',
      Out ''Mullvad devices were not deleted; manage them at https://mullvad.net/account'', Out ''--fresh never does this.'']), ?w\<lparr>mw_file := None\<rparr>)"
    by (simp add: runProvider_def providerLogout_def f d sample_pcenv_def)
  have "case runProvider sample_pcenv [''logout''] ?w of ((code, out), w1) \<Rightarrow> code = exitOK \<longrightarrow>
      (\<exists>d. runProvider sample_pcenv [''status''] w1 = ((exitUsage, map Out (MissingProviderMessage d)), w1))"
    by (rule provider_lifecycle [OF f f f, THEN conjunct2, THEN conjunct1])
  then have "\<exists>d. runProvider sample_pcenv [''status''] (?w\<lparr>mw_file := None\<rparr>)
      = ((exitUsage, map Out (MissingProviderMessage d)), ?w\<lparr>mw_file := None\<rparr>)"
    unfolding r by (simp only: prod.case simp_thms)
  with r show ?thesis by (intro exI [of _ "?w\<lparr>mw_file := None\<rparr>"] conjI)
qed

end
