(* ===== verification/Command_Line.thy ===== *)
theory Command_Line
  imports Session_Start Control Ipc Console Installers Provider_Commands
begin

text \<open>
  The command \<open>tab-router\<close> (\<open>src/cmd/tab-router/main.go\<close>) after its flags have been read: starting a session and serving it
  until it ends, and the commands over a running session, over the routes and over the activation.

  A machine holds what the commands share: the identity tree, the files of the control channel, the installation folder, the token
  file and the provider file, all of the data directory in use, and the session's world. Environment: everything else. The questions
  a prompt prints, the lines that announce a shutdown and the usage texts of the flag package are left out.
\<close>

section \<open>Environment and machine\<close>

record cmdenv =
  cx_windows :: bool
  cx_config :: cfgenv
  cx_terminal :: bool
  cx_login :: "string \<times> read_err option"
  cx_password :: "string result"
  cx_answers :: "string \<times> string"
  cx_routesStat :: "string \<Rightarrow> file_read"
  cx_routesPrivate :: "string \<Rightarrow> gerr option"
  cx_routesRead :: "string \<Rightarrow> string result"
  cx_routesDecode :: "string \<Rightarrow> RouteDef list result"
  cx_ipc :: ipc_env
  cx_order :: "string list"
  cx_find :: "files \<Rightarrow> findenv"
  cx_install :: instenv
  cx_pin :: PinManifest
  cx_path :: "string \<Rightarrow> fpath"
  cx_start :: startenv
  cx_env :: env
  cx_base :: SConfig
  cx_status :: "Client \<Rightarrow> string \<Rightarrow> Status result"
  cx_shutdown :: "Client \<Rightarrow> gerr option"
  cx_polls :: "(bool \<times> bool) list"
  cx_tokenfs :: fsenv
  cx_deactivated :: "string \<Rightarrow> string \<Rightarrow> string \<Rightarrow> client_err option"
  cx_info :: session_info
  cx_provider :: pcenv

record machine =
  ma_tree :: iroot
  ma_run :: run_dir
  ma_files :: files
  ma_token :: "string option"
  ma_mullvad :: mworld
  ma_world :: world

definition getenv_of :: "cmdenv \<Rightarrow> string \<Rightarrow> string" where
  "getenv_of x = ce_getenv (cx_config x)"

definition load_routes :: "cmdenv \<Rightarrow> string \<Rightarrow> routes_err + RouteDef list" where
  "load_routes x path = LoadRoutes (cx_routesStat x path) (cx_routesPrivate x path) (cx_routesRead x path) (cx_routesDecode x) path"

definition routes_text :: "routes_err \<Rightarrow> gerr" where
  "routes_text e = (case e of ErrNoRoutes p \<Rightarrow> ''routes file not found: '' @ p | RErr m \<Rightarrow> m)"

definition error_line :: "gerr \<Rightarrow> said" where
  "error_line e = Err (''error: '' @ e)"

section \<open>Getting ready\<close>

definition prepareProvisioner :: "(string \<Rightarrow> string) \<Rightarrow> config \<Rightarrow> string \<Rightarrow> string \<Rightarrow> Decodo result" where
  "prepareProvisioner getenv c user pass =
    (if TrimSpace user = [] \<or> pass = [] then Inl ErrDecodoLogin
     else let r = cg_Routing c;
              host = (if getenv ''DECODO_HOST'' \<noteq> [] then getenv ''DECODO_HOST'' else rc_Host r);
              country = (if getenv ''DECODO_COUNTRY'' \<noteq> [] then getenv ''DECODO_COUNTRY'' else rc_Country r) in
       (case proxy_number ''DECODO_PORT'' (getenv ''DECODO_PORT'') (rc_Port r) of
          Inl e \<Rightarrow> Inl e
        | Inr port \<Rightarrow> (case proxy_number ''DECODO_SESSION_MINUTES'' (getenv ''DECODO_SESSION_MINUTES'') (rc_SessionMinutes r) of
            Inl e \<Rightarrow> Inl e
          | Inr minutes \<Rightarrow> NewDecodo \<lparr>cf_Account = TrimSpace user, cf_Password = pass, cf_Host = host, cf_Port = port,
              cf_Country = country, cf_SessionMinutes = minutes, cf_StatePath = decodoStatePath (cg_DataDir c)\<rparr>)))"

definition fetching :: "cmdenv \<Rightarrow> said" where
  "fetching x = Err (''Chromium not found; downloading official Chromium snapshot '' @ pm_Version (cx_pin x) @ ellipsis)"

definition own_chromium :: "cmdenv \<Rightarrow> config \<Rightarrow> files \<Rightarrow> bool" where
  "own_chromium x c fs = (case find_browser (cx_find x fs) (cg_DataDir c) (Some (cx_pin x)) of
     Inl _ \<Rightarrow> False | Inr f \<Rightarrow> fo_Source f \<noteq> System)"

definition ensureChromium :: "cmdenv \<Rightarrow> config \<Rightarrow> files \<Rightarrow> gerr option \<times> said list \<times> files" where
  "ensureChromium x c fs =
    (if own_chromium x c fs then (None, [], fs)
     else case chromium_Install (cx_install x) (cx_path x (cg_DataDir c) @ [''chromium'']) (Some (cx_pin x)) [] fs of
       (Inl e, fs1) \<Rightarrow> (Some e, [fetching x], fs1)
     | (Inr _, fs1) \<Rightarrow> (None, [fetching x], fs1))"

text \<open>The prompt: how many identities and which URL; \<open>None\<close> after an answer that is refused.\<close>

definition prompt :: "cmdenv \<Rightarrow> (int \<times> string) option \<times> said list" where
  "prompt x =
    (let line = TrimSpace (fst (cx_answers x)); u = TrimSpace (snd (cx_answers x));
         n = (if line = [] then Some 2 else case Atoi line of None \<Rightarrow> None | Some v \<Rightarrow> if v < 1 then None else Some v) in
     case n of
       None \<Rightarrow> (None, [Err ''please enter a positive number''])
     | Some k \<Rightarrow> if u = [] then (Some (k, u), [])
         else (case ValidateURL (ce_url (cx_config x)) u of Some e \<Rightarrow> (None, [Err e]) | None \<Rightarrow> (Some (k, u), [])))"

section \<open>Starting a session\<close>

text \<open>
  The exit code of an error of \<open>Run\<close> and what is said of it. A panic is not an error \<open>exitFor\<close> sees: it ends the process with the
  status the language's runtime gives every panic, 2.
\<close>

definition exitFor :: "start_err \<Rightarrow> int \<times> said list" where
  "exitFor e = (case e of
      Failed VerificationFailed \<Rightarrow> (exitVerification, [])
    | Failed (RouteFailed m) \<Rightarrow> (exitRoute, [error_line (''route establishment failed: '' @ m)])
    | Failed (BrowserFailed m) \<Rightarrow> (exitBrowser, [error_line (''browser launch failed: '' @ m)])
    | Failed Panicked \<Rightarrow> (2, [Err ''panic''])
    | SetupFailed m \<Rightarrow> (exitUsage, [error_line m]))"

text \<open>The provisioner a start passes to \<open>Run\<close> and the explicit routes; or an exit code with its error.\<close>

definition route_source ::
  "cmdenv \<Rightarrow> Overrides \<Rightarrow> config \<Rightarrow> string \<Rightarrow> string \<Rightarrow> (int \<times> gerr) + (Provisioner option \<times> RouteDef list)" where
  "route_source x ov c user pass =
    (if ov_RoutesPath ov \<noteq> [] then
       (case load_routes x (cg_RoutesPath c) of Inl e \<Rightarrow> Inl (exitUsage, routes_text e) | Inr defs \<Rightarrow> Inr (None, defs))
     else (case prepareProvisioner (getenv_of x) c user pass of
       Inl e \<Rightarrow> Inl (exitRoute, e) | Inr d \<Rightarrow> Inr (Some (DecodoP d), [])))"

text \<open>A start either ends with an exit code or serves a session: the configuration, the monitor and the control channel.\<close>

datatype start_outcome = Exit int | Serving config monitor ipc_server

definition start :: "cmdenv \<Rightarrow> Overrides \<Rightarrow> string \<Rightarrow> string \<Rightarrow> machine \<Rightarrow> (start_outcome \<times> said list \<times> machine) option" where
  "start x ov user pass m =
    (case Load (cx_config x) ov of
       (Some e, _) \<Rightarrow> Some (Exit exitUsage, [error_line e], m)
     | (None, c) \<Rightarrow>
        (case ipc_Dial (cx_ipc x) (ma_run m) of
           Inr _ \<Rightarrow> Some (Exit exitRunning, [Err ''tab-router is already running; use --status or --stop''], m)
         | Inl _ \<Rightarrow>
            (case route_source x ov c user pass of
               Inl (code, e) \<Rightarrow> Some (Exit code, [error_line e], m)
             | Inr (prov, defs) \<Rightarrow>
                (case ensureChromium x c (ma_files m) of
                   (Some e, out, fs1) \<Rightarrow> Some (Exit exitBrowser, out @ [error_line e], m\<lparr>ma_files := fs1\<rparr>)
                 | (None, out, fs1) \<Rightarrow>
                    (case session_Run (cx_start x) (cx_env x) (cx_base x) c prov defs (ma_tree m, ma_world m) of
                       None \<Rightarrow> None
                     | Some (Inl e, r, w) \<Rightarrow>
                         Some (Exit (fst (exitFor e)), out @ snd (exitFor e), m\<lparr>ma_files := fs1, ma_tree := r, ma_world := w\<rparr>)
                     | Some (Inr mon, r, w) \<Rightarrow>
                        (case Listen (cx_order x) (cx_ipc x) (ma_run m) of
                           (Inl e, d) \<Rightarrow> Some (Exit exitRunning, out @ [Out (''ERROR: control channel: '' @ e)],
                             m\<lparr>ma_files := fs1, ma_tree := r, ma_run := d, ma_world := Shutdown w\<rparr>)
                         | (Inr srv, d) \<Rightarrow> Some (Serving c mon srv, out @ [Out (''Control channel: '' @ is_endpoint srv),
                             Out ''Press Ctrl-C or run `tab-router --stop` to shut down.''],
                             m\<lparr>ma_files := fs1, ma_tree := r, ma_run := d, ma_world := w\<rparr>)))))))"

text \<open>
  The loop of \<open>start\<close> once it serves: the state of the session with whether a stop was requested, until the session has been shut
  down and the control channel closed. \<open>work\<close> is the monitor and the requests of \<open>control_step\<close>; \<open>request\<close> is any handler.
\<close>

datatype serving = Loop running bool ipc_server run_dir | Ended world run_dir

inductive serve_step :: "cmdenv \<Rightarrow> config \<Rightarrow> session_view \<Rightarrow> serving \<Rightarrow> serving \<Rightarrow> bool" for x c sv where
  work: "control_step (sconfig_of (cx_base x) c) (ce_url (cx_config x)) (cx_env x) r r' \<Longrightarrow>
    serve_step x c sv (Loop r stop srv d) (Loop r' stop srv d)"
| request: "IPCHandlers sv meth = Some h \<Longrightarrow> h params (w, stop) = (res, w', stop') \<Longrightarrow>
    serve_step x c sv (Loop (gone, mon, w) stop srv d) (Loop (gone, mon, w') stop' srv d)"
| browser_exits: "serve_step x c sv (Loop (gone, mon, w) stop srv d) (Loop (gone, mon, set_alive i False w) stop srv d)"
| interrupted: "serve_step x c sv (Loop (gone, mon, w) stop srv d) (Ended (Shutdown w) (snd (ipc_Close (srv, d))))"
| stopped: "serve_step x c sv (Loop (gone, mon, w) True srv d) (Ended (Shutdown w) (snd (ipc_Close (srv, d))))"
| closed: "AllBrowsersExited w \<Longrightarrow>
    serve_step x c sv (Loop (gone, mon, w) stop srv d) (Ended (Shutdown w) (snd (ipc_Close (srv, d))))"

inductive_cases serve_step_LoopE: "serve_step x c sv (Loop r stop srv d) t"
inductive_cases serve_step_EndedE [elim!]: "serve_step x c sv (Ended w d) t"

section \<open>Over a running session\<close>

definition printStatus :: "(int \<Rightarrow> string) \<Rightarrow> (int \<Rightarrow> string) \<Rightarrow> Status \<Rightarrow> said list" where
  "printStatus age rfc3339 st =
    (let host = (if st_HostIPv4 st = [] then [] else [Out (''Host IP: '' @ st_HostIPv4 st @ '' (never used by identities)'')]);
         one = (\<lambda>i. let state = is_RouteStatus i @ (if is_BrowserAlive i then [] else '', browser closed'') in
           [Out (''Identity '' @ fmt03d (is_Index i) @ '' -> '' @ is_Route i @ '' ('' @ is_RouteType i @ '') -> '' @ state
              @ ''   egress '' @ is_EgressIP i)]
           @ (if is_CurrentURL i = [] then [] else [Out (''  URL: '' @ is_CurrentURL i)])
           @ [Out (''  Environment: '' @ ev_Locale (is_Environment i) @ '', '' @ ev_Timezone (is_Environment i) @ '', ''
              @ Itoa (ev_WindowWidth (is_Environment i)) @ ''x'' @ Itoa (ev_WindowHeight (is_Environment i)))]
           @ (if hs_Down (is_Health i) then [Out (''  DOWN since ''
                @ (case hs_DownSince (is_Health i) of None \<Rightarrow> ''0001-01-01T00:00:00Z'' | Some t \<Rightarrow> rfc3339 t)
                @ '': '' @ hs_LastError (is_Health i))] else [])
           @ map (\<lambda>l. Out (''  ALARM non-gate endpoint: '' @ l)) (hs_Leaks (is_Health i))) in
     [Out (''TAB ROUTER '' @ st_Version st @ ''   pid '' @ Itoa (st_PID st) @ ''   up '' @ age (st_StartedAt st)),
      Out (''Browser: '' @ st_Chromium st @ '' ('' @ st_Source st @ '')'')]
     @ host @ concat (map one (st_Identities st)) @ map (\<lambda>e. Out (''  '' @ e)) (st_Events st))"

definition pad22 :: "string \<Rightarrow> string" where
  "pad22 s = s @ replicate (22 - length s) (CHR '' '')"

definition printDiagnostics :: "Status \<Rightarrow> said list" where
  "printDiagnostics st =
    (let ok = (\<lambda>b. if b then ''OK  '' else ''FAIL'');
         one = (\<lambda>i. [Out (''Identity '' @ fmt03d (is_Index i) @ '' -> '' @ is_Route i)]
           @ map (\<lambda>c. Out (''  '' @ pad22 (cs_Name c) @ '' '' @ ok (cs_Passed c) @ '' '' @ cs_Detail c)) (is_Checks i)
           @ (if is_CurrentURL i = [] then [] else [Out (''  '' @ pad22 ''startup URL'' @ '' OK   '' @ is_CurrentURL i)])) in
     [Out (''Browser        OK   '' @ st_Chromium st @ '' ('' @ st_Source st @ '')''), Out (''Controller     OK   pid '' @ Itoa (st_PID st))]
     @ concat (map one (st_Identities st)))"

text \<open>How a status document is printed: as JSON, or by \<open>printStatus\<close> or \<open>printDiagnostics\<close>.\<close>

datatype printed = Json Status | Lines "said list"

definition showStatus :: "cmdenv \<Rightarrow> (int \<Rightarrow> string) \<Rightarrow> Overrides \<Rightarrow> bool \<Rightarrow> run_dir \<Rightarrow> int \<times> printed" where
  "showStatus x age ov json d = (case Load (cx_config x) ov of
      (Some e, _) \<Rightarrow> (exitUsage, Lines [error_line e])
    | (None, c) \<Rightarrow> (case ipc_Dial (cx_ipc x) d of
        Inl _ \<Rightarrow> (exitUsage, Lines [Err ''tab-router is not running''])
      | Inr cl \<Rightarrow> (case cx_status x cl ''status'' of
          Inl e \<Rightarrow> (exitUsage, Lines [error_line e])
        | Inr st \<Rightarrow> (exitOK, if json then Json st else Lines (printStatus age (si_rfc3339 (cx_info x)) st)))))"

text \<open>The polls of \<open>stopSession\<close>: whether the deadline is still ahead, and whether the session is gone.\<close>

fun poll_gone :: "(bool \<times> bool) list \<Rightarrow> bool" where
  "poll_gone [] = False"
| "poll_gone ((before, gone) # ps) = (before \<and> (gone \<or> poll_gone ps))"

definition stopSession :: "cmdenv \<Rightarrow> Overrides \<Rightarrow> run_dir \<Rightarrow> int \<times> said list" where
  "stopSession x ov d = (case Load (cx_config x) ov of
      (Some e, _) \<Rightarrow> (exitUsage, [error_line e])
    | (None, c) \<Rightarrow> (case ipc_Dial (cx_ipc x) d of
        Inl _ \<Rightarrow> (exitUsage, [Err ''tab-router is not running''])
      | Inr cl \<Rightarrow> (case cx_shutdown x cl of
          Some e \<Rightarrow> (exitUsage, [error_line e])
        | None \<Rightarrow> if poll_gone (cx_polls x) then (exitOK, [Out ''stopped''])
                 else (exitUsage, [Err ''shutdown requested but the session is still running'']))))"

definition verdict :: "Status \<Rightarrow> int" where
  "verdict st = (if list_all is_Verified (st_Identities st) then exitOK else exitVerification)"

definition diagnostics_report :: "bool \<Rightarrow> Status \<Rightarrow> printed" where
  "diagnostics_report json st = (if json then Json st else Lines (printDiagnostics st))"

text \<open>
  Diagnostics: of the running session, or of a temporary one without windows and without a startup URL. The routes file and the
  provisioner of a start are not given to the temporary session. \<open>None\<close>: its \<open>Run\<close> did not return.
\<close>

definition runDiagnostics :: "cmdenv \<Rightarrow> Overrides \<Rightarrow> bool \<Rightarrow> machine \<Rightarrow> (int \<times> printed \<times> machine) option" where
  "runDiagnostics x ov json m = (case Load (cx_config x) ov of
      (Some e, _) \<Rightarrow> Some (exitUsage, Lines [error_line e], m)
    | (None, c0) \<Rightarrow> (case ipc_Dial (cx_ipc x) (ma_run m) of
        Inr cl \<Rightarrow> (case cx_status x cl ''diagnostics.run'' of
            Inl e \<Rightarrow> Some (exitUsage, Lines [error_line e], m)
          | Inr st \<Rightarrow> Some (verdict st, diagnostics_report json st, m))
      | Inl _ \<Rightarrow>
         (let c = c0\<lparr>cg_Headless := True, cg_StartupURL := []\<rparr> in
          case ensureChromium x c (ma_files m) of
            (Some e, out, fs1) \<Rightarrow> Some (exitBrowser, Lines (out @ [error_line e]), m\<lparr>ma_files := fs1\<rparr>)
          | (None, out, fs1) \<Rightarrow>
             (case session_Run (cx_start x) (cx_env x) (cx_base x) c None [] (ma_tree m, ma_world m) of
                None \<Rightarrow> None
              | Some (Inl e, r, w) \<Rightarrow> Some (fst (exitFor e), Lines (out @ snd (exitFor e)),
                  m\<lparr>ma_files := fs1, ma_tree := r, ma_world := w\<rparr>)
              | Some (Inr mon, r, w) \<Rightarrow>
                 (let st = Session_Status (cx_info x) (Some mon) w in
                  Some (verdict st, diagnostics_report json st, m\<lparr>ma_files := fs1, ma_tree := r, ma_world := Shutdown w\<rparr>))))))"

section \<open>Checking the routes\<close>

text \<open>One turn of the loop: whether the route reached its address, the line, and the route stopped again.\<close>

definition check_one :: "env \<Rightarrow> string \<Rightarrow> nat \<Rightarrow> nat \<Rightarrow> world \<Rightarrow> bool \<times> said \<times> world" where
  "check_one env url k ref w =
    (let head = ''Route '' @ fmt03d (int k) @ ''  '' @ Redacted (route_Def (se_routes w ref)) @ ''  '' in
     case start_route env ref w of
       (Some e, w1) \<Rightarrow> (False, Out (head @ ''UNREACHABLE '' @ e), stop_route ref w1)
     | (None, w1) \<Rightarrow> (case route_PublicIP (ask env w1) (se_routes w1 ref) url of
           Inl e \<Rightarrow> (False, Out (head @ ''NO EGRESS '' @ e), stop_route ref (tick w1))
         | Inr ip \<Rightarrow> (True, Out (head @ ip_String ip), stop_route ref (tick w1))))"

fun check_each :: "env \<Rightarrow> string \<Rightarrow> nat \<Rightarrow> nat list \<Rightarrow> world \<Rightarrow> int \<times> said list \<times> world" where
  "check_each env url k [] w = (exitOK, [], w)"
| "check_each env url k (ref # refs) w =
    (case check_one env url k ref w of (ok, line, w1) \<Rightarrow>
     (case check_each env url (Suc k) refs w1 of (rc, out, w2) \<Rightarrow> (if ok then rc else exitRoute, line # out, w2)))"

text \<open>The provisioner of a check, with its exit code when there is none.\<close>

definition check_source :: "cmdenv \<Rightarrow> Overrides \<Rightarrow> config \<Rightarrow> (int \<times> gerr) + Provisioner" where
  "check_source x ov c =
    (case (if ov_RoutesPath ov \<noteq> [] then load_routes x (cg_RoutesPath c) else Inr []) of
       Inl e \<Rightarrow> Inl (exitUsage, routes_text e)
     | Inr explicit \<Rightarrow>
        if explicit = [] then
          (case ReadDecodoLogin (getenv_of x ''DECODO_USERNAME'') (getenv_of x ''DECODO_PASSWORD'') False None None of
             Inl e \<Rightarrow> Inl (exitRoute, e)
           | Inr (user, pass) \<Rightarrow> (case prepareProvisioner (getenv_of x) c user pass of
               Inl e \<Rightarrow> Inl (exitRoute, e) | Inr d \<Rightarrow> Inr (DecodoP d)))
        else (case Resolve (getenv_of x) (cg_DataDir c) explicit of
               Inl e \<Rightarrow> Inl (exitUsage, e) | Inr (p, _) \<Rightarrow> Inr p))"

definition routeCheck :: "cmdenv \<Rightarrow> Overrides \<Rightarrow> world \<Rightarrow> int \<times> said list \<times> world" where
  "routeCheck x ov w = (case Load (cx_config x) ov of
      (Some e, _) \<Rightarrow> (exitUsage, [error_line e], w)
    | (None, c) \<Rightarrow> (case check_source x ov c of
        Inl (code, e) \<Rightarrow> (code, [error_line e], w)
      | Inr p \<Rightarrow> (let first = Out (''Network provider: '' @ prov_Name p) in
         (case prov_Provision (cx_env x) (cg_Identities c) p w of
            (Inl e, w1) \<Rightarrow> (exitRoute, [first, error_line e], w1)
          | (Inr rs, w1) \<Rightarrow> (case alloc_all rs w1 of
              (refs, w2) \<Rightarrow> (case check_each (cx_env x) (vc_IPEchoURL (cg_Verify c)) 1 refs w2 of
                (rc, out, w3) \<Rightarrow> (rc, first # out, w3)))))))"

section \<open>Deactivating\<close>

definition client_text :: "client_err \<Rightarrow> gerr" where
  "client_text e = (case e of CInvalidKey \<Rightarrow> ''activation key is invalid'' | CExpired \<Rightarrow> ''activation expired''
     | CRevoked \<Rightarrow> ''activation revoked'' | CLimit \<Rightarrow> ''activation key is already in use'' | CUnavailable \<Rightarrow> ''activation server unavailable''
     | CNotActivated \<Rightarrow> ''not activated'' | CProxyMissing \<Rightarrow> ''activation did not include proxy access'' | COther m \<Rightarrow> m)"

definition deactivate :: "cmdenv \<Rightarrow> Overrides \<Rightarrow> string option \<Rightarrow> (int \<times> said list) \<times> string option" where
  "deactivate x ov tok = (case Load (cx_config x) ov of
      (Some e, _) \<Rightarrow> ((exitUsage, [error_line e]), tok)
    | (None, c) \<Rightarrow>
       if TrimSpace (cg_ActivationServer c) = [] then ((exitUsage, [Err ''error: no activation server configured'']), tok)
       else (case file_Load (cx_tokenfs x) tok of
          Inl e \<Rightarrow> ((exitUsage, [error_line (client_text e)]), tok)
        | Inr rec \<Rightarrow>
           (case cx_deactivated x (cg_ActivationServer c) (re_InstallationID rec) (re_Token rec) of
              e \<Rightarrow> if e \<noteq> None \<and> e \<noteq> Some CInvalidKey \<and> e \<noteq> Some CRevoked
                   then ((exitRoute, [error_line (client_text (the e))]), tok)
                   else (case file_Clear (cx_tokenfs x) tok of
                      (Some f, tok1) \<Rightarrow> ((exitRoute, [error_line (client_text f)]), tok1)
                    | (None, tok1) \<Rightarrow> ((exitOK, [Out ''Activation removed from this installation.'']), tok1)))))"

section \<open>The whole command\<close>

text \<open>Signing in and prompting before a start; \<open>mute\<close> is \<open>--no-interactive\<close>.\<close>

definition sign_in :: "cmdenv \<Rightarrow> Overrides \<Rightarrow> bool \<Rightarrow> (string \<times> string) result" where
  "sign_in x ov mute = (if ov_RoutesPath ov \<noteq> [] then Inr ([], [])
     else ReadDecodoLogin (getenv_of x ''DECODO_USERNAME'') (getenv_of x ''DECODO_PASSWORD'') (\<not> mute \<and> cx_terminal x)
       (Some (cx_login x)) (Some (cx_password x)))"

definition interview :: "cmdenv \<Rightarrow> Overrides \<Rightarrow> bool \<Rightarrow> nat \<Rightarrow> Overrides option \<times> said list" where
  "interview x ov mute nflag =
    (if \<not> mute \<and> cx_terminal x \<and> nflag = 0 then
       (case prompt x of
          (None, out) \<Rightarrow> (None, out)
        | (Some (n, u), out) \<Rightarrow> (Some (ov\<lparr>ov_Identities := n, ov_URL := u, ov_URLSet := True\<rparr>), out))
     else (Some ov, []))"

definition start_command :: "cmdenv \<Rightarrow> Overrides \<Rightarrow> bool \<Rightarrow> nat \<Rightarrow> machine \<Rightarrow> (start_outcome \<times> printed \<times> machine) option" where
  "start_command x ov mute nflag m = (case sign_in x ov mute of
      Inl e \<Rightarrow> Some (Exit exitRoute, Lines [error_line e], m)
    | Inr (user, pass) \<Rightarrow> (case interview x ov mute nflag of
        (None, out) \<Rightarrow> Some (Exit exitUsage, Lines out, m)
      | (Some ov1, out) \<Rightarrow> (case start x ov1 user pass m of
          None \<Rightarrow> None | Some (s, out1, m1) \<Rightarrow> Some (s, Lines (out @ out1), m1))))"

definition tab_router :: "cmdenv \<Rightarrow> (int \<Rightarrow> string) \<Rightarrow> string list \<Rightarrow> machine \<Rightarrow> (start_outcome \<times> printed \<times> machine) option" where
  "tab_router x age args m = (case dispatch (cx_windows x) args of
      ProviderCmd rest \<Rightarrow> (case runProvider (cx_provider x) rest (ma_mullvad m) of
        ((code, out), w) \<Rightarrow> Some (Exit code, Lines out, m\<lparr>ma_mullvad := w\<rparr>))
    | BadFlags e \<Rightarrow> Some (Exit exitUsage, Lines [Err e], m)
    | ShowVersion \<Rightarrow> Some (Exit exitOK, Lines [Out (''tab-router '' @ si_Version (cx_info x))], m)
    | TooMany n \<Rightarrow> Some (Exit exitUsage, Lines [Err (''identities='' @ Itoa n @ '' exceeds the current cap of '' @ Itoa MaxIdentities
        @ ''; the 2-identity milestone must pass first (docs/ENGINEERING_PLAN.md M9)'')], m)
    | RouteCheck ov \<Rightarrow> (case routeCheck x ov (ma_world m) of (code, out, w) \<Rightarrow> Some (Exit code, Lines out, m\<lparr>ma_world := w\<rparr>))
    | DeactivateCmd ov \<Rightarrow> (case deactivate x ov (ma_token m) of
        ((code, out), tok) \<Rightarrow> Some (Exit code, Lines out, m\<lparr>ma_token := tok\<rparr>))
    | UnknownCmd cmd \<Rightarrow> Some (Exit exitUsage, Lines [Err (''unknown command '' @ Quote cmd)], m)
    | StatusCmd ov json \<Rightarrow> (case showStatus x age ov json (ma_run m) of (code, out) \<Rightarrow> Some (Exit code, out, m))
    | StopCmd ov \<Rightarrow> (case stopSession x ov (ma_run m) of (code, out) \<Rightarrow> Some (Exit code, Lines out, m))
    | DiagnosticsCmd ov json uni \<Rightarrow> (case runDiagnostics x ov json m of
        None \<Rightarrow> None | Some (code, out, m1) \<Rightarrow> Some (Exit code, out, m1))
    | StartCmd ov uni mute nflag \<Rightarrow> start_command x ov mute nflag m)"

end
