(* ===== verification/Serving.thy ===== *)
theory Serving
  imports Command_Line
begin

text \<open>
  The life of a session as the command runs it: whatever happens while it serves, from monitor rounds and requests of the
  control channel to browsers that exit, its end leaves nothing behind; and the properties of the other commands of
  \<open>src/cmd/tab-router/main.go\<close>.
\<close>

section \<open>What a session keeps while it serves\<close>

lemma begin_one_kept:
  assumes "world_ok w" "i < length (se_subjects w)" "begin_one env i w = (e, w')"
  shows "kept w w'"
proof (cases "sb_Browser (sub w i) \<and> se_alive w i")
  case False
  then show ?thesis using assms by (auto simp: begin_one_def Let_def kept_refl)
next
  case True
  obtain err s' where b: "Begin (pe_newPage (ask env w)) ((sub w i)\<lparr>sb_Results := []\<rparr>) = (err, s')" by (metis prod.exhaust)
  then have w': "w' = tick (set_sub i s' w)" using assms(3) True by (auto simp: begin_one_def Let_def)
  have "only i w (set_sub i s' w)"
    using assms(1,2) Begin_simps [OF b] by (intro only_set_sub) (auto simp: world_ok_def)
  then show ?thesis using assms(2) by (auto simp: w' intro: only_kept only_then_tick)
qed

lemma begin_all_kept:
  "world_ok w \<Longrightarrow> \<forall>i \<in> set is. i < length (se_subjects w) \<Longrightarrow> begin_all env is w = (e, w') \<Longrightarrow> kept w w'"
proof (induction env "is" w arbitrary: e w' rule: begin_all.induct)
  case (2 env i "is" w)
  obtain e1 w1 where b: "begin_one env i w = (e1, w1)" by (metis prod.exhaust)
  have k: "kept w w1" using begin_one_kept [OF 2(2) _ b] 2(3) by simp
  show ?case
  proof (cases e1)
    case None
    have "\<forall>j \<in> set is. j < length (se_subjects w1)" using 2(3) kept_length [OF k] by simp
    moreover have "begin_all env is w1 = (e, w')" using 2(4) b None by simp
    ultimately have "kept w1 w'" using 2(1) [OF b [symmetric] None kept_ok [OF k]] by blast
    then show ?thesis using kept_trans [OF k] by blast
  next
    case (Some x)
    then show ?thesis using 2(4) b k by simp
  qed
qed (simp add: kept_refl)

lemma over_kept:
  assumes step: "\<And>i w x w'. world_ok w \<Longrightarrow> i < length (se_subjects w) \<Longrightarrow> f i w = (x, w') \<Longrightarrow> kept w w'"
  shows "over f is w = (xs, w') \<Longrightarrow> world_ok w \<Longrightarrow> \<forall>i \<in> set is. i < length (se_subjects w) \<Longrightarrow> kept w w'"
proof (induction "is" arbitrary: w xs)
  case (Cons i "is")
  obtain x w1 where f: "f i w = (x, w1)" by (metis prod.exhaust)
  obtain ys where o: "over f is w1 = (ys, w')" using Cons.prems(1) by (auto simp: f split: prod.splits)
  have k: "kept w w1" using step [OF Cons.prems(2) _ f] Cons.prems(3) by simp
  then have "kept w1 w'" using Cons.IH [OF o kept_ok [OF k]] Cons.prems(3) kept_length [OF k] by simp
  then show ?case using kept_trans [OF k] by blast
qed (simp add: kept_refl)

lemma diagnose_routes_kept:
  assumes "world_ok w" "i < length (se_subjects w)" "diagnose_routes env o' i w = (x, w')"
  shows "kept w w'"
proof -
  obtain c w1 where v: "V1 env o' i w = (c, w1)" by (metis prod.exhaust)
  obtain c' w2 where v2: "check_step (V2_on o') env i w1 = (c', w2)" by (metis prod.exhaust)
  have 1: "only i w w1" by (rule V1_only(1) [OF assms(1,2) v])
  have "i < length (se_subjects w1)" using only_length [OF 1] assms(2) by simp
  then have "only i w1 w2" by (rule v2.f_only [OF only_ok [OF 1] _ v2])
  then have "only i w w2" by (rule only_trans [OF 1])
  moreover have "w' = w2" using assms(3) by (simp add: diagnose_routes_def v v2)
  ultimately show ?thesis by (simp add: only_kept)
qed

lemma check_step_kept:
  assumes "\<And>e routes s. like s (snd (f e routes s))" "world_ok w" "i < length (se_subjects w)"
  shows "kept w (snd (check_step f env i w))"
  using check_step_similar [OF assms(1,3)] assms(2) by (rule similar_kept)

lemma diagnose_browser_kept:
  assumes "world_ok w" "i < length (se_subjects w)" "diagnose_browser env o' i w = (x, w')"
  shows "kept w w'"
proof -
  define w1 where "w1 = snd (check_step (V4_on o') env i w)"
  define w2 where "w2 = snd (check_step (V5_on o') env i w1)"
  define w3 where "w3 = (if length (se_subjects w2) > 1 then snd (V6 env i w2) else w2)"
  obtain c w4 where v7: "check_step (V7_on o') env i w3 = (c, w4)" by (metis prod.exhaust)
  have w': "w' = snd (check_step V8_on env i w4)"
    using assms(3) v7 unfolding w1_def w2_def w3_def by (auto simp: diagnose_browser_def Let_def)
  have k1: "kept w w1" unfolding w1_def by (rule check_step_kept [OF V4_like assms(1,2)])
  have i1: "i < length (se_subjects w1)" using kept_length [OF k1] assms(2) by simp
  have k2: "kept w1 w2" unfolding w2_def by (rule check_step_kept [OF V5_like kept_ok [OF k1] i1])
  have i2: "i < length (se_subjects w2)" using kept_length [OF k2] i1 by simp
  have s3: "similar w2 w3" using V6_similar [of env i w2] i2 by (auto simp: w3_def) (metis prod.collapse)
  have k3: "kept w2 w3" by (rule similar_kept [OF s3 kept_ok [OF k2]])
  have i3: "i < length (se_subjects w3)" using kept_length [OF k3] i2 by simp
  have k4: "kept w3 w4" by (rule only_kept [OF v7.f_only [OF kept_ok [OF k3] i3 v7]])
  have i4: "i < length (se_subjects w4)" using kept_length [OF k4] i3 by simp
  have k5: "kept w4 w'" unfolding w' by (rule check_step_kept [OF V8_like kept_ok [OF k4] i4])
  show ?thesis by (meson k1 k2 k3 k4 k5 kept_trans)
qed

lemma Diagnostics_kept:
  assumes "world_ok w" "Diagnostics si cfg env mon w = (res, w')"
  shows "kept w w'"
proof -
  define o' where "o' = verifyOptions cfg w"
  obtain e w1 where b: "begin_all env (indices w) w = (e, w1)" by (metis prod.exhaust)
  have k1: "kept w w1" by (rule begin_all_kept [OF assms(1) _ b]) (simp add: indices_def)
  show ?thesis
  proof (cases e)
    case (Some x)
    then show ?thesis using assms(2) b k1 by (simp add: Diagnostics_def Let_def)
  next
    case None
    obtain us w2 where o2: "over (diagnose_routes env o') (indices w1) w1 = (us, w2)" by (metis prod.exhaust)
    obtain ok w3 where v3: "V3 env o' w2 = (ok, w3)" by (metis prod.exhaust)
    obtain vs w4 where o4: "over (diagnose_browser env o') (indices w3) w3 = (vs, w4)" by (metis prod.exhaust)
    have k2: "kept w1 w2"
      by (rule over_kept [OF diagnose_routes_kept o2 kept_ok [OF k1]]) (simp_all add: indices_def)
    have k3: "kept w2 w3" by (rule similar_kept [OF V3_similar(1) [OF v3] kept_ok [OF k2]])
    have k4: "kept w3 w4"
      by (rule over_kept [OF diagnose_browser_kept o4 kept_ok [OF k3]]) (simp_all add: indices_def)
    have w': "w' = finish_all w4"
      using assms(2) b None o2 v3 o4 by (simp add: Diagnostics_def Let_def o'_def [symmetric])
    have "similar w4 w'" by (simp add: w' similar_def finish_all_def Finish_def sub_def like_def bound_def)
    then have "kept w4 w'" using kept_ok [OF k4] by (rule similar_kept)
    then show ?thesis by (meson k1 k2 k3 k4 kept_trans)
  qed
qed

lemma safe_step_kept_world: "safe_step cfg env i w w' \<Longrightarrow> kept w w'"
  unfolding safe_step_def by (blast intro: only_kept)

text \<open>Any handler keeps the session, whatever the request.\<close>

lemma handler_kept:
  assumes "world_ok w" "IPCHandlers sv meth = Some h" "h params (w, stop) = (res, w', stop')"
  shows "kept w w' \<and> (stop \<longrightarrow> stop')"
proof -
  have e: "SetRouteEnabled cfg env slot en w = (e, v) \<Longrightarrow> kept w v" for cfg env slot en e v
    using SetRouteEnabled_safe [OF assms(1)] kept_refl [OF assms(1)] safe_step_kept_world by metis
  have o: "OpenURL parse env idx url w = (e, v) \<Longrightarrow> kept w v" for parse env idx url e v
    using OpenURL_safe [OF assms(1)] kept_refl [OF assms(1)] safe_step_kept_world by metis
  note d = Diagnostics_kept [OF assms(1)]
  have r: "kept w w' \<and> (stop \<longrightarrow> stop')" if "route_handler sv en params (w, stop) = (res, w', stop')" for en
    using that e kept_refl [OF assms(1)]
    by (auto simp: route_handler_def error_or_nothing_def split: sum.splits)
      (metis prod.collapse)+
  show ?thesis
    using assms(2,3) r o d kept_refl [OF assms(1)]
    by (auto simp: IPCHandlers_def error_or_nothing_def split: if_splits sum.splits prod.splits) (metis prod.collapse)+
qed

text \<open>What holds at every turn of the loop, and once it has ended; \<open>url\<close> is the echo URL of the session.\<close>

definition serving_ok :: "string \<Rightarrow> world \<Rightarrow> ipc_server \<Rightarrow> run_dir \<Rightarrow> serving \<Rightarrow> bool" where
  "serving_ok url w0 srv0 d0 t = (case t of
     Loop r stop srv d \<Rightarrow> mo_EchoURL (mn_opts (fst (snd r))) = url \<and> kept w0 (snd (snd r)) \<and> srv = srv0 \<and> d = d0
   | Ended w d \<Rightarrow> torn_down w \<and> d = snd (ipc_Close (srv0, d0)))"

lemma serve_step_ok:
  assumes "serve_step x c sv t t'" "serving_ok (cf_IPEchoURL (sconfig_of (cx_base x) c)) w0 srv0 d0 t" "\<not> se_closed w0"
  shows "serving_ok (cf_IPEchoURL (sconfig_of (cx_base x) c)) w0 srv0 d0 t'"
  using assms
proof (induction rule: serve_step.induct)
  case (work r r' stop srv d)
  obtain g m w g' m' w' where r: "r = (g, m, w)" "r' = (g', m', w')" by (metis prod.exhaust)
  have k: "kept w0 w" using work by (simp add: serving_ok_def r)
  have "mn_opts m' = mn_opts m \<and> (w' = w \<or> (\<exists>i < length (se_subjects w).
      safe_step (sconfig_of (cx_base x) c) (cx_env x) i w w'))"
    using control_step_safe [OF work(1) [unfolded r] kept_ok [OF k]] work(2) by (simp add: serving_ok_def r)
  then have "mn_opts m' = mn_opts m" "kept w w'"
    using safe_step_kept_world kept_refl [OF kept_ok [OF k]] by auto
  then show ?case using work(2) kept_trans [OF k] by (simp add: serving_ok_def r)
next
  case (request meth h params w stop res w' stop' gone mon srv d)
  have k: "kept w0 w" using request by (simp add: serving_ok_def)
  have "kept w w'" using handler_kept [OF kept_ok [OF k] request(1,2)] by simp
  then show ?case using request(3) kept_trans [OF k] by (simp add: serving_ok_def)
next
  case (browser_exits gone mon w stop srv d i)
  have k: "kept w0 w" using browser_exits by (simp add: serving_ok_def)
  then have "kept w (set_alive i False w)" by (intro only_kept [of i] only_set_alive kept_ok [OF k])
  then show ?case using browser_exits kept_trans [OF k] by (simp add: serving_ok_def)
qed (auto simp: serving_ok_def kept_def intro: Shutdown_torn_down)

lemma serve_steps_ok:
  "(serve_step x c sv)\<^sup>*\<^sup>* t t' \<Longrightarrow> serving_ok (cf_IPEchoURL (sconfig_of (cx_base x) c)) w0 srv0 d0 t \<Longrightarrow> \<not> se_closed w0
     \<Longrightarrow> serving_ok (cf_IPEchoURL (sconfig_of (cx_base x) c)) w0 srv0 d0 t'"
  by (induction rule: rtranclp_induct) (blast intro: serve_step_ok)+

lemma Listen_open: "Listen order e d = (Inr srv, d') \<Longrightarrow> \<not> is_closed srv"
  by (auto simp: Listen_def Let_def split: option.splits sum.splits prod.splits)

lemma route_source_code: "route_source x ov c user pass = Inl (code, e) \<Longrightarrow> code = exitUsage \<or> code = exitRoute"
  by (auto simp: route_source_def split: if_splits sum.splits)

lemma exitFor_code: "1 \<le> fst (exitFor e) \<and> fst (exitFor e) \<le> 4 \<and> (e = Failed Panicked \<longrightarrow> fst (exitFor e) = 2)"
  by (auto simp: exitFor_def exit_codes split: start_err.splits run_err.splits)

text \<open>A start, by cases: it ended before a session, its session did not start, it could not be controlled, or it serves.\<close>

lemma start_cases:
  assumes "start x ov user pass m = Some (res, out, m')"
  obtains (early) code where "res = Exit code" "1 \<le> code" "code \<le> 5" "ma_world m' = ma_world m" "ma_tree m' = ma_tree m"
  | (ran) c prov defs y r w where
      "session_Run (cx_start x) (cx_env x) (cx_base x) c prov defs (ma_tree m, ma_world m) = Some (y, r, w)" "ma_tree m' = r"
      "case y of Inl e \<Rightarrow> res = Exit (fst (exitFor e)) \<and> ma_world m' = w
       | Inr mon \<Rightarrow> res = Exit exitRunning \<and> ma_world m' = Shutdown w
           \<or> ma_world m' = w \<and> (\<exists>srv. res = Serving c mon srv \<and> Listen (cx_order x) (cx_ipc x) (ma_run m) = (Inr srv, ma_run m'))"
proof -
  obtain e c where l: "Load (cx_config x) ov = (e, c)" by (metis prod.exhaust)
  show ?thesis
  proof (cases "e = None \<and> isl (ipc_Dial (cx_ipc x) (ma_run m)) \<and> \<not> isl (route_source x ov c user pass)
      \<and> fst (ensureChromium x c (ma_files m)) = None")
    case False
    then have "(\<exists>code. res = Exit code \<and> 1 \<le> code \<and> code \<le> 5) \<and> ma_world m' = ma_world m \<and> ma_tree m' = ma_tree m"
      using assms l by (auto simp: start_def exit_codes split: option.splits sum.splits prod.splits dest!: route_source_code)
    then show ?thesis using early by blast
  next
    case True
    then obtain prov defs where rs: "route_source x ov c user pass = Inr (prov, defs)"
      by (cases "route_source x ov c user pass") auto
    obtain cout fs1 where ec: "ensureChromium x c (ma_files m) = (None, cout, fs1)"
      using True by (metis fst_conv prod.exhaust)
    obtain dl where dl: "ipc_Dial (cx_ipc x) (ma_run m) = Inl dl" using True by (auto simp: isl_def)
    obtain y r w where run: "session_Run (cx_start x) (cx_env x) (cx_base x) c prov defs (ma_tree m, ma_world m) = Some (y, r, w)"
      using assms l True rs ec dl
      by (cases "session_Run (cx_start x) (cx_env x) (cx_base x) c prov defs (ma_tree m, ma_world m)") (auto simp: start_def)
    show ?thesis
      by (rule ran [OF run]) (use assms [unfolded start_def] l True rs ec dl run in \<open>auto split: sum.splits prod.splits\<close>)
  qed
qed

text \<open>However a ready session is served, its end leaves nothing.\<close>

lemma served_ends:
  assumes "(serve_step x c sv)\<^sup>*\<^sup>* (Loop (gone, session_monitor (sconfig_of (cx_base x) c), w) False srv d) (Ended w' d')"
    and "ready o' w" "\<not> se_closed w" "\<not> is_closed srv"
  shows "torn_down w' \<and> d' = remove_files d"
proof -
  have "world_ok w" using assms(2) by (simp add: ready_def)
  then have "serving_ok (cf_IPEchoURL (sconfig_of (cx_base x) c)) w srv d (Loop (gone, session_monitor (sconfig_of (cx_base x) c), w) False srv d)"
    using kept_refl by (simp add: serving_ok_def session_monitor_def health_New_def)
  from serve_steps_ok [OF assms(1) this assms(3)] show ?thesis using assms(4) by (simp add: serving_ok_def ipc_Close_def)
qed


section \<open>A session that is served\<close>

definition sample_findenv :: findenv where
  "sample_findenv = \<lparr>fe_goos = ''linux'', fe_goarch = ''amd64'', fe_getenv = (\<lambda>_. ''c''), fe_stat = (\<lambda>_. None),
     fe_exeDir = None, fe_lookPath = (\<lambda>_. None), fe_join = (\<lambda>a b. a @ b)\<rparr>"

definition sample_cmdenv :: cmdenv where
  "sample_cmdenv = \<lparr>cx_windows = False,
     cx_config = sample_cfgenv\<lparr>ce_read := (\<lambda>_. Contents []), ce_toml := (\<lambda>_ _. (None, sample_config))\<rparr>, cx_terminal = False,
     cx_login = ([], Some ReadEOF), cx_password = Inr [], cx_answers = ([], []), cx_routesStat = (\<lambda>_. Contents []),
     cx_routesPrivate = (\<lambda>_. None), cx_routesRead = (\<lambda>_. Inr []), cx_routesDecode = (\<lambda>_. Inr [sample_def]),
     cx_ipc = \<lparr>ie_mkdir = None, ie_pid = 7, ie_listen = Inr ''/d/control.sock'', ie_rand = Inr [1, 2], ie_write = (\<lambda>_. None),
       ie_secure = (\<lambda>_. None), ie_dial = (\<lambda>_. False)\<rparr>, cx_order = [''endpoint'', ''token'', ''pid''],
     cx_find = (\<lambda>_. sample_findenv), cx_install = sample_instenv NoFault, cx_pin = sample_pin, cx_path = (\<lambda>_. [''d'']),
     cx_start = sample_startenv, cx_env = (\<lambda>_. sample_penv), cx_base = sample_cfg, cx_status = (\<lambda>_ _. Inl ''no''),
     cx_shutdown = (\<lambda>_. None), cx_polls = [], cx_tokenfs = sample_fs, cx_deactivated = (\<lambda>_ _ _. None),
     cx_info = sample_info, cx_provider = sample_pcenv\<rparr>"

definition sample_machine :: machine where
  "sample_machine = \<lparr>ma_tree = sample_tree, ma_run = Map.empty, ma_files = [], ma_token = None, ma_mullvad = sample_mworld,
     ma_world = sample_unlocked\<rparr>"

definition sample_started :: "(start_outcome \<times> said list \<times> machine) option" where
  "sample_started = start sample_cmdenv (no_overrides\<lparr>ov_RoutesPath := ''r''\<rparr>) [] [] sample_machine"

definition serves :: "start_outcome \<Rightarrow> bool" where
  "serves s = (case s of Serving _ _ _ \<Rightarrow> True | Exit _ \<Rightarrow> False)"

lemma sample_serves: "map_option (\<lambda>r. serves (fst r)) sample_started = Some True"
  by code_simp


section \<open>Asked to stop\<close>

lemma handler_stop: "IPCHandlers sv meth = Some h \<Longrightarrow> h params (w, True) = (res, w', stop') \<Longrightarrow> stop'"
  by (auto simp: IPCHandlers_def route_handler_def error_or_nothing_def split: if_splits sum.splits prod.splits)

text \<open>
  A session that has been asked to stop can end, and only end. After a \<open>shutdown\<close> request has been handled, whatever else
  happens first, the request stays pending, and as long as the command still serves, the next turn of its loop can shut the session down.
\<close>

theorem command_stop_ends:
  assumes "IPCHandlers sv ''shutdown'' = Some h" "h params (w, stop) = (res, w', stop')"
    and "(serve_step x c sv)\<^sup>*\<^sup>* (Loop (gone, mon, w') stop' srv d) t"
  shows "case t of Ended _ _ \<Rightarrow> True
    | Loop r st srv' d' \<Rightarrow> st \<and> serve_step x c sv t (Ended (Shutdown (snd (snd r))) (snd (ipc_Close (srv', d'))))"
proof -
  have s': "stop'" using assms(1,2) by (auto simp: IPCHandlers_def)
  have "case t of Ended _ _ \<Rightarrow> True | Loop r st srv' d' \<Rightarrow> st"
    using assms(3)
  proof (induction rule: rtranclp_induct)
    case base
    then show ?case using s' by simp
  next
    case (step t t')
    show ?case using step.hyps(2) step.IH
      by (induction rule: serve_step.induct) (auto dest: handler_stop)
  qed
  then show ?thesis
    by (cases t) (auto intro: serve_step.stopped)
qed

theorem command_stop_ends_witness:
  "\<exists>h. IPCHandlers sample_view ''shutdown'' = Some h
     \<and> serve_step sample_cmdenv sample_config sample_view (Loop (\<lambda>_. False, session_monitor sample_cfg, sample_world) True
          \<lparr>is_endpoint = [], is_token = [], is_closed = False\<rparr> Map.empty)
        (Ended (Shutdown sample_world) (snd (ipc_Close (\<lparr>is_endpoint = [], is_token = [], is_closed = False\<rparr>, Map.empty))))"
proof -
  obtain h where h: "IPCHandlers sample_view ''shutdown'' = Some h" "h [] (sample_world, False) = (Inr (AText ''stopping''), sample_world, True)"
    by (simp add: IPCHandlers_def)
  from command_stop_ends [OF h rtranclp.rtrancl_refl] h(1) show ?thesis by simp
qed

section \<open>Routes\<close>

lemma check_one_ok:
  assumes "check_one env url k ref w = (ok, line, w')"
  shows "se_subjects w' = se_subjects w" "se_fresh w' = se_fresh w" "r \<noteq> ref \<Longrightarrow> se_routes w' r = se_routes w r"
    "route_Status (se_routes w' ref) = StatusStopped"
proof -
  obtain e w1 where s: "start_route env ref w = (e, w1)" by (metis prod.exhaust)
  then have w1: "se_subjects w1 = se_subjects w" "se_fresh w1 = se_fresh w" "r \<noteq> ref \<Longrightarrow> se_routes w1 r = se_routes w r"
    by (auto simp: start_route_def split: prod.splits)
  have "w' = stop_route ref w1 \<or> w' = stop_route ref (tick w1)"
    using assms s by (auto simp: check_one_def Let_def split: option.splits sum.splits)
  then show "se_subjects w' = se_subjects w" "se_fresh w' = se_fresh w" "r \<noteq> ref \<Longrightarrow> se_routes w' r = se_routes w r"
    "route_Status (se_routes w' ref) = StatusStopped"
    using w1 by (auto simp: stop_route_def)
qed

lemma check_each_ok:
  "check_each env url k refs w = (rc, out, w') \<Longrightarrow> distinct refs \<Longrightarrow>
     (\<forall>ref \<in> set refs. route_Status (se_routes w' ref) = StatusStopped) \<and> (\<forall>ref. ref \<notin> set refs \<longrightarrow> se_routes w' ref = se_routes w ref)
     \<and> se_subjects w' = se_subjects w \<and> se_fresh w' = se_fresh w \<and> length out = length refs \<and> (rc = exitOK \<or> rc = exitRoute)"
proof (induction env url k refs w arbitrary: rc out w' rule: check_each.induct)
  case (2 env url k ref refs w)
  obtain ok line w1 where c: "check_one env url k ref w = (ok, line, w1)" by (metis prod.exhaust)
  obtain rc1 out1 where r: "check_each env url (Suc k) refs w1 = (rc1, out1, w')" "out = line # out1" "rc = (if ok then rc1 else exitRoute)"
    using 2(2) c by (auto split: prod.splits)
  show ?case using 2(1) [OF c [symmetric] refl r(1)] 2(3) check_one_ok [OF c] r(2,3) by auto
qed (auto simp: exit_codes)

text \<open>The lines of a check in which every route reached its address, the first one with number \<open>k\<close>.\<close>

definition addresses_from :: "nat \<Rightarrow> said list \<Rightarrow> bool" where
  "addresses_from k ls \<longleftrightarrow> (\<forall>j < length ls. \<exists>d a. ls ! j = Out (''Route '' @ fmt03d (int (k + j)) @ ''  '' @ Redacted d @ ''  '' @ ip_String a))"

lemma addresses_from_Cons:
  assumes "l = Out (''Route '' @ fmt03d (int k) @ ''  '' @ Redacted d @ ''  '' @ ip_String a)" "addresses_from (Suc k) ls"
  shows "addresses_from k (l # ls)"
  unfolding addresses_from_def
proof (intro allI impI)
  fix j assume "j < length (l # ls)"
  then show "\<exists>d a. (l # ls) ! j = Out (''Route '' @ fmt03d (int (k + j)) @ ''  '' @ Redacted d @ ''  '' @ ip_String a)"
    using assms by (cases j) (auto simp: addresses_from_def)
qed

lemma check_each_addresses: "check_each env url k refs w = (exitOK, out, w') \<Longrightarrow> addresses_from k out"
proof (induction env url k refs w arbitrary: out w' rule: check_each.induct)
  case (2 env url k ref refs w)
  obtain ok line w1 where c: "check_one env url k ref w = (ok, line, w1)" by (metis prod.exhaust)
  obtain out1 where r: "check_each env url (Suc k) refs w1 = (exitOK, out1, w')" "out = line # out1" "ok"
    using 2(2) c by (auto simp: exit_codes split: prod.splits if_splits)
  obtain a where "line = Out (''Route '' @ fmt03d (int k) @ ''  '' @ Redacted (route_Def (se_routes w ref)) @ ''  '' @ ip_String a)"
    using c r(3) by (auto simp: check_one_def Let_def split: option.splits sum.splits prod.splits)
  then show ?case using addresses_from_Cons 2(1) [OF c [symmetric] refl r(1)] r(2) by blast
qed (simp add: addresses_from_def)

text \<open>
  C23: Checking the routes leaves none of them up. Every route the check provisions has been stopped again when it returns, whether
  it was unreachable, had no egress or worked; the identities are not touched; the exit code is 0 only if the line of every route it
  provisioned gives the address of its egress.
\<close>

theorem command_route_check:
  assumes "routeCheck x ov w = (code, out, w')"
  shows "se_subjects w' = se_subjects w
    \<and> (\<forall>ref. se_fresh w \<le> ref \<and> ref < se_fresh w' \<longrightarrow> route_Status (se_routes w' ref) = StatusStopped)
    \<and> code \<in> {exitOK, exitUsage, exitRoute}
    \<and> (code = exitOK \<longrightarrow> length (tl out) = se_fresh w' - se_fresh w \<and> addresses_from 1 (tl out))"
proof -
  obtain e c where l: "Load (cx_config x) ov = (e, c)" by (metis prod.exhaust)
  have src: "check_source x ov c = Inl (k, m) \<Longrightarrow> k = exitUsage \<or> k = exitRoute" for k m
    by (auto simp: check_source_def split: sum.splits if_splits prod.splits)
  show ?thesis
  proof (cases "e = None \<and> \<not> isl (check_source x ov c)")
    case False
    then show ?thesis using assms l src by (auto simp: routeCheck_def exit_codes split: option.splits sum.splits)
  next
    case True
    then obtain p where p: "check_source x ov c = Inr p" by (cases "check_source x ov c") auto
    obtain pr w1 where pv: "prov_Provision (cx_env x) (cg_Identities c) p w = (pr, w1)" by (metis prod.exhaust)
    have w1: "se_subjects w1 = se_subjects w" "se_fresh w1 = se_fresh w"
      using pv by (auto simp: prov_Provision_def split: Provisioner.splits prod.splits)
    show ?thesis
    proof (cases pr)
      case (Inl m)
      then show ?thesis using assms l True p pv w1 by (auto simp: routeCheck_def Let_def exit_codes)
    next
      case (Inr rs)
      obtain refs w2 where a: "alloc_all rs w1 = (refs, w2)" by (metis prod.exhaust)
      obtain rc o1 w3 where c: "check_each (cx_env x) (vc_IPEchoURL (cg_Verify c)) 1 refs w2 = (rc, o1, w3)" by (metis prod.exhaust)
      have r: "code = rc" "w' = w3" "tl out = o1" using assms l True p pv Inr a c by (auto simp: routeCheck_def Let_def)
      show ?thesis
        using check_each_ok [OF c] check_each_addresses [of _ _ 1 refs w2 o1 w3] c alloc_all_refs [OF a] w1 r by auto
    qed
  qed
qed

theorem command_route_check_witness:
  "\<exists>code out w'. routeCheck sample_cmdenv (no_overrides\<lparr>ov_RoutesPath := ''r''\<rparr>) sample_world = (code, out, w')
     \<and> code = exitOK \<and> route_Status (se_routes w' 0) = StatusStopped \<and> length (tl out) = 1 \<and> addresses_from 1 (tl out)"
proof -
  let ?r = "routeCheck sample_cmdenv (no_overrides\<lparr>ov_RoutesPath := ''r''\<rparr>) sample_world"
  obtain code out w' where r: "?r = (code, out, w')" by (metis prod.exhaust)
  have "fst ?r = exitOK \<and> se_fresh (snd (snd ?r)) = 1" by code_simp
  then have "code = exitOK" "se_fresh w' = 1" by (simp_all add: r)
  moreover have "se_fresh sample_world = 0" by (simp add: sample_world_def)
  ultimately show ?thesis using command_route_check [OF r] r by auto
qed

section \<open>Deactivation\<close>

text \<open>
  C22: Deactivation forgets the token exactly when it may. The command exits 0 only when the server has confirmed, or says that the
  key is unknown or revoked, and then the token file is gone; whenever it exits otherwise, a service that cannot be reached
  included, the file is as it was.
\<close>

theorem command_deactivate:
  "case deactivate x ov tok of ((code, out), tok') \<Rightarrow>
     (code = exitOK \<longleftrightarrow> (\<exists>c rec. Load (cx_config x) ov = (None, c) \<and> TrimSpace (cg_ActivationServer c) \<noteq> []
        \<and> file_Load (cx_tokenfs x) tok = Inr rec \<and> fe_remove (cx_tokenfs x) = None
        \<and> cx_deactivated x (cg_ActivationServer c) (re_InstallationID rec) (re_Token rec) \<in> {None, Some CInvalidKey, Some CRevoked}))
     \<and> (code = exitOK \<longrightarrow> tok' = None) \<and> (code \<noteq> exitOK \<longrightarrow> tok' = tok)"
  by (auto simp: deactivate_def file_Clear_def file_Load_def exit_codes Let_def split: prod.splits option.splits sum.splits if_splits)

definition sample_licensed :: cmdenv where
  "sample_licensed = sample_cmdenv\<lparr>cx_config := (cx_config sample_cmdenv)\<lparr>ce_toml :=
     (\<lambda>_ _. (None, sample_config\<lparr>cg_ActivationServer := ''https://a''\<rparr>))\<rparr>\<rparr>"

theorem command_deactivate_witness:
  "\<exists>out. deactivate sample_licensed no_overrides (Some []) = ((exitOK, out), None)"
proof -
  obtain code out tok' where d: "deactivate sample_licensed no_overrides (Some []) = ((code, out), tok')" by (metis prod.exhaust)
  have "fst (fst (deactivate sample_licensed no_overrides (Some []))) = exitOK" by code_simp
  then show ?thesis using command_deactivate [of sample_licensed no_overrides "Some []"] d by simp
qed

section \<open>Without a terminal\<close>

lemma login_silent: "ReadDecodoLogin u p False l pw = ReadDecodoLogin u p False l' pw'"
  by (simp add: ReadDecodoLogin_def Let_def)

text \<open>
  \<open>--no-interactive\<close> never prompts. With it, a start does what it does without a terminal, whatever is typed: neither the
  sign-in nor the interview reads anything.
\<close>

theorem command_no_interactive:
  "sign_in (x\<lparr>cx_login := l, cx_password := pw, cx_answers := a\<rparr>) ov True = sign_in (x\<lparr>cx_terminal := False\<rparr>) ov mute
   \<and> interview (x\<lparr>cx_login := l, cx_password := pw, cx_answers := a\<rparr>) ov True n = (Some ov, [])"
proof -
  have g: "getenv_of (x\<lparr>cx_login := l, cx_password := pw, cx_answers := a\<rparr>) = getenv_of (x\<lparr>cx_terminal := False\<rparr>)"
    by (simp add: getenv_of_def)
  show ?thesis
    unfolding sign_in_def interview_def g by (simp, intro impI, rule login_silent)
qed

section \<open>What the code does beside its documentation\<close>

text \<open>
  A routes file without routes (an empty one, or one whose tables are misspelt) is no override: although it was given with
  \<open>--routes\<close>, the start goes on with the Decodo account of the environment.
\<close>

theorem command_empty_routes:
  assumes "ov_RoutesPath ov \<noteq> []" "load_routes x (cg_RoutesPath c) = Inr []" "rc_Provider (cg_Routing c) = []"
    and "DecodoFromEnv getenv (cg_DataDir c) empty_config = Inr d"
  shows "\<exists>prov defs. route_source x ov c user pass = Inr (prov, defs) \<and> choose_provisioner getenv c prov defs = Inr (DecodoP d)"
proof -
  have "ToLower (TrimSpace []) = []" by code_simp
  then show ?thesis using assms by (simp add: route_source_def choose_provisioner_def manager_Open_def Let_def)
qed

definition sample_account_env :: "string \<Rightarrow> string" where
  "sample_account_env n = (if n = ''DECODO_USERNAME'' then ''u'' else if n = ''DECODO_PASSWORD'' then ''p'' else [])"

theorem command_empty_routes_witness:
  "\<exists>d prov defs. route_source (sample_cmdenv\<lparr>cx_routesDecode := \<lambda>_. Inr []\<rparr>) (no_overrides\<lparr>ov_RoutesPath := ''r''\<rparr>) sample_config [] []
     = Inr (prov, defs) \<and> choose_provisioner sample_account_env sample_config prov defs = Inr (DecodoP d)"
proof -
  let ?o = "no_overrides\<lparr>ov_RoutesPath := ''r''\<rparr>" and ?x = "sample_cmdenv\<lparr>cx_routesDecode := \<lambda>_. Inr []\<rparr>"
  have "\<not> isl (DecodoFromEnv sample_account_env (cg_DataDir sample_config) empty_config)" by code_simp
  then obtain d where d: "DecodoFromEnv sample_account_env (cg_DataDir sample_config) empty_config = Inr d"
    by (cases "DecodoFromEnv sample_account_env (cg_DataDir sample_config) empty_config") simp_all
  have "load_routes (sample_cmdenv\<lparr>cx_routesDecode := \<lambda>_. Inr []\<rparr>) (cg_RoutesPath sample_config) = Inr []"
    by (simp add: load_routes_def LoadRoutes_def sample_cmdenv_def)
  moreover have "rc_Provider (cg_Routing sample_config) = []" by (simp add: sample_config_def Defaults_def)
  moreover have "ov_RoutesPath ?o \<noteq> []" by simp
  ultimately show ?thesis
    using command_empty_routes [of ?o ?x sample_config sample_account_env d "[]" "[]"] d by blast
qed

text \<open>
  Diagnostics do not look at the routes file: whatever it holds, the report and the exit code are the same, whereas a start takes
  its routes from it.
\<close>

theorem command_diagnostics_ignore_routes:
  "runDiagnostics (x\<lparr>cx_routesStat := a, cx_routesPrivate := b, cx_routesRead := r, cx_routesDecode := d\<rparr>) ov json m
    = runDiagnostics x ov json m"
proof -
  let ?x = "x\<lparr>cx_routesStat := a, cx_routesPrivate := b, cx_routesRead := r, cx_routesDecode := d\<rparr>"
  have e: "cx_config ?x = cx_config x" "cx_ipc ?x = cx_ipc x" "cx_status ?x = cx_status x" "cx_start ?x = cx_start x"
    "cx_env ?x = cx_env x" "cx_base ?x = cx_base x" "cx_info ?x = cx_info x" by simp_all
  have f: "fetching ?x = fetching x" "cx_install ?x = cx_install x" "cx_path ?x = cx_path x" "cx_pin ?x = cx_pin x"
    "own_chromium ?x = own_chromium x" by (simp_all add: fetching_def own_chromium_def fun_eq_iff)
  have c: "ensureChromium ?x = ensureChromium x" unfolding ensureChromium_def f by (rule refl)
  show ?thesis unfolding runDiagnostics_def e c by (rule refl)
qed

text \<open>
  Between its start and the opening of its control channel a session is locked but cannot be dialled: a second start then exits
  with the code of a usage error, not with the code for a running session.
\<close>

theorem command_locked_code:
  assumes "Load (cx_config x) ov = (None, c)" "ipc_Dial (cx_ipc x) (ma_run m) = Inl ErrNotRunning"
    and "route_source x ov c user pass = Inr (prov, defs)" "own_chromium x c (ma_files m)"
    and "Manager_Open (st_io (cx_start x)) (st_stamp (cx_start x)) (st_fuel (cx_start x)) (cg_Fresh c) (ma_tree m) = Some (Inr name, r)"
    and "st_lock (cx_start x) = Some e"
  shows "\<exists>out m'. start x ov user pass m = Some (Exit exitUsage, out, m')"
  using assms by (simp add: start_def ensureChromium_def session_Run_def exitFor_def)

theorem command_locked_code_witness:
  "\<exists>out m'. start (sample_cmdenv\<lparr>cx_start := sample_startenv\<lparr>st_lock := Some ''in use''\<rparr>\<rparr>) (no_overrides\<lparr>ov_RoutesPath := ''r''\<rparr>) [] [] sample_machine
     = Some (Exit exitUsage, out, m')"
proof -
  let ?x = "sample_cmdenv\<lparr>cx_start := sample_startenv\<lparr>st_lock := Some ''in use''\<rparr>\<rparr>" and ?ov = "no_overrides\<lparr>ov_RoutesPath := ''r''\<rparr>"
  have "fst (Load (cx_config ?x) ?ov) = None" by code_simp
  then obtain c where c: "Load (cx_config ?x) ?ov = (None, c)" by (metis prod.collapse)
  have "cg_Fresh c = False"
  proof -
    have "cg_Fresh (snd (Load (cx_config ?x) ?ov)) = False" by code_simp
    then show ?thesis using c by simp
  qed
  moreover have "Manager_Open (st_io (cx_start ?x)) (st_stamp (cx_start ?x)) (st_fuel (cx_start ?x)) False (ma_tree sample_machine)
      = Some (Inr ''s'', sample_tree)"
  proof -
    have t: "TrimSpace ''s'' = ''s''" by code_simp
    show ?thesis
      by (simp add: Manager_Open_def Current_def sample_cmdenv_def sample_startenv_def sample_machine_def sample_tree_def no_io_error_def t Let_def)
  qed
  moreover have "ipc_Dial (cx_ipc ?x) (ma_run sample_machine) = Inl ErrNotRunning" by (simp add: ipc_Dial_def sample_machine_def)
  moreover obtain prov defs where "route_source ?x ?ov c [] [] = Inr (prov, defs)"
  proof -
    have v: "RouteDef_Validate sample_def = None" by code_simp
    show ?thesis
      using that by (simp add: route_source_def no_overrides_def load_routes_def LoadRoutes_def sample_cmdenv_def v)
  qed
  moreover have "own_chromium ?x c (ma_files sample_machine)"
    by (simp add: own_chromium_def find_browser_def Let_def sample_cmdenv_def sample_findenv_def)
  ultimately show ?thesis
    using command_locked_code [of ?x ?ov c sample_machine] c by simp
qed

end
