(* ===== verification/Spec2Isabelle.thy ===== *)
theory Spec2Isabelle
  imports Ipc Console Activation Identity_Set Config Mullvad Local_Exits Platform Installers Identity_Listing
  Probe_Dial Pinned_Exits Serving
begin

text \<open>
  \<^bold>\<open>Tab Router: a verification development.\<close>

  Tab Router starts one Chromium process per identity and sends the traffic of each through a route of its own, so that
  no two identities share a public address and none uses the host's. A local SOCKS5 server per identity, its gate, is the
  only way out of a browser; the gate is closed whenever its route is not known to leave through the address the identity's
  session is pinned to. The program is the Go code under \<open>src/\<close>; each theory opens with what it models.

  \<^bold>\<open>Parts and theories, in the order they build on each other\<close>

  \<^item> \<open>Prelude\<close>: result types, bytes and strings, bounded logs, first-match search. \<open>Go_Strings\<close>, \<open>Go_Net\<close>, \<open>Go_Encoding\<close>,
    \<open>Go_Regexp\<close>, \<open>Go_Json\<close>: what the program uses of \<open>strings\<close>, \<open>strconv\<close>, \<open>fmt\<close>, \<open>net\<close>, \<open>encoding\<close>, \<open>regexp\<close> and \<open>encoding/json\<close>.
  \<^item> \<open>Socks5\<close> (\<open>routing/socks5\<close>): the wire format, the client dialer, the server's handling of one connection. Client and server
    agree on every byte of the handshake; one connection takes exactly one branch; targets round-trip.
  \<^item> \<open>Http_Proxy\<close> (\<open>routing/httpproxy\<close>): the CONNECT dialer and server. \<open>WireGuard\<close> (\<open>routing/wireguard\<close>): keys and the tunnel's life cycle.
  \<^item> \<open>Route\<close> (\<open>routing/provider\<close>): route definitions, the registry, the two route implementations, the public-IP probe. The Go
    interface \<open>Route\<close> is the locale \<open>route_ops\<close>, interpreted on both implementations and on the type the program handles.
    \<open>Probe_Dial\<close> (\<open>publicip.go\<close>): the connections the probe's requests go out on.
  \<^item> \<open>Gate\<close> (\<open>routing/provider/gate.go\<close> with the connection tracking of \<open>socks5/server.go\<close>): forwarding only when open, and closing as a
    step relation over the accept, track, close and untrack steps of all handlers.
  \<^item> \<open>Decodo\<close>, \<open>Mullvad\<close>, \<open>Local_Exits\<close> (\<open>routing/manager\<close>): the provisioners, static, Decodo, Mullvad and local, with their files and
    the choice between them. The interface \<open>Provisioner\<close> is a locale, interpreted on all but
    Mullvad, whose slots change their relay. \<open>Tor_Control\<close>, \<open>Tor_Daemon\<close> (\<open>routing/tor/daemon.go\<close>):
    the control protocol and one tor process, which \<open>Local_Exits\<close> runs per identity.
  \<^item> \<open>Environment\<close>, \<open>Identity_Set\<close>, \<open>Identity_Listing\<close> (\<open>controller/identity\<close>): browser environments; identity sets as the files of their
    directories, their creation, loading and listing, and the lock file as a step relation of several processes. \<open>Config\<close> (\<open>controller/config\<close>).
  \<^item> \<open>Devtools\<close> (\<open>controller/browser/cdp.go\<close>): the DevTools client and the interleaving of its callers with the reader. \<open>Page\<close>
    (\<open>page.go\<close>): tabs and navigation. \<open>Browser\<close> (\<open>chromium.go\<close>, \<open>launch.go\<close>, \<open>prefs.go\<close>): finding and launching Chromium.
  \<^item> \<open>Process_Tree\<close>, \<open>Platform\<close> (\<open>routing/platform\<close>): the processes of a browser and their sockets on each system.
    \<open>Installers\<close> (\<open>browser/chromium\<close>, \<open>routing/tor/install.go\<close>): downloading, checking and extracting the pinned programs.
  \<^item> \<open>Verify\<close> (\<open>controller/verify\<close>): the checks V1 to V9 as functions of what the world answered.
  \<^item> \<open>World\<close>: the state session and monitor share (subjects, a heap of routes, browsers) and the stream of answers of the outside
    world. \<open>Health\<close> (\<open>controller/health\<close>): the monitor; what it relies on is the locale \<open>reestablisher\<close>, interpreted in \<open>Control\<close> on the
    session's \<open>reestablish\<close>.
  \<^item> \<open>Session\<close>, \<open>Session_Steps\<close>, \<open>Startup\<close>, \<open>Session_Start\<close> (\<open>controller/startup/session.go\<close>): \<open>Run\<close>, its phases and the teardown; first from
    the provisioner on, then (\<open>session_Run\<close>) from its first line. The bodies that run once per subject satisfy the locale \<open>subject_op\<close> (they touch
    their own subject), the checks the locale \<open>checker_ok\<close>. \<open>Pinned_Exits\<close>: \<open>pinSessionExits\<close> over \<open>Local_Exits\<close>.
  \<^item> \<open>Control\<close> (\<open>session.go\<close>): re-establishing a route, stopping and starting one, opening a page; monitor rounds and requests as the
    steps \<open>control_step\<close> of the running session. \<open>Ipc\<close> (\<open>ipc/ipc.go\<close>, \<open>startup/status.go\<close>): the control channel, status, diagnostics.
    \<open>Console\<close> (\<open>startup/report.go\<close>, \<open>decodo_login.go\<close>).
  \<^item> \<open>Activation\<close> (\<open>controller/activation\<close>): the license store, its HTTP API, the client and the token file. \<open>Activation_Server\<close>
    (\<open>cmd/activation-server\<close>): its commands as processes that share the database file.
  \<^item> \<open>Command_Flags\<close>, \<open>Provider_Commands\<close>, \<open>Command_Line\<close>, \<open>Serving\<close> (\<open>cmd/tab-router\<close>): reading the command line, every command with its exit
    code, and the serving loop as the step relation \<open>serve_step\<close> around the steps of the running session.

  \<^bold>\<open>What is shown\<close>

  \<^item> Startup is all or nothing, from the first line of the command: a failed start leaves no open gate, no running route, no browser and
    (but for one panic) no lock; a successful one leaves every identity on a READY route of its own with a verified address that is neither the
    host's nor another identity's; and however a served session ends, nothing of it is left.
  \<^item> While the session runs, a pinned address never changes, and traffic that was stopped flows again only after a probe through the
    route has seen the pinned address. The theorem of this file joins this with the identity files and \<open>Run\<close>.
  \<^item> A gate forwards only when it is open and its route takes connections; once closed, every handler's client socket is closed.
  \<^item> The checks mean what they say: what it takes for V3, V4, V7 and V8 to pass, and that the socket tables they read are read right.
  \<^item> Separating shared exits terminates; identity sets keep their slots; Decodo sessions are independent and survive a restart; a Mullvad
    relay is handed out once; a slot of the local provisioner keeps its exit.
  \<^item> A browser is launched with its own profile behind its own gate only; a DevTools call is answered or fails; the process tree that is
    watched is the whole tree; an installation writes below its folder and only what has the pinned checksum.
  \<^item> The control channel does nothing without its token; the license store implements an abstract set of grants and never exceeds
    its limits; client, API and store together are the store; the command line reads back the settings it was given.
  \<^item> Some theorems state behaviour the authors will not have intended (a lock two processes can hold, an event cursor that stands still,
    a stopped route announced as READY, a diagnostics run that opens every gate, a license of 106752 days that has expired when it is issued,
    a revocation that the running server undoes).

  \<^bold>\<open>Modelling choices\<close>

  \<^item> The outside world (sockets, browsers, processes, files, clocks, random bytes, TOML and HTTP codecs) is a parameter: a record of answers
    or a function. \<open>World\<close> numbers the questions, so two questions may be answered differently. What a theorem needs of a
    parameter is a hypothesis of it, with a witness on a concrete one.
  \<^item> Loops are structural or have termination proofs. \<open>separate_loop\<close> ends because every turn replaces a slot that was not replaced before;
    the walk of the process tree is a partial function, shown to end exactly when the root is not its own descendant. Loops that wait take their observations as a list,
    whose end is the deadline. The search of \<open>CreateFresh\<close> for a free name, which may run forever, takes a bound on its attempts; one more than
    the number of sets is shown to be enough when the system calls succeed. Following links takes the system's limit on them.
  \<^item> Integers of the program are \<open>int\<close> where they are counters or settings far from their bounds; bytes are \<open>8 word\<close>, ports and the words of
    socket tables have their width, and the term of a license is the \<open>64 word\<close> of a duration.
  \<^item> Concurrency is explicit where the code relies on it: the gate, the lock file and the DevTools client. Goroutines of one startup phase work on
    different subjects and run in order; a monitor round or a request is one step of the running session.

  \<^bold>\<open>Not modelled\<close>

  Creating and killing processes (\<open>spawn_unix.go\<close>, \<open>spawn_windows.go\<close>), the access lists and the pipe dial of Windows, the macOS keychain store
  of the token and hiding windows: chains of system calls, of which the models take the outcome. The public key of a WireGuard key (Curve25519 of a
  third-party package), decoding the embedded pin files, file modes, the TOML decoder and \<open>url.Parse\<close>: libraries the program only calls. Listening
  sockets beyond what the handlers of a connection need, log output, fixed help texts, and the durations of waits. The test infrastructure
  (\<open>tests\<close>) and the download script.
\<close>

section \<open>From the identity files to the running session\<close>


lemma sample_ensure_one:
  "\<exists>s'. Ensure sample_host no_io_error ''set'' 0 (\<lambda>_. sample_environment) 1 empty_set = (Inr (take 1 sample_ids), s')"
  using sample_environment_valid
  by (simp add: Ensure_def sample_ids_def loadOrCreate_def load_identity_def no_io_error_def empty_set_def Let_def upto.simps)


end
